(* ===== verification/Prelude.thy ===== *)
theory Prelude
  imports Main "HOL-Library.Sublist"
begin

text \<open>
  Shared vocabulary of the development.

  \<^item> Time: a \<open>datetime\<close> is a UTC instant in microseconds, the resolution of Python's
    \<open>datetime\<close>; a \<open>timedelta\<close> is a difference of such instants.
  \<^item> Text: \<open>str\<close> values are byte strings (the UTF-8 encoding of the Python string);
    \<open>lower\<close>, \<open>strip\<close>, \<open>startswith\<close> and \<open>in\<close> act on them.
  \<^item> Tables: a database table is the list of its rows in insertion order.
    \<open>row\<close> is \<open>query.filter(key == k).first()\<close>, \<open>set_row\<close> is an attribute
    assignment on the row with that primary key, \<open>pk\<close> is the primary-key constraint.
\<close>

named_theorems tab_simps \<open>reading a table after an operation on it\<close>

section \<open>Time\<close>

type_synonym datetime = int
type_synonym timedelta = int
type_synonym str = string

definition seconds :: "int \<Rightarrow> timedelta" where
  "seconds n = n * 1000000"

definition minutes :: "int \<Rightarrow> timedelta" where
  "minutes n = seconds (n * 60)"

definition hours :: "int \<Rightarrow> timedelta" where
  "hours n = minutes (n * 60)"

definition days :: "int \<Rightarrow> timedelta" where
  "days n = hours (n * 24)"

lemmas time_defs = seconds_def minutes_def hours_def days_def

text \<open>The UTC calendar day of an instant, counted from the epoch, and its first instant.\<close>

definition utc_date :: "datetime \<Rightarrow> int" where
  "utc_date t = t div days 1"

definition utc_midnight :: "int \<Rightarrow> datetime" where
  "utc_midnight d = d * days 1"

lemma utc_midnight_le: "utc_midnight (utc_date t) \<le> t"
  by (simp add: utc_midnight_def utc_date_def time_defs minus_mod_eq_div_mult [symmetric])

lemma utc_midnight_gt: "t < utc_midnight (utc_date t + 1)"
proof -
  have "t mod days 1 < days 1"
    by (simp add: time_defs)
  moreover have "t = utc_midnight (utc_date t) + t mod days 1"
    by (simp add: utc_midnight_def utc_date_def)
  ultimately show ?thesis
    by (simp add: utc_midnight_def algebra_simps)
qed

section \<open>Text\<close>

text \<open>\<open>needle in haystack\<close> is \<open>sublist\<close>, \<open>s.startswith(p)\<close> is \<open>prefix p s\<close>.\<close>

definition lower_char :: "char \<Rightarrow> char" where
  "lower_char c = (let n = (of_char c :: nat) in if 65 \<le> n \<and> n \<le> 90 then char_of (n + 32) else c)"

definition lower :: "str \<Rightarrow> str" where
  "lower s = map lower_char s"

lemma lower_append [simp]: "lower (xs @ ys) = lower xs @ lower ys"
  by (simp add: lower_def)

lemma sublist_lower: "sublist xs ys \<Longrightarrow> sublist (lower xs) (lower ys)"
  unfolding sublist_def by (metis lower_append)

lemma sublist_append_rightI: "sublist xs ys \<Longrightarrow> sublist xs (zs @ ys)"
  unfolding sublist_def by (metis append.assoc)

definition is_space :: "char \<Rightarrow> bool" where
  "is_space c = (c = CHR '' '' \<or> (let n = (of_char c :: nat) in (9 \<le> n \<and> n \<le> 13) \<or> (28 \<le> n \<and> n \<le> 31)))"

definition strip :: "str \<Rightarrow> str" where
  "strip s = rev (dropWhile is_space (rev (dropWhile is_space s)))"

text \<open>\<open>s[-n:]\<close>: the last \<open>n\<close> characters, the whole string when it is shorter.\<close>

definition last_chars :: "nat \<Rightarrow> str \<Rightarrow> str" where
  "last_chars n s = drop (length s - n) s"

text \<open>The em dash of the log markers, in UTF-8.\<close>

definition em_dash :: str where
  "em_dash = [CHR 0xE2, CHR 0x80, CHR 0x94]"

text \<open>
  A string attribute is \<open>None\<close> or a string; Python's truth value of it is \<open>truthy\<close>,
  \<open>a or b\<close> on such values is \<open>str_or\<close>, and \<open>f"{log}\n{marker}" if log else marker\<close>
  is \<open>append_line\<close>.
\<close>

fun truthy :: "str option \<Rightarrow> bool" where
  "truthy None = False"
| "truthy (Some s) = (s \<noteq> [])"

definition str_or :: "str option \<Rightarrow> str \<Rightarrow> str" where
  "str_or v d = (if truthy v then the v else d)"

definition append_line :: "str option \<Rightarrow> str \<Rightarrow> str" where
  "append_line log marker = (if truthy log then the log @ [CHR 0x0A] @ marker else marker)"

lemma append_line_suffix: "suffix marker (append_line log marker)"
  by (auto simp: append_line_def suffix_def)

lemma append_line_nonempty: "marker \<noteq> [] \<Longrightarrow> append_line log marker \<noteq> []"
  by (simp add: append_line_def)

text \<open>\<open>sep.join(lines)\<close>\<close>

fun join :: "str \<Rightarrow> str list \<Rightarrow> str" where
  "join sep [] = []"
| "join sep [x] = x"
| "join sep (x # y # zs) = x @ sep @ join sep (y # zs)"

text \<open>Decimal rendering of integers, as in an f-string.\<close>

definition digit_char :: "nat \<Rightarrow> char" where
  "digit_char d = char_of (48 + d)"

fun show_nat :: "nat \<Rightarrow> str" where
  "show_nat n = (if n < 10 then [digit_char n] else show_nat (n div 10) @ [digit_char (n mod 10)])"

declare show_nat.simps [simp del]

definition show_int :: "int \<Rightarrow> str" where
  "show_int i = (if i < 0 then CHR ''-'' # show_nat (nat (- i)) else show_nat (nat i))"

section \<open>Tables\<close>

definition row :: "('r \<Rightarrow> 'k) \<Rightarrow> 'r list \<Rightarrow> 'k \<Rightarrow> 'r option" where
  "row key t k = find (\<lambda>r. key r = k) t"

definition set_row :: "('r \<Rightarrow> 'k) \<Rightarrow> 'k \<Rightarrow> ('r \<Rightarrow> 'r) \<Rightarrow> 'r list \<Rightarrow> 'r list" where
  "set_row key k f t = map (\<lambda>r. if key r = k then f r else r) t"

definition pk :: "('r \<Rightarrow> 'k) \<Rightarrow> 'r list \<Rightarrow> bool" where
  "pk key t = distinct (map key t)"

lemma find_None_key: "find (\<lambda>r. key r = k) t = None \<longleftrightarrow> k \<notin> key ` set t"
  by (auto simp: find_None_iff)

lemma row_None: "row key t k = None \<longleftrightarrow> k \<notin> key ` set t"
  by (simp add: row_def find_None_key)

lemma row_SomeD: "row key t k = Some r \<Longrightarrow> r \<in> set t \<and> key r = k"
  by (auto simp: row_def find_Some_iff)

lemma row_SomeI: "pk key t \<Longrightarrow> r \<in> set t \<Longrightarrow> row key t (key r) = Some r"
  unfolding row_def pk_def
  by (induction t) (auto simp: rev_image_eqI)

lemma row_Nil [simp]: "row key [] k = None"
  by (simp add: row_def)

lemma row_Cons [simp]: "row key (r # t) k = (if key r = k then Some r else row key t k)"
  by (simp add: row_def)

lemma row_append [tab_simps]:
  "row key (t @ u) k = (case row key t k of None \<Rightarrow> row key u k | Some r \<Rightarrow> Some r)"
  by (induction t) auto

lemma set_row_Nil [simp]: "set_row key k f [] = []"
  by (simp add: set_row_def)

lemma set_row_Cons [simp]:
  "set_row key k f (r # t) = (if key r = k then f r else r) # set_row key k f t"
  by (simp add: set_row_def)

lemma length_set_row [simp]: "length (set_row key k f t) = length t"
  by (simp add: set_row_def)

lemma row_set_row [tab_simps]:
  assumes "\<And>r. key (f r) = key r"
  shows "row key (set_row key k f t) k' = (if k' = k then map_option f (row key t k) else row key t k')"
  by (induction t) (auto simp: assms)

lemma map_set_row:
  assumes "\<And>r. g (f r) = g r"
  shows "map g (set_row key k f t) = map g t"
  by (simp add: set_row_def assms)

lemma pk_set_row [tab_simps]:
  assumes "\<And>r. key (f r) = key r"
  shows "pk key (set_row key k f t) = pk key t"
  by (simp add: pk_def map_set_row assms)

lemma pk_append: "pk key (t @ [r]) \<longleftrightarrow> pk key t \<and> key r \<notin> key ` set t"
  by (auto simp: pk_def)

lemma pk_filter: "pk key t \<Longrightarrow> pk key (filter P t)"
  by (simp add: pk_def distinct_map_filter)

lemma set_row_None: "row key t k = None \<Longrightarrow> set_row key k f t = t"
  by (induction t) (auto split: if_splits)

lemma set_row_memD:
  "r \<in> set (set_row key k f t) \<Longrightarrow> (\<exists>r0 \<in> set t. (key r0 = k \<and> r = f r0) \<or> (key r0 \<noteq> k \<and> r = r0))"
  by (auto simp: set_row_def)

lemma set_row_id: "set_row key k (\<lambda>r. r) t = t"
  by (induction t) auto

end
