(* ===== verification/Folder_Reconcile.thy ===== *)
theory Folder_Reconcile
  imports Prelude "HOL-Library.List_Lexorder" "HOL-Library.Char_ord"
begin

text \<open>
  \<open>services/folder_reconcile.py\<close> and the pattern helpers of \<open>services/mbsync_config.py\<close>:
  mbsync exclusion patterns, detection of folders that vanished from the Source, the name and
  location of a quarantined folder, and the move itself on a model of the file system.

  A file system is the list of its entries: a path (its components) and a directory or a
  file with its content. Paths that the code joins with slashes are component lists here.
\<close>

section \<open>Exclusion patterns\<close>

text \<open>
  \<open>_PATTERN_TOKEN_RE.findall\<close>: scanning left to right, a quoted token (with an optional
  bang in front) if one starts here, else a maximal run of characters that are neither blank
  nor a quote, else skip one character.
\<close>

definition quote_char :: char where
  "quote_char = CHR 0x22"

definition bare :: "char \<Rightarrow> bool" where
  "bare c = (\<not> is_space c \<and> c \<noteq> quote_char)"

text \<open>The text of a quoted token that starts at the head of the string, and the rest after it.\<close>

definition quoted_at :: "str \<Rightarrow> (str \<times> str) option" where
  "quoted_at s =
     (let b = (if s \<noteq> [] \<and> hd s = CHR ''!'' then ''!'' else []); s1 = drop (length b) s in
      if s1 \<noteq> [] \<and> hd s1 = quote_char then
        (let body = takeWhile (\<lambda>c. c \<noteq> quote_char) (tl s1); rest = dropWhile (\<lambda>c. c \<noteq> quote_char) (tl s1) in
         if rest = [] then None
         else Some (b @ [quote_char] @ body @ [quote_char], tl rest))
      else None)"

lemma quoted_at_shorter: "quoted_at s = Some (tok, rest) \<Longrightarrow> length rest < length s"
proof -
  assume q: "quoted_at s = Some (tok, rest)"
  have dw: "length (dropWhile P xs) \<le> length xs" for P and xs :: str
    by (induction xs) auto
  define s1 where "s1 = drop (length (if s \<noteq> [] \<and> hd s = CHR ''!'' then ''!'' else [])) s"
  from q have "s1 \<noteq> []" and r: "rest = tl (dropWhile (\<lambda>c. c \<noteq> quote_char) (tl s1))"
    by (auto simp: quoted_at_def Let_def s1_def split: if_splits)
  then have "length rest < length s1"
    using dw [of "\<lambda>c. c \<noteq> quote_char" "tl s1"] by (cases s1) auto
  also have "length s1 \<le> length s" by (simp add: s1_def)
  finally show ?thesis .
qed

function pattern_tokens :: "str \<Rightarrow> str list" where
  "pattern_tokens s =
     (if s = [] then []
      else
        (case quoted_at s of
           Some (tok, rest) \<Rightarrow> tok # pattern_tokens rest
         | None \<Rightarrow>
             (if bare (hd s) then takeWhile bare s # pattern_tokens (dropWhile bare s)
              else pattern_tokens (tl s))))"
  by pat_completeness auto
termination
proof (relation "measure length")
  fix s :: str and p tok rest
  assume "quoted_at s = Some p" and "(tok, rest) = p"
  then show "(rest, s) \<in> measure length" by (auto dest: quoted_at_shorter)
next
  fix s :: str
  assume "s \<noteq> []" and "bare (hd s)"
  then obtain c cs where s: "s = c # cs" and "bare c" by (cases s) auto
  then have "dropWhile bare s = dropWhile bare cs" by simp
  moreover have "length (dropWhile bare cs) \<le> length cs" by (induction cs) auto
  ultimately show "(dropWhile bare s, s) \<in> measure length" by (simp add: s)
qed auto

declare pattern_tokens.simps [simp del]

definition excluded_folder_names :: "str \<Rightarrow> str list" where
  "excluded_folder_names patterns =
     concat (map (\<lambda>token.
       if \<not> prefix ''!'' token then []
       else
         let name = tl token;
             name = (if length name \<ge> 2 \<and> hd name = quote_char \<and> last name = quote_char
                     then butlast (tl name) else name)
         in if name \<noteq> [] then [name] else []) (pattern_tokens patterns))"

text \<open>\<open>fnmatchcase(name, pattern.replace("[", "[[]"))\<close>: only the star and the question mark are wild.\<close>

fun glob :: "str \<Rightarrow> str \<Rightarrow> bool" where
  "glob [] s = (s = [])"
| "glob (x # p) s =
     (if x = CHR ''*'' then (glob p s \<or> (case s of [] \<Rightarrow> False | c # cs \<Rightarrow> glob (x # p) cs))
      else if x = CHR ''?'' then (case s of [] \<Rightarrow> False | c # cs \<Rightarrow> glob p cs)
      else (case s of [] \<Rightarrow> False | c # cs \<Rightarrow> c = x \<and> glob p cs))"

declare glob.simps(2) [simp del]

fun folder_excluded :: "str \<Rightarrow> str list \<Rightarrow> bool" where
  "folder_excluded name [] = False"
| "folder_excluded name (pattern # ps) =
     (if name = pattern then True
      else if (CHR ''*'' \<in> set pattern \<or> CHR ''?'' \<in> set pattern) \<and> glob pattern name then True
      else folder_excluded name ps)"

lemma folder_excluded_iff:
  "folder_excluded name ps \<longleftrightarrow>
    (\<exists>p \<in> set ps. name = p \<or> ((CHR ''*'' \<in> set p \<or> CHR ''?'' \<in> set p) \<and> glob p name))"
  by (induction ps) auto

section \<open>Detection\<close>

definition ANOMALY_FLOOR :: nat where
  "ANOMALY_FLOOR = 3"

text \<open>\<open>Inl\<close> is the message of the \<open>ProviderAnomaly\<close> exception; the ratio test is \<open>> 1/4\<close>.\<close>

definition folders_to_quarantine :: "str set \<Rightarrow> str set \<Rightarrow> str list \<Rightarrow> str + str list" where
  "folders_to_quarantine local_folders remote_folders excluded =
     (if remote_folders = {} then Inr []
      else
        let missing = sorted_list_of_set
              (Set.filter (\<lambda>f. f \<notin> remote_folders \<and> \<not> folder_excluded f excluded) local_folders) in
        if length missing > ANOMALY_FLOOR \<and> local_folders \<noteq> {} \<and> 4 * length missing > card local_folders
        then Inl (show_nat (length missing) @ '' of '' @ show_nat (card local_folders)
                   @ '' folders missing from the Source'')
        else Inr missing)"

text \<open>
  A folder is only ever moved aside on evidence: an empty LIST moves nothing; otherwise
  the folders to move are exactly the local folders the Source no longer has and no pattern
  excludes, and losing more than three folders and more than a quarter of the mailbox at once
  is refused.
\<close>

lemma folders_to_quarantine_sound:
  fixes remote_folders :: "str set" and excluded :: "str list"
  assumes "finite local_folders"
  defines "gone \<equiv> {f \<in> local_folders. f \<notin> remote_folders \<and> \<not> folder_excluded f excluded}"
  shows "(remote_folders = {} \<longrightarrow> folders_to_quarantine local_folders remote_folders excluded = Inr [])
    \<and> (\<forall>fs. folders_to_quarantine local_folders remote_folders excluded = Inr fs \<longrightarrow> remote_folders \<noteq> {} \<longrightarrow>
         set fs = gone \<and> distinct fs \<and> sorted fs \<and> (card gone \<le> 3 \<or> 4 * card gone \<le> card local_folders))
    \<and> (\<forall>m. folders_to_quarantine local_folders remote_folders excluded = Inl m \<longrightarrow>
         remote_folders \<noteq> {} \<and> 3 < card gone \<and> card local_folders < 4 * card gone)"
proof -
  have fin: "finite gone"
    using assms(1) by (simp add: gone_def)
  have eq: "folders_to_quarantine local_folders remote_folders excluded =
      (if remote_folders = {} then Inr []
       else if 3 < card gone \<and> card local_folders < 4 * card gone
       then Inl (show_nat (card gone) @ '' of '' @ show_nat (card local_folders) @ '' folders missing from the Source'')
       else Inr (sorted_list_of_set gone))"
    using assms(1) by (auto simp: folders_to_quarantine_def ANOMALY_FLOOR_def gone_def Let_def)
  from fin show ?thesis
    unfolding eq by (auto simp: not_less)
qed

section \<open>Quarantine names\<close>

definition REMOVED_CONTAINER :: str where
  "REMOVED_CONTAINER = ''Removed from Source''"

definition pad2 :: "int \<Rightarrow> str" where
  "pad2 n = [digit_char (nat (n div 10 mod 10)), digit_char (nat (n mod 10))]"

definition pad4 :: "int \<Rightarrow> str" where
  "pad4 n = pad2 (n div 100) @ pad2 n"

text \<open>
  The proleptic Gregorian date of a day counted from 1970-01-01, and
  \<open>strftime('%Y-%m-%d %H%M')\<close> for the years 1000 to 9999.
\<close>

definition civil_from_days :: "int \<Rightarrow> int \<times> int \<times> int" where
  "civil_from_days d =
     (let z = d + 719468; era = z div 146097; doe = z - era * 146097;
          yoe = (doe - doe div 1460 + doe div 36524 - doe div 146096) div 365;
          doy = doe - (365 * yoe + yoe div 4 - yoe div 100);
          mp = (5 * doy + 2) div 153;
          dd = doy - (153 * mp + 2) div 5 + 1;
          mm = (if mp < 10 then mp + 3 else mp - 9)
      in (yoe + era * 400 + (if mm \<le> 2 then 1 else 0), mm, dd))"

definition stamp :: "datetime \<Rightarrow> str" where
  "stamp t =
     (let (y, m, d) = civil_from_days (utc_date t);
          mins = (t - utc_midnight (utc_date t)) div minutes 1
      in pad4 y @ ''-'' @ pad2 m @ ''-'' @ pad2 d @ '' '' @ pad2 (mins div 60) @ pad2 (mins mod 60))"

definition quarantine_leaf :: "str \<Rightarrow> str" where
  "quarantine_leaf folder = map (\<lambda>c. if c = CHR ''/'' \<or> c = CHR '':'' then CHR ''-'' else c) folder"

definition quarantine_name :: "str \<Rightarrow> datetime \<Rightarrow> str" where
  "quarantine_name folder time = quarantine_leaf folder @ '' ('' @ stamp time @ '')''"

text \<open>The tail \<open> \(\d{4}-\d{2}-\d{2} \d{4}\)(?: \(\d+\))?$\<close> of the quarantine pattern.\<close>

definition is_digit :: "char \<Rightarrow> bool" where
  "is_digit c = (let n = (of_char c :: nat) in 48 \<le> n \<and> n \<le> 57)"

definition suffix_shape :: "str \<Rightarrow> bool" where
  "suffix_shape s =
     (s = [] \<or> (prefix '' ('' s \<and> (let ds = takeWhile is_digit (drop 2 s)
                                    in ds \<noteq> [] \<and> drop (2 + length ds) s = '')'')))"

definition tail_shape :: "str \<Rightarrow> bool" where
  "tail_shape s =
     (18 \<le> length s \<and> prefix '' ('' s
      \<and> list_all is_digit (take 4 (drop 2 s)) \<and> s ! 6 = CHR ''-''
      \<and> list_all is_digit (take 2 (drop 7 s)) \<and> s ! 9 = CHR ''-''
      \<and> list_all is_digit (take 2 (drop 10 s)) \<and> s ! 12 = CHR '' ''
      \<and> list_all is_digit (take 4 (drop 13 s)) \<and> s ! 17 = CHR '')''
      \<and> (suffix_shape (drop 18 s)
         \<or> (last s = CHR 0x0A \<and> suffix_shape (drop 18 (butlast s)))))"

text \<open>The greedy name group: the longest non-empty prefix without a newline that leaves such a tail.\<close>

fun name_group :: "nat \<Rightarrow> str \<Rightarrow> str option" where
  "name_group 0 s = None"
| "name_group (Suc k) s =
     (if CHR 0x0A \<notin> set (take (Suc k) s) \<and> tail_shape (drop (Suc k) s)
      then Some (take (Suc k) s) else name_group k s)"

definition original_folder_name :: "str \<Rightarrow> str" where
  "original_folder_name folder_path =
     (let pre = REMOVED_CONTAINER @ ''/'' in
      if \<not> prefix pre folder_path then folder_path
      else
        let s = drop (length pre) folder_path in
        (case name_group (length s) s of Some name \<Rightarrow> name | None \<Rightarrow> folder_path))"

lemma is_digit_digit_char: "d < 10 \<Longrightarrow> is_digit (digit_char d)"
  by (simp add: is_digit_def digit_char_def)

lemma is_digit_facts:
  "\<not> is_digit (CHR '' '')" "\<not> is_digit (CHR ''('')" "\<not> is_digit (CHR '')'')" "\<not> is_digit (CHR ''-'')"
  by (simp_all add: is_digit_def)

lemma list_all_pad: "list_all is_digit (pad2 n)" "list_all is_digit (pad4 n)"
  by (simp_all add: pad2_def pad4_def is_digit_digit_char nat_less_iff)

lemma length_pad [simp]: "length (pad2 n) = 2" "length (pad4 n) = 4"
  by (simp_all add: pad2_def pad4_def)

text \<open>Every stamp is four digits, a dash, two digits, a dash, two digits, a space, four digits.\<close>

lemma stamp_chars:
  obtains y1 y2 y3 y4 m1 m2 d1 d2 h1 h2 n1 n2
  where "stamp t = [y1, y2, y3, y4, CHR ''-'', m1, m2, CHR ''-'', d1, d2, CHR '' '', h1, h2, n1, n2]"
    and "list_all is_digit [y1, y2, y3, y4, m1, m2, d1, d2, h1, h2, n1, n2]"
proof -
  obtain y m d where ymd: "civil_from_days (utc_date t) = (y, m, d)"
    by (cases "civil_from_days (utc_date t)")
  let ?mins = "(t - utc_midnight (utc_date t)) div minutes 1"
  have "list_all is_digit (pad4 y @ pad2 m @ pad2 d @ pad2 (?mins div 60) @ pad2 (?mins mod 60))"
    by (simp add: list_all_pad)
  moreover have "stamp t = pad4 y @ ''-'' @ pad2 m @ ''-'' @ pad2 d @ '' '' @ pad2 (?mins div 60) @ pad2 (?mins mod 60)"
    by (simp add: stamp_def ymd Let_def)
  ultimately show ?thesis
    unfolding pad4_def pad2_def by (intro that) simp_all
qed

text \<open>
  A tail of the quarantine pattern cannot start inside the suffix " (stamp)" or
  " (stamp) (n)" other than at its beginning.
\<close>

lemma no_inner_tail:
  assumes "0 < k" and coll: "coll = [] \<or> (\<exists>ds. coll = '' ('' @ ds @ '')'' \<and> list_all is_digit ds)"
  shows "\<not> tail_shape (drop k ('' ('' @ stamp t @ '')'' @ coll))"
proof
  let ?s = "'' ('' @ stamp t @ '')'' @ coll"
  assume tail: "tail_shape (drop k ?s)"
  obtain y1 y2 y3 y4 m1 m2 d1 d2 h1 h2 n1 n2
    where st: "stamp t = [y1, y2, y3, y4, CHR ''-'', m1, m2, CHR ''-'', d1, d2, CHR '' '', h1, h2, n1, n2]"
      and dig: "list_all is_digit [y1, y2, y3, y4, m1, m2, d1, d2, h1, h2, n1, n2]"
    by (rule stamp_chars)
  have len: "length (drop k ?s) \<ge> 18" and pre: "prefix '' ('' (drop k ?s)"
    and six: "drop k ?s ! 6 = CHR ''-''"
    using tail by (simp_all add: tail_shape_def)
  obtain zs where zs: "drop k ?s = '' ('' @ zs"
    using pre by (auto simp: prefix_def)
  have "drop k ?s ! 0 = CHR '' ''" and "drop k ?s ! 1 = CHR ''(''"
    unfolding zs by simp_all
  then have h0: "?s ! k = CHR '' ''" and h1': "?s ! Suc k = CHR ''(''"
    using len by simp_all
  have dash: "?s ! (k + 6) = CHR ''-''"
    using six len by simp
  have kl: "k + 18 \<le> length ?s" using len by simp
  show False
  proof (cases "k < 18")
    case True
    have nd: "y1 \<noteq> CHR '' ''" "y2 \<noteq> CHR '' ''" "y3 \<noteq> CHR '' ''" "y4 \<noteq> CHR '' ''" "m1 \<noteq> CHR '' ''" "m2 \<noteq> CHR '' ''"
      "d1 \<noteq> CHR '' ''" "d2 \<noteq> CHR '' ''" "h1 \<noteq> CHR '' ''" "h2 \<noteq> CHR '' ''" "n1 \<noteq> CHR '' ''" "n2 \<noteq> CHR '' ''" "h1 \<noteq> CHR ''(''"
      using dig is_digit_facts by auto
    have cases: "k = 1 \<or> k = 2 \<or> k = 3 \<or> k = 4 \<or> k = 5 \<or> k = 6 \<or> k = 7 \<or> k = 8 \<or> k = 9 \<or> k = 10 \<or> k = 11
      \<or> k = 12 \<or> k = 13 \<or> k = 14 \<or> k = 15 \<or> k = 16 \<or> k = 17"
      using True assms(1) by arith
    show False
      using cases h0 h1' nd by (elim disjE) (simp_all add: st)
  next
    case False
    then obtain i where i: "k = 18 + i" by (metis le_Suc_ex not_less)
    then obtain ds where ds: "coll = '' ('' @ ds @ '')''" "list_all is_digit ds"
      using coll kl st by auto
    have shift: "?s ! (18 + j) = coll ! j" for j
      by (simp add: st)
    have "coll ! (i + 6) = CHR ''-''"
      using dash shift [of "i + 6"] i by (simp add: add.assoc)
    moreover have "i + 6 < length coll"
      using kl i st by simp
    ultimately have "CHR ''-'' \<in> set coll"
      by (metis nth_mem)
    then show False
      using ds is_digit_facts by (auto simp: list_all_iff)
  qed
qed

lemma name_group_hit:
  assumes "tail_shape (drop n s)" and "CHR 0x0A \<notin> set (take n s)" and "0 < n" and "n \<le> m"
    and "\<And>k. n < k \<Longrightarrow> k \<le> m \<Longrightarrow> \<not> tail_shape (drop k s)"
  shows "name_group m s = Some (take n s)"
  using assms(4,5)
proof (induction m)
  case 0
  with assms(3) show ?case by simp
next
  case (Suc m)
  show ?case
  proof (cases "n = Suc m")
    case True
    with assms(1,2) show ?thesis by simp
  next
    case False
    with Suc.prems have "name_group m s = Some (take n s)" by (intro Suc.IH) auto
    with Suc.prems False show ?thesis by simp
  qed
qed

lemma tail_shape_own:
  assumes coll: "coll = [] \<or> (\<exists>ds. coll = '' ('' @ ds @ '')'' \<and> list_all is_digit ds \<and> ds \<noteq> [])"
  shows "tail_shape ('' ('' @ stamp t @ '')'' @ coll)"
proof -
  obtain y1 y2 y3 y4 m1 m2 d1 d2 h1 h2 n1 n2
    where st: "stamp t = [y1, y2, y3, y4, CHR ''-'', m1, m2, CHR ''-'', d1, d2, CHR '' '', h1, h2, n1, n2]"
      and dig: "list_all is_digit [y1, y2, y3, y4, m1, m2, d1, d2, h1, h2, n1, n2]"
    by (rule stamp_chars)
  have "suffix_shape coll"
  proof (cases "coll = []")
    case True
    then show ?thesis by (simp add: suffix_shape_def)
  next
    case False
    then obtain ds where ds: "coll = '' ('' @ ds @ '')''" "list_all is_digit ds" "ds \<noteq> []"
      using coll by blast
    then have "takeWhile is_digit (ds @ '')'') = ds"
      using is_digit_facts by (simp add: list_all_iff takeWhile_append2 takeWhile_append)
    with ds show ?thesis
      by (simp add: suffix_shape_def Let_def)
  qed
  with st dig show ?thesis
    by (simp add: tail_shape_def)
qed

text \<open>
  Staging can always recover where a quarantined message came from: the original name of a
  folder inside the container, with or without the collision suffix, is the folder's own name
  up to the folding of slash and colon.
\<close>

lemma original_folder_name_quarantined:
  assumes "folder \<noteq> []" and "CHR 0x0A \<notin> set folder"
    and "coll = [] \<or> coll = '' ('' @ show_nat n @ '')''"
  shows "original_folder_name (REMOVED_CONTAINER @ ''/'' @ quarantine_name folder time @ coll)
    = quarantine_leaf folder"
proof -
  have digits: "list_all is_digit (show_nat n) \<and> show_nat n \<noteq> []" for n
  proof (induction n rule: show_nat.induct)
    case (1 n)
    then show ?case
      by (subst (1 2) show_nat.simps) (auto simp: is_digit_digit_char)
  qed
  let ?q = "quarantine_leaf folder" and ?t = "'' ('' @ stamp time @ '')'' @ coll"
  let ?s = "?q @ ?t"
  have lenq: "length ?q = length folder" by (simp add: quarantine_leaf_def)
  have "name_group (length ?s) ?s = Some (take (length ?q) ?s)"
  proof (rule name_group_hit)
    show "tail_shape (drop (length ?q) ?s)"
      using tail_shape_own [of coll time] assms(3) digits by auto
    show "CHR 0x0A \<notin> set (take (length ?q) ?s)"
      using assms(2) by (auto simp: quarantine_leaf_def)
    show "0 < length ?q" using assms(1) by (simp add: lenq)
    show "length ?q \<le> length ?s" by simp
    fix k assume k: "length ?q < k" "k \<le> length ?s"
    have "drop k ?s = drop (k - length ?q) ?t" using k by simp
    moreover have "\<not> tail_shape (drop (k - length ?q) ?t)"
      using no_inner_tail [of "k - length ?q" coll time] k assms(3) digits by auto
    ultimately show "\<not> tail_shape (drop k ?s)" by simp
  qed
  then show ?thesis
    by (simp add: original_folder_name_def Let_def quarantine_name_def)
qed

section \<open>The move on disk\<close>

type_synonym path = "str list"

datatype node = Dir | File str

type_synonym fs = "(path \<times> node) list"

definition exists_path :: "fs \<Rightarrow> path \<Rightarrow> bool" where
  "exists_path f p = (p \<in> fst ` set f)"

definition is_dir :: "fs \<Rightarrow> path \<Rightarrow> bool" where
  "is_dir f p = ((p, Dir) \<in> set f)"

text \<open>\<open>os.makedirs(p, exist_ok=True)\<close>: the missing ancestors and the directory itself.\<close>

fun makedirs_upto :: "nat \<Rightarrow> path \<Rightarrow> fs \<Rightarrow> fs" where
  "makedirs_upto 0 p f = f"
| "makedirs_upto (Suc n) p f =
     (let f' = makedirs_upto n p f; q = take (Suc n) p
      in if exists_path f' q then f' else f' @ [(q, Dir)])"

definition makedirs :: "path \<Rightarrow> fs \<Rightarrow> fs" where
  "makedirs p f = makedirs_upto (length p) p f"

text \<open>\<open>shutil.move\<close> to a path that does not exist: every entry of the tree is renamed.\<close>

definition move :: "path \<Rightarrow> path \<Rightarrow> fs \<Rightarrow> fs" where
  "move src dst f = map (\<lambda>(p, n). if prefix src p then (dst @ drop (length src) p, n) else (p, n)) f"

definition listdir :: "path \<Rightarrow> fs \<Rightarrow> str list" where
  "listdir d f = map (\<lambda>(p, n). last p) (filter (\<lambda>(p, n). p \<noteq> [] \<and> butlast p = d) f)"

definition remove_file :: "path \<Rightarrow> fs \<Rightarrow> fs" where
  "remove_file p f = filter (\<lambda>(q, n). q \<noteq> p) f"

text \<open>
  The collision counter: the first \<open>n\<close> from the start value whose suffixed name is free. The
  loop is bounded by fuel; \<open>free_number_enough\<close> below shows that one more than the number of
  entries always suffices.
\<close>

definition numbered :: "str \<Rightarrow> nat \<Rightarrow> str" where
  "numbered name n = name @ '' ('' @ show_nat n @ '')''"

fun free_number :: "nat \<Rightarrow> (str \<Rightarrow> bool) \<Rightarrow> str \<Rightarrow> nat \<Rightarrow> nat option" where
  "free_number 0 taken name n = None"
| "free_number (Suc fuel) taken name n =
     (if taken (numbered name n) then free_number fuel taken name (n + 1) else Some n)"

definition README_TAG :: str where
  "README_TAG = ''container-readme''"

text \<open>
  \<open>write_container_readme\<close>: the container's own Maildir directories and, unless a marked file is
  already in \<open>new\<close> or \<open>cur\<close>, the explanatory message. \<open>None\<close> is the \<open>OSError\<close> the operating
  system may raise.
\<close>

definition write_container_readme :: "path \<Rightarrow> int \<Rightarrow> str \<Rightarrow> str \<Rightarrow> bool \<Rightarrow> fs \<Rightarrow> fs option" where
  "write_container_readme root timestamp hostname msg os_ok f =
     (if \<not> os_ok then None
      else
        let container = root @ [REMOVED_CONTAINER];
            f = fold (\<lambda>sub. makedirs (container @ [sub])) [''cur'', ''new'', ''tmp''] f;
            existing = listdir (container @ [''new'']) f @ listdir (container @ [''cur'']) f
        in if \<exists>name \<in> set existing. sublist (''.'' @ README_TAG @ ''.'') name then Some f
           else
             let filename = show_int timestamp @ ''.'' @ README_TAG @ ''.'' @ hostname @ '':2,''
             in Some (f @ [(container @ [''new'', filename], File msg)]))"

definition quarantine_dest :: "path \<Rightarrow> str \<Rightarrow> datetime \<Rightarrow> fs \<Rightarrow> path option" where
  "quarantine_dest root folder time f =
     (let base = root @ [REMOVED_CONTAINER]; name = quarantine_name folder time in
      if exists_path f (base @ [name]) then
        map_option (\<lambda>n. base @ [numbered name n])
          (free_number (Suc (length f)) (\<lambda>nm. exists_path f (base @ [nm])) name 2)
      else Some (base @ [name]))"

text \<open>
  \<open>quarantine_folder\<close>: the destination (\<open>None\<close> when the folder is not a directory) and the new
  file system. \<open>folder\<close> is the component list of the folder, \<open>name\<close> the same as one string.
\<close>

definition strip_syncstate :: "path \<Rightarrow> fs \<Rightarrow> fs" where
  "strip_syncstate dest f =
     fold (\<lambda>leftover g. if prefix ''.mbsyncstate'' leftover then remove_file (dest @ [leftover]) g else g)
       (listdir dest f) f"

definition quarantine_folder ::
  "path \<Rightarrow> path \<Rightarrow> str \<Rightarrow> datetime \<Rightarrow> int \<Rightarrow> str \<Rightarrow> str \<Rightarrow> bool \<Rightarrow> fs \<Rightarrow> path option \<times> fs"
where
  "quarantine_folder root folder name time timestamp hostname msg os_ok f =
     (let source = root @ folder in
      if \<not> is_dir f source then (None, f)
      else
        (case quarantine_dest root name time f of
           None \<Rightarrow> (None, f)
         | Some dest \<Rightarrow>
             let f = makedirs (butlast dest) f;
                 f = move source dest f;
                 f = strip_syncstate dest f
             in (Some dest,
                 (case write_container_readme root timestamp hostname msg os_ok f of
                    None \<Rightarrow> f | Some f' \<Rightarrow> f'))))"

section \<open>Nothing is lost by a quarantine\<close>

lemma show_nat_last: "last (show_nat n) = digit_char (n mod 10)"
  by (subst show_nat.simps) auto

lemma show_nat_butlast: "butlast (show_nat n) = (if n < 10 then [] else show_nat (n div 10))"
  by (subst show_nat.simps) auto

lemma show_nat_nonempty: "show_nat n \<noteq> []"
  by (subst show_nat.simps) auto

lemma digit_char_inj: "a < 10 \<Longrightarrow> b < 10 \<Longrightarrow> digit_char a = digit_char b \<Longrightarrow> a = b"
  unfolding digit_char_def by (drule arg_cong [of _ _ "of_char :: char \<Rightarrow> nat"]) simp

lemma show_nat_inj: "show_nat m = show_nat n \<Longrightarrow> m = n"
proof (induction m arbitrary: n rule: less_induct)
  case (less m)
  have low: "m mod 10 = n mod 10"
    using less.prems show_nat_last [of m] show_nat_last [of n] by (intro digit_char_inj) auto
  have high: "(if m < 10 then [] else show_nat (m div 10)) = (if n < 10 then [] else show_nat (n div 10))"
    using less.prems show_nat_butlast [of m] show_nat_butlast [of n] by simp
  have "m div 10 = n div 10"
  proof (cases "m < 10")
    case True
    with high have "n < 10" using show_nat_nonempty [of "n div 10"] by (auto split: if_splits)
    with True show ?thesis by simp
  next
    case False
    with high have "show_nat (m div 10) = show_nat (n div 10)"
      using show_nat_nonempty [of "m div 10"] by (auto split: if_splits)
    with less.IH [of "m div 10"] False show ?thesis by simp
  qed
  with low show ?case by (metis div_mult_mod_eq)
qed

lemma numbered_inj: "numbered name m = numbered name n \<Longrightarrow> m = n"
  by (auto simp: numbered_def dest: show_nat_inj)

lemma free_number_None:
  "free_number fuel taken name n = None \<Longrightarrow> \<forall>i < fuel. taken (numbered name (n + i))"
proof (induction fuel arbitrary: n)
  case 0
  then show ?case by simp
next
  case (Suc fuel)
  then have t: "taken (numbered name n)" and r: "free_number fuel taken name (n + 1) = None"
    by (auto split: if_splits)
  show ?case
  proof (intro allI impI)
    fix i assume "i < Suc fuel"
    then show "taken (numbered name (n + i))"
      using t Suc.IH [OF r] by (cases i) auto
  qed
qed

lemma free_number_Some: "free_number fuel taken name n = Some m \<Longrightarrow> \<not> taken (numbered name m)"
  by (induction fuel arbitrary: n) (auto split: if_splits)

text \<open>The collision loop ends: the file system has fewer entries than the fuel.\<close>

lemma free_number_enough:
  "\<exists>n. free_number (Suc (length f)) (\<lambda>nm. exists_path f (base @ [nm])) name k = Some n"
proof (rule ccontr)
  assume "\<nexists>n. free_number (Suc (length f)) (\<lambda>nm. exists_path f (base @ [nm])) name k = Some n"
  then have "free_number (Suc (length f)) (\<lambda>nm. exists_path f (base @ [nm])) name k = None"
    by auto
  from free_number_None [OF this]
  have sub: "(\<lambda>i. base @ [numbered name (k + i)]) ` {..< Suc (length f)} \<subseteq> fst ` set f"
    by (auto simp: exists_path_def)
  have "inj_on (\<lambda>i. base @ [numbered name (k + i)]) {..< Suc (length f)}"
    by (auto simp: inj_on_def dest: numbered_inj)
  then have "card ((\<lambda>i. base @ [numbered name (k + i)]) ` {..< Suc (length f)}) = Suc (length f)"
    by (simp add: card_image)
  moreover have "card (fst ` set f) \<le> length f"
    by (meson card_image_le card_length finite_set le_trans)
  ultimately show False
    using card_mono [OF _ sub] by simp
qed

lemma makedirs_upto_mono: "set f \<subseteq> set (makedirs_upto n p f)"
  by (induction n) (auto simp: Let_def)

lemma makedirs_mono: "x \<in> set f \<Longrightarrow> x \<in> set (makedirs p f)"
  using makedirs_upto_mono by (auto simp: makedirs_def)

lemma strip_syncstate_mem:
  "(p, n) \<in> set (strip_syncstate dest f) \<longleftrightarrow>
     (p, n) \<in> set f \<and> \<not> (\<exists>l \<in> set (listdir dest f). prefix ''.mbsyncstate'' l \<and> p = dest @ [l])"
proof -
  have "(p, n) \<in> set (fold (\<lambda>l g. if prefix ''.mbsyncstate'' l then remove_file (dest @ [l]) g else g) ls g) \<longleftrightarrow>
      (p, n) \<in> set g \<and> \<not> (\<exists>l \<in> set ls. prefix ''.mbsyncstate'' l \<and> p = dest @ [l])" for ls g
    by (induction ls arbitrary: g) (auto simp: remove_file_def)
  then show ?thesis by (simp add: strip_syncstate_def)
qed

lemma write_readme_mono:
  "write_container_readme root ts h msg ok f = Some f' \<Longrightarrow> x \<in> set f \<Longrightarrow> x \<in> set f'"
  by (auto simp: write_container_readme_def Let_def makedirs_mono split: if_splits)

lemma move_mem:
  assumes "(p, n) \<in> set f"
  shows "(if prefix src p then dst @ drop (length src) p else p, n) \<in> set (move src dst f)"
  using assms by (force simp: move_def)

lemma quarantine_dest_fresh:
  "\<exists>nm. quarantine_dest root name time f = Some (root @ [REMOVED_CONTAINER, nm])
     \<and> \<not> exists_path f (root @ [REMOVED_CONTAINER, nm])"
proof (cases "exists_path f ((root @ [REMOVED_CONTAINER]) @ [quarantine_name name time])")
  case False
  then show ?thesis by (simp add: quarantine_dest_def Let_def)
next
  case True
  obtain n where n: "free_number (Suc (length f))
      (\<lambda>nm. exists_path f ((root @ [REMOVED_CONTAINER]) @ [nm])) (quarantine_name name time) 2 = Some n"
    using free_number_enough by blast
  from free_number_Some [OF n] n True show ?thesis
    by (auto simp: quarantine_dest_def Let_def)
qed

text \<open>
  A file system in which every entry's directory exists; the folder a quarantine is called for
  is a synced folder below the account root and outside the container, so the destination is
  never inside the tree that moves.
\<close>

definition parents_exist :: "fs \<Rightarrow> bool" where
  "parents_exist f = (\<forall>(p, n) \<in> set f. p \<noteq> [] \<longrightarrow> exists_path f (butlast p))"

text \<open>
  C32. Quarantining a folder never loses mail: a destination that did not exist is always found
  (the collision loop ends), every file of the folder is there afterwards with its content,
  mbsync's sync state apart, and every file outside the folder is where it was.
\<close>

theorem quarantine_moves_everything:
  assumes dir: "is_dir f (root @ folder)" and wf: "parents_exist f"
    and "folder \<noteq> []" and "hd folder \<noteq> REMOVED_CONTAINER"
  shows "\<exists>dest f'. quarantine_folder root folder name time ts host msg os_ok f = (Some dest, f')
    \<and> \<not> exists_path f dest
    \<and> (\<forall>rel c. (root @ folder @ rel, File c) \<in> set f \<longrightarrow>
         (\<forall>l. rel = [l] \<longrightarrow> \<not> prefix ''.mbsyncstate'' l) \<longrightarrow> (dest @ rel, File c) \<in> set f')
    \<and> (\<forall>p c. (p, File c) \<in> set f \<longrightarrow> \<not> prefix (root @ folder) p \<longrightarrow> (p, File c) \<in> set f')"
proof -
  let ?src = "root @ folder"
  obtain nm where dest: "quarantine_dest root name time f = Some (root @ [REMOVED_CONTAINER, nm])"
    and fresh: "\<not> exists_path f (root @ [REMOVED_CONTAINER, nm])"
    using quarantine_dest_fresh by blast
  let ?dst = "root @ [REMOVED_CONTAINER, nm]"
  define f1 where "f1 = move ?src ?dst (makedirs (butlast ?dst) f)"
  define f2 where "f2 = strip_syncstate ?dst f1"
  define f3 where "f3 = (case write_container_readme root ts host msg os_ok f2 of None \<Rightarrow> f2 | Some g \<Rightarrow> g)"
  have run: "quarantine_folder root folder name time ts host msg os_ok f = (Some ?dst, f3)"
    using dir dest unfolding f3_def f2_def f1_def by (simp add: quarantine_folder_def Let_def)
  have up: "x \<in> set f2 \<Longrightarrow> x \<in> set f3" for x
    using write_readme_mono by (auto simp: f3_def split: option.split)
  have inside: "(?dst @ rel, File c) \<in> set f3"
    if "(root @ folder @ rel, File c) \<in> set f" "\<forall>l. rel = [l] \<longrightarrow> \<not> prefix ''.mbsyncstate'' l" for rel c
  proof (rule up)
    have "(?dst @ rel, File c) \<in> set f1"
      unfolding f1_def using move_mem [OF makedirs_mono [OF that(1), of "butlast ?dst"], of ?src ?dst]
      by simp
    then show "(?dst @ rel, File c) \<in> set f2"
      using that(2) by (auto simp: f2_def strip_syncstate_mem)
  qed
  have outside: "(p, File c) \<in> set f3" if "(p, File c) \<in> set f" "\<not> prefix ?src p" for p c
  proof (rule up)
    have "(p, File c) \<in> set f1"
      unfolding f1_def using move_mem [OF makedirs_mono [OF that(1), of "butlast ?dst"], of ?src ?dst] that(2)
      by simp
    moreover have "p \<noteq> ?dst @ [l]" for l
    proof
      assume "p = ?dst @ [l]"
      with bspec [OF wf [unfolded parents_exist_def] that(1)] have "exists_path f ?dst"
        by (simp add: butlast_append)
      with fresh show False by simp
    qed
    ultimately show "(p, File c) \<in> set f2"
      by (auto simp: f2_def strip_syncstate_mem)
  qed
  from run fresh inside outside show ?thesis by blast
qed

definition demo_fs :: fs where
  "demo_fs = [([], Dir), ([''m''], Dir), ([''m'', ''Old''], Dir), ([''m'', ''Old'', ''cur''], Dir),
     ([''m'', ''Old'', ''.mbsyncstate''], File ''s''), ([''m'', ''Old'', ''cur'', ''1''], File ''hello'')]"

theorem quarantine_moves_everything_witness:
  "\<exists>dest f'. quarantine_folder [''m''] [''Old''] ''Old'' 0 0 ''h'' ''readme'' True demo_fs = (Some dest, f')
    \<and> (dest @ [''cur'', ''1''], File ''hello'') \<in> set f'"
proof -
  have h: "is_dir demo_fs ([''m''] @ [''Old''])" "parents_exist demo_fs"
    by (simp_all add: is_dir_def parents_exist_def exists_path_def demo_fs_def)
  have "([''m''] @ [''Old''] @ [''cur'', ''1''], File ''hello'') \<in> set demo_fs"
    by (simp add: demo_fs_def)
  with quarantine_moves_everything [OF h, of "''Old''" 0 0 "''h''" "''readme''" True]
  show ?thesis by (fastforce simp: REMOVED_CONTAINER_def)
qed

end
