(* ===== verification/Imap_Check.thy ===== *)
theory Imap_Check
  imports Prelude "HOL-Library.Word"
begin

unbundle bit_operations_syntax

text \<open>
  The SSRF guards of \<open>services/imap_check.py\<close>: classification of an address as internal,
  validation of a host name and the pinned public address. Name resolution is the argument
  \<open>getaddrinfo\<close> (\<open>None\<close> is \<open>gaierror\<close>); \<open>std_internal\<close> is the disjunction of the standard
  library's own flags (private, loopback, link-local, reserved, multicast, unspecified).
\<close>

datatype ip = IPv4 "32 word" | IPv6 "128 word"

text \<open>\<open>ip.ipv4_mapped\<close>: the address \<open>::ffff:a.b.c.d\<close> carries an IPv4 address.\<close>

fun ipv4_mapped :: "ip \<Rightarrow> ip option" where
  "ipv4_mapped (IPv4 a) = None"
| "ipv4_mapped (IPv6 x) = (if drop_bit 32 x = 0xFFFF then Some (IPv4 (ucast x)) else None)"

text \<open>100.64.0.0/10\<close>

fun in_cgnat_v4 :: "ip \<Rightarrow> bool" where
  "in_cgnat_v4 (IPv4 a) = (drop_bit 22 a = drop_bit 22 (0x64400000 :: 32 word))"
| "in_cgnat_v4 (IPv6 x) = False"

definition is_internal_ip :: "(ip \<Rightarrow> bool) \<Rightarrow> ip \<Rightarrow> bool" where
  "is_internal_ip std_internal ip =
     (let ip = (case ipv4_mapped ip of Some v4 \<Rightarrow> v4 | None \<Rightarrow> ip)
      in std_internal ip \<or> in_cgnat_v4 ip)"

definition unresolved_msg :: "str \<Rightarrow> str" where
  "unresolved_msg host = ''Host could not be resolved: '' @ host"

definition internal_msg :: "str \<Rightarrow> str" where
  "internal_msg host = ''Connections to private/internal addresses are not allowed: '' @ host"

text \<open>\<open>Some\<close> is the message of the \<open>ValueError\<close> raised, \<open>None\<close> a normal return.\<close>

definition validate_host_not_internal ::
  "(ip \<Rightarrow> bool) \<Rightarrow> (str \<Rightarrow> ip list option) \<Rightarrow> str \<Rightarrow> str option"
where
  "validate_host_not_internal std_internal getaddrinfo host =
     (case getaddrinfo host of
        None \<Rightarrow> Some (unresolved_msg host)
      | Some infos \<Rightarrow>
          if infos = [] then Some (unresolved_msg host)
          else if \<exists>ip \<in> set infos. is_internal_ip std_internal ip then Some (internal_msg host)
          else None)"

definition resolve_public_ip ::
  "(ip \<Rightarrow> bool) \<Rightarrow> (str \<Rightarrow> ip list option) \<Rightarrow> str \<Rightarrow> str + ip"
where
  "resolve_public_ip std_internal getaddrinfo host =
     (case getaddrinfo host of
        None \<Rightarrow> Inl (unresolved_msg host)
      | Some infos \<Rightarrow>
          (case infos of
             [] \<Rightarrow> Inl (unresolved_msg host)
           | ip # _ \<Rightarrow>
               if \<exists>a \<in> set infos. is_internal_ip std_internal a then Inl (internal_msg host)
               else Inr ip))"

lemma is_internal_mapped:
  "ipv4_mapped ip = Some v4 \<Longrightarrow> is_internal_ip std v4 = is_internal_ip std ip"
  by (cases ip) (auto simp: is_internal_ip_def split: if_splits)

text \<open>
  A host passes the SSRF guard only when it resolves and none of its addresses is
  internal, with an IPv4-mapped IPv6 address judged as the IPv4 address it carries; the pinned
  address the connection then uses is one of those, and both guards agree.
\<close>

lemma host_guard_sound:
  "(validate_host_not_internal std getaddrinfo host = None \<longleftrightarrow>
      (\<exists>ip. resolve_public_ip std getaddrinfo host = Inr ip))
   \<and> (\<forall>ip. resolve_public_ip std getaddrinfo host = Inr ip \<longrightarrow>
        (\<exists>infos. getaddrinfo host = Some infos \<and> ip \<in> set infos
          \<and> (\<forall>a \<in> set infos. \<not> std (case ipv4_mapped a of Some v4 \<Rightarrow> v4 | None \<Rightarrow> a)
                \<and> \<not> is_internal_ip std a
                \<and> (\<forall>v4. ipv4_mapped a = Some v4 \<longrightarrow> \<not> is_internal_ip std v4))))"
proof -
  have "\<not> std (case ipv4_mapped a of Some v4 \<Rightarrow> v4 | None \<Rightarrow> a)
      \<and> (\<forall>v4. ipv4_mapped a = Some v4 \<longrightarrow> \<not> is_internal_ip std v4)"
    if "\<not> is_internal_ip std a" for a
    using that is_internal_mapped [of a _ std] by (auto simp: is_internal_ip_def Let_def)
  then show ?thesis
    by (auto simp: validate_host_not_internal_def resolve_public_ip_def split: option.splits list.splits if_splits)
qed

text \<open>
  An attacker-controlled AAAA record cannot smuggle an internal IPv4 address past the
  guard: \<open>::ffff:127.0.0.1\<close> and \<open>::ffff:100.64.0.1\<close> are refused, the latter although no
  standard-library flag covers the carrier-grade NAT range.
\<close>

lemma mapped_internal_refused:
  assumes "getaddrinfo host = Some infos" and "IPv6 x \<in> set infos" and "drop_bit 32 x = 0xFFFF"
    and "std (IPv4 (ucast x)) \<or> drop_bit 22 (ucast x :: 32 word) = 0x191"
  shows "validate_host_not_internal std getaddrinfo host = Some (internal_msg host)"
proof -
  have "is_internal_ip std (IPv6 x)"
    using assms(3,4) by (auto simp: is_internal_ip_def)
  with assms(1,2) show ?thesis
    by (auto simp: validate_host_not_internal_def)
qed

end
