(* ===== verification/Regex.thy ===== *)
theory Regex
  imports Prelude
begin

text \<open>
  The part of Python's \<open>re\<close> the program uses: literals (case sensitive or under \<open>re.I\<close>),
  character classes with greedy repetition, alternation, numbered groups and the end anchor.
  A pattern is matched by its list of successes in the order of Python's backtracking, so the
  head of the list is the match \<open>re\<close> returns. A match is the association list of its groups.
\<close>

type_synonym groups = "(nat \<times> str) list"

datatype rx =
    Eps
  | Lit str
  | LitI str
  | One "char \<Rightarrow> bool"
  | Star "char \<Rightarrow> bool"
  | Grp nat rx
  | Cat rx rx
  | Alt rx rx
  | Eol

text \<open>What is left after a greedy run of characters of a class, longest run first.\<close>

fun runs :: "(char \<Rightarrow> bool) \<Rightarrow> str \<Rightarrow> str list" where
  "runs P [] = [[]]"
| "runs P (c # cs) = (if P c then runs P cs @ [c # cs] else [c # cs])"

primrec matches :: "rx \<Rightarrow> groups \<times> str \<Rightarrow> (groups \<times> str) list" where
  "matches Eps gs = [gs]"
| "matches (Lit l) gs = (if prefix l (snd gs) then [(fst gs, drop (length l) (snd gs))] else [])"
| "matches (LitI l) gs = (if prefix (lower l) (lower (snd gs)) then [(fst gs, drop (length l) (snd gs))] else [])"
| "matches (One P) gs = (case snd gs of [] \<Rightarrow> [] | c # cs \<Rightarrow> if P c then [(fst gs, cs)] else [])"
| "matches (Star P) gs = map (Pair (fst gs)) (runs P (snd gs))"
| "matches (Grp n r) gs =
     map (\<lambda>(g, t). ((n, take (length (snd gs) - length t) (snd gs)) # g, t)) (matches r gs)"
| "matches (Cat r q) gs = concat (map (matches q) (matches r gs))"
| "matches (Alt r q) gs = matches r gs @ matches q gs"
| "matches Eol gs = (if snd gs = [] \<or> snd gs = [CHR 0x0A] then [gs] else [])"

definition re_match :: "rx \<Rightarrow> str \<Rightarrow> groups option" where
  "re_match r s = (case matches r ([], s) of [] \<Rightarrow> None | (g, _) # _ \<Rightarrow> Some g)"

fun re_search :: "rx \<Rightarrow> str \<Rightarrow> groups option" where
  "re_search r [] = re_match r []"
| "re_search r (c # cs) =
     (case re_match r (c # cs) of Some g \<Rightarrow> Some g | None \<Rightarrow> re_search r cs)"

text \<open>\<open>m.group(n)\<close> of a group that took part in the match, and \<open>int\<close> of a run of digits.\<close>

definition grp :: "groups \<Rightarrow> nat \<Rightarrow> str" where
  "grp g n = (case map_of g n of None \<Rightarrow> [] | Some s \<Rightarrow> s)"

definition int_of_digits :: "str \<Rightarrow> int" where
  "int_of_digits s = fold (\<lambda>c n. 10 * n + (of_char c - 48)) s 0"

definition grp_int :: "groups \<Rightarrow> nat \<Rightarrow> int" where
  "grp_int g n = int_of_digits (grp g n)"

section \<open>Patterns\<close>

definition digit :: "char \<Rightarrow> bool" where
  "digit c = (let n = (of_char c :: nat) in 48 \<le> n \<and> n \<le> 57)"

definition word_char :: "char \<Rightarrow> bool" where
  "word_char c = (let n = (of_char c :: nat) in
     48 \<le> n \<and> n \<le> 57 \<or> 65 \<le> n \<and> n \<le> 90 \<or> 97 \<le> n \<and> n \<le> 122 \<or> n = 95)"

definition visible :: "char \<Rightarrow> bool" where
  "visible c = (\<not> is_space c)"

definition any_char :: "char \<Rightarrow> bool" where
  "any_char c = (c \<noteq> CHR 0x0A)"

definition plus :: "(char \<Rightarrow> bool) \<Rightarrow> rx" where
  "plus P = Cat (One P) (Star P)"

primrec seq :: "rx list \<Rightarrow> rx" where
  "seq [] = Eps"
| "seq (r # rs) = Cat r (seq rs)"

fun alts :: "rx list \<Rightarrow> rx" where
  "alts [] = One (\<lambda>_. False)"
| "alts [r] = r"
| "alts (r # q # rs) = Alt r (alts (q # rs))"

text \<open>\<open>(\d+)\<close> as group \<open>n\<close>.\<close>

definition number :: "nat \<Rightarrow> rx" where
  "number n = Grp n (plus digit)"

section \<open>Searching\<close>

lemma runs_suffix: "t \<in> set (runs P s) \<Longrightarrow> suffix t s"
  by (induction s) (auto split: if_splits intro: suffix_ConsI)

lemma runs_all: "list_all P p \<Longrightarrow> s \<in> set (runs P (p @ s))"
  by (induction p) (cases s, auto)

lemma matches_seq_Cons: "matches (seq (r # rs)) gs = concat (map (matches (seq rs)) (matches r gs))"
  by simp

lemma re_match_None_iff: "re_match r s = None \<longleftrightarrow> matches r ([], s) = []"
  by (auto simp: re_match_def split: list.split)

lemma re_search_append:
  assumes "matches r ([], s) \<noteq> []"
  shows "re_search r (p @ s) \<noteq> None"
  using assms
proof (induction p)
  case Nil
  then show ?case by (cases s) (auto simp: re_match_None_iff split: option.split)
qed (auto split: option.split)

lemma re_search_None_iff: "re_search r s = None \<longleftrightarrow> (\<forall>p t. s = p @ t \<longrightarrow> matches r ([], t) = [])"
proof
  assume "re_search r s = None"
  then show "\<forall>p t. s = p @ t \<longrightarrow> matches r ([], t) = []"
    using re_search_append by blast
next
  assume "\<forall>p t. s = p @ t \<longrightarrow> matches r ([], t) = []"
  then show "re_search r s = None"
  proof (induction s)
    case (Cons c s)
    have "matches r ([], c # s) = []" using Cons.prems by (metis append_Nil)
    moreover have "re_search r s = None"
      using Cons.prems by (intro Cons.IH) (metis append_Cons)
    ultimately show ?case by (simp add: re_match_None_iff [symmetric])
  qed (simp add: re_match_None_iff)
qed

text \<open>Searching for a literal, or for one of several, is searching for a substring.\<close>

lemma search_LitI: "re_search (LitI l) s \<noteq> None \<longleftrightarrow> sublist (lower l) (lower s)"
proof -
  have "re_search (LitI l) s \<noteq> None \<longleftrightarrow> (\<exists>p t. s = p @ t \<and> prefix (lower l) (lower t))"
    by (subst re_search_None_iff) auto
  also have "\<dots> \<longleftrightarrow> sublist (lower l) (lower s)"
  proof
    assume "sublist (lower l) (lower s)"
    then obtain u v where uv: "lower s = u @ lower l @ v" by (auto simp: sublist_def)
    have "s = take (length u) s @ drop (length u) s" by simp
    moreover have "lower (drop (length u) s) = lower l @ v"
      using uv by (metis append_eq_conv_conj drop_map lower_def)
    ultimately show "\<exists>p t. s = p @ t \<and> prefix (lower l) (lower t)" by (metis prefixI)
  next
    assume "\<exists>p t. s = p @ t \<and> prefix (lower l) (lower t)"
    then obtain p t u where "s = p @ t" "lower t = lower l @ u" by (auto simp: prefix_def)
    then have "lower s = lower p @ lower l @ u" by simp
    then show "sublist (lower l) (lower s)" by (metis sublist_appendI)
  qed
  finally show ?thesis .
qed

lemma search_Lit: "re_search (Lit l) s \<noteq> None \<longleftrightarrow> sublist l s"
  by (subst re_search_None_iff) (auto simp: sublist_def prefix_def)

lemma search_Alt: "re_search (Alt r q) s \<noteq> None \<longleftrightarrow> re_search r s \<noteq> None \<or> re_search q s \<noteq> None"
  by (auto simp: re_search_None_iff)

lemma matches_LitI_append [simp]: "matches (LitI l) (g, l @ s) = [(g, s)]"
  by simp

lemma matches_plus: "P c \<Longrightarrow> matches (plus P) (g, c # s) = map (Pair g) (runs P s)"
  by (simp add: plus_def)

lemma search_seq_LitI:
  assumes "re_search (seq (LitI l # rs)) s \<noteq> None"
  shows "sublist (lower l) (lower s)"
proof -
  obtain p t where "s = p @ t" "matches (seq (LitI l # rs)) ([], t) \<noteq> []"
    using assms by (auto simp: re_search_None_iff)
  then have "prefix (lower l) (lower t)" by (auto split: if_splits)
  with \<open>s = p @ t\<close> show ?thesis by (auto simp: prefix_def sublist_def)
qed

end
