(* ===== verification/Models.thy ===== *)
theory Models
  imports Complex_Main Prelude
begin

text \<open>
  The data model of \<open>models.py\<close>: the enumerations as datatypes, every table class as a record
  with the source's columns (prefixed by the table, since record fields are global names), the
  module-level dictionaries of \<open>sync_worker.py\<close> and \<open>backup_worker.py\<close> as records, and the
  \<open>world\<close> the operations transform: all tables, those dictionaries, the notifications handed
  to the delivery threads and the job ids handed to the executors.

  A JSON text column is represented by what \<open>json.loads\<close> makes of it (an object or a
  decoding error). \<open>new_account\<close>, \<open>new_sync_job\<close> and their kin are the constructors with the
  column defaults.
\<close>

section \<open>Enumerations\<close>

datatype UserRole = Role_admin | Role_user

datatype AuthType = oauth2 | app_password

datatype SyncState = SS_idle | SS_syncing | SS_error | SS_needs_reauth

datatype JobStatus = pending | running | completed | failed | cancelled

datatype TaskStatus = T_pending | T_running | T_completed | T_failed

datatype RetentionPreset = R_light | R_standard | R_full | R_custom

datatype BackupStatus = B_idle | B_running | B_completed | B_failed

datatype RecoveryStatus = RS_restoring | RS_ready | RS_failed | RS_deleting

datatype RecoveryKind = RK_persistent | RK_ephemeral

datatype MigrationStatus = M_pending | M_copying | M_verifying | M_cleaning | M_completed | M_failed

datatype RestoreMode = RM_full | RM_folder | RM_selection | RM_staging_push

datatype BackendType = BT_s3 | BT_local

text \<open>The value of the \<open>extra_config\<close> text column, as \<open>json.loads\<close> reads it.\<close>

datatype json_text = Json_object "(str \<times> str) list" | Json_malformed str

section \<open>Tables\<close>

record User =
  u_id :: str
  u_username :: str
  u_password_hash :: "str option"
  u_role :: UserRole
  u_oidc_subject :: "str option"
  u_enabled :: bool
  u_created_at :: datetime
  u_store_id :: str
  u_migrating :: bool
  u_preferences :: "(str \<times> str) list"

record NotificationChannel =
  ch_id :: str
  ch_user_id :: str
  ch_label :: str
  ch_apprise_url :: str
  ch_enabled :: bool
  ch_events :: "str list"
  ch_payload_format :: str
  ch_created_at :: datetime

record MailStore =
  st_id :: str
  st_name :: str
  st_path :: str
  st_enabled :: bool
  st_is_default :: bool
  st_created_at :: datetime

record Account =
  a_id :: str
  a_name :: str
  a_email_address :: str
  a_provider :: str
  a_imap_host :: str
  a_imap_port :: int
  a_auth_type :: AuthType
  a_credentials :: "str option"
  a_imap_user :: "str option"
  a_tls_type :: str
  a_maildir_path :: str
  a_sync_schedule :: "str option"
  a_extra_config :: "json_text option"
  a_sync_state :: SyncState
  a_last_sync_at :: "datetime option"
  a_last_error :: "str option"
  a_total_messages :: int
  a_unread_messages :: int
  a_maildir_size_bytes :: int
  a_folder_stats :: "str option"
  a_traffic_date :: "int option"
  a_bytes_synced_today :: int
  a_daily_sync_budget_mb :: "int option"
  a_sync_paused_until :: "datetime option"
  a_pause_reason :: "str option"
  a_initial_sync_completed_at :: "datetime option"
  a_initial_sync_total_messages :: "int option"
  a_initial_sync_total_folders :: "int option"
  a_last_notified_state :: "str option"
  a_store_id :: str
  a_enabled :: bool
  a_suspended :: bool
  a_migrating :: bool
  a_created_at :: "datetime option"

definition is_authenticated :: "Account \<Rightarrow> bool" where
  "is_authenticated a = (\<not> (a_auth_type a = oauth2 \<and> \<not> truthy (a_credentials a)))"

record SyncJob =
  j_id :: str
  j_account_id :: str
  j_status :: JobStatus
  j_source :: str
  j_requested_at :: datetime
  j_started_at :: "datetime option"
  j_completed_at :: "datetime option"
  j_exit_code :: "int option"
  j_log :: "str option"
  j_log_path :: "str option"
  j_parsed_summary :: "str option"
  j_mbsync_version :: "str option"
  j_signal :: "str option"
  j_failure_kind :: "str option"

record BackupPolicy =
  bp_id :: str
  bp_account_id :: str
  bp_destination_id :: str
  bp_enabled :: bool
  bp_schedule :: str
  bp_retention_preset :: RetentionPreset
  bp_keep_daily :: "int option"
  bp_keep_weekly :: "int option"
  bp_keep_monthly :: "int option"
  bp_last_backup_at :: "datetime option"
  bp_last_run_at :: "datetime option"
  bp_last_successful_run_at :: "datetime option"
  bp_last_snapshot_count :: int
  bp_last_snapshot_at :: "datetime option"
  bp_last_status :: BackupStatus
  bp_last_error :: "str option"
  bp_created_at :: datetime

record BackupJob =
  bj_id :: str
  bj_policy_id :: str
  bj_account_id :: str
  bj_status :: JobStatus
  bj_source :: str
  bj_requested_at :: datetime
  bj_started_at :: "datetime option"
  bj_completed_at :: "datetime option"
  bj_failure_kind :: "str option"
  bj_log :: "str option"
  bj_snapshot_id :: "str option"
  bj_bytes_processed :: int
  bj_bytes_added :: int

record AppCredential =
  c_id :: str
  c_user_id :: str
  c_name :: str
  c_token_prefix :: str
  c_secret_hash :: str
  c_scopes :: str
  c_created_at :: datetime
  c_expires_at :: "datetime option"
  c_revoked_at :: "datetime option"
  c_last_used_at :: "datetime option"
  c_last_used_kind :: "str option"

record Group =
  g_id :: str
  g_name :: str
  g_owner_id :: str
  g_sso_sync :: bool
  g_created_at :: datetime

record Recovery =
  r_id :: str
  r_account_id :: str
  r_repository_id :: "str option"
  r_snapshot_id :: str
  r_snapshot_time :: "datetime option"
  r_restored_at :: "datetime option"
  r_restore_path :: str
  r_status :: RecoveryStatus
  r_error :: "str option"
  r_size_bytes :: "int option"
  r_kind :: RecoveryKind
  r_last_accessed_at :: datetime
  r_ttl_minutes :: "int option"

text \<open>The \<open>details\<close> of a background task: the errors and, on a run that ended, the users processed.\<close>

record TaskDetails =
  td_errors :: "str list"
  td_users_processed :: "nat option"

record BackgroundTask =
  t_id :: str
  t_task_type :: str
  t_status :: TaskStatus
  t_progress_current :: nat
  t_progress_total :: nat
  t_details :: "TaskDetails option"
  t_started_at :: "datetime option"
  t_completed_at :: "datetime option"
  t_requested_by :: "str option"
  t_created_at :: datetime

record StoreMigration =
  mg_id :: str
  mg_user_id :: "str option"
  mg_account_id :: "str option"
  mg_source_store_id :: str
  mg_target_store_id :: str
  mg_status :: MigrationStatus
  mg_total_files :: nat
  mg_copied_files :: nat
  mg_total_bytes :: nat
  mg_copied_bytes :: nat
  mg_error :: "str option"
  mg_started_at :: "datetime option"
  mg_completed_at :: "datetime option"
  mg_last_resumed_at :: "datetime option"
  mg_created_at :: datetime

record RestoreJob =
  rj_id :: str
  rj_source_account_id :: str
  rj_target_account_id :: str
  rj_status :: JobStatus
  rj_restore_mode :: RestoreMode
  rj_folder_mapping :: str
  rj_skip_duplicates :: bool
  rj_selected_folders :: "str list option"
  rj_selected_uids :: "(str \<times> str list) list option"
  rj_total_messages :: nat
  rj_restored_messages :: nat
  rj_skipped_messages :: nat
  rj_failed_messages :: nat
  rj_error :: "str option"
  rj_requested_by :: str
  rj_requested_at :: datetime
  rj_started_at :: "datetime option"
  rj_completed_at :: "datetime option"

record Repository =
  rp_id :: str
  rp_name :: str
  rp_backend_type :: BackendType
  rp_s3_endpoint :: "str option"
  rp_s3_bucket :: "str option"
  rp_s3_access_key :: "str option"
  rp_s3_secret_key :: "str option"
  rp_local_path :: "str option"
  rp_restic_password :: str
  rp_insecure_tls :: bool
  rp_config_backup_enabled :: bool
  rp_config_backup_passphrase :: "str option"
  rp_last_config_backup_at :: "datetime option"
  rp_last_config_backup_status :: "str option"
  rp_last_config_backup_error :: "str option"
  rp_created_at :: datetime

record RepositoryAttachment =
  ra_id :: str
  ra_repository_id :: str
  ra_account_id :: str
  ra_prefix :: str
  ra_restic_password :: "str option"
  ra_created_at :: datetime

record StagingArea =
  sa_id :: str
  sa_user_id :: str
  sa_created_at :: datetime
  sa_expires_at :: datetime
  sa_max_bytes :: nat
  sa_bytes_used :: nat

record StagingMessage =
  sg_id :: str
  sg_staging_id :: str
  sg_source_account_id :: str
  sg_message_id_hash :: str
  sg_original_folder :: str
  sg_staged_filename :: str
  sg_size_bytes :: nat
  sg_staged_at :: datetime

record MailIndexMessage =
  mi_account_id :: str
  mi_message_id_hash :: str
  mi_message_id :: str
  mi_date_sent :: "datetime option"
  mi_from_addr :: "str option"
  mi_from_name :: "str option"
  mi_subject :: "str option"
  mi_to_addrs :: "str list"
  mi_cc_addrs :: "str list"
  mi_bcc_addrs :: "str list"
  mi_folder_path :: str
  mi_maildir_filename :: str
  mi_size_bytes :: "nat option"
  mi_first_seen_at :: datetime
  mi_last_seen_at :: datetime
  mi_deleted_at :: "datetime option"
  mi_has_attachments :: bool
  mi_attachments_indexed_at :: "datetime option"
  mi_recipients_indexed_at :: "datetime option"

record SnapshotMessage =
  sn_snapshot_id :: str
  sn_account_id :: str
  sn_message_id_hash :: str

section \<open>Constructors with the column defaults\<close>

definition new_account ::
  "str \<Rightarrow> str \<Rightarrow> str \<Rightarrow> str \<Rightarrow> str \<Rightarrow> int \<Rightarrow> AuthType \<Rightarrow> str option \<Rightarrow> str \<Rightarrow> str \<Rightarrow> str option \<Rightarrow> datetime \<Rightarrow> Account"
where
  "new_account i name email provider host port auth creds store maildir schedule now =
    \<lparr> a_id = i, a_name = name, a_email_address = email, a_provider = provider,
      a_imap_host = host, a_imap_port = port, a_auth_type = auth, a_credentials = creds,
      a_imap_user = None, a_tls_type = ''IMAPS'', a_maildir_path = maildir,
      a_sync_schedule = schedule, a_extra_config = None, a_sync_state = SS_idle,
      a_last_sync_at = None, a_last_error = None, a_total_messages = 0, a_unread_messages = 0,
      a_maildir_size_bytes = 0, a_folder_stats = None, a_traffic_date = None,
      a_bytes_synced_today = 0, a_daily_sync_budget_mb = None, a_sync_paused_until = None,
      a_pause_reason = None, a_initial_sync_completed_at = None,
      a_initial_sync_total_messages = None, a_initial_sync_total_folders = None,
      a_last_notified_state = None, a_store_id = store, a_enabled = True, a_suspended = False,
      a_migrating = False, a_created_at = Some now \<rparr>"

definition new_user :: "str \<Rightarrow> str \<Rightarrow> str option \<Rightarrow> UserRole \<Rightarrow> str \<Rightarrow> datetime \<Rightarrow> User" where
  "new_user i username pwhash role store now =
    \<lparr> u_id = i, u_username = username, u_password_hash = pwhash, u_role = role,
      u_oidc_subject = None, u_enabled = True, u_created_at = now, u_store_id = store,
      u_migrating = False, u_preferences = [] \<rparr>"

definition new_sync_job :: "str \<Rightarrow> str \<Rightarrow> str \<Rightarrow> datetime \<Rightarrow> SyncJob" where
  "new_sync_job i account_id source now =
    \<lparr> j_id = i, j_account_id = account_id, j_status = pending, j_source = source,
      j_requested_at = now, j_started_at = None, j_completed_at = None, j_exit_code = None,
      j_log = None, j_log_path = None, j_parsed_summary = None, j_mbsync_version = None,
      j_signal = None, j_failure_kind = None \<rparr>"

lemma new_sync_job_simps [simp]:
  "j_id (new_sync_job i a s t) = i"
  "j_account_id (new_sync_job i a s t) = a"
  "j_status (new_sync_job i a s t) = pending"
  "j_source (new_sync_job i a s t) = s"
  "j_requested_at (new_sync_job i a s t) = t"
  "j_started_at (new_sync_job i a s t) = None"
  "j_completed_at (new_sync_job i a s t) = None"
  by (simp_all add: new_sync_job_def)

section \<open>Constants\<close>

text \<open>\<open>constants.py\<close>: the message the worker leaves on an account whose refresh token is rejected.\<close>

definition TOKEN_REFRESH_FAILED :: str where
  "TOKEN_REFRESH_FAILED = ''Failed to refresh OAuth2 token''"

section \<open>Module-level state of the workers\<close>

text \<open>
  A subprocess handle: the exit status \<open>Popen.poll\<close> returns, and whether the process exits
  within the grace period after SIGTERM (the operating system's answer to \<open>proc.wait\<close>).
\<close>

record Popen =
  p_returncode :: "int option"
  p_exits_on_term :: bool

text \<open>The result of \<open>sync_budget.estimate_eta\<close> and one entry of \<open>_live_progress\<close>.\<close>

record Eta =
  eta_seconds :: "int option"
  eta_days :: "rat option"
  eta_label :: "str option"

record LiveProgress =
  lp_account_id :: str
  lp_done_msgs :: int
  lp_done_bytes :: int
  lp_run_msgs :: int
  lp_run_bytes :: int
  lp_bytes_today :: int
  lp_budget_bytes :: "int option"
  lp_pct :: "rat option"
  lp_eta :: Eta
  lp_rate_msgs_per_s :: rat
  lp_updated_ts :: datetime

record SyncRuntime =
  running_procs :: "str \<rightharpoonup> Popen"
  running_logs :: "str \<rightharpoonup> str list"
  killed_signals :: "str \<rightharpoonup> str"
  deadline_stops :: "str \<rightharpoonup> int"
  live_progress :: "(str \<times> LiveProgress) list"
  budget_stops :: "str set"

definition empty_sync_runtime :: SyncRuntime where
  "empty_sync_runtime =
    \<lparr> running_procs = Map.empty, running_logs = Map.empty, killed_signals = Map.empty,
      deadline_stops = Map.empty, live_progress = [], budget_stops = {} \<rparr>"

text \<open>
  \<open>_backup_progress\<close> (only the heartbeat is read by the watchdog) and
  \<open>_running_backup_procs\<close>.
\<close>

record BackupRuntime =
  backup_progress :: "str \<rightharpoonup> datetime"
  running_backup_procs :: "str \<rightharpoonup> Popen"

definition empty_backup_runtime :: BackupRuntime where
  "empty_backup_runtime = \<lparr> backup_progress = Map.empty, running_backup_procs = Map.empty \<rparr>"

text \<open>
  What \<open>_send_to_users\<close> hands to a daemon delivery thread: a plain copy of the channel, the
  message, and the plain account and details dictionaries of the JSON envelope. A duration is
  kept exact (the source rounds it to a tenth of a second for display).
\<close>

record AccountInfo =
  ai_id :: str
  ai_name :: str
  ai_email :: str
  ai_provider :: str
  ai_store :: "str option"

datatype json_val = J_null | J_int int | J_str str | J_time datetime | J_duration timedelta

record ChannelSnapshot =
  cs_id :: str
  cs_user_id :: str
  cs_apprise_url :: str
  cs_payload_format :: str
  cs_events :: "str list"

text \<open>An entry of \<open>_task_progress\<close> of background_tasks.py.\<close>

record TaskProgress =
  tp_total :: nat
  tp_current :: nat
  tp_user_statuses :: "(str \<times> str) list"
  tp_current_user :: str

record Notification =
  n_channel :: ChannelSnapshot
  n_event_key :: str
  n_title :: str
  n_body :: str
  n_account :: "AccountInfo option"
  n_details :: "(str \<times> json_val) list option"

section \<open>The world\<close>

record world =
  users :: "User list"
  mail_stores :: "MailStore list"
  account_owners :: "(str \<times> str) list"
  account_groups :: "(str \<times> str) list"
  group_members :: "(str \<times> str) list"
  channels :: "NotificationChannel list"
  accounts :: "Account list"
  sync_jobs :: "SyncJob list"
  backup_policies :: "BackupPolicy list"
  backup_jobs :: "BackupJob list"
  app_credentials :: "AppCredential list"
  groups :: "Group list"
  user_allowed_stores :: "(str \<times> str) list"
  recoveries :: "Recovery list"
  background_tasks :: "BackgroundTask list"
  task_progress :: "(str \<times> TaskProgress) list"
  sync_rt :: SyncRuntime
  backup_rt :: BackupRuntime
  outbox :: "Notification list"
  sync_queue :: "str list"
  store_migrations :: "StoreMigration list"
  migration_cancel_flags :: "str set"
  restore_jobs :: "RestoreJob list"
  restore_cancel_flags :: "str set"
  restore_queue :: "str list"
  repositories :: "Repository list"
  user_allowed_repositories :: "(str \<times> str) list"
  repo_attachments :: "RepositoryAttachment list"
  staging_areas :: "StagingArea list"
  staging_messages :: "StagingMessage list"
  index_messages :: "MailIndexMessage list"
  snapshot_messages :: "SnapshotMessage list"

definition empty_world :: world where
  "empty_world =
    \<lparr> users = [], mail_stores = [], account_owners = [], account_groups = [],
      group_members = [], channels = [], accounts = [], sync_jobs = [], backup_policies = [],
      backup_jobs = [], app_credentials = [], groups = [], user_allowed_stores = [], recoveries = [],
      background_tasks = [], task_progress = [], sync_rt = empty_sync_runtime,
      backup_rt = empty_backup_runtime, outbox = [], sync_queue = [],
      store_migrations = [],
      migration_cancel_flags = {},
      restore_jobs = [],
      restore_cancel_flags = {},
      restore_queue = [],
      repositories = [],
      user_allowed_repositories = [],
      repo_attachments = [],
      staging_areas = [],
      staging_messages = [],
      index_messages = [],
      snapshot_messages = [] \<rparr>"

text \<open>Row lookups and attribute assignments by primary key.\<close>

abbreviation get_account :: "world \<Rightarrow> str \<Rightarrow> Account option" where
  "get_account w \<equiv> row a_id (accounts w)"

abbreviation get_sync_job :: "world \<Rightarrow> str \<Rightarrow> SyncJob option" where
  "get_sync_job w \<equiv> row j_id (sync_jobs w)"

abbreviation get_user :: "world \<Rightarrow> str \<Rightarrow> User option" where
  "get_user w \<equiv> row u_id (users w)"

definition upd_account :: "str \<Rightarrow> (Account \<Rightarrow> Account) \<Rightarrow> world \<Rightarrow> world" where
  "upd_account k f w = w\<lparr>accounts := set_row a_id k f (accounts w)\<rparr>"

definition upd_job :: "str \<Rightarrow> (SyncJob \<Rightarrow> SyncJob) \<Rightarrow> world \<Rightarrow> world" where
  "upd_job k f w = w\<lparr>sync_jobs := set_row j_id k f (sync_jobs w)\<rparr>"

definition upd_rt :: "(SyncRuntime \<Rightarrow> SyncRuntime) \<Rightarrow> world \<Rightarrow> world" where
  "upd_rt f w = w\<lparr>sync_rt := f (sync_rt w)\<rparr>"

text \<open>\<open>account.owners\<close>: the owners that exist, in the order of the association table.\<close>

definition owners :: "world \<Rightarrow> Account \<Rightarrow> User list" where
  "owners w a =
     concat (map (\<lambda>p. filter (\<lambda>u. u_id u = snd p) (users w))
       (filter (\<lambda>p. fst p = a_id a) (account_owners w)))"

lemma upd_account_simps [simp]:
  "users (upd_account k f w) = users w"
  "mail_stores (upd_account k f w) = mail_stores w"
  "account_owners (upd_account k f w) = account_owners w"
  "account_groups (upd_account k f w) = account_groups w"
  "group_members (upd_account k f w) = group_members w"
  "channels (upd_account k f w) = channels w"
  "accounts (upd_account k f w) = set_row a_id k f (accounts w)"
  "sync_jobs (upd_account k f w) = sync_jobs w"
  "backup_policies (upd_account k f w) = backup_policies w"
  "backup_jobs (upd_account k f w) = backup_jobs w"
  "app_credentials (upd_account k f w) = app_credentials w"
  "groups (upd_account k f w) = groups w"
  "user_allowed_stores (upd_account k f w) = user_allowed_stores w"
  "recoveries (upd_account k f w) = recoveries w"
  "background_tasks (upd_account k f w) = background_tasks w"
  "task_progress (upd_account k f w) = task_progress w"
  "sync_rt (upd_account k f w) = sync_rt w"
  "backup_rt (upd_account k f w) = backup_rt w"
  "outbox (upd_account k f w) = outbox w"
  "sync_queue (upd_account k f w) = sync_queue w"
  "store_migrations (upd_account k f w) = store_migrations w"
  "migration_cancel_flags (upd_account k f w) = migration_cancel_flags w"
  "restore_jobs (upd_account k f w) = restore_jobs w"
  "restore_cancel_flags (upd_account k f w) = restore_cancel_flags w"
  "restore_queue (upd_account k f w) = restore_queue w"
  "repositories (upd_account k f w) = repositories w"
  "user_allowed_repositories (upd_account k f w) = user_allowed_repositories w"
  "repo_attachments (upd_account k f w) = repo_attachments w"
  "staging_areas (upd_account k f w) = staging_areas w"
  "staging_messages (upd_account k f w) = staging_messages w"
  "index_messages (upd_account k f w) = index_messages w"
  "snapshot_messages (upd_account k f w) = snapshot_messages w"
  by (simp_all add: upd_account_def)

lemma upd_job_simps [simp]:
  "users (upd_job k g w) = users w"
  "mail_stores (upd_job k g w) = mail_stores w"
  "account_owners (upd_job k g w) = account_owners w"
  "account_groups (upd_job k g w) = account_groups w"
  "group_members (upd_job k g w) = group_members w"
  "channels (upd_job k g w) = channels w"
  "accounts (upd_job k g w) = accounts w"
  "sync_jobs (upd_job k g w) = set_row j_id k g (sync_jobs w)"
  "backup_policies (upd_job k g w) = backup_policies w"
  "backup_jobs (upd_job k g w) = backup_jobs w"
  "app_credentials (upd_job k g w) = app_credentials w"
  "groups (upd_job k g w) = groups w"
  "user_allowed_stores (upd_job k g w) = user_allowed_stores w"
  "recoveries (upd_job k g w) = recoveries w"
  "background_tasks (upd_job k g w) = background_tasks w"
  "task_progress (upd_job k g w) = task_progress w"
  "sync_rt (upd_job k g w) = sync_rt w"
  "backup_rt (upd_job k g w) = backup_rt w"
  "outbox (upd_job k g w) = outbox w"
  "sync_queue (upd_job k g w) = sync_queue w"
  "store_migrations (upd_job k g w) = store_migrations w"
  "migration_cancel_flags (upd_job k g w) = migration_cancel_flags w"
  "restore_jobs (upd_job k g w) = restore_jobs w"
  "restore_cancel_flags (upd_job k g w) = restore_cancel_flags w"
  "restore_queue (upd_job k g w) = restore_queue w"
  "repositories (upd_job k g w) = repositories w"
  "user_allowed_repositories (upd_job k g w) = user_allowed_repositories w"
  "repo_attachments (upd_job k g w) = repo_attachments w"
  "staging_areas (upd_job k g w) = staging_areas w"
  "staging_messages (upd_job k g w) = staging_messages w"
  "index_messages (upd_job k g w) = index_messages w"
  "snapshot_messages (upd_job k g w) = snapshot_messages w"
  by (simp_all add: upd_job_def)

lemma upd_rt_simps [simp]:
  "users (upd_rt h w) = users w"
  "mail_stores (upd_rt h w) = mail_stores w"
  "account_owners (upd_rt h w) = account_owners w"
  "account_groups (upd_rt h w) = account_groups w"
  "group_members (upd_rt h w) = group_members w"
  "channels (upd_rt h w) = channels w"
  "accounts (upd_rt h w) = accounts w"
  "sync_jobs (upd_rt h w) = sync_jobs w"
  "backup_policies (upd_rt h w) = backup_policies w"
  "backup_jobs (upd_rt h w) = backup_jobs w"
  "app_credentials (upd_rt h w) = app_credentials w"
  "groups (upd_rt h w) = groups w"
  "user_allowed_stores (upd_rt h w) = user_allowed_stores w"
  "recoveries (upd_rt h w) = recoveries w"
  "background_tasks (upd_rt h w) = background_tasks w"
  "task_progress (upd_rt h w) = task_progress w"
  "sync_rt (upd_rt h w) = h (sync_rt w)"
  "backup_rt (upd_rt h w) = backup_rt w"
  "outbox (upd_rt h w) = outbox w"
  "sync_queue (upd_rt h w) = sync_queue w"
  "store_migrations (upd_rt h w) = store_migrations w"
  "migration_cancel_flags (upd_rt h w) = migration_cancel_flags w"
  "restore_jobs (upd_rt h w) = restore_jobs w"
  "restore_cancel_flags (upd_rt h w) = restore_cancel_flags w"
  "restore_queue (upd_rt h w) = restore_queue w"
  "repositories (upd_rt h w) = repositories w"
  "user_allowed_repositories (upd_rt h w) = user_allowed_repositories w"
  "repo_attachments (upd_rt h w) = repo_attachments w"
  "staging_areas (upd_rt h w) = staging_areas w"
  "staging_messages (upd_rt h w) = staging_messages w"
  "index_messages (upd_rt h w) = index_messages w"
  "snapshot_messages (upd_rt h w) = snapshot_messages w"
  by (simp_all add: upd_rt_def)

lemma owners_cong:
  "account_owners w' = account_owners w \<Longrightarrow> users w' = users w \<Longrightarrow> owners w' a = owners w a"
  by (simp add: owners_def)

lemma owners_id: "a_id a = a_id b \<Longrightarrow> owners w a = owners w b"
  by (simp add: owners_def)

end
