(* ===== verification/Sync_Progress.thy ===== *)
theory Sync_Progress
  imports Regex Models
begin

text \<open>
  \<open>services/sync_progress.py\<close>: the parser of mbsync's output and the classification of error
  texts. The chain of \<open>if m: ...; continue\<close> in \<open>parse_mbsync_lines\<close> is the list \<open>handlers\<close>,
  tried in order on each stripped line; the local variables of the loop are the last two fields
  of the snapshot (its \<open>events\<close> list is never written by the source and left out). The folder object the source aliases between \<open>current_folder\<close>,
  \<open>folder_by_name\<close> and \<open>per_folder\<close> is the row of \<open>per_folder\<close> with the current name.
\<close>

section \<open>Error categories\<close>

definition UNKNOWN_ERROR_MESSAGE :: str where
  "UNKNOWN_ERROR_MESSAGE = ''The last sync failed.''"

definition any_of :: "str list \<Rightarrow> rx" where
  "any_of ls = alts (map LitI ls)"

definition ERROR_CATEGORIES :: "(rx \<times> str \<times> str \<times> str) list" where
  "ERROR_CATEGORIES =
    [(seq [LitI ''exceeded the '', plus visible, LitI '' runtime cap''], ''runtime_cap'',
      ''The sync ran past its time limit and was stopped. The next sync continues where it left off.'', ''retry''),
     (LitI ''Sync timed out after'', ''timeout'',
      ''The sync took too long and was stopped. The next sync continues where it left off.'', ''retry''),
     (LitI ''private/internal addresses are not allowed'', ''internal_host'',
      ''The IMAP host points to a private network address, which MFB refuses to connect to.'', ''admin''),
     (LitI ''Host could not be resolved'', ''unresolved_host'', ''Couldn't find the IMAP host.'', ''admin''),
     (Lit TOKEN_REFRESH_FAILED, ''token_refresh'',
      ''Couldn't refresh the sign-in. It retries on the next sync.'', ''reauth''),
     (any_of [''AUTHENTICATIONFAILED'', ''LOGIN failed'', ''Invalid credentials'', ''authentication failed''],
      ''auth'', ''The server rejected the sign-in.'', ''reauth''),
     (any_of [''Connection refused'', ''could not connect'', ''connection timed out'', ''getaddrinfo'',
              ''Name or service not known''],
      ''network'', ''Couldn't reach the mail server.'', ''retry''),
     (any_of [''SSL'', ''TLS error'', ''certificate'', ''handshake''],
      ''tls'', ''Couldn't set up an encrypted connection.'', ''retry''),
     (any_of [''Permission denied'', ''No space'', ''disk full'', ''I/O error'', ''read-only''],
      ''disk'', ''Couldn't write to the mail store.'', ''admin''),
     (any_of [''Too many connections'', ''OVERQUOTA'', ''throttl''],
      ''rate_limit'', ''The server is limiting connections.'', ''retry''),
     (any_of [''not configured'', ''configuration'', ''syntax error''],
      ''config'', ''The sync configuration has an error.'', ''admin''),
     (alts [LitI ''protocol error'', seq [LitI ''mailbox '', Star any_char, LitI '' unavailable''],
            seq [LitI ''BYE '', Star any_char, LitI '' closing'']],
      ''server'', ''The mail server returned an error.'', ''admin'')]"

fun first_category :: "(rx \<times> str \<times> str \<times> str) list \<Rightarrow> str \<Rightarrow> str \<times> str \<times> str" where
  "first_category [] text = (''unknown'', UNKNOWN_ERROR_MESSAGE, ''none'')"
| "first_category ((pattern, category, user_msg, action) # cs) text =
     (if re_search pattern text \<noteq> None then (category, user_msg, action) else first_category cs text)"

definition classify_error :: "str \<Rightarrow> str \<times> str \<times> str" where
  "classify_error text = first_category ERROR_CATEGORIES text"

definition CATEGORY_MESSAGES :: "str \<rightharpoonup> str" where
  "CATEGORY_MESSAGES = map_of (rev (map (\<lambda>(_, category, msg, _). (category, msg)) ERROR_CATEGORIES))"

definition error_category :: "str option \<Rightarrow> str" where
  "error_category text = (if truthy text then fst (classify_error (the text)) else ''unknown'')"

definition describe_error :: "str option \<Rightarrow> bool \<Rightarrow> str" where
  "describe_error text app_pw =
     (if \<not> truthy text then UNKNOWN_ERROR_MESSAGE
      else
        let category = error_category text in
        if category = ''auth'' \<and> app_pw then ''The server rejected the password.''
        else (case CATEGORY_MESSAGES category of None \<Rightarrow> UNKNOWN_ERROR_MESSAGE | Some msg \<Rightarrow> msg))"

section \<open>The snapshot\<close>

datatype folder_phase = FP_opening | FP_loading | FP_pulling | FP_done

record FolderProgress =
  fp_name :: str
  fp_phase :: folder_phase
  fp_near :: "int option"
  fp_far :: "int option"
  fp_added_done :: int
  fp_added_total :: int
  fp_flagged_done :: int
  fp_flagged_total :: int
  fp_expunged_done :: int
  fp_expunged_total :: int

record ParsedError =
  pe_at_line :: nat
  pe_category :: str
  pe_user_message :: str
  pe_technical_detail :: str
  pe_actionable :: bool
  pe_action :: str

datatype sync_phase = PH_queued | PH_starting | PH_connecting | PH_authenticating | PH_listing | PH_syncing | PH_finalizing | PH_done | PH_error

record ProgressSnapshot =
  ps_phase :: sync_phase
  ps_current_channel :: "str option"
  ps_current_folder :: "str option"
  ps_connection_host :: "str option"
  ps_connection_ip :: "str option"
  ps_connection_port :: "int option"
  ps_auth_method :: "str option"
  ps_tls_info :: "str option"
  ps_folder_index :: nat
  ps_folder_total_estimate :: "int option"
  ps_folder_total_estimate_source :: "str option"
  ps_per_folder :: "FolderProgress list"
  ps_errors :: "ParsedError list"
  ps_warnings :: "str list"
  ps_summary :: "(str \<times> int) list option"
  ps_mbsync_version :: "str option"
  ps_raw_tail :: "str list"
  pl_folder :: "str option"
  pl_seen_synchronizing :: bool

definition empty_snapshot :: ProgressSnapshot where
  "empty_snapshot =
    \<lparr> ps_phase = PH_queued, ps_current_channel = None, ps_current_folder = None, ps_connection_host = None,
      ps_connection_ip = None, ps_connection_port = None, ps_auth_method = None, ps_tls_info = None,
      ps_folder_index = 0, ps_folder_total_estimate = None, ps_folder_total_estimate_source = None,
      ps_per_folder = [], ps_errors = [], ps_warnings = [], ps_summary = None, ps_mbsync_version = None,
      ps_raw_tail = [], pl_folder = None, pl_seen_synchronizing = False \<rparr>"

definition new_folder :: "str \<Rightarrow> FolderProgress" where
  "new_folder name =
    \<lparr> fp_name = name, fp_phase = FP_opening, fp_near = None, fp_far = None, fp_added_done = 0, fp_added_total = 0,
      fp_flagged_done = 0, fp_flagged_total = 0, fp_expunged_done = 0, fp_expunged_total = 0 \<rparr>"

text \<open>An assignment to the current folder, when there is one.\<close>

definition upd_folder :: "(FolderProgress \<Rightarrow> FolderProgress) \<Rightarrow> ProgressSnapshot \<Rightarrow> ProgressSnapshot" where
  "upd_folder f s =
     (case pl_folder s of None \<Rightarrow> s | Some n \<Rightarrow> s\<lparr>ps_per_folder := set_row fp_name n f (ps_per_folder s)\<rparr>)"

section \<open>One line\<close>

definition RE_VERSION :: rx where "RE_VERSION = seq [Lit ''isync '', Grp 1 (plus visible)]"
definition RE_CHANNEL :: rx where "RE_CHANNEL = seq [Lit ''Channel '', Grp 1 (plus visible)]"
definition RE_RESOLVING :: rx where "RE_RESOLVING = seq [Lit ''Resolving '', Grp 1 (plus visible)]"
definition RE_CONNECTING :: rx where
  "RE_CONNECTING = seq [Lit ''Connecting to '', Grp 1 (plus visible), Lit '' ('', Grp 2 (plus any_char), Lit '':'',
     number 3, Lit '')'']"
definition RE_TLS :: rx where "RE_TLS = Lit ''Connection is now encrypted''"
definition RE_AUTH_SASL :: rx where
  "RE_AUTH_SASL = seq [Lit ''Authenticating with SASL mechanism '', Grp 1 (plus word_char)]"
definition RE_AUTH_LOGIN :: rx where
  "RE_AUTH_LOGIN = seq [Lit ''Logging in as '', plus visible, Lit '' ('', Grp 1 (plus visible), Lit '')'']"
definition RE_FOLDER_OPEN :: rx where
  "RE_FOLDER_OPEN = seq [Lit ''Opening far side box '', Grp 1 (plus any_char), Lit ''...'']"

text \<open>\<open>messages?\<close>: the plural is tried first.\<close>

definition count_of :: "str \<Rightarrow> rx" where
  "count_of side = seq [Lit (side @ '' side: ''), number 1, Lit '' message'', Alt (Lit ''s'') Eps, Lit '', '', number 2,
     Lit '' recent'']"
definition RE_SYNCHRONIZING :: rx where "RE_SYNCHRONIZING = Lit ''Synchronizing...''"
definition progress_of :: "str \<Rightarrow> rx" where
  "progress_of side = seq [Lit (side @ '': +''), number 1, Lit ''/'', number 2, Lit '' *'', number 3, Lit ''/'', number 4,
     Lit '' #'', number 5, Lit ''/'', number 6]"
definition RE_PULLING :: rx where "RE_PULLING = seq [Lit ''Pulling new message '', number 1, Lit ''/'', number 2]"
definition RE_SUMMARY :: rx where
  "RE_SUMMARY = seq
     [Lit ''Channels:'', plus is_space, number 1, plus is_space, Lit ''Boxes:'', plus is_space, number 2, plus is_space,
      Lit ''Far:'', plus is_space, Lit ''+'', number 3, plus is_space, Lit ''*'', number 4, plus is_space, Lit ''#'', number 5,
      plus is_space, Lit ''-'', number 6, plus is_space,
      Lit ''Near:'', plus is_space, Lit ''+'', number 7, plus is_space, Lit ''*'', number 8, plus is_space, Lit ''#'', number 9,
      plus is_space, Lit ''-'', number 10]"
definition labelled :: "str list \<Rightarrow> rx" where
  "labelled ls = seq [any_of ls, plus (\<lambda>c. c = CHR '':'' \<or> is_space c), Grp 1 (Star any_char)]"
definition RE_WARNING :: rx where "RE_WARNING = labelled [''Warning'', ''Maildir error'']"
definition RE_ERROR_LINE :: rx where "RE_ERROR_LINE = labelled [''Error'', ''IMAP error'']"

type_synonym handler = "nat \<Rightarrow> str \<Rightarrow> ProgressSnapshot \<Rightarrow> ProgressSnapshot option"

text \<open>\<open>m = pattern...(line); if m: ...; continue\<close>, and the variant that also asks for a current folder.\<close>

definition on_groups :: "groups option \<Rightarrow> (groups \<Rightarrow> ProgressSnapshot \<Rightarrow> ProgressSnapshot) \<Rightarrow> ProgressSnapshot \<Rightarrow> ProgressSnapshot option" where
  "on_groups m f s = map_option (\<lambda>g. f g s) m"

definition on_folder :: "groups option \<Rightarrow> (groups \<Rightarrow> FolderProgress \<Rightarrow> FolderProgress) \<Rightarrow> ProgressSnapshot \<Rightarrow> ProgressSnapshot option" where
  "on_folder m f s = (if pl_folder s = None then None else map_option (\<lambda>g. upd_folder (f g) s) m)"

definition open_folder :: "str \<Rightarrow> ProgressSnapshot \<Rightarrow> ProgressSnapshot" where
  "open_folder name s =
     (let folders = (if name \<in> fp_name ` set (ps_per_folder s) then ps_per_folder s
                     else ps_per_folder s @ [new_folder name]);
          folders = set_row fp_name name (\<lambda>f. f\<lparr>fp_phase := FP_loading\<rparr>) folders
      in s\<lparr>ps_per_folder := folders, pl_folder := Some name, ps_current_folder := Some name,
           ps_folder_index := length folders,
           ps_phase := (if pl_seen_synchronizing s then PH_syncing else PH_listing)\<rparr>)"

definition far_progress :: "groups \<Rightarrow> FolderProgress \<Rightarrow> FolderProgress" where
  "far_progress g f = f\<lparr>fp_added_done := grp_int g 1, fp_added_total := grp_int g 2, fp_flagged_done := grp_int g 3,
     fp_flagged_total := grp_int g 4, fp_expunged_done := grp_int g 5, fp_expunged_total := grp_int g 6,
     fp_phase := FP_pulling\<rparr>"

definition near_progress :: "groups \<Rightarrow> FolderProgress \<Rightarrow> FolderProgress" where
  "near_progress g f =
     (if grp_int g 1 > fp_added_done f then f\<lparr>fp_added_done := grp_int g 1, fp_added_total := grp_int g 2\<rparr> else f)"

definition pulling :: "groups \<Rightarrow> FolderProgress \<Rightarrow> FolderProgress" where
  "pulling g f = f\<lparr>fp_added_done := grp_int g 1, fp_added_total := grp_int g 2, fp_phase := FP_pulling\<rparr>"

definition summarise :: "groups \<Rightarrow> ProgressSnapshot \<Rightarrow> ProgressSnapshot" where
  "summarise g s = s\<lparr>
     ps_summary := Some [(''channels'', grp_int g 1), (''boxes'', grp_int g 2), (''far_added'', grp_int g 3),
       (''far_flagged'', grp_int g 4), (''far_expunged'', grp_int g 5), (''far_deleted'', grp_int g 6),
       (''near_added'', grp_int g 7), (''near_flagged'', grp_int g 8), (''near_expunged'', grp_int g 9),
       (''near_deleted'', grp_int g 10)],
     ps_folder_total_estimate := Some (grp_int g 2), ps_folder_total_estimate_source := Some ''summary'',
     ps_phase := PH_done\<rparr>"

definition add_error :: "nat \<Rightarrow> str \<Rightarrow> str \<Rightarrow> ProgressSnapshot \<Rightarrow> ProgressSnapshot" where
  "add_error i line error_text s =
     (case classify_error error_text of
        (cat, user_msg, action) \<Rightarrow>
          s\<lparr>ps_errors := ps_errors s @ [\<lparr>pe_at_line = i, pe_category = cat, pe_user_message = user_msg,
              pe_technical_detail = line, pe_actionable = (action \<noteq> ''none''), pe_action = action\<rparr>],
            ps_phase := (if ps_phase s \<noteq> PH_done then PH_error else ps_phase s)\<rparr>)"

definition rstrip_dots :: "str \<Rightarrow> str" where
  "rstrip_dots s = rev (dropWhile (\<lambda>c. c = CHR ''.'') (rev s))"

definition connection_handlers :: "handler list" where
  "connection_handlers =
    [\<lambda>i line. on_groups (re_match RE_VERSION line) (\<lambda>g s. s\<lparr>ps_mbsync_version := Some (grp g 1)\<rparr>),
     \<lambda>i line. on_groups (re_match RE_CHANNEL line) (\<lambda>g s. s\<lparr>ps_current_channel := Some (grp g 1)\<rparr>),
     \<lambda>i line. on_groups (re_match RE_RESOLVING line)
       (\<lambda>g s. s\<lparr>ps_connection_host := Some (rstrip_dots (grp g 1)), ps_phase := PH_connecting\<rparr>),
     \<lambda>i line. on_groups (re_match RE_CONNECTING line)
       (\<lambda>g s. s\<lparr>ps_connection_host := Some (grp g 1), ps_connection_ip := Some (grp g 2),
                ps_connection_port := Some (grp_int g 3), ps_phase := PH_connecting\<rparr>),
     \<lambda>i line. on_groups (re_search RE_TLS line) (\<lambda>g s. s\<lparr>ps_tls_info := Some ''encrypted''\<rparr>),
     \<lambda>i line. on_groups (re_search RE_AUTH_SASL line)
       (\<lambda>g s. s\<lparr>ps_auth_method := Some (grp g 1), ps_phase := PH_authenticating\<rparr>),
     \<lambda>i line. on_groups (re_search RE_AUTH_LOGIN line)
       (\<lambda>g s. s\<lparr>ps_auth_method := Some (grp g 1), ps_phase := PH_authenticating\<rparr>),
     \<lambda>i line. on_groups (if line = ''Logging in...'' then Some [] else None) (\<lambda>g s. s\<lparr>ps_phase := PH_authenticating\<rparr>)]"

definition open_handler :: handler where
  "open_handler i line = on_groups (re_match RE_FOLDER_OPEN line) (\<lambda>g. open_folder (grp g 1))"

definition folder_handlers :: "handler list" where
  "folder_handlers =
    [\<lambda>i line. on_folder (re_search (count_of ''far'') line) (\<lambda>g f. f\<lparr>fp_far := Some (grp_int g 1)\<rparr>),
     \<lambda>i line. on_folder (re_search (count_of ''near'') line) (\<lambda>g f. f\<lparr>fp_near := Some (grp_int g 1)\<rparr>),
     \<lambda>i line. on_groups (re_match RE_SYNCHRONIZING line)
       (\<lambda>g s. (upd_folder (\<lambda>f. f\<lparr>fp_phase := FP_done\<rparr>) s)\<lparr>pl_seen_synchronizing := True, ps_phase := PH_syncing\<rparr>),
     \<lambda>i line. on_folder (re_match (progress_of ''F'') line) far_progress,
     \<lambda>i line. on_folder (re_match (progress_of ''N'') line) near_progress,
     \<lambda>i line. on_folder (re_search RE_PULLING line) pulling,
     \<lambda>i line. on_groups (re_search RE_SUMMARY line) summarise,
     \<lambda>i line. on_groups (re_match RE_WARNING line) (\<lambda>g s. s\<lparr>ps_warnings := ps_warnings s @ [grp g 1]\<rparr>),
     \<lambda>i line. on_groups (re_match RE_ERROR_LINE line) (\<lambda>g. add_error i line (grp g 1))]"

definition handlers :: "handler list" where
  "handlers = connection_handlers @ open_handler # folder_handlers"

fun first_handler :: "handler list \<Rightarrow> nat \<Rightarrow> str \<Rightarrow> ProgressSnapshot \<Rightarrow> ProgressSnapshot" where
  "first_handler [] i line s = s"
| "first_handler (h # hs) i line s = (case h i line s of Some s' \<Rightarrow> s' | None \<Rightarrow> first_handler hs i line s)"

definition parse_line :: "nat \<times> str \<Rightarrow> ProgressSnapshot \<Rightarrow> ProgressSnapshot" where
  "parse_line il s =
     (let line = strip (snd il) in if line = [] then s else first_handler handlers (fst il) line s)"

definition start_snapshot :: "int option \<Rightarrow> str list \<Rightarrow> ProgressSnapshot" where
  "start_snapshot prior_folder_count lines =
     (let s = empty_snapshot\<lparr>ps_raw_tail := drop (length lines - 20) lines, ps_phase := PH_starting\<rparr>
      in case prior_folder_count of
           None \<Rightarrow> s
         | Some n \<Rightarrow> s\<lparr>ps_folder_total_estimate := Some n, ps_folder_total_estimate_source := Some ''previous_sync''\<rparr>)"

definition parse_mbsync_lines :: "str list \<Rightarrow> int option \<Rightarrow> ProgressSnapshot" where
  "parse_mbsync_lines lines prior_folder_count =
     (if lines = [] then empty_snapshot
      else fold parse_line (enumerate 0 lines) (start_snapshot prior_folder_count lines))"

section \<open>The folder list\<close>

text \<open>The box a line opens: no earlier handler takes the line.\<close>

definition announced :: "str \<Rightarrow> str option" where
  "announced raw =
     (let line = strip raw in
      if line = [] \<or> re_match RE_VERSION line \<noteq> None \<or> re_match RE_CHANNEL line \<noteq> None
         \<or> re_match RE_RESOLVING line \<noteq> None \<or> re_match RE_CONNECTING line \<noteq> None \<or> re_search RE_TLS line \<noteq> None
         \<or> re_search RE_AUTH_SASL line \<noteq> None \<or> re_search RE_AUTH_LOGIN line \<noteq> None \<or> line = ''Logging in...''
      then None else map_option (\<lambda>g. grp g 1) (re_match RE_FOLDER_OPEN line))"

definition add_name :: "str option \<Rightarrow> str list \<Rightarrow> str list" where
  "add_name x ns = (case x of None \<Rightarrow> ns | Some n \<Rightarrow> if n \<in> set ns then ns else ns @ [n])"

definition folder_names :: "ProgressSnapshot \<Rightarrow> str list" where
  "folder_names s = map fp_name (ps_per_folder s)"

definition folders_ok :: "ProgressSnapshot \<Rightarrow> bool" where
  "folders_ok s = (distinct (folder_names s) \<and> ps_folder_index s = length (folder_names s)
     \<and> ps_current_folder s = pl_folder s
     \<and> (case pl_folder s of None \<Rightarrow> ps_per_folder s = [] | Some n \<Rightarrow> n \<in> set (folder_names s)))"

lemma progress_names [simp]:
  "fp_name (far_progress g f) = fp_name f" "fp_name (near_progress g f) = fp_name f" "fp_name (pulling g f) = fp_name f"
  by (simp_all add: far_progress_def near_progress_def pulling_def)

lemma upd_folder_simps:
  assumes "\<And>x. fp_name (f x) = fp_name x"
  shows "folder_names (upd_folder f s) = folder_names s" "pl_folder (upd_folder f s) = pl_folder s"
    "ps_current_folder (upd_folder f s) = ps_current_folder s" "ps_folder_index (upd_folder f s) = ps_folder_index s"
    "length (ps_per_folder (upd_folder f s)) = length (ps_per_folder s)"
  by (simp_all add: upd_folder_def folder_names_def map_set_row assms split: option.split)

lemma folders_ok_upd:
  assumes "folder_names s' = folder_names s" "pl_folder s' = pl_folder s"
    "ps_current_folder s' = ps_current_folder s" "ps_folder_index s' = ps_folder_index s"
  shows "folders_ok s' = folders_ok s"
proof -
  have "ps_per_folder s' = [] \<longleftrightarrow> ps_per_folder s = []"
    using assms(1) by (metis folder_names_def map_is_Nil_conv)
  then show ?thesis by (simp add: folders_ok_def assms split: option.split)
qed

lemma open_folder_names: "folder_names (open_folder n s) = add_name (Some n) (folder_names s)"
  by (auto simp: open_folder_def folder_names_def add_name_def map_set_row new_folder_def Let_def)

lemma open_folder_ok:
  assumes "folders_ok s"
  shows "folders_ok (open_folder n s)"
proof -
  have "ps_folder_index (open_folder n s) = length (ps_per_folder (open_folder n s))"
    "pl_folder (open_folder n s) = Some n" "ps_current_folder (open_folder n s) = Some n"
    by (simp_all add: open_folder_def Let_def)
  moreover have "length (ps_per_folder (open_folder n s)) = length (folder_names (open_folder n s))"
    by (simp add: folder_names_def)
  ultimately show ?thesis
    using assms unfolding folders_ok_def open_folder_names by (auto simp: add_name_def)
qed

text \<open>A handler that leaves the folder list, or changes only columns of the current folder.\<close>

definition keeps :: "(ProgressSnapshot \<Rightarrow> ProgressSnapshot option) \<Rightarrow> bool" where
  "keeps h = (\<forall>s s'. h s = Some s' \<longrightarrow> folder_names s' = folder_names s \<and> folders_ok s' = folders_ok s)"

definition same_folders :: "ProgressSnapshot \<Rightarrow> ProgressSnapshot \<Rightarrow> bool" where
  "same_folders s' s = (folder_names s' = folder_names s \<and> pl_folder s' = pl_folder s
     \<and> ps_current_folder s' = ps_current_folder s \<and> ps_folder_index s' = ps_folder_index s)"

lemma same_folders_keep: "same_folders s' s \<Longrightarrow> folder_names s' = folder_names s \<and> folders_ok s' = folders_ok s"
  unfolding same_folders_def using folders_ok_upd by blast

lemma keepsI: "(\<And>s s'. h s = Some s' \<Longrightarrow> same_folders s' s) \<Longrightarrow> keeps h"
  unfolding keeps_def using same_folders_keep by blast

lemma keeps_groups:
  assumes "\<And>g s. same_folders (f g s) s"
  shows "keeps (on_groups m f)"
proof (rule keepsI)
  fix s s' assume "on_groups m f s = Some s'"
  then obtain g where "s' = f g s" by (auto simp: on_groups_def)
  then show "same_folders s' s" using assms by simp
qed

lemma keeps_folder:
  assumes "\<And>g x. fp_name (f g x) = fp_name x"
  shows "keeps (on_folder m f)"
proof (rule keepsI)
  fix s s' assume "on_folder m f s = Some s'"
  then obtain g where "s' = upd_folder (f g) s" by (auto simp: on_folder_def split: if_splits)
  then show "same_folders s' s" by (simp add: same_folders_def upd_folder_simps assms)
qed

lemma first_handler_keeps:
  "\<forall>h \<in> set hs. keeps (h i line) \<Longrightarrow>
   folder_names (first_handler hs i line s) = folder_names s \<and> folders_ok (first_handler hs i line s) = folders_ok s"
  by (induction hs) (auto simp: keeps_def split: option.split)

lemma first_handler_append:
  "\<forall>h \<in> set hs. h i line s = None \<Longrightarrow> first_handler (hs @ hs') i line s = first_handler hs' i line s"
  by (induction hs) auto

lemma connection_handlers_keep: "\<forall>h \<in> set connection_handlers. keeps (h i line)"
  unfolding connection_handlers_def
  by (simp add: keeps_groups same_folders_def folder_names_def)

lemma folder_handlers_keep: "\<forall>h \<in> set folder_handlers. keeps (h i line)"
proof -
  have "same_folders (upd_folder (\<lambda>f. f\<lparr>fp_phase := FP_done\<rparr>) s) s" for s
    by (simp add: same_folders_def upd_folder_simps)
  then have "same_folders ((upd_folder (\<lambda>f. f\<lparr>fp_phase := FP_done\<rparr>) s)\<lparr>pl_seen_synchronizing := True, ps_phase := PH_syncing\<rparr>) s" for s
    by (simp add: same_folders_def folder_names_def)
  moreover have "same_folders (summarise g s) s" "same_folders (add_error i line t s) s" for g s t
    by (simp_all add: same_folders_def folder_names_def summarise_def add_error_def split: prod.split)
  moreover have "same_folders (s\<lparr>ps_warnings := ws\<rparr>) s" for s ws
    by (simp add: same_folders_def folder_names_def)
  ultimately show ?thesis
    unfolding folder_handlers_def by (simp add: keeps_groups keeps_folder)
qed

lemma announced_none:
  "announced raw = None \<longleftrightarrow> (let line = strip raw in line = [] \<or> (\<exists>h \<in> set connection_handlers. \<exists>s. h i line s \<noteq> None)
     \<or> re_match RE_FOLDER_OPEN line = None)"
  by (auto simp: announced_def Let_def connection_handlers_def on_groups_def)

lemma connection_handlers_none:
  "h \<in> set connection_handlers \<Longrightarrow> h i line s = None \<Longrightarrow> h i line t = None"
  by (auto simp: connection_handlers_def on_groups_def split: if_splits)

lemma first_handler_some:
  "\<exists>h \<in> set hs. h i line s \<noteq> None \<Longrightarrow> first_handler (hs @ hs') i line s = first_handler hs i line s"
  by (induction hs) (auto split: option.split)

lemma parse_line_folders:
  "folder_names (parse_line (i, raw) s) = add_name (announced raw) (folder_names s)"
  "folders_ok s \<Longrightarrow> folders_ok (parse_line (i, raw) s)"
proof -
  let ?l = "strip raw"
  let ?f = "first_handler handlers i ?l s"
  have "folder_names ?f = add_name (announced raw) (folder_names s) \<and> (folders_ok s \<longrightarrow> folders_ok ?f)"
    if "?l \<noteq> []"
  proof (cases "\<exists>h \<in> set connection_handlers. h i ?l s \<noteq> None")
    case True
    then have "announced raw = None" using announced_none [of raw i] by (auto simp: Let_def)
    with True show ?thesis
      using first_handler_keeps [OF connection_handlers_keep]
      by (simp add: handlers_def first_handler_some add_name_def)
  next
    case False
    then have f: "?f = first_handler (open_handler # folder_handlers) i ?l s"
      unfolding handlers_def using False by (intro first_handler_append) blast
    have quiet: "\<not> (\<exists>h \<in> set connection_handlers. \<exists>t. h i ?l t \<noteq> None)"
    proof clarify
      fix h t y assume h: "h \<in> set connection_handlers" "h i ?l t = Some y"
      from h(1) False have "h i ?l s = None" by blast
      from connection_handlers_none [OF h(1) this, of t] h(2) show False by simp
    qed
    show ?thesis
    proof (cases "re_match RE_FOLDER_OPEN ?l")
      case None
      then have "?f = first_handler folder_handlers i ?l s" "announced raw = None"
        using announced_none [of raw i] by (simp_all add: f open_handler_def on_groups_def Let_def)
      then show ?thesis
        using first_handler_keeps [OF folder_handlers_keep] by (simp add: add_name_def)
    next
      case (Some g)
      then have "?f = open_folder (grp g 1) s" by (simp add: f open_handler_def on_groups_def)
      moreover have "announced raw = Some (grp g 1)"
        using announced_none [of raw i] quiet that Some by (auto simp: announced_def Let_def)
      ultimately show ?thesis using open_folder_names open_folder_ok by simp
    qed
  qed
  then show "folder_names (parse_line (i, raw) s) = add_name (announced raw) (folder_names s)"
    "folders_ok s \<Longrightarrow> folders_ok (parse_line (i, raw) s)"
    by (auto simp: parse_line_def Let_def announced_def add_name_def)
qed

lemma parse_lines_folders:
  "folder_names (fold parse_line (enumerate n lines) s)
     = fold (\<lambda>l. add_name (announced l)) lines (folder_names s)
   \<and> (folders_ok s \<longrightarrow> folders_ok (fold parse_line (enumerate n lines) s))"
  by (induction lines arbitrary: n s) (simp_all add: parse_line_folders)

lemma fold_add_name:
  "fold (\<lambda>l. add_name (f l)) ls [] = rev (remdups (rev (List.map_filter f ls)))"
proof (induction ls rule: rev_induct)
  case (snoc l ls)
  have "List.map_filter f (ls @ [l]) = List.map_filter f ls @ (case f l of None \<Rightarrow> [] | Some n \<Rightarrow> [n])"
    by (simp add: List.map_filter_def split: option.split)
  moreover have "fold (\<lambda>l. add_name (f l)) (ls @ [l]) [] = add_name (f l) (rev (remdups (rev (List.map_filter f ls))))"
    by (simp add: snoc)
  ultimately show ?case by (cases "f l") (simp_all only:, simp_all add: add_name_def)
qed (simp add: List.map_filter_def)

lemma start_snapshot_folders:
  "folder_names (start_snapshot p ls) = []" "folders_ok (start_snapshot p ls)" "folders_ok empty_snapshot"
  by (simp_all add: start_snapshot_def empty_snapshot_def folder_names_def folders_ok_def Let_def split: option.split)

text \<open>
  The folder list of a snapshot is exactly the boxes mbsync opened, each once, in the order
  of their first opening, whatever else the log contains; the folder counter is its length and
  the current folder is one of them.
\<close>

lemma parsed_folders:
  "map fp_name (ps_per_folder (parse_mbsync_lines lines prior))
     = rev (remdups (rev (List.map_filter announced lines)))
   \<and> ps_folder_index (parse_mbsync_lines lines prior) = length (ps_per_folder (parse_mbsync_lines lines prior))
   \<and> (case ps_current_folder (parse_mbsync_lines lines prior) of
        None \<Rightarrow> ps_per_folder (parse_mbsync_lines lines prior) = []
      | Some n \<Rightarrow> n \<in> fp_name ` set (ps_per_folder (parse_mbsync_lines lines prior)))"
proof -
  let ?s = "parse_mbsync_lines lines prior"
  have "folders_ok ?s"
    using parse_lines_folders start_snapshot_folders by (simp add: parse_mbsync_lines_def)
  moreover have "folder_names ?s = rev (remdups (rev (List.map_filter announced lines)))"
    using parse_lines_folders [of 0 lines "start_snapshot prior lines"]
    by (simp add: parse_mbsync_lines_def start_snapshot_folders fold_add_name)
      (simp add: empty_snapshot_def folder_names_def List.map_filter_def)
  moreover have "n \<in> fp_name ` set (ps_per_folder ?s)" if "n \<in> set (folder_names ?s)" for n
    using that by (simp add: folder_names_def)
  moreover have "length (folder_names ?s) = length (ps_per_folder ?s)"
    by (simp add: folder_names_def)
  ultimately show ?thesis
    unfolding folders_ok_def by (simp add: folder_names_def [symmetric] split: option.splits)
qed

text \<open>
  Parsing all accumulated lines again is the same as feeding the new lines to an
  incremental parser: the snapshot of \<open>xs @ ys\<close> is the snapshot of \<open>xs\<close> advanced line by line
  through \<open>ys\<close>, with the tail replaced.
\<close>

lemma raw_tail_upd: "upd_folder f (s\<lparr>ps_raw_tail := t\<rparr>) = (upd_folder f s)\<lparr>ps_raw_tail := t\<rparr>"
  by (simp add: upd_folder_def split: option.split)

definition ignores_tail :: "(ProgressSnapshot \<Rightarrow> ProgressSnapshot option) \<Rightarrow> bool" where
  "ignores_tail h = (\<forall>s t. h (s\<lparr>ps_raw_tail := t\<rparr>) = map_option (\<lambda>s. s\<lparr>ps_raw_tail := t\<rparr>) (h s))"

lemma ignores_groups:
  "(\<And>g s t. f g (s\<lparr>ps_raw_tail := t\<rparr>) = (f g s)\<lparr>ps_raw_tail := t\<rparr>) \<Longrightarrow> ignores_tail (on_groups m f)"
  by (cases m) (simp_all add: ignores_tail_def on_groups_def)

lemma ignores_folder: "ignores_tail (on_folder m f)"
  by (cases m) (simp_all add: ignores_tail_def on_folder_def raw_tail_upd)

lemma first_handler_tail:
  "\<forall>h \<in> set hs. ignores_tail (h i line) \<Longrightarrow>
   first_handler hs i line (s\<lparr>ps_raw_tail := t\<rparr>) = (first_handler hs i line s)\<lparr>ps_raw_tail := t\<rparr>"
  by (induction hs) (auto simp: ignores_tail_def split: option.split)

lemma handlers_ignore_tail: "\<forall>h \<in> set handlers. ignores_tail (h i line)"
proof -
  have "\<forall>h \<in> set connection_handlers. ignores_tail (h i line)"
    unfolding connection_handlers_def by (simp add: ignores_groups)
  moreover have "ignores_tail (open_handler i line)"
    unfolding open_handler_def by (rule ignores_groups) (simp add: open_folder_def Let_def)
  moreover have "\<forall>h \<in> set folder_handlers. ignores_tail (h i line)"
    unfolding folder_handlers_def
    by (simp add: ignores_groups ignores_folder raw_tail_upd summarise_def add_error_def split: prod.split)
  ultimately show ?thesis by (auto simp: handlers_def)
qed

lemma parse_lines_tail:
  "fold parse_line ls (s\<lparr>ps_raw_tail := t\<rparr>) = (fold parse_line ls s)\<lparr>ps_raw_tail := t\<rparr>"
  by (induction ls arbitrary: s)
    (simp_all add: parse_line_def first_handler_tail [OF handlers_ignore_tail] Let_def)

lemma parse_incremental:
  assumes "xs \<noteq> []"
  shows "parse_mbsync_lines (xs @ ys) prior
    = (fold parse_line (enumerate (length xs) ys) (parse_mbsync_lines xs prior))
        \<lparr>ps_raw_tail := drop (length (xs @ ys) - 20) (xs @ ys)\<rparr>"
proof -
  have "start_snapshot prior (xs @ ys) = (start_snapshot prior xs)\<lparr>ps_raw_tail := drop (length (xs @ ys) - 20) (xs @ ys)\<rparr>"
    by (simp add: start_snapshot_def Let_def split: option.split)
  with assms show ?thesis
    by (simp add: parse_mbsync_lines_def enumerate_append_eq parse_lines_tail)
qed

section \<open>Headlines\<close>

lemma first_category_cases:
  "first_category cs t = (''unknown'', UNKNOWN_ERROR_MESSAGE, ''none'')
   \<or> (\<exists>p. (p, first_category cs t) \<in> set cs)"
proof (induction cs)
  case (Cons c cs)
  then show ?case by (cases c) (auto simp del: not_None_eq)
qed simp

lemma category_headline:
  "fst (classify_error t) = ''unknown'' \<and> fst (snd (classify_error t)) = UNKNOWN_ERROR_MESSAGE
   \<or> CATEGORY_MESSAGES (fst (classify_error t)) = Some (fst (snd (classify_error t)))"
proof -
  have "list_all (\<lambda>(p, c, m, a). CATEGORY_MESSAGES c = Some m) ERROR_CATEGORIES"
    by (simp add: CATEGORY_MESSAGES_def ERROR_CATEGORIES_def)
  then show ?thesis
    using first_category_cases [of ERROR_CATEGORIES t] by (auto simp: classify_error_def list_all_iff)
qed

definition HEADLINES :: "str list" where
  "HEADLINES = [''The last sync failed.'', ''The server rejected the password.''] @ map (\<lambda>(_, _, m, _). m) ERROR_CATEGORIES"

text \<open>
  No raw server output reaches a user: the headline of any error text is one of the fixed
  sentences, and it is the message of the category the same text is classified as, except that
  a rejected sign-in of a password mailbox blames the password.
\<close>

lemma headline_is_classified:
  "describe_error text app_pw \<in> set HEADLINES
   \<and> describe_error text app_pw =
       (if \<not> truthy text then UNKNOWN_ERROR_MESSAGE
        else if error_category text = ''auth'' \<and> app_pw then ''The server rejected the password.''
        else fst (snd (classify_error (the text))))"
proof -
  have none: "CATEGORY_MESSAGES ''unknown'' = None"
    by (simp add: CATEGORY_MESSAGES_def ERROR_CATEGORIES_def)
  have in_table: "fst (snd (classify_error t)) \<in> set HEADLINES" for t
  proof -
    have "fst (snd c) \<in> set HEADLINES" if "(p, c) \<in> set ERROR_CATEGORIES" for p c
      using imageI [OF that, of "\<lambda>(_, _, m, _). m"] by (simp add: HEADLINES_def split: prod.splits)
    moreover have "UNKNOWN_ERROR_MESSAGE \<in> set HEADLINES"
      by (simp add: HEADLINES_def UNKNOWN_ERROR_MESSAGE_def)
    ultimately show ?thesis
      using first_category_cases [of ERROR_CATEGORIES t] unfolding classify_error_def by fastforce
  qed
  have "describe_error text app_pw =
       (if \<not> truthy text then UNKNOWN_ERROR_MESSAGE
        else if error_category text = ''auth'' \<and> app_pw then ''The server rejected the password.''
        else fst (snd (classify_error (the text))))"
    using category_headline [of "the text"] none by (auto simp: describe_error_def error_category_def Let_def)
  then show ?thesis
    using in_table by (auto simp: HEADLINES_def UNKNOWN_ERROR_MESSAGE_def)
qed

end
