(* ===== verification/Sync_Budget.thy ===== *)
theory Sync_Budget
  imports Models
begin

text \<open>
  \<open>services/sync_budget.py\<close>: the daily byte budget of an account, the progress percentage, the
  ETA of an initial sync and the three resume times (budget, throttle, transient).

  Floats are exact rationals. The random jitter is an argument; \<open>timedelta * int\<close> raises
  \<open>OverflowError\<close> beyond 999999999 days, which is the result \<open>None\<close> here. The locale
  \<open>backoff\<close> is the contract both exponential backoffs promise.
\<close>

definition MIB :: int where
  "MIB = 1024 * 1024"

fun PROVIDER_DAILY_BUDGET_MB :: "str \<Rightarrow> int option" where
  "PROVIDER_DAILY_BUDGET_MB p = (if p = ''google'' then Some 2000 else None)"

definition daily_budget_bytes :: "Account \<Rightarrow> int option" where
  "daily_budget_bytes account =
     (case a_daily_sync_budget_mb account of
        Some override \<Rightarrow> if override = 0 then None else Some (override * MIB)
      | None \<Rightarrow> (case PROVIDER_DAILY_BUDGET_MB (a_provider account) of
                  Some default_mb \<Rightarrow> Some (default_mb * MIB)
                | None \<Rightarrow> None))"

text \<open>\<open>not total_msgs or total_msgs <= 0\<close>, for an optional total.\<close>

fun no_total :: "int option \<Rightarrow> bool" where
  "no_total None = True"
| "no_total (Some n) = (n = 0 \<or> n \<le> 0)"

definition compute_progress :: "int \<Rightarrow> int option \<Rightarrow> rat option" where
  "compute_progress done_msgs total_msgs =
     (if no_total total_msgs then None
      else Some (max 0 (min 100 (of_int done_msgs / of_int (the total_msgs) * 100))))"

definition round_half_up :: "rat \<Rightarrow> int" where
  "round_half_up x = \<lfloor>x + 1 / 2\<rfloor>"

text \<open>The prefix of the approximate labels: U+2248 and a space.\<close>

definition approx :: str where
  "approx = [CHR 0xE2, CHR 0x89, CHR 0x88, CHR 0x20]"

definition eta_label_of :: "int option \<Rightarrow> str option" where
  "eta_label_of secs =
     (case secs of
        None \<Rightarrow> None
      | Some s \<Rightarrow>
          if s < 3600 then Some ''<1h''
          else if s < 86400 then Some (approx @ show_int (max 1 (round_half_up (of_int s / 3600))) @ ''h'')
          else Some (approx @ show_int (max 1 (round_half_up (of_int s / 86400))) @ ''d''))"

definition no_eta :: Eta where
  "no_eta = \<lparr>eta_seconds = None, eta_days = None, eta_label = None\<rparr>"

text \<open>\<open>int(x)\<close> on a float truncates towards zero.\<close>

definition py_int :: "rat \<Rightarrow> int" where
  "py_int x = (if x < 0 then \<lceil>x\<rceil> else \<lfloor>x\<rfloor>)"

definition estimate_eta ::
  "int \<Rightarrow> int option \<Rightarrow> int \<Rightarrow> int \<Rightarrow> int option \<Rightarrow> rat \<Rightarrow> Eta"
where
  "estimate_eta done_msgs total_msgs done_bytes bytes_today budget_bytes run_rate_msgs_per_s =
     (if no_total total_msgs \<or> done_msgs \<le> 0 then no_eta
      else
        let remaining_msgs = max 0 (the total_msgs - done_msgs) in
        if remaining_msgs = 0 then \<lparr>eta_seconds = Some 0, eta_days = Some 0, eta_label = Some ''<1h''\<rparr>
        else
          let avg_bytes = (of_int done_bytes / of_int done_msgs :: rat);
              remaining_bytes = of_int remaining_msgs * avg_bytes;
              budget = (case budget_bytes of None \<Rightarrow> 0 | Some b \<Rightarrow> b);
              headroom_today = of_int (max 0 (budget - bytes_today)) in
          if budget \<noteq> 0 \<and> remaining_bytes > headroom_today then
            (let full_days = (remaining_bytes - headroom_today) / of_int budget in
             \<lparr>eta_seconds = Some (py_int (full_days * 86400)),
              eta_days = Some full_days,
              eta_label = Some (approx @ show_int (max 1 \<lceil>full_days\<rceil>) @ ''d'')\<rparr>)
          else if run_rate_msgs_per_s \<noteq> 0 \<and> run_rate_msgs_per_s > 0 then
            (let s = py_int (of_int remaining_msgs / run_rate_msgs_per_s) in
             \<lparr>eta_seconds = Some s, eta_days = Some (of_int s / 86400),
              eta_label = eta_label_of (Some s)\<rparr>)
          else no_eta)"

text \<open>Next UTC midnight plus the jitter (0 to 30 minutes).\<close>

definition next_budget_resume :: "datetime \<Rightarrow> timedelta \<Rightarrow> datetime" where
  "next_budget_resume now jitter = utc_midnight (utc_date now + 1) + jitter"

definition td_max :: timedelta where
  "td_max = days 999999999"

definition td_mul :: "timedelta \<Rightarrow> int \<Rightarrow> timedelta option" where
  "td_mul d n = (if \<bar>d * n\<bar> \<le> td_max then Some (d * n) else None)"

definition next_throttle_resume :: "datetime \<Rightarrow> int \<Rightarrow> timedelta \<Rightarrow> datetime option" where
  "next_throttle_resume now attempt jitter =
     (let attempt = max 1 attempt in
      case td_mul (hours 4) (2 ^ nat (min (attempt - 1) 12)) of
        None \<Rightarrow> None
      | Some d \<Rightarrow> Some (now + min d (hours 24) + jitter))"

definition next_transient_resume :: "datetime \<Rightarrow> int \<Rightarrow> timedelta \<Rightarrow> datetime option" where
  "next_transient_resume now attempt jitter =
     (let attempt = max 1 attempt in
      case td_mul (minutes 2) (2 ^ nat (min (attempt - 1) 12)) of
        None \<Rightarrow> None
      | Some d \<Rightarrow> Some (now + min d (minutes 30) + jitter))"

section \<open>The backoff contract\<close>

text \<open>
  What both backoffs promise: the resume time is the capped doubling of a base delay plus the
  jitter, whatever the attempt number, and it is always produced.
\<close>

locale backoff =
  fixes resume :: "datetime \<Rightarrow> int \<Rightarrow> timedelta \<Rightarrow> datetime option"
    and base :: timedelta
    and cap :: timedelta
  assumes base_pos: "0 < base"
    and base_le_cap: "base \<le> cap"
    and cap_reached: "cap \<le> base * 2 ^ 12"
    and resume_eq: "resume now n j = Some (now + min (base * 2 ^ nat (min (max 1 n - 1) 12)) cap + j)"
begin

definition delay :: "int \<Rightarrow> timedelta" where
  "delay n = min (base * 2 ^ nat (min (max 1 n - 1) 12)) cap"

lemma resume_delay: "resume now n j = Some (now + delay n + j)"
  by (simp add: resume_eq delay_def)

lemma delay_bounds: "base \<le> delay n \<and> delay n \<le> cap"
proof -
  have "(1::int) \<le> 2 ^ nat (min (max 1 n - 1) 12)" by simp
  then have "base * 1 \<le> base * 2 ^ nat (min (max 1 n - 1) 12)"
    using base_pos by (intro mult_left_mono) auto
  then show ?thesis
    using base_le_cap by (simp add: delay_def)
qed

lemma delay_mono: "m \<le> n \<Longrightarrow> delay m \<le> delay n"
proof -
  assume "m \<le> n"
  then have "nat (min (max 1 m - 1) 12) \<le> nat (min (max 1 n - 1) 12)"
    by auto
  then have "(2::int) ^ nat (min (max 1 m - 1) 12) \<le> 2 ^ nat (min (max 1 n - 1) 12)"
    by (intro power_increasing) auto
  then have "base * 2 ^ nat (min (max 1 m - 1) 12) \<le> base * 2 ^ nat (min (max 1 n - 1) 12)"
    using base_pos by (intro mult_left_mono) auto
  then show ?thesis
    unfolding delay_def by (intro min.mono) simp_all
qed

lemma delay_saturates: "13 \<le> n \<Longrightarrow> delay n = cap"
  using cap_reached by (simp add: delay_def)

lemma resume_window:
  assumes "0 \<le> j" and "j \<le> spread"
  shows "\<exists>t. resume now n j = Some t \<and> now + base \<le> t \<and> t \<le> now + cap + spread"
  using assms delay_bounds [of n] by (auto simp: resume_delay)

end

text \<open>The capped exponent keeps the product far below the \<open>timedelta\<close> limit.\<close>

lemma td_mul_capped:
  assumes "0 \<le> b" and "b \<le> hours 4"
  shows "td_mul b (2 ^ nat (min (max 1 n - 1) 12)) = Some (b * 2 ^ nat (min (max 1 n - 1) 12))"
proof -
  have "(2::int) ^ nat (min (max 1 n - 1) 12) \<le> 2 ^ 12"
    by (intro power_increasing) auto
  then have "b * 2 ^ nat (min (max 1 n - 1) 12) \<le> hours 4 * 2 ^ 12"
    using assms by (intro mult_mono) auto
  also have "\<dots> \<le> td_max"
    by (simp add: td_max_def time_defs)
  finally show ?thesis
    using assms by (simp add: td_mul_def)
qed

interpretation throttle: backoff next_throttle_resume "hours 4" "hours 24"
proof
  fix now n j
  show "next_throttle_resume now n j
    = Some (now + min (hours 4 * 2 ^ nat (min (max 1 n - 1) 12)) (hours 24) + j)"
    by (simp add: next_throttle_resume_def Let_def td_mul_capped time_defs)
qed (simp_all add: time_defs)

interpretation transient: backoff next_transient_resume "minutes 2" "minutes 30"
proof
  fix now n j
  show "next_transient_resume now n j
    = Some (now + min (minutes 2 * 2 ^ nat (min (max 1 n - 1) 12)) (minutes 30) + j)"
    by (simp add: next_transient_resume_def Let_def td_mul_capped time_defs)
qed (simp_all add: time_defs)

lemma throttle_delay:
  "next_throttle_resume now attempt jitter =
     Some (now + hours (if attempt \<le> 1 then 4 else if attempt = 2 then 8
                        else if attempt = 3 then 16 else 24) + jitter)"
proof -
  have "throttle.delay attempt = hours (if attempt \<le> 1 then 4 else if attempt = 2 then 8
                        else if attempt = 3 then 16 else 24)"
  proof (cases "attempt \<le> 3")
    case True
    then consider "attempt \<le> 1" | "attempt = 2" | "attempt = 3" by linarith
    then show ?thesis
      unfolding throttle.delay_def by cases (simp_all add: time_defs)
  next
    case False
    then have "throttle.delay 4 \<le> throttle.delay attempt"
      by (intro throttle.delay_mono) simp
    moreover have "throttle.delay 4 = hours 24"
      unfolding throttle.delay_def by (simp add: time_defs)
    ultimately show ?thesis
      using False throttle.delay_bounds [of attempt] by simp
  qed
  then show ?thesis
    by (simp add: throttle.resume_delay)
qed

text \<open>
  The provider-throttle backoff never overflows, whatever the attempt count, and follows
  the schedule 4 h, 8 h, 16 h, then 24 h for every later attempt, plus the jitter.
\<close>

lemma throttle_resume_schedule:
  "next_throttle_resume now attempt jitter =
     Some (now + hours (if attempt \<le> 1 then 4 else if attempt = 2 then 8
                        else if attempt = 3 then 16 else 24) + jitter)"
  by (rule throttle_delay)

text \<open>
  The backoff for network blips never overflows either, is monotone in the attempt count
  and stays between 2 and 30 minutes (plus the jitter of at most 30 seconds).
\<close>

lemma transient_resume_window:
  assumes "0 \<le> jitter" and "jitter \<le> seconds 30" and "attempt \<le> attempt'"
  shows "\<exists>t t'. next_transient_resume now attempt jitter = Some t
    \<and> next_transient_resume now attempt' jitter = Some t'
    \<and> t \<le> t' \<and> now + minutes 2 \<le> t \<and> t' \<le> now + minutes 30 + seconds 30"
  using assms transient.delay_mono [OF assms(3)] transient.delay_bounds [of attempt]
    transient.delay_bounds [of attempt']
  by (simp add: transient.resume_delay)

text \<open>
  A budget pause ends on the next UTC day: strictly after now, less than a day plus the
  jitter away, and at a time whose UTC date is tomorrow's, so that the daily ledger has
  rolled over when the pause lifts.
\<close>

lemma budget_resume_next_day:
  assumes "0 \<le> jitter" and "jitter \<le> seconds 1800"
  shows "now < next_budget_resume now jitter
    \<and> next_budget_resume now jitter \<le> now + days 1 + seconds 1800
    \<and> utc_date (next_budget_resume now jitter) = utc_date now + 1"
proof (intro conjI)
  show "now < next_budget_resume now jitter"
    using utc_midnight_gt [of now] assms by (simp add: next_budget_resume_def)
  show "next_budget_resume now jitter \<le> now + days 1 + seconds 1800"
    using utc_midnight_le [of now] assms
    by (simp add: next_budget_resume_def utc_midnight_def algebra_simps)
  have "0 \<le> jitter" "jitter < days 1"
    using assms by (simp_all add: time_defs)
  then show "utc_date (next_budget_resume now jitter) = utc_date now + 1"
    by (simp add: next_budget_resume_def utc_date_def utc_midnight_def time_defs)
qed

section \<open>Progress and ETA\<close>

text \<open>
  When the remaining bytes do not fit today's headroom, the ETA label counts whole
  budget-days: \<open>n\<close> more daily budgets on top of today's headroom are enough to copy what is
  left, and one fewer is not.
\<close>

lemma eta_budget_days_suffice:
  fixes R H :: rat
  assumes "0 < done_msgs" and "done_msgs < total_msgs" and "0 < budget"
    and R: "R = of_int (total_msgs - done_msgs) * (of_int done_bytes / of_int done_msgs)"
    and H: "H = of_int (max 0 (budget - bytes_today))"
    and exceeds: "H < R"
  shows "\<exists>n. eta_label (estimate_eta done_msgs (Some total_msgs) done_bytes bytes_today (Some budget) rate)
        = Some (approx @ show_int n @ ''d'')
    \<and> 1 \<le> n \<and> R \<le> H + of_int n * of_int budget
    \<and> (1 < n \<longrightarrow> H + of_int (n - 1) * of_int budget < R)"
proof -
  define d where "d = (R - H) / of_int budget"
  have b: "(0::rat) < of_int budget" using assms by simp
  have RH: "R = H + d * of_int budget"
    using b by (simp add: d_def)
  have "eta_label (estimate_eta done_msgs (Some total_msgs) done_bytes bytes_today (Some budget) rate)
      = Some (approx @ show_int (max 1 \<lceil>d\<rceil>) @ ''d'')"
    using assms by (simp add: estimate_eta_def Let_def d_def)
  moreover have "R \<le> H + of_int (max 1 \<lceil>d\<rceil>) * of_int budget"
  proof -
    have "d \<le> of_int (max 1 \<lceil>d\<rceil>)"
      by (rule order_trans [OF le_of_int_ceiling]) simp
    then show ?thesis
      using b RH by (simp add: mult_right_mono)
  qed
  moreover have "1 < max 1 \<lceil>d\<rceil> \<longrightarrow> H + of_int (max 1 \<lceil>d\<rceil> - 1) * of_int budget < R"
  proof
    assume "1 < max 1 \<lceil>d\<rceil>"
    then have "max 1 \<lceil>d\<rceil> = \<lceil>d\<rceil>" by simp
    then have "of_int (max 1 \<lceil>d\<rceil> - 1) < d"
      using ceiling_correct [of d] by simp
    then show "H + of_int (max 1 \<lceil>d\<rceil> - 1) * of_int budget < R"
      using b RH by (simp add: mult_strict_right_mono)
  qed
  ultimately show ?thesis
    by (intro exI [of _ "max 1 \<lceil>d\<rceil>"]) simp
qed

text \<open>
  The progress percentage is defined exactly when a positive total is known, lies between
  0 and 100 even when the mailbox shrank below what was copied, and is monotone in the number
  of messages copied.
\<close>

lemma compute_progress_range:
  "(compute_progress done_msgs total_msgs = None \<longleftrightarrow> (\<forall>n. total_msgs = Some n \<longrightarrow> n \<le> 0))
   \<and> (\<forall>p. compute_progress done_msgs total_msgs = Some p \<longrightarrow> 0 \<le> p \<and> p \<le> 100)
   \<and> (\<forall>p q. done_msgs \<le> done' \<longrightarrow> compute_progress done_msgs total_msgs = Some p
        \<longrightarrow> compute_progress done' total_msgs = Some q \<longrightarrow> p \<le> q)"
proof -
  have mono: "of_int done_msgs / of_int t * 100 \<le> (of_int done' / of_int t * 100 :: rat)"
    if "done_msgs \<le> done'" "0 < t" for t :: int
    using that by (simp add: divide_right_mono)
  show ?thesis
  proof (cases total_msgs)
    case None
    then show ?thesis by (simp add: compute_progress_def)
  next
    case (Some t)
    show ?thesis
    proof (cases "0 < t")
      case True
      then have eq: "compute_progress d total_msgs = Some (max 0 (min 100 (of_int d / of_int t * 100)))" for d
        using Some by (simp add: compute_progress_def)
      have "max 0 (min 100 (of_int done_msgs / of_int t * 100 :: rat))
          \<le> max 0 (min 100 (of_int done' / of_int t * 100))" if "done_msgs \<le> done'"
        using mono [OF that True] by (intro max.mono min.mono order_refl)
      with True Some eq show ?thesis by auto
    qed (use Some in \<open>simp add: compute_progress_def\<close>)
  qed
qed

end
