(* ===== verification/Sync_Jobs.thy ===== *)
theory Sync_Jobs
  imports Models "HOL-Library.Multiset"
begin

text \<open>
  \<open>services/sync_service.py\<close>: creation of a sync job behind the existing-job guard, lookups,
  and the retention of the newest jobs of an account. Fresh ids (\<open>uuid4\<close>) and the clock are
  arguments.

  The locales \<open>guarded_table\<close> and \<open>dedup_queue\<close> are the contracts of a guarded job table (a second
  job for the same key is refused while one is live; in the second for no other reason); the retention lemmas are shared with the backup history.
\<close>

section \<open>The guarded job table\<close>

locale guarded_table =
  fixes rows :: "'w \<Rightarrow> 'r list"
    and key :: "'r \<Rightarrow> 'k"
    and live :: "'r \<Rightarrow> bool"
    and mk :: "'p \<Rightarrow> 'r"
    and create :: "'p \<Rightarrow> 'w \<Rightarrow> 'r option \<times> 'w"
  assumes guarded: "create p w = (None, w) \<or>
      (\<not> (\<exists>r \<in> set (rows w). key r = key (mk p) \<and> live r)
       \<and> fst (create p w) = Some (mk p) \<and> rows (snd (create p w)) = rows w @ [mk p])"
begin

definition at_most_one :: "'r list \<Rightarrow> bool" where
  "at_most_one t = (\<forall>k. length (filter (\<lambda>r. key r = k \<and> live r) t) \<le> 1)"

lemma at_most_one_create:
  assumes amo: "at_most_one (rows w)"
  shows "at_most_one (rows (snd (create p w)))"
proof (cases "create p w = (None, w)")
  case False
  with guarded [of p w] have free: "\<not> (\<exists>r \<in> set (rows w). key r = key (mk p) \<and> live r)"
    and rows: "rows (snd (create p w)) = rows w @ [mk p]"
    by auto
  have none: "filter (\<lambda>r. key r = key (mk p) \<and> live r) (rows w) = []"
    using free by (auto simp: filter_empty_conv)
  have "length (filter (\<lambda>r. key r = k \<and> live r) (rows w @ [mk p])) \<le> 1" for k
    using amo none by (cases "k = key (mk p)") (auto simp: at_most_one_def)
  then show ?thesis
    by (simp add: rows at_most_one_def)
qed (simp add: amo)

lemma at_most_one_map:
  assumes "at_most_one t" and "\<And>r. r \<in> set t \<Longrightarrow> key (f r) = key r"
    and "\<And>r. r \<in> set t \<Longrightarrow> live (f r) \<Longrightarrow> live r"
  shows "at_most_one (map f t)"
  unfolding at_most_one_def
proof
  fix k
  have "length (filter (\<lambda>r. key r = k \<and> live r) (map f t)) \<le> length (filter (\<lambda>r. key r = k \<and> live r) t)"
    using assms(2,3) by (induction t) auto
  with assms(1) show "length (filter (\<lambda>r. key r = k \<and> live r) (map f t)) \<le> 1"
    unfolding at_most_one_def by (meson le_trans)
qed

lemma at_most_one_filter: "at_most_one t \<Longrightarrow> at_most_one (filter P t)"
  unfolding at_most_one_def
proof (intro allI)
  fix k
  assume amo: "\<forall>k. length (filter (\<lambda>r. key r = k \<and> live r) t) \<le> 1"
  have "length (filter (\<lambda>r. key r = k \<and> live r) (filter P t)) = length (filter P (filter (\<lambda>r. key r = k \<and> live r) t))"
    by (metis (no_types, lifting) filter_filter filter_cong)
  also have "\<dots> \<le> length (filter (\<lambda>r. key r = k \<and> live r) t)"
    by (rule length_filter_le)
  finally show "length (filter (\<lambda>r. key r = k \<and> live r) (filter P t)) \<le> 1"
    using amo by (meson le_trans)
qed

end

text \<open>A table whose creation is refused for no other reason than a live row of the same key.\<close>

locale dedup_queue = guarded_table +
  assumes mk_live: "live (mk p)"
    and busy: "\<exists>r \<in> set (rows w). key r = key (mk p) \<and> live r \<Longrightarrow> create p w = (None, w)"
    and free: "\<not> (\<exists>r \<in> set (rows w). key r = key (mk p) \<and> live r) \<Longrightarrow>
      fst (create p w) = Some (mk p) \<and> rows (snd (create p w)) = rows w @ [mk p]"
begin

lemma create_Some_iff:
  "fst (create p w) \<noteq> None \<longleftrightarrow> \<not> (\<exists>r \<in> set (rows w). key r = key (mk p) \<and> live r)"
proof (cases "\<exists>r \<in> set (rows w). key r = key (mk p) \<and> live r")
  case True
  then show ?thesis by (simp add: busy)
next
  case False
  then show ?thesis by (simp add: free)
qed

lemma create_then_busy:
  "fst (create p w) = Some r \<Longrightarrow> key (mk q) = key (mk p) \<Longrightarrow>
   create q (snd (create p w)) = (None, snd (create p w))"
  using create_Some_iff [of p w] free [of w p] mk_live [of p] by (intro busy) auto

end

section \<open>Newest-first retention\<close>

text \<open>
  \<open>order_by(requested_at.desc()).offset(keep)\<close>: what is left over beyond the newest \<open>keep\<close>
  rows of one account, and the table without it.
\<close>

definition newest_first :: "('r \<Rightarrow> datetime) \<Rightarrow> 'r list \<Rightarrow> 'r list" where
  "newest_first req t = sort_key (\<lambda>r. - req r) t"

definition beyond :: "('r \<Rightarrow> str) \<Rightarrow> ('r \<Rightarrow> datetime) \<Rightarrow> str \<Rightarrow> nat \<Rightarrow> 'r list \<Rightarrow> 'r list" where
  "beyond acct req aid keep t = drop keep (newest_first req (filter (\<lambda>r. acct r = aid) t))"

definition prune :: "('r \<Rightarrow> str) \<Rightarrow> 'r list \<Rightarrow> 'r list \<Rightarrow> 'r list" where
  "prune key gone t = filter (\<lambda>r. key r \<notin> key ` set gone) t"

lemma set_newest_first [simp]: "set (newest_first req t) = set t"
  by (simp add: newest_first_def)

lemma mset_newest_first: "mset (newest_first req t) = mset t"
  by (simp add: newest_first_def)

lemma beyond_subset: "r \<in> set (beyond acct req aid keep t) \<Longrightarrow> r \<in> set t \<and> acct r = aid"
  by (auto simp: beyond_def dest: in_set_dropD)

lemma sorted_newest_first: "sorted (map (\<lambda>r. - req r) (newest_first req t))"
  by (simp add: newest_first_def)

lemma take_drop_newest:
  assumes "x \<in> set (take n (newest_first req t))" and "y \<in> set (drop n (newest_first req t))"
  shows "req y \<le> req x"
proof -
  have "sorted (map (\<lambda>r. - req r) (take n (newest_first req t) @ drop n (newest_first req t)))"
    using sorted_newest_first [of req t] by simp
  then show ?thesis
    unfolding map_append sorted_append using assms by auto
qed

lemma prune_account:
  assumes "pk key t"
  shows "mset (filter (\<lambda>r. acct r = aid) (prune key (beyond acct req aid keep t) t))
    = mset (take keep (newest_first req (filter (\<lambda>r. acct r = aid) t)))"
proof -
  let ?m = "filter (\<lambda>r. acct r = aid) t"
  let ?s = "newest_first req ?m"
  let ?B = "set (drop keep ?s)"
  have inj: "inj_on key (set t)" and dist: "distinct t"
    using assms by (auto simp: pk_def distinct_map)
  have ds: "distinct ?s"
    using dist by (simp add: newest_first_def)
  have B: "?B \<subseteq> set t"
    by (auto dest: in_set_dropD)
  have "filter (\<lambda>r. acct r = aid) (prune key (beyond acct req aid keep t) t) = filter (\<lambda>r. r \<notin> ?B) ?m"
    using inj B unfolding prune_def beyond_def filter_filter
    by (intro filter_cong) (auto simp: inj_on_def)
  then have "mset (filter (\<lambda>r. acct r = aid) (prune key (beyond acct req aid keep t) t))
      = filter_mset (\<lambda>r. r \<notin> ?B) (mset ?s)"
    by (simp add: mset_newest_first filter_filter_mset)
  also have "\<dots> = mset (filter (\<lambda>r. r \<notin> ?B) (take keep ?s @ drop keep ?s))"
    by simp
  also have "filter (\<lambda>r. r \<notin> ?B) (take keep ?s @ drop keep ?s) = take keep ?s"
    unfolding filter_append
    using set_take_disj_set_drop_if_distinct [OF ds, of keep keep]
    by (auto simp: filter_id_conv filter_empty_conv)
  finally show ?thesis .
qed

lemma length_prune:
  assumes "pk key t"
  shows "length (prune key (beyond acct req aid keep t) t) + length (beyond acct req aid keep t) = length t"
proof -
  let ?B = "beyond acct req aid keep t"
  have inj: "inj_on key (set t)" and dist: "distinct t"
    using assms by (auto simp: pk_def distinct_map)
  have "distinct ?B"
    using dist by (simp add: beyond_def newest_first_def)
  moreover have "prune key ?B t = filter (\<lambda>r. r \<notin> set ?B) t"
    unfolding prune_def using inj
    by (intro filter_cong) (auto dest: beyond_subset simp: inj_on_def)
  moreover have "set (filter (\<lambda>r. r \<in> set ?B) t) = set ?B"
    by (auto dest: beyond_subset)
  ultimately have "length (filter (\<lambda>r. r \<in> set ?B) t) = length ?B"
    using dist by (metis distinct_card distinct_filter)
  then show ?thesis
    using \<open>prune key ?B t = _\<close> sum_length_filter_compl [of "\<lambda>r. r \<in> set ?B" t] by simp
qed

section \<open>The operations\<close>

definition active :: "JobStatus \<Rightarrow> bool" where
  "active s = (s = pending \<or> s = running)"

lemma active_simps [simp]:
  "active pending" "active running" "\<not> active completed" "\<not> active failed" "\<not> active cancelled"
  by (simp_all add: active_def)

definition create_sync_job :: "str \<Rightarrow> datetime \<Rightarrow> str \<Rightarrow> str \<Rightarrow> world \<Rightarrow> SyncJob option \<times> world" where
  "create_sync_job i now account_id source w =
     (case find (\<lambda>j. j_account_id j = account_id \<and> active (j_status j)) (sync_jobs w) of
        Some existing \<Rightarrow> (None, w)
      | None \<Rightarrow>
          (let job = new_sync_job i account_id source now
           in (Some job, w\<lparr>sync_jobs := sync_jobs w @ [job]\<rparr>)))"

definition get_job :: "world \<Rightarrow> str \<Rightarrow> SyncJob option" where
  "get_job w job_id = row j_id (sync_jobs w) job_id"

definition list_jobs_for_account :: "world \<Rightarrow> str \<Rightarrow> nat \<Rightarrow> SyncJob list" where
  "list_jobs_for_account w account_id limit =
     take limit (newest_first j_requested_at (filter (\<lambda>j. j_account_id j = account_id) (sync_jobs w)))"

definition cleanup_old_jobs :: "str \<Rightarrow> nat \<Rightarrow> world \<Rightarrow> nat \<times> world" where
  "cleanup_old_jobs account_id keep w =
     (let jobs = beyond j_account_id j_requested_at account_id keep (sync_jobs w) in
      if jobs = [] then (0, w)
      else
        let left = prune j_id jobs (sync_jobs w)
        in (length (sync_jobs w) - length left, w\<lparr>sync_jobs := left\<rparr>))"

lemma create_sync_job_frame [simp]:
  "users (snd (create_sync_job i t a s w)) = users w"
  "mail_stores (snd (create_sync_job i t a s w)) = mail_stores w"
  "account_owners (snd (create_sync_job i t a s w)) = account_owners w"
  "channels (snd (create_sync_job i t a s w)) = channels w"
  "accounts (snd (create_sync_job i t a s w)) = accounts w"
  "sync_rt (snd (create_sync_job i t a s w)) = sync_rt w"
  "outbox (snd (create_sync_job i t a s w)) = outbox w"
  "sync_queue (snd (create_sync_job i t a s w)) = sync_queue w"
  by (simp_all add: create_sync_job_def Let_def split: option.split)

interpretation sync_q: dedup_queue sync_jobs j_account_id "\<lambda>j. active (j_status j)"
  "\<lambda>(i, now, aid, src). new_sync_job i aid src now"
  "\<lambda>(i, now, aid, src). create_sync_job i now aid src"
proof
  fix w :: world and p :: "str \<times> datetime \<times> str \<times> str"
  obtain i now aid src where p: "p = (i, now, aid, src)" by (cases p)
  let ?mk = "(\<lambda>(i, now, aid, src). new_sync_job i aid src now) p"
  let ?create = "(\<lambda>(i, now, aid, src). create_sync_job i now aid src) p"
  show "?create w = (None, w) \<or>
      (\<not> (\<exists>r \<in> set (sync_jobs w). j_account_id r = j_account_id ?mk \<and> active (j_status r))
       \<and> fst (?create w) = Some ?mk \<and> sync_jobs (snd (?create w)) = sync_jobs w @ [?mk])"
    by (auto simp: create_sync_job_def Let_def p find_None_iff split: option.split)
  show "active (j_status ?mk)"
    by (simp add: p)
  show "?create w = (None, w)"
    if "\<exists>r \<in> set (sync_jobs w). j_account_id r = j_account_id ?mk \<and> active (j_status r)"
  proof -
    have "find (\<lambda>j. j_account_id j = aid \<and> active (j_status j)) (sync_jobs w) \<noteq> None"
      using that by (auto simp: find_None_iff p)
    then show ?thesis by (auto simp: create_sync_job_def p)
  qed
  show "fst (?create w) = Some ?mk \<and> sync_jobs (snd (?create w)) = sync_jobs w @ [?mk]"
    if "\<not> (\<exists>r \<in> set (sync_jobs w). j_account_id r = j_account_id ?mk \<and> active (j_status r))"
  proof -
    have "find (\<lambda>j. j_account_id j = aid \<and> active (j_status j)) (sync_jobs w) = None"
      using that by (auto simp: find_None_iff p)
    then show ?thesis by (simp add: create_sync_job_def Let_def p)
  qed
qed

definition one_active_job :: "world \<Rightarrow> bool" where
  "one_active_job w =
     (\<forall>aid. length (filter (\<lambda>j. j_account_id j = aid \<and> active (j_status j)) (sync_jobs w)) \<le> 1)"

lemma one_active_job_eq: "one_active_job w = sync_q.at_most_one (sync_jobs w)"
  by (simp add: one_active_job_def sync_q.at_most_one_def)

lemmas create_sync_job_Some_iff =
  sync_q.create_Some_iff [of "(i, now, aid, src)" for i now aid src, simplified]

lemmas create_sync_job_free =
  sync_q.free [of _ "(i, now, aid, src)" for i now aid src, simplified]

lemmas create_sync_job_busy =
  sync_q.busy [of _ "(i, now, aid, src)" for i now aid src, simplified]

lemma create_sync_job_one_active:
  "one_active_job w \<Longrightarrow> one_active_job (snd (create_sync_job i now aid src w))"
  using sync_q.at_most_one_create [of w "(i, now, aid, src)"] by (simp add: one_active_job_eq)

lemma create_sync_job_cases:
  obtains (busy) "create_sync_job i now aid src w = (None, w)"
      "\<exists>j \<in> set (sync_jobs w). j_account_id j = aid \<and> active (j_status j)"
  | (free) "create_sync_job i now aid src w =
        (Some (new_sync_job i aid src now), w\<lparr>sync_jobs := sync_jobs w @ [new_sync_job i aid src now]\<rparr>)"
      "\<not> (\<exists>j \<in> set (sync_jobs w). j_account_id j = aid \<and> active (j_status j))"
proof (cases "find (\<lambda>j. j_account_id j = aid \<and> active (j_status j)) (sync_jobs w)")
  case None
  moreover from None have "\<not> (\<exists>j \<in> set (sync_jobs w). j_account_id j = aid \<and> active (j_status j))"
    by (auto simp: find_None_iff)
  ultimately show ?thesis
    by (intro free) (simp_all add: create_sync_job_def Let_def)
next
  case (Some j)
  moreover from Some have "\<exists>j \<in> set (sync_jobs w). j_account_id j = aid \<and> active (j_status j)"
    by (auto simp: find_Some_iff)
  ultimately show ?thesis
    by (intro busy) (simp_all add: create_sync_job_def)
qed

text \<open>
  A sync job is created exactly when the account has no pending or running job; the new
  job is then found under its id, and a second request for the account is refused.
\<close>

lemma create_sync_job_guard:
  assumes "i \<notin> j_id ` set (sync_jobs w)"
  shows "(fst (create_sync_job i now aid src w) \<noteq> None \<longleftrightarrow>
        (\<forall>j \<in> set (sync_jobs w). j_account_id j = aid \<longrightarrow> \<not> active (j_status j)))
     \<and> (\<forall>job. fst (create_sync_job i now aid src w) = Some job \<longrightarrow>
          get_job (snd (create_sync_job i now aid src w)) i = Some job \<and> j_status job = pending
        \<and> fst (create_sync_job i' now' aid src' (snd (create_sync_job i now aid src w))) = None)"
proof -
  have again: "fst (create_sync_job i' now' aid src' (snd (create_sync_job i now aid src w))) = None"
    if "fst (create_sync_job i now aid src w) = Some job" for job
    using sync_q.create_then_busy [of "(i, now, aid, src)" w job "(i', now', aid, src')"] that by simp
  have found: "get_job (snd (create_sync_job i now aid src w)) i = Some job \<and> j_status job = pending"
    if "fst (create_sync_job i now aid src w) = Some job" for job
    using that assms row_None [of j_id "sync_jobs w" i]
    by (cases rule: create_sync_job_cases [of i now aid src w]) (auto simp: get_job_def row_append)
  show ?thesis
    using again found by (auto simp: create_sync_job_Some_iff)
qed

text \<open>
  Retention keeps the newest \<open>keep\<close> jobs of the account: the rows of other accounts are
  untouched, exactly \<open>min keep n\<close> of its \<open>n\<close> rows stay, no removed job is newer than a kept
  one, and the returned count is the number of rows removed.
\<close>

lemma cleanup_keeps_newest:
  assumes "pk j_id (sync_jobs w)" and "cleanup_old_jobs aid keep w = (n, w')"
  shows "filter (\<lambda>j. j_account_id j \<noteq> aid) (sync_jobs w') = filter (\<lambda>j. j_account_id j \<noteq> aid) (sync_jobs w)
    \<and> length (filter (\<lambda>j. j_account_id j = aid) (sync_jobs w'))
        = min keep (length (filter (\<lambda>j. j_account_id j = aid) (sync_jobs w)))
    \<and> length (sync_jobs w') + n = length (sync_jobs w)
    \<and> (\<forall>j \<in> set (sync_jobs w') . \<forall>k \<in> set (sync_jobs w) - set (sync_jobs w').
         j_account_id j = aid \<longrightarrow> j_requested_at k \<le> j_requested_at j)"
proof -
  let ?t = "sync_jobs w" and ?B = "beyond j_account_id j_requested_at aid keep (sync_jobs w)"
  have left: "sync_jobs w' = prune j_id ?B ?t"
    using assms(2) by (auto simp: cleanup_old_jobs_def Let_def prune_def split: if_splits)
  have inj: "inj_on j_id (set ?t)"
    using assms(1) by (simp add: pk_def distinct_map)
  have others: "filter (\<lambda>j. j_account_id j \<noteq> aid) (sync_jobs w') = filter (\<lambda>j. j_account_id j \<noteq> aid) ?t"
    unfolding left prune_def filter_filter using inj
    by (intro filter_cong) (auto dest: beyond_subset simp: inj_on_def)
  have acct: "mset (filter (\<lambda>j. j_account_id j = aid) (sync_jobs w'))
      = mset (take keep (newest_first j_requested_at (filter (\<lambda>j. j_account_id j = aid) ?t)))"
    unfolding left by (rule prune_account [OF assms(1)])
  have len: "length (filter (\<lambda>j. j_account_id j = aid) (sync_jobs w'))
      = min keep (length (filter (\<lambda>j. j_account_id j = aid) ?t))"
    using mset_eq_length [OF acct] by (simp add: newest_first_def)
  have n: "length (sync_jobs w') + n = length ?t"
    using assms(2) length_prune [OF assms(1), of j_account_id j_requested_at aid keep]
    by (auto simp: cleanup_old_jobs_def Let_def split: if_splits)
  have "j_requested_at k \<le> j_requested_at j"
    if "j \<in> set (sync_jobs w')" "j_account_id j = aid" "k \<in> set ?t" "k \<notin> set (sync_jobs w')" for j k
  proof -
    have "j \<in> set (take keep (newest_first j_requested_at (filter (\<lambda>j. j_account_id j = aid) ?t)))"
      using that(1,2) mset_eq_setD [OF acct] by auto
    moreover have "k \<in> set ?B"
      using that(3,4) inj unfolding left prune_def
      by (auto dest: beyond_subset simp: inj_on_def)
    ultimately show ?thesis
      by (auto intro: take_drop_newest simp: beyond_def)
  qed
  with others len n show ?thesis by auto
qed

end
