(* ===== verification/Sweeps.thy ===== *)
theory Sweeps
  imports Models
begin

text \<open>
  The shape the four recovery sweeps share (zombie and stalled jobs, of the sync and of the
  backup worker): iterate over a snapshot of the live job rows, skip those that are not due,
  close the others one by one and count them. The locale \<open>job_sweep\<close> states what closing one
  row must promise, and derives what a whole sweep does to the job table and to the table of
  the rows' parents (accounts, policies).
\<close>

definition sweep ::
  "('w \<Rightarrow> 'r \<Rightarrow> bool) \<Rightarrow> ('r \<Rightarrow> 'w \<Rightarrow> 'w) \<Rightarrow> 'r list \<Rightarrow> nat \<times> 'w \<Rightarrow> nat \<times> 'w"
where
  "sweep due close js s = fold (\<lambda>j (n, w). if due w j then (n + 1, close j w) else (n, w)) js s"

lemma sweep_Nil [simp]: "sweep due close [] s = s"
  by (simp add: sweep_def)

lemma sweep_Cons:
  "sweep due close (j # js) (n, w) =
     (if due w j then sweep due close js (n + 1, close j w) else sweep due close js (n, w))"
  by (simp add: sweep_def)

lemma sweep_frame:
  assumes "\<And>j w. g (close j w) = g w"
  shows "g (snd (sweep due close js (n, w))) = g w"
  by (induction js arbitrary: n w) (auto simp: sweep_Cons assms)

locale job_sweep =
  fixes rows :: "'w \<Rightarrow> 'r list" and key :: "'r \<Rightarrow> str"
    and due :: "'w \<Rightarrow> 'r \<Rightarrow> bool" and close :: "'r \<Rightarrow> 'w \<Rightarrow> 'w" and fin :: "'r \<Rightarrow> 'r"
    and parents :: "'w \<Rightarrow> 'p list" and pkey :: "'p \<Rightarrow> str" and parent :: "'r \<Rightarrow> str" and heal :: "'p \<Rightarrow> 'p"
  assumes rows_close: "rows (close j w) = set_row key (key j) fin (rows w)"
    and key_fin: "key (fin j) = key j"
    and due_close: "key j \<noteq> key j' \<Longrightarrow> due (close j w) j' = due w j'"
    and parents_close: "parents (close j w) = set_row pkey (parent j) heal (parents w)"
    and pkey_heal: "pkey (heal p) = pkey p"
    and heal_idem: "heal (heal p) = heal p"
begin

lemma due_stable:
  "distinct (map key (j # js)) \<Longrightarrow> x \<in> set js \<Longrightarrow> due (close j w) x = due w x"
  by (rule due_close) (auto simp: rev_image_eqI)

lemma sweep_count:
  "distinct (map key js) \<Longrightarrow> fst (sweep due close js (n, w)) = n + length (filter (due w) js)"
proof (induction js arbitrary: n w)
  case (Cons j js)
  then have "filter (due (close j w)) js = filter (due w) js"
    using due_stable [of j js] by (intro filter_cong) auto
  with Cons show ?case by (auto simp: sweep_Cons)
qed simp

lemma sweep_rows:
  "distinct (map key js) \<Longrightarrow>
   rows (snd (sweep due close js (n, w))) =
     map (\<lambda>r. if \<exists>j \<in> set js. due w j \<and> key j = key r then fin r else r) (rows w)"
proof (induction js arbitrary: n w)
  case (Cons j js)
  have stable: "(\<exists>x \<in> set js. due (close j w) x \<and> key x = k) \<longleftrightarrow> (\<exists>x \<in> set js. due w x \<and> key x = k)" for k
    using due_stable [OF Cons.prems] by auto
  have other: "\<not> (\<exists>x \<in> set js. due w x \<and> key x = key j)"
    using Cons.prems by (auto simp: rev_image_eqI)
  show ?case
  proof (cases "due w j")
    case True
    then have "rows (snd (sweep due close (j # js) (n, w))) =
        map (\<lambda>r. if \<exists>x \<in> set js. due w x \<and> key x = key r then fin r else r) (set_row key (key j) fin (rows w))"
      using Cons by (simp add: sweep_Cons rows_close stable)
    then show ?thesis
      using True other by (auto simp: set_row_def key_fin)
  next
    case False
    with Cons show ?thesis by (auto simp: sweep_Cons)
  qed
qed simp

lemma sweep_parents:
  "distinct (map key js) \<Longrightarrow>
   parents (snd (sweep due close js (n, w))) =
     map (\<lambda>p. if \<exists>j \<in> set js. due w j \<and> parent j = pkey p then heal p else p) (parents w)"
proof (induction js arbitrary: n w)
  case (Cons j js)
  have stable: "(\<exists>x \<in> set js. due (close j w) x \<and> parent x = k) \<longleftrightarrow> (\<exists>x \<in> set js. due w x \<and> parent x = k)" for k
    using due_stable [OF Cons.prems] by auto
  show ?case
  proof (cases "due w j")
    case True
    then have "parents (snd (sweep due close (j # js) (n, w))) =
        map (\<lambda>p. if \<exists>x \<in> set js. due w x \<and> parent x = pkey p then heal p else p)
          (set_row pkey (parent j) heal (parents w))"
      using Cons by (simp add: sweep_Cons parents_close stable)
    then show ?thesis
      using True by (auto simp: set_row_def pkey_heal heal_idem)
  next
    case False
    with Cons show ?thesis by (auto simp: sweep_Cons)
  qed
qed simp

text \<open>The sweep over the rows of the table that satisfy \<open>P\<close>, for a table with its primary key.\<close>

lemma sweep_table_rows:
  assumes "pk key (rows w)"
  shows "rows (snd (sweep due close (filter P (rows w)) (0, w))) =
    map (\<lambda>r. if P r \<and> due w r then fin r else r) (rows w)"
proof -
  have inj: "inj_on key (set (rows w))"
    using assms by (simp add: pk_def distinct_map)
  have "distinct (map key (filter P (rows w)))"
    using pk_filter [OF assms] by (simp add: pk_def)
  from sweep_rows [OF this, of 0 w] show ?thesis
    using inj by (auto simp: inj_on_def)
qed

lemma sweep_table_count:
  assumes "pk key (rows w)"
  shows "fst (sweep due close (filter P (rows w)) (0, w)) = length (filter (\<lambda>r. P r \<and> due w r) (rows w))"
  using sweep_count [of "filter P (rows w)" 0 w] pk_filter [OF assms, of P]
  by (simp add: pk_def conj_commute)

lemma sweep_table_parents:
  assumes "pk key (rows w)"
  shows "parents (snd (sweep due close (filter P (rows w)) (0, w))) =
    map (\<lambda>p. if \<exists>r \<in> set (rows w). P r \<and> due w r \<and> parent r = pkey p then heal p else p) (parents w)"
proof -
  have "distinct (map key (filter P (rows w)))"
    using pk_filter [OF assms] by (simp add: pk_def)
  from sweep_parents [OF this, of 0 w] show ?thesis
    by auto
qed

end

end
