(* ===== verification/Sync_Runtime.thy ===== *)
theory Sync_Runtime
  imports Sync_Budget Sync_Jobs Sweeps "HOL-Library.AList"
begin

text \<open>
  The first half of \<open>services/sync_worker.py\<close>: stopping a job, the live progress table, the
  re-drive rule of an interrupted initial sync, the two recovery sweeps, the byte sampler with
  its daily ledger, the attempt counter and the pause.

  Every operation takes the clock as an argument. \<open>os.walk\<close> over a Maildir is the list of the
  files it meets; a file that vanished before \<open>os.stat\<close> has \<open>mf_statable = False\<close>.
\<close>

section \<open>Stopping a job\<close>

text \<open>
  \<open>Popen.terminate\<close> and \<open>Popen.kill\<close> do nothing once the exit status is known; SIGKILL cannot
  be ignored, so the process has the status -9 from then on.
\<close>

definition terminate :: "Popen \<Rightarrow> Popen" where
  "terminate p =
     (if p_returncode p = None \<and> p_exits_on_term p then p\<lparr>p_returncode := Some (- 15)\<rparr> else p)"

definition kill :: "Popen \<Rightarrow> Popen" where
  "kill p = (if p_returncode p = None then p\<lparr>p_returncode := Some (- 9)\<rparr> else p)"

definition stop_sync_job :: "str \<Rightarrow> world \<Rightarrow> bool \<times> world" where
  "stop_sync_job job_id w =
     (case running_procs (sync_rt w) job_id of
        None \<Rightarrow> (False, w)
      | Some proc \<Rightarrow>
          let p1 = terminate proc;
              w1 = upd_rt (\<lambda>rt. rt\<lparr>killed_signals := (killed_signals rt)(job_id \<mapsto> ''SIGTERM''),
                                     running_procs := (running_procs rt)(job_id \<mapsto> p1)\<rparr>) w
          in if p_returncode p1 \<noteq> None then (True, w1)
             else (True, upd_rt (\<lambda>rt. rt\<lparr>killed_signals := (killed_signals rt)(job_id \<mapsto> ''SIGKILL''),
                                     running_procs := (running_procs rt)(job_id \<mapsto> kill p1)\<rparr>) w1))"

definition get_live_log :: "world \<Rightarrow> str \<Rightarrow> str option" where
  "get_live_log w job_id = map_option (join [CHR 0x0A]) (running_logs (sync_rt w) job_id)"

definition get_live_progress :: "world \<Rightarrow> str \<Rightarrow> LiveProgress option" where
  "get_live_progress w job_id = map_of (live_progress (sync_rt w)) job_id"

definition get_live_progress_for_account :: "world \<Rightarrow> str \<Rightarrow> LiveProgress option" where
  "get_live_progress_for_account w account_id =
     find (\<lambda>prog. lp_account_id prog = account_id) (map snd (live_progress (sync_rt w)))"

lemma stop_sync_job_tables [simp]:
  "users (snd (stop_sync_job i w)) = users w"
  "mail_stores (snd (stop_sync_job i w)) = mail_stores w"
  "account_owners (snd (stop_sync_job i w)) = account_owners w"
  "channels (snd (stop_sync_job i w)) = channels w"
  "accounts (snd (stop_sync_job i w)) = accounts w"
  "sync_jobs (snd (stop_sync_job i w)) = sync_jobs w"
  "backup_policies (snd (stop_sync_job i w)) = backup_policies w"
  "backup_jobs (snd (stop_sync_job i w)) = backup_jobs w"
  "backup_rt (snd (stop_sync_job i w)) = backup_rt w"
  "outbox (snd (stop_sync_job i w)) = outbox w"
  "sync_queue (snd (stop_sync_job i w)) = sync_queue w"
  by (simp_all add: stop_sync_job_def Let_def split: option.split)

lemma stop_sync_job_rt [simp]:
  "live_progress (sync_rt (snd (stop_sync_job i w))) = live_progress (sync_rt w)"
  "running_logs (sync_rt (snd (stop_sync_job i w))) = running_logs (sync_rt w)"
  "budget_stops (sync_rt (snd (stop_sync_job i w))) = budget_stops (sync_rt w)"
  "deadline_stops (sync_rt (snd (stop_sync_job i w))) = deadline_stops (sync_rt w)"
  "i' \<noteq> i \<Longrightarrow> running_procs (sync_rt (snd (stop_sync_job i w))) i' = running_procs (sync_rt w) i'"
  "i' \<noteq> i \<Longrightarrow> killed_signals (sync_rt (snd (stop_sync_job i w))) i' = killed_signals (sync_rt w) i'"
  by (simp_all add: stop_sync_job_def Let_def split: option.split)

text \<open>A stop of a registered process leaves it dead and marked.\<close>

lemma stop_sync_job_kills:
  assumes "running_procs (sync_rt w) i = Some p"
  shows "fst (stop_sync_job i w)
    \<and> (\<exists>p'. running_procs (sync_rt (snd (stop_sync_job i w))) i = Some p' \<and> p_returncode p' \<noteq> None)
    \<and> killed_signals (sync_rt (snd (stop_sync_job i w))) i \<noteq> None"
  using assms by (auto simp: stop_sync_job_def Let_def kill_def)

section \<open>Re-drive of an interrupted initial sync\<close>

definition budget_headroom_today :: "datetime \<Rightarrow> Account \<Rightarrow> bool" where
  "budget_headroom_today now account =
     (case daily_budget_bytes account of
        None \<Rightarrow> True
      | Some budget \<Rightarrow>
          if a_traffic_date account \<noteq> Some (utc_date now) then True
          else a_bytes_synced_today account < budget)"

definition redrive_or_keep_pause :: "datetime \<Rightarrow> Account \<Rightarrow> Account" where
  "redrive_or_keep_pause now account =
     (if a_initial_sync_completed_at account = None \<and> budget_headroom_today now account
      then account\<lparr>a_sync_paused_until := Some (now - seconds 1), a_pause_reason := Some ''interrupted''\<rparr>
      else account)"

text \<open>What both sweeps do to the account of a job they close.\<close>

definition release_account :: "datetime \<Rightarrow> Account \<Rightarrow> Account" where
  "release_account now account =
     redrive_or_keep_pause now
       (if a_sync_state account = SS_syncing then account\<lparr>a_sync_state := SS_idle\<rparr> else account)"

lemma daily_budget_bytes_cong:
  "a_daily_sync_budget_mb b = a_daily_sync_budget_mb a \<Longrightarrow> a_provider b = a_provider a \<Longrightarrow>
   daily_budget_bytes b = daily_budget_bytes a"
  unfolding daily_budget_bytes_def by (simp only:)

lemma budget_headroom_today_cong:
  assumes "a_daily_sync_budget_mb b = a_daily_sync_budget_mb a" and "a_provider b = a_provider a"
    and "a_traffic_date b = a_traffic_date a" and "a_bytes_synced_today b = a_bytes_synced_today a"
  shows "budget_headroom_today now b = budget_headroom_today now a"
  unfolding budget_headroom_today_def daily_budget_bytes_cong [OF assms(1,2)] assms(3,4) by (rule refl)

lemma budget_headroom_today_upd [simp]:
  "budget_headroom_today now (a\<lparr>a_sync_state := s\<rparr>) = budget_headroom_today now a"
  "budget_headroom_today now (a\<lparr>a_sync_paused_until := u\<rparr>) = budget_headroom_today now a"
  "budget_headroom_today now (a\<lparr>a_pause_reason := r\<rparr>) = budget_headroom_today now a"
  by (rule budget_headroom_today_cong; simp)+

lemma release_account_simps [simp]:
  "a_id (release_account now a) = a_id a"
  "a_sync_state (release_account now a) = (if a_sync_state a = SS_syncing then SS_idle else a_sync_state a)"
  "a_initial_sync_completed_at (release_account now a) = a_initial_sync_completed_at a"
  "a_sync_schedule (release_account now a) = a_sync_schedule a"
  "a_enabled (release_account now a) = a_enabled a"
  "a_suspended (release_account now a) = a_suspended a"
  by (simp_all add: release_account_def redrive_or_keep_pause_def)

lemma release_account_pause:
  "a_sync_paused_until (release_account now a) =
     (if a_initial_sync_completed_at a = None \<and> budget_headroom_today now a then Some (now - seconds 1)
      else a_sync_paused_until a)"
  by (auto simp: release_account_def redrive_or_keep_pause_def)

lemma release_account_idem: "release_account now (release_account now a) = release_account now a"
  by (simp add: release_account_def redrive_or_keep_pause_def)

section \<open>The recovery sweeps\<close>

definition zombie_marker :: str where
  "zombie_marker = ''[recovered] container restarted mid-sync '' @ em_dash @ '' closed as interrupted''"

definition stalled_marker :: str where
  "stalled_marker = ''[reaped] stalled with no progress '' @ em_dash @ '' closed as interrupted''"

definition close_interrupted :: "datetime \<Rightarrow> str \<Rightarrow> SyncJob \<Rightarrow> SyncJob" where
  "close_interrupted now marker job =
     job\<lparr>j_status := failed, j_failure_kind := Some ''interrupted'', j_completed_at := Some now,
         j_log := Some (append_line (j_log job) marker)\<rparr>"

definition zombie_due :: "world \<Rightarrow> SyncJob \<Rightarrow> bool" where
  "zombie_due w job = (\<not> (j_status job = running \<and> j_id job \<in> dom (running_procs (sync_rt w))))"

definition recover_zombie :: "datetime \<Rightarrow> SyncJob \<Rightarrow> world \<Rightarrow> world" where
  "recover_zombie now job w =
     (let w = upd_job (j_id job) (close_interrupted now zombie_marker) w in
      case get_account w (j_account_id job) of
        None \<Rightarrow> w
      | Some account \<Rightarrow> upd_account (j_account_id job) (release_account now) w)"

definition recover_zombie_sync_jobs :: "datetime \<Rightarrow> world \<Rightarrow> nat \<times> world" where
  "recover_zombie_sync_jobs now w =
     sweep zombie_due (recover_zombie now)
       (filter (\<lambda>j. j_status j = running \<or> j_status j = pending) (sync_jobs w)) (0, w)"

definition stalled_due :: "datetime \<Rightarrow> timedelta \<Rightarrow> timedelta \<Rightarrow> world \<Rightarrow> SyncJob \<Rightarrow> bool" where
  "stalled_due now grace threshold w job =
     (case j_started_at job of
        None \<Rightarrow> False
      | Some started \<Rightarrow>
          if now - started < grace then False
          else
            let fresh_tick = (case get_live_progress w (j_id job) of
                                None \<Rightarrow> False | Some prog \<Rightarrow> now - lp_updated_ts prog < threshold);
                proc_alive = (case running_procs (sync_rt w) (j_id job) of
                                None \<Rightarrow> False | Some proc \<Rightarrow> p_returncode proc = None)
            in \<not> (fresh_tick \<or> proc_alive))"

definition reap_stalled :: "datetime \<Rightarrow> SyncJob \<Rightarrow> world \<Rightarrow> world" where
  "reap_stalled now job w =
     (let w = upd_job (j_id job) (close_interrupted now stalled_marker) w;
          w = (case get_account w (j_account_id job) of
                 None \<Rightarrow> w
               | Some account \<Rightarrow> upd_account (j_account_id job) (release_account now) w)
      in snd (stop_sync_job (j_id job) w))"

definition recover_stalled_sync_jobs :: "datetime \<Rightarrow> timedelta \<Rightarrow> timedelta \<Rightarrow> world \<Rightarrow> nat \<times> world" where
  "recover_stalled_sync_jobs now grace threshold w =
     sweep (stalled_due now grace threshold) (reap_stalled now)
       (filter (\<lambda>j. j_status j = running) (sync_jobs w)) (0, w)"

lemma close_interrupted_simps [simp]:
  "j_id (close_interrupted now m j) = j_id j"
  "j_account_id (close_interrupted now m j) = j_account_id j"
  "j_status (close_interrupted now m j) = failed"
  "j_failure_kind (close_interrupted now m j) = Some ''interrupted''"
  "j_completed_at (close_interrupted now m j) = Some now"
  by (simp_all add: close_interrupted_def)

lemma release_case:
  "(case get_account w k of None \<Rightarrow> w | Some account \<Rightarrow> upd_account k f w) = upd_account k f w"
  by (cases w) (auto simp: upd_account_def set_row_None split: option.split)

interpretation zombie: job_sweep sync_jobs j_id zombie_due "recover_zombie now" "close_interrupted now zombie_marker"
  accounts a_id j_account_id "release_account now" for now
  by unfold_locales
    (auto simp: recover_zombie_def release_case [unfolded upd_account_simps] zombie_due_def release_account_idem)

interpretation stalled: job_sweep sync_jobs j_id "stalled_due now grace threshold" "reap_stalled now"
  "close_interrupted now stalled_marker" accounts a_id j_account_id "release_account now" for now grace threshold
  by unfold_locales
    (auto simp: reap_stalled_def release_case [unfolded upd_account_simps] stalled_due_def get_live_progress_def
       release_account_idem Let_def split: option.split)

lemmas zombie_rows = zombie.sweep_table_rows
  [where P = "\<lambda>j. j_status j = running \<or> j_status j = pending", folded recover_zombie_sync_jobs_def]
lemmas zombie_count = zombie.sweep_table_count
  [where P = "\<lambda>j. j_status j = running \<or> j_status j = pending", folded recover_zombie_sync_jobs_def]
lemmas zombie_parents = zombie.sweep_table_parents
  [where P = "\<lambda>j. j_status j = running \<or> j_status j = pending", folded recover_zombie_sync_jobs_def]
lemmas stalled_rows = stalled.sweep_table_rows
  [where P = "\<lambda>j. j_status j = running", folded recover_stalled_sync_jobs_def]
lemmas stalled_count = stalled.sweep_table_count
  [where P = "\<lambda>j. j_status j = running", folded recover_stalled_sync_jobs_def]
lemmas stalled_parents = stalled.sweep_table_parents
  [where P = "\<lambda>j. j_status j = running", folded recover_stalled_sync_jobs_def]

lemma zombie_frame [simp]:
  "sync_rt (snd (recover_zombie_sync_jobs now w)) = sync_rt w"
  "sync_queue (snd (recover_zombie_sync_jobs now w)) = sync_queue w"
  "outbox (snd (recover_zombie_sync_jobs now w)) = outbox w"
  by (auto simp: recover_zombie_sync_jobs_def recover_zombie_def Let_def split: option.split intro!: sweep_frame)

lemma stalled_frame [simp]:
  "sync_queue (snd (recover_stalled_sync_jobs now g t w)) = sync_queue w"
  "outbox (snd (recover_stalled_sync_jobs now g t w)) = outbox w"
  by (auto simp: recover_stalled_sync_jobs_def reap_stalled_def Let_def split: option.split intro!: sweep_frame)

lemma zombie_closes_all:
  assumes "pk j_id (sync_jobs w)" and "running_procs (sync_rt w) = Map.empty"
  shows "\<forall>j \<in> set (sync_jobs (snd (recover_zombie_sync_jobs now w))). \<not> active (j_status j)"
  using assms(2) by (auto simp: zombie_rows [OF assms(1)] zombie_due_def active_def)

text \<open>
  C21. After the boot sweep no account is blocked: with no process of a previous life registered,
  every job a dead process left pending or running is closed as interrupted with the recovery
  marker, jobs already closed are untouched, the sweep reports how many it closed, enqueues
  nothing, and a new job can be created for every account. A second sweep changes nothing.
\<close>

theorem zombie_sweep_unblocks:
  assumes "pk j_id (sync_jobs w)" and "running_procs (sync_rt w) = Map.empty"
    and "recover_zombie_sync_jobs now w = (n, w')"
  shows "n = length (filter (\<lambda>j. active (j_status j)) (sync_jobs w))
    \<and> sync_jobs w' = map (\<lambda>j. if active (j_status j) then close_interrupted now zombie_marker j else j) (sync_jobs w)
    \<and> sync_queue w' = sync_queue w
    \<and> fst (create_sync_job i t aid src w') \<noteq> None
    \<and> recover_zombie_sync_jobs now' w' = (0, w')"
proof -
  have due: "zombie_due w j" for j
    using assms(2) by (simp add: zombie_due_def)
  have w': "w' = snd (recover_zombie_sync_jobs now w)" and n: "n = fst (recover_zombie_sync_jobs now w)"
    using assms(3) by simp_all
  have closed: "\<forall>j \<in> set (sync_jobs w'). \<not> active (j_status j)"
    unfolding w' by (rule zombie_closes_all [OF assms(1,2)])
  then have none: "filter (\<lambda>j. j_status j = running \<or> j_status j = pending) (sync_jobs w') = []"
    by (auto simp: filter_empty_conv active_def)
  have "recover_zombie_sync_jobs now' w' = (0, w')"
    unfolding recover_zombie_sync_jobs_def none by simp
  moreover have "fst (create_sync_job i t aid src w') \<noteq> None"
    using closed by (auto simp: create_sync_job_Some_iff)
  moreover have "sync_jobs w' = map (\<lambda>j. if active (j_status j) then close_interrupted now zombie_marker j else j) (sync_jobs w)"
    unfolding w' zombie_rows [OF assms(1)] by (auto simp: due active_def)
  moreover have "n = length (filter (\<lambda>j. active (j_status j)) (sync_jobs w))"
    unfolding n zombie_count [OF assms(1)]
    by (intro arg_cong [where f = length] filter_cong) (auto simp: due active_def)
  ultimately show ?thesis
    by (simp add: w')
qed

definition zombie_world :: world where
  "zombie_world = empty_world\<lparr>sync_jobs :=
     [new_sync_job ''j1'' ''a1'' ''api'' 5, (new_sync_job ''j2'' ''a2'' ''api'' 9)\<lparr>j_status := running\<rparr>,
      (new_sync_job ''j3'' ''a2'' ''api'' 3)\<lparr>j_status := completed\<rparr>]\<rparr>"

lemma zombie_world_simps [simp]:
  "pk j_id (sync_jobs zombie_world)" "running_procs (sync_rt zombie_world) = Map.empty"
  "length (filter (\<lambda>j. active (j_status j)) (sync_jobs zombie_world)) = 2"
  by (simp_all add: zombie_world_def pk_def empty_world_def empty_sync_runtime_def)

theorem zombie_sweep_unblocks_witness:
  "fst (recover_zombie_sync_jobs 20 zombie_world) = 2
   \<and> fst (create_sync_job ''j4'' 21 ''a2'' ''api'' (snd (recover_zombie_sync_jobs 20 zombie_world))) \<noteq> None"
  using zombie_sweep_unblocks [of zombie_world 20 "fst (recover_zombie_sync_jobs 20 zombie_world)"
      "snd (recover_zombie_sync_jobs 20 zombie_world)" "''j4''" 21 "''a2''" "''api''" 20]
  by simp

text \<open>
  C22. The watchdog only reaps stalled jobs: a job inside the grace window, with a fresh sampler
  tick or with a live process keeps its row; a running job past the grace window with neither is
  closed as interrupted; pending and finished jobs are never touched. A reaped job's account
  leaves \<open>syncing\<close>, and other accounts keep their rows.
\<close>

theorem watchdog_reaps_only_stalled:
  assumes "pk j_id (sync_jobs w)" and "j \<in> set (sync_jobs w)"
    and "recover_stalled_sync_jobs now grace threshold w = (n, w')"
  shows "get_job w' (j_id j) =
      Some (if j_status j = running
               \<and> (\<exists>started. j_started_at j = Some started \<and> grace \<le> now - started)
               \<and> (\<forall>prog. get_live_progress w (j_id j) = Some prog \<longrightarrow> threshold \<le> now - lp_updated_ts prog)
               \<and> (\<forall>proc. running_procs (sync_rt w) (j_id j) = Some proc \<longrightarrow> p_returncode proc \<noteq> None)
            then close_interrupted now stalled_marker j else j)
    \<and> (\<forall>a \<in> set (accounts w'). \<exists>a0 \<in> set (accounts w). a_id a = a_id a0
         \<and> (a = a0 \<or> (a = release_account now a0 \<and> a_sync_state a \<noteq> SS_syncing
              \<and> (\<exists>k \<in> set (sync_jobs w). j_account_id k = a_id a0 \<and> j_status k = running))))"
proof -
  let ?due = "stalled_due now grace threshold w"
  have w': "w' = snd (recover_stalled_sync_jobs now grace threshold w)"
    using assms(3) by simp
  have due: "?due j \<longleftrightarrow> (\<exists>started. j_started_at j = Some started \<and> grace \<le> now - started)
      \<and> (\<forall>prog. get_live_progress w (j_id j) = Some prog \<longrightarrow> threshold \<le> now - lp_updated_ts prog)
      \<and> (\<forall>proc. running_procs (sync_rt w) (j_id j) = Some proc \<longrightarrow> p_returncode proc \<noteq> None)"
    by (auto simp: stalled_due_def not_less Let_def split: option.split)
  let ?f = "\<lambda>r. if j_status r = running \<and> ?due r then close_interrupted now stalled_marker r else r"
  have rows: "sync_jobs w' = map ?f (sync_jobs w)"
    unfolding w' by (rule stalled_rows [OF assms(1)])
  have "pk j_id (sync_jobs w')"
    using assms(1) unfolding rows pk_def by (simp add: comp_def if_distrib cong: if_cong)
  moreover have "?f j \<in> set (sync_jobs w')"
    unfolding rows using assms(2) by auto
  ultimately have "get_job w' (j_id (?f j)) = Some (?f j)"
    unfolding get_job_def by (rule row_SomeI)
  moreover have "j_id (?f j) = j_id j" by simp
  ultimately have job: "get_job w' (j_id j) = Some (?f j)" by simp
  have "\<exists>a0 \<in> set (accounts w). a_id a = a_id a0
         \<and> (a = a0 \<or> (a = release_account now a0 \<and> a_sync_state a \<noteq> SS_syncing
              \<and> (\<exists>k \<in> set (sync_jobs w). j_account_id k = a_id a0 \<and> j_status k = running)))"
    if "a \<in> set (accounts w')" for a
    using that unfolding w' stalled_parents [OF assms(1)] by auto blast
  with job show ?thesis
    unfolding due by auto
qed

definition stalled_world :: world where
  "stalled_world = empty_world\<lparr>sync_jobs :=
     [(new_sync_job ''j1'' ''a1'' ''api'' 0)\<lparr>j_status := running, j_started_at := Some 0\<rparr>]\<rparr>"

theorem watchdog_reaps_only_stalled_witness:
  "map_option j_status (get_job (snd (recover_stalled_sync_jobs (hours 2) (minutes 10) (minutes 5) stalled_world)) ''j1'')
     = Some failed"
  using watchdog_reaps_only_stalled [of stalled_world
      "(new_sync_job ''j1'' ''a1'' ''api'' 0)\<lparr>j_status := running, j_started_at := Some 0\<rparr>" "hours 2" "minutes 10" "minutes 5"
      "fst (recover_stalled_sync_jobs (hours 2) (minutes 10) (minutes 5) stalled_world)"
      "snd (recover_stalled_sync_jobs (hours 2) (minutes 10) (minutes 5) stalled_world)"]
  by (simp add: stalled_world_def empty_world_def empty_sync_runtime_def get_live_progress_def pk_def time_defs)

end
