(* ===== verification/Mailbox_Status.thy ===== *)
theory Mailbox_Status
  imports Sync_Progress Sync_Runtime
begin

text \<open>
  \<open>services/mailbox_status.py\<close>: the single answer to "is this mailbox OK?". The resolver is a
  pure function of the account, the latest finished job, the live-progress and owner-migrating
  flags and the clock; its chain of early returns is one conditional in the source's order.
  \<open>next_fire schedule previous now\<close> stands for APScheduler's cron trigger: \<open>Inl\<close> is an
  exception (a malformed schedule), \<open>Inr None\<close> a schedule that never fires again.
\<close>

datatype Tone = Tone_ok | Tone_active | Tone_attention | Tone_error | Tone_muted

datatype MailboxState = MS_migrating | MS_suspended | MS_sign_in_needed | MS_first_sync | MS_syncing | MS_paused
  | MS_stopped | MS_error | MS_initial_sync | MS_initial_stalled | MS_waiting | MS_stale | MS_current

datatype NextAction = Reconnect | Update_password | Retry | Sync_now

record MailboxStatus =
  ms_state :: MailboxState
  ms_tone :: Tone
  ms_label :: str
  ms_detail :: "str option"
  ms_action :: "NextAction option"
  ms_needs_attention :: bool
  ms_signed_in :: bool
  ms_badge :: str
  ms_icon :: str
  ms_spin :: bool
  ms_last_success_at :: "datetime option"
  ms_resumes_at :: "datetime option"

record JobOutcome =
  jo_tone :: Tone
  jo_label :: str
  jo_badge :: str
  jo_icon :: str
  jo_spin :: bool

definition STALE_AFTER :: timedelta where
  "STALE_AFTER = days 7"

definition PAUSE_TOOLTIPS :: "str \<rightharpoonup> str" where
  "PAUSE_TOOLTIPS =
    [''budget'' \<mapsto> ''Daily sync budget reached'', ''throttle'' \<mapsto> ''Provider throttled'',
     ''transient'' \<mapsto> ''Connection lost '' @ em_dash @ '' retrying'',
     ''interrupted'' \<mapsto> ''Interrupted by a restart. It resumes on its own shortly.'']"

definition GENERIC_PAUSE_DETAIL :: str where
  "GENERIC_PAUSE_DETAIL = ''Paused for now. It resumes on its own.''"

definition BLOCKED_LOGS :: "str set" where
  "BLOCKED_LOGS =
    {''Sync blocked: account is suspended'', ''Sync blocked: account not authenticated'',
     ''Sync blocked: account migration in progress'', ''Sync blocked: user migration in progress''}"

definition INITIAL_DETAIL :: str where
  "INITIAL_DETAIL = ''First full sync incomplete''"

section \<open>Staleness\<close>

definition stale_threshold ::
  "(str \<Rightarrow> datetime option \<Rightarrow> datetime \<Rightarrow> str + datetime option) \<Rightarrow> str option \<Rightarrow> datetime \<Rightarrow> timedelta"
where
  "stale_threshold next_fire schedule now =
     (if \<not> truthy schedule \<or> strip (the schedule) = [] then STALE_AFTER
      else
        (case next_fire (strip (the schedule)) None now of
           Inl e \<Rightarrow> STALE_AFTER
         | Inr None \<Rightarrow> STALE_AFTER
         | Inr (Some first) \<Rightarrow>
             (case next_fire (strip (the schedule)) (Some first) first of
                Inl e \<Rightarrow> STALE_AFTER
              | Inr None \<Rightarrow> STALE_AFTER
              | Inr (Some second) \<Rightarrow> max STALE_AFTER (2 * (second - first)))))"

section \<open>Sentences\<close>

definition SIGN_IN_REFRESH :: str where
  "SIGN_IN_REFRESH = ''Couldn't refresh the sign-in. It retries on the next sync; ''"

definition SIGN_IN_ASK_OWNER :: str where
  "SIGN_IN_ASK_OWNER = ''Sign-in expired. Ask the mailbox owner or an admin to reconnect it.''"

definition SIGN_IN_REFRESH_ASK_OWNER :: str where
  "SIGN_IN_REFRESH_ASK_OWNER =
     SIGN_IN_REFRESH @ ''if this keeps happening, ask the mailbox owner or an admin to reconnect it.''"

definition SIGN_IN_PENDING_ASK_OWNER :: str where
  "SIGN_IN_PENDING_ASK_OWNER = ''Sign-in not completed. Ask the mailbox owner or an admin to connect it.''"

definition is_refresh_retry :: "Account \<Rightarrow> bool" where
  "is_refresh_retry account =
     (a_sync_state account = SS_error \<and> a_auth_type account = oauth2
      \<and> a_last_error account = Some TOKEN_REFRESH_FAILED \<and> is_authenticated account)"

definition sign_in_never_completed :: "Account \<Rightarrow> bool" where
  "sign_in_never_completed account = (\<not> is_authenticated account \<and> a_last_sync_at account = None)"

definition signin_name :: "Account \<Rightarrow> str" where
  "signin_name account =
     (if a_provider account = ''google'' then ''Google sign-in''
      else if a_provider account = ''microsoft'' then ''Microsoft sign-in''
      else ''Sign-in'')"

definition sign_in_detail :: "Account \<Rightarrow> str" where
  "sign_in_detail account =
     (if is_refresh_retry account then SIGN_IN_REFRESH @ ''reconnect if this keeps happening.''
      else if sign_in_never_completed account then signin_name account @ '' not completed. Connect to start syncing.''
      else signin_name account @ '' expired. Reconnect to resume syncing.'')"

definition sign_in_message :: "Account \<Rightarrow> bool \<Rightarrow> str" where
  "sign_in_message account can_modify =
     (if can_modify then sign_in_detail account
      else if is_refresh_retry account then SIGN_IN_REFRESH_ASK_OWNER
      else if sign_in_never_completed account then SIGN_IN_PENDING_ASK_OWNER
      else SIGN_IN_ASK_OWNER)"

definition error_detail :: "Account \<Rightarrow> str" where
  "error_detail account = describe_error (a_last_error account) (a_auth_type account = app_password)"

definition is_credential_error :: "str option \<Rightarrow> bool" where
  "is_credential_error last_error = (truthy last_error \<and> fst (classify_error (the last_error)) = ''auth'')"

section \<open>The resolver\<close>

text \<open>The quantities the source computes before the chain of returns.\<close>

definition job_started :: "SyncJob option \<Rightarrow> bool" where
  "job_started last_job = (case last_job of None \<Rightarrow> False | Some job \<Rightarrow> j_started_at job \<noteq> None)"

definition sync_started :: "bool \<Rightarrow> Account \<Rightarrow> SyncJob option \<Rightarrow> bool" where
  "sync_started live_prog account last_job =
     (live_prog \<or> a_initial_sync_total_messages account \<noteq> None \<or> job_started last_job)"

definition last_activity :: "Account \<Rightarrow> SyncJob option \<Rightarrow> datetime option" where
  "last_activity account last_job =
     (if job_started last_job then
        (case last_job of
           None \<Rightarrow> None
         | Some job \<Rightarrow> (case j_completed_at job of None \<Rightarrow> j_started_at job | Some t \<Rightarrow> Some t))
      else a_created_at account)"

definition older_than :: "timedelta \<Rightarrow> datetime \<Rightarrow> datetime option \<Rightarrow> bool" where
  "older_than threshold now t = (case t of None \<Rightarrow> False | Some t \<Rightarrow> t < now - threshold)"

definition manual_only :: "Account \<Rightarrow> bool" where
  "manual_only account = (strip (str_or (a_sync_schedule account) []) = [])"

definition token_refresh_failed :: "Account \<Rightarrow> bool" where
  "token_refresh_failed account =
     (a_sync_state account = SS_error \<and> a_auth_type account = oauth2
      \<and> a_last_error account = Some TOKEN_REFRESH_FAILED)"

definition signed_in :: "Account \<Rightarrow> bool" where
  "signed_in account =
     (is_authenticated account \<and> a_sync_state account \<noteq> SS_needs_reauth \<and> \<not> token_refresh_failed account)"

definition stopped_job :: "Account \<Rightarrow> SyncJob option \<Rightarrow> bool" where
  "stopped_job account last_job =
     (case last_job of
        None \<Rightarrow> False
      | Some job \<Rightarrow> j_status job = failed \<and> truthy (j_signal job) \<and> j_failure_kind job = None
          \<and> a_last_error account = j_log job)"

definition pause_blocks_trigger :: "Account \<Rightarrow> bool" where
  "pause_blocks_trigger account = (a_sync_paused_until account \<noteq> None \<or> a_pause_reason account \<noteq> None)"

definition long_unsynced :: "timedelta \<Rightarrow> datetime \<Rightarrow> Account \<Rightarrow> SyncJob option \<Rightarrow> bool" where
  "long_unsynced threshold now account last_job =
     (\<not> manual_only account
      \<and> (if a_initial_sync_completed_at account \<noteq> None then older_than threshold now (a_last_sync_at account)
         else older_than threshold now (last_activity account last_job)))"

text \<open>\<open>td.days\<close>\<close>

definition whole_days :: "timedelta \<Rightarrow> int" where
  "whole_days t = t div days 1"

definition initial_stalled_text :: "bool \<Rightarrow> timedelta \<Rightarrow> datetime \<Rightarrow> Account \<Rightarrow> str \<times> str" where
  "initial_stalled_text has_started threshold now account =
     (if has_started then
        (''Initial sync stalled'',
         ''The initial sync has not progressed for over '' @ show_int (whole_days threshold) @ '' days.'')
      else
        (''Never synced'',
         ''This mailbox has never synced (added ''
           @ show_int (case a_created_at account of None \<Rightarrow> whole_days threshold | Some c \<Rightarrow> whole_days (now - c))
           @ '' days ago).''))"

definition make_status ::
  "datetime \<Rightarrow> Account \<Rightarrow> MailboxState \<Rightarrow> Tone \<Rightarrow> str \<Rightarrow> str \<Rightarrow> str \<Rightarrow> bool \<Rightarrow> NextAction option \<Rightarrow> str option \<Rightarrow> bool
   \<Rightarrow> MailboxStatus"
where
  "make_status now account state tone label badge icon spin action detail needs_attention =
    \<lparr> ms_state = state, ms_tone = tone, ms_label = label, ms_detail = detail, ms_action = action,
      ms_needs_attention = needs_attention, ms_signed_in = signed_in account, ms_badge = badge, ms_icon = icon,
      ms_spin = spin, ms_last_success_at = a_last_sync_at account,
      ms_resumes_at = (case a_sync_paused_until account of
         None \<Rightarrow> None
       | Some t \<Rightarrow> if truthy (a_pause_reason account) \<and> t > now then Some t else None) \<rparr>"

definition resolve_mailbox_status ::
  "(str \<Rightarrow> datetime option \<Rightarrow> datetime \<Rightarrow> str + datetime option) \<Rightarrow> Account \<Rightarrow> SyncJob option \<Rightarrow> bool \<Rightarrow> bool \<Rightarrow> datetime
   \<Rightarrow> MailboxStatus"
where
  "resolve_mailbox_status next_fire account last_job live_prog owner_migrating now =
    (let is_error = (a_sync_state account = SS_error);
         initial_done = (a_initial_sync_completed_at account \<noteq> None);
         has_started = sync_started live_prog account last_job;
         threshold = stale_threshold next_fire (a_sync_schedule account) now;
         long = long_unsynced threshold now account last_job;
         make = make_status now account
     in
     if a_migrating account \<or> owner_migrating then
       make MS_migrating Tone_active ''Migrating'' ''stamp-active'' ''loader'' False None None False
     else if a_suspended account then
       make MS_suspended Tone_muted ''Suspended'' ''stamp-muted'' ''pause-circle'' False None None False
     else if \<not> signed_in account then
       make MS_sign_in_needed Tone_attention ''Sign-in needed'' ''stamp-attention'' ''key-round'' False (Some Reconnect)
         (Some (sign_in_detail account)) True
     else if a_sync_state account = SS_syncing then
       (if \<not> initial_done then
          make MS_first_sync Tone_active ''Initial sync'' ''stamp-active'' ''loader'' True None (Some INITIAL_DETAIL) False
        else make MS_syncing Tone_active ''Syncing'' ''stamp-active'' ''loader'' False None None False)
     else if is_error \<and> stopped_job account last_job \<and> \<not> long then
       make MS_stopped Tone_muted ''Stopped'' ''stamp-muted'' ''circle-slash'' False None
         (Some (if manual_only account then ''The last sync was stopped. Start a sync when you're ready.''
                else ''The last sync was stopped. The next scheduled sync runs normally.'')) False
     else if is_error \<and> \<not> truthy (a_pause_reason account) \<and> \<not> stopped_job account last_job then
       make MS_error Tone_error ''Sync failed'' ''stamp-error'' ''alert-circle'' False
         (if a_auth_type account = app_password \<and> is_credential_error (a_last_error account) then Some Update_password
          else if pause_blocks_trigger account then None else Some Retry)
         (Some (error_detail account)) True
     else if long then
       (let action = (if pause_blocks_trigger account then None else Some Sync_now) in
        if \<not> initial_done then
          (let (label, detail) = initial_stalled_text has_started threshold now account
           in make MS_initial_stalled Tone_attention label ''stamp-attention'' ''alert-triangle'' False action (Some detail) True)
        else
          make MS_stale Tone_attention ''Out of date'' ''stamp-attention'' ''clock'' False action
            (Some (''Last sync was '' @ show_int (whole_days (now - the (a_last_sync_at account))) @ '' days ago.'')) True)
     else if truthy (a_pause_reason account) then
       make MS_paused Tone_active ''Paused'' ''stamp-active'' ''pause-circle'' False None
         (Some (case PAUSE_TOOLTIPS (the (a_pause_reason account)) of None \<Rightarrow> GENERIC_PAUSE_DETAIL | Some t \<Rightarrow> t)) False
     else if \<not> initial_done then
       (if has_started then
          make MS_initial_sync Tone_active ''Initial sync'' ''stamp-active'' ''download'' False None (Some INITIAL_DETAIL) False
        else make MS_waiting Tone_muted ''Waiting for first sync'' ''stamp-muted'' ''clock'' False None None False)
     else make MS_current Tone_ok ''Up to date'' ''stamp-ok'' ''check-circle'' False None None False)"

definition PAUSE_KINDS :: "str \<rightharpoonup> str" where
  "PAUSE_KINDS =
    [''budget_paused'' \<mapsto> ''paused (daily limit)'', ''throttled'' \<mapsto> ''paused (provider throttling)'',
     ''transient'' \<mapsto> ''paused (temporary error)'', ''interrupted'' \<mapsto> ''interrupted'']"

definition outcome_failed :: JobOutcome where
  "outcome_failed = \<lparr> jo_tone = Tone_error, jo_label = ''failed'', jo_badge = ''stamp-error'', jo_icon = ''x-circle'', jo_spin = False \<rparr>"

definition resolve_job_outcome :: "SyncJob \<Rightarrow> JobOutcome" where
  "resolve_job_outcome job =
    (if j_status job = completed then
       \<lparr> jo_tone = Tone_ok, jo_label = ''synced'', jo_badge = ''stamp-ok'', jo_icon = ''check-circle'', jo_spin = False \<rparr>
     else if j_status job = running then
       \<lparr> jo_tone = Tone_active, jo_label = ''syncing'', jo_badge = ''stamp-active'', jo_icon = ''loader'', jo_spin = True \<rparr>
     else if j_status job \<noteq> failed then
       \<lparr> jo_tone = Tone_muted, jo_label = ''queued'', jo_badge = ''stamp-muted'', jo_icon = ''clock'', jo_spin = False \<rparr>
     else
       (case j_failure_kind job of
          None \<Rightarrow>
            (if truthy (j_signal job) then
               \<lparr> jo_tone = Tone_muted, jo_label = ''stopped'', jo_badge = ''stamp-muted'', jo_icon = ''circle-slash'', jo_spin = False \<rparr>
             else if j_log job \<in> Some ` BLOCKED_LOGS then
               \<lparr> jo_tone = Tone_muted, jo_label = ''skipped'', jo_badge = ''stamp-muted'', jo_icon = ''circle-slash'', jo_spin = False \<rparr>
             else if j_log job = Some TOKEN_REFRESH_FAILED then
               \<lparr> jo_tone = Tone_attention, jo_label = ''sign-in failed'', jo_badge = ''stamp-attention'', jo_icon = ''key-round'',
                 jo_spin = False \<rparr>
             else outcome_failed)
        | Some kind \<Rightarrow>
            (case PAUSE_KINDS kind of
               Some label \<Rightarrow>
                 \<lparr> jo_tone = Tone_active, jo_label = label, jo_badge = ''stamp-active'', jo_icon = ''pause-circle'', jo_spin = False \<rparr>
             | None \<Rightarrow> outcome_failed)))"

section \<open>Many accounts at once\<close>

definition finished :: "SyncJob \<Rightarrow> bool" where
  "finished job = (j_status job \<in> {completed, failed, cancelled})"

text \<open>
  The grouped query: rows joined with the latest completion time of their account; the first
  such row in table order is kept.
\<close>

definition latest_completion :: "SyncJob list \<Rightarrow> str \<Rightarrow> datetime option" where
  "latest_completion jobs aid =
     (case List.map_filter j_completed_at
             (filter (\<lambda>j. j_account_id j = aid \<and> finished j \<and> j_started_at j \<noteq> None) jobs) of
        [] \<Rightarrow> None | t # ts \<Rightarrow> Some (fold max ts t))"

definition latest_finished_jobs_by_account :: "world \<Rightarrow> str list \<Rightarrow> str \<rightharpoonup> SyncJob" where
  "latest_finished_jobs_by_account w account_ids aid =
     (if aid \<in> set account_ids then
        (case latest_completion (sync_jobs w) aid of
           None \<Rightarrow> None
         | Some m \<Rightarrow> find (\<lambda>j. j_account_id j = aid \<and> j_completed_at j = Some m \<and> finished j \<and> j_started_at j \<noteq> None)
             (sync_jobs w))
      else None)"

definition accounts_with_migrating_owner :: "world \<Rightarrow> str list \<Rightarrow> str set" where
  "accounts_with_migrating_owner w account_ids =
     {aid \<in> set account_ids. \<exists>p \<in> set (account_owners w). fst p = aid \<and> (\<exists>u \<in> set (users w). u_id u = snd p \<and> u_migrating u)}"

definition has_live_progress :: "world \<Rightarrow> Account \<Rightarrow> bool" where
  "has_live_progress w account =
     (case get_live_progress_for_account w (a_id account) of None \<Rightarrow> False | Some prog \<Rightarrow> lp_pct prog \<noteq> None)"

definition resolve_many ::
  "(str \<Rightarrow> datetime option \<Rightarrow> datetime \<Rightarrow> str + datetime option) \<Rightarrow> world \<Rightarrow> Account list \<Rightarrow> datetime \<Rightarrow> (str \<times> MailboxStatus) list"
where
  "resolve_many next_fire w accts now =
     (let ids = map a_id accts;
          jobs = latest_finished_jobs_by_account w ids;
          migrating_owner = accounts_with_migrating_owner w ids
      in map (\<lambda>a. (a_id a, resolve_mailbox_status next_fire a (jobs (a_id a)) (has_live_progress w a)
                              (a_id a \<in> migrating_owner) now)) accts)"

section \<open>The contract every surface relies on\<close>

lemmas make_status_simps [simp] = make_status_def [THEN arg_cong [of _ _ ms_state], simplified]
  make_status_def [THEN arg_cong [of _ _ ms_tone], simplified]
  make_status_def [THEN arg_cong [of _ _ ms_action], simplified]
  make_status_def [THEN arg_cong [of _ _ ms_needs_attention], simplified]
  make_status_def [THEN arg_cong [of _ _ ms_spin], simplified]
  make_status_def [THEN arg_cong [of _ _ ms_signed_in], simplified]
  make_status_def [THEN arg_cong [of _ _ ms_resumes_at], simplified]

text \<open>The tone and the attention flag are functions of the state alone.\<close>

fun tone_of :: "MailboxState \<Rightarrow> Tone" where
  "tone_of MS_migrating = Tone_active"
| "tone_of MS_suspended = Tone_muted"
| "tone_of MS_sign_in_needed = Tone_attention"
| "tone_of MS_first_sync = Tone_active"
| "tone_of MS_syncing = Tone_active"
| "tone_of MS_paused = Tone_active"
| "tone_of MS_stopped = Tone_muted"
| "tone_of MS_error = Tone_error"
| "tone_of MS_initial_sync = Tone_active"
| "tone_of MS_initial_stalled = Tone_attention"
| "tone_of MS_waiting = Tone_muted"
| "tone_of MS_stale = Tone_attention"
| "tone_of MS_current = Tone_ok"

text \<open>A declarative reading of the precedence: the state as a function of the facts.\<close>

definition status_state ::
  "bool \<Rightarrow> timedelta \<Rightarrow> datetime \<Rightarrow> Account \<Rightarrow> SyncJob option \<Rightarrow> bool \<Rightarrow> MailboxState"
where
  "status_state blocked threshold now a job begun =
    (if blocked then MS_migrating else if a_suspended a then MS_suspended else if \<not> signed_in a then MS_sign_in_needed
     else
       let first = (a_initial_sync_completed_at a = None); long = long_unsynced threshold now a job in
       case a_sync_state a of
         SS_syncing \<Rightarrow> (if first then MS_first_sync else MS_syncing)
       | st \<Rightarrow>
           (if st = SS_error \<and> stopped_job a job \<and> \<not> long then MS_stopped
            else if st = SS_error \<and> \<not> stopped_job a job \<and> \<not> truthy (a_pause_reason a) then MS_error
            else if long then (if first then MS_initial_stalled else MS_stale)
            else if truthy (a_pause_reason a) then MS_paused
            else if first then (if begun then MS_initial_sync else MS_waiting)
            else MS_current))"

lemma resolve_state:
  "ms_state (resolve_mailbox_status nf a job live own now) =
     status_state (a_migrating a \<or> own) (stale_threshold nf (a_sync_schedule a) now) now a job
       (sync_started live a job)"
  unfolding resolve_mailbox_status_def status_state_def Let_def
  by (cases "a_sync_state a") (simp_all add: case_prod_unfold)

definition wf_status :: "Account \<Rightarrow> MailboxStatus \<Rightarrow> bool" where
  "wf_status a s = (ms_tone s = tone_of (ms_state s)
     \<and> (ms_needs_attention s \<longleftrightarrow> ms_state s \<in> {MS_sign_in_needed, MS_error, MS_initial_stalled, MS_stale})
     \<and> (ms_action s = None \<or> ms_needs_attention s) \<and> ms_signed_in s = signed_in a)"

lemma resolve_wf: "wf_status a (resolve_mailbox_status nf a job live own now)"
proof -
  have branch: "wf_status a (if c then x else y)" if "wf_status a x" "wf_status a y" for c x y
    using that by simp
  show ?thesis
    unfolding resolve_mailbox_status_def Let_def case_prod_unfold
    by (intro branch) (simp_all add: wf_status_def)
qed

lemma resolver_tone:
  "ms_tone (resolve_mailbox_status nf a job live own now) = Tone_error
     \<longleftrightarrow> ms_state (resolve_mailbox_status nf a job live own now) = MS_error"
proof -
  have "tone_of x = Tone_error \<longleftrightarrow> x = MS_error" for x
    by (cases x) simp_all
  with resolve_wf show ?thesis by (simp add: wf_status_def)
qed


text \<open>
  A self-recovering pause is never shown red, and an action that triggers a sync is never
  offered while one is set: "retry" and "sync now" appear only for an account without pause
  columns that is signed in, not suspended and not migrating, that is, one whose trigger the
  agent's pause predicate does not refuse.
\<close>

lemma offered_action_is_accepted:
  assumes "ms_action (resolve_mailbox_status nf a job live own now) \<in> {Some Retry, Some Sync_now}"
  shows "\<not> pause_blocks_trigger a \<and> a_sync_paused_until a = None \<and> a_pause_reason a = None
    \<and> \<not> a_suspended a \<and> \<not> a_migrating a \<and> \<not> own \<and> is_authenticated a \<and> a_sync_state a \<noteq> SS_needs_reauth
    \<and> a_sync_state a \<noteq> SS_syncing"
proof -
  let ?ok = "\<lambda>s. ms_action s \<in> {Some Retry, Some Sync_now} \<longrightarrow>
      \<not> pause_blocks_trigger a \<and> \<not> a_suspended a \<and> \<not> a_migrating a \<and> \<not> own \<and> signed_in a \<and> a_sync_state a \<noteq> SS_syncing"
  have branch: "?ok (if c then x else y)" if "c \<Longrightarrow> ?ok x" "\<not> c \<Longrightarrow> ?ok y" for c x y
    using that by simp
  have "?ok (resolve_mailbox_status nf a job live own now)"
    unfolding resolve_mailbox_status_def Let_def case_prod_unfold
    by (intro branch) simp_all
  with assms show ?thesis
    by (simp add: pause_blocks_trigger_def signed_in_def)
qed

lemma pause_never_red:
  assumes "truthy (a_pause_reason a)"
  shows "ms_tone (resolve_mailbox_status nf a job live own now) \<noteq> Tone_error"
proof -
  have "ms_state (resolve_mailbox_status nf a job live own now) \<noteq> MS_error"
    unfolding resolve_state status_state_def Let_def using assms by (cases "a_sync_state a") simp_all
  with resolver_tone show ?thesis by simp
qed

definition failed_account :: Account where
  "failed_account = (new_account ''a1'' ''Work'' ''w@x'' ''google'' ''imap.x'' 993 app_password (Some ''c'') ''s1'' ''/m'' None 0)
     \<lparr>a_sync_state := SS_error\<rparr>"

lemma failed_account_facts:
  "signed_in failed_account" "\<not> a_migrating failed_account" "\<not> a_suspended failed_account"
  "a_sync_state failed_account = SS_error" "a_pause_reason failed_account = None" "a_sync_paused_until failed_account = None"
  "a_auth_type failed_account = app_password" "a_last_error failed_account = None"
  by (simp_all add: failed_account_def new_account_def signed_in_def token_refresh_failed_def is_authenticated_def)

section \<open>Which job is looked at\<close>

lemma fold_max: "fold max ts t \<in> set (t # ts) \<and> (\<forall>x \<in> set (t # ts). x \<le> fold max ts (t :: int))"
proof (induction ts arbitrary: t)
  case (Cons u ts)
  from Cons [of "max u t"] show ?case by (auto simp: max_def split: if_splits)
qed simp

lemma latest_completion_None:
  "latest_completion jobs aid = None \<longleftrightarrow>
     (\<forall>j \<in> set jobs. j_account_id j = aid \<longrightarrow> finished j \<longrightarrow> j_started_at j \<noteq> None \<longrightarrow> j_completed_at j = None)"
proof -
  have "latest_completion jobs aid = None \<longleftrightarrow>
      List.map_filter j_completed_at (filter (\<lambda>j. j_account_id j = aid \<and> finished j \<and> j_started_at j \<noteq> None) jobs) = []"
    unfolding latest_completion_def by (simp split: list.split)
  then show ?thesis by (auto simp: List.map_filter_def filter_empty_conv)
qed

lemma latest_completion_Some:
  assumes "latest_completion jobs aid = Some m"
  shows "\<exists>j \<in> set jobs. j_account_id j = aid \<and> finished j \<and> j_started_at j \<noteq> None \<and> j_completed_at j = Some m"
    and "\<forall>j \<in> set jobs. \<forall>t. j_account_id j = aid \<longrightarrow> finished j \<longrightarrow> j_started_at j \<noteq> None \<longrightarrow> j_completed_at j = Some t \<longrightarrow> t \<le> m"
proof -
  let ?js = "filter (\<lambda>j. j_account_id j = aid \<and> finished j \<and> j_started_at j \<noteq> None) jobs"
  obtain t ts where ts: "List.map_filter j_completed_at ?js = t # ts" and m: "m = fold max ts t"
    using assms by (auto simp: latest_completion_def split: list.splits)
  have mem: "x \<in> set (List.map_filter j_completed_at ?js) \<longleftrightarrow> (\<exists>j \<in> set ?js. j_completed_at j = Some x)" for x
    by (force simp: List.map_filter_def)
  show "\<exists>j \<in> set jobs. j_account_id j = aid \<and> finished j \<and> j_started_at j \<noteq> None \<and> j_completed_at j = Some m"
    using fold_max [of ts t] mem [of m] unfolding ts m [symmetric] by auto
  show "\<forall>j \<in> set jobs. \<forall>t. j_account_id j = aid \<longrightarrow> finished j \<longrightarrow> j_started_at j \<noteq> None \<longrightarrow> j_completed_at j = Some t \<longrightarrow> t \<le> m"
    using fold_max [of ts t] mem unfolding ts m [symmetric] by fastforce
qed

text \<open>
  The run a surface judges a mailbox by is the last real one: the row found for an account
  is one of its finished jobs that actually started, none of its other started and finished
  jobs completed later, and a queued, running or blocked job never hides it.
\<close>

lemma latest_finished_job_sound:
  assumes "latest_finished_jobs_by_account w ids aid = Some job"
  shows "job \<in> set (sync_jobs w) \<and> aid \<in> set ids \<and> j_account_id job = aid \<and> finished job \<and> j_started_at job \<noteq> None
    \<and> (\<exists>m. j_completed_at job = Some m
        \<and> (\<forall>j \<in> set (sync_jobs w). \<forall>t. j_account_id j = aid \<longrightarrow> finished j \<longrightarrow> j_started_at j \<noteq> None
             \<longrightarrow> j_completed_at j = Some t \<longrightarrow> t \<le> m))"
proof -
  obtain m where ids: "aid \<in> set ids" and m: "latest_completion (sync_jobs w) aid = Some m"
    and f: "find (\<lambda>j. j_account_id j = aid \<and> j_completed_at j = Some m \<and> finished j \<and> j_started_at j \<noteq> None) (sync_jobs w) = Some job"
    using assms by (auto simp: latest_finished_jobs_by_account_def split: if_splits option.splits)
  have "job \<in> set (sync_jobs w)"
    and "j_account_id job = aid \<and> j_completed_at job = Some m \<and> finished job \<and> j_started_at job \<noteq> None"
    using f by (auto simp: find_Some_iff)
  with ids latest_completion_Some(2) [OF m] show ?thesis by blast
qed

lemma latest_finished_job_exists:
  assumes "j \<in> set (sync_jobs w)" and "j_account_id j \<in> set ids" and "finished j" and "j_started_at j \<noteq> None"
    and "j_completed_at j \<noteq> None"
  shows "latest_finished_jobs_by_account w ids (j_account_id j) \<noteq> None"
proof -
  obtain m where m: "latest_completion (sync_jobs w) (j_account_id j) = Some m"
    using assms latest_completion_None by (metis not_Some_eq)
  from latest_completion_Some(1) [OF m] assms(2) show ?thesis
    by (auto simp: latest_finished_jobs_by_account_def m find_None_iff simp del: not_None_eq)
qed

definition history_world :: world where
  "history_world = empty_world\<lparr>sync_jobs :=
     [(new_sync_job ''j1'' ''a1'' ''api'' 1)\<lparr>j_status := completed, j_started_at := Some 2, j_completed_at := Some 3\<rparr>,
      (new_sync_job ''j2'' ''a1'' ''api'' 4)\<lparr>j_status := failed, j_started_at := Some 5, j_completed_at := Some 6\<rparr>,
      (new_sync_job ''j3'' ''a1'' ''api'' 7)\<lparr>j_status := failed, j_completed_at := Some 8\<rparr>]\<rparr>"

end
