(* ===== verification/Sync_Sampler.thy ===== *)
theory Sync_Sampler
  imports Sync_Runtime
begin

text \<open>
  The byte meter of \<open>services/sync_worker.py\<close>: one walk over the Maildir, the tick that books
  the new bytes of the run into the account's daily ledger, publishes the live progress and
  enforces the budget; the attempt counter and the pause the worker sets.

  \<open>os.walk\<close> is the list of the files it meets, each with its directory below the root; a file
  that vanished before \<open>os.stat\<close> has \<open>mf_statable = False\<close>. Rates are exact rationals.
\<close>

section \<open>One walk\<close>

record MailFile =
  mf_dir :: "str list"
  mf_name :: str
  mf_size :: int
  mf_mtime :: datetime
  mf_statable :: bool

definition counted :: "str \<Rightarrow> MailFile \<Rightarrow> bool" where
  "counted base f =
     (''.dovecot-home'' \<notin> set (mf_dir f)
      \<and> last (base # mf_dir f) \<in> {''cur'', ''new''}
      \<and> \<not> (prefix ''.'' (mf_name f) \<or> prefix ''dovecot'' (mf_name f))
      \<and> mf_statable f)"

text \<open>\<open>base\<close> is the last component of the Maildir path itself.\<close>

definition sample_maildir :: "str \<Rightarrow> MailFile list \<Rightarrow> datetime \<Rightarrow> int \<times> int \<times> int \<times> int" where
  "sample_maildir base files since_ts =
     fold (\<lambda>f (total_msgs, total_bytes, run_msgs, run_bytes).
         if counted base f then
           (if mf_mtime f \<ge> since_ts
            then (total_msgs + 1, total_bytes + mf_size f, run_msgs + 1, run_bytes + mf_size f)
            else (total_msgs + 1, total_bytes + mf_size f, run_msgs, run_bytes))
         else (total_msgs, total_bytes, run_msgs, run_bytes)) files (0, 0, 0, 0)"

lemma sample_maildir_eq:
  "sample_maildir base files since_ts =
     (let all = filter (counted base) files; new = filter (\<lambda>f. mf_mtime f \<ge> since_ts) all
      in (int (length all), sum_list (map mf_size all), int (length new), sum_list (map mf_size new)))"
proof -
  have "fold (\<lambda>f (total_msgs, total_bytes, run_msgs, run_bytes).
         if counted base f then
           (if mf_mtime f \<ge> since_ts
            then (total_msgs + 1, total_bytes + mf_size f, run_msgs + 1, run_bytes + mf_size f)
            else (total_msgs + 1, total_bytes + mf_size f, run_msgs, run_bytes))
         else (total_msgs, total_bytes, run_msgs, run_bytes)) files (a, b, c, d) =
     (let all = filter (counted base) files; new = filter (\<lambda>f. mf_mtime f \<ge> since_ts) all
      in (a + int (length all), b + sum_list (map mf_size all),
          c + int (length new), d + sum_list (map mf_size new)))" for a b c d
    by (induction files arbitrary: a b c d) (auto simp: Let_def)
  then show ?thesis
    by (simp add: sample_maildir_def Let_def)
qed

section \<open>One tick\<close>

definition RATE_EMA_ALPHA :: rat where
  "RATE_EMA_ALPHA = 3 / 10"

record SamplerState =
  ss_run_start_ts :: datetime
  ss_last_run_bytes :: int
  ss_last_run_msgs :: int
  ss_last_tick_monotonic :: datetime
  ss_rate :: rat
  ss_had_tick :: bool

definition new_sampler_state :: "datetime \<Rightarrow> datetime \<Rightarrow> SamplerState" where
  "new_sampler_state run_start_ts monot =
    \<lparr> ss_run_start_ts = run_start_ts, ss_last_run_bytes = 0, ss_last_run_msgs = 0,
      ss_last_tick_monotonic = monot, ss_rate = 0, ss_had_tick = False \<rparr>"

text \<open>The smoothed rate in messages per second; the monotonic clock counts microseconds.\<close>

definition tick_rate :: "SamplerState \<Rightarrow> int \<Rightarrow> datetime \<Rightarrow> rat" where
  "tick_rate state run_msgs monot =
     (let dt = of_int (max 1 (monot - ss_last_tick_monotonic state)) / 1000000;
          inst_rate = of_int (max 0 (run_msgs - ss_last_run_msgs state)) / dt
      in if \<not> ss_had_tick state then inst_rate
         else RATE_EMA_ALPHA * inst_rate + (1 - RATE_EMA_ALPHA) * ss_rate state)"

text \<open>The ledger columns after booking \<open>n\<close> new bytes on the day \<open>today\<close>.\<close>

definition book :: "int \<Rightarrow> int \<Rightarrow> Account \<Rightarrow> Account" where
  "book today n account =
     (let account = (if a_traffic_date account \<noteq> Some today
                     then account\<lparr>a_traffic_date := Some today, a_bytes_synced_today := 0\<rparr> else account)
      in account\<lparr>a_bytes_synced_today := a_bytes_synced_today account + n\<rparr>)"

definition live_entry ::
  "str \<Rightarrow> Account \<Rightarrow> int \<times> int \<times> int \<times> int \<Rightarrow> rat \<Rightarrow> datetime \<Rightarrow> LiveProgress"
where
  "live_entry account_id account totals rate now =
     (let (total_msgs, total_bytes, run_msgs, run_bytes) = totals; budget = daily_budget_bytes account in
      \<lparr> lp_account_id = account_id, lp_done_msgs = total_msgs, lp_done_bytes = total_bytes,
        lp_run_msgs = run_msgs, lp_run_bytes = run_bytes,
        lp_bytes_today = a_bytes_synced_today account, lp_budget_bytes = budget,
        lp_pct = compute_progress total_msgs (a_initial_sync_total_messages account),
        lp_eta = estimate_eta total_msgs (a_initial_sync_total_messages account) total_bytes
                   (a_bytes_synced_today account) budget rate,
        lp_rate_msgs_per_s = rate, lp_updated_ts = now \<rparr>)"

definition sampler_tick ::
  "str \<Rightarrow> str \<Rightarrow> str \<Rightarrow> MailFile list \<Rightarrow> datetime \<Rightarrow> datetime \<Rightarrow> SamplerState \<times> world \<Rightarrow> SamplerState \<times> world"
where
  "sampler_tick job_id account_id base files now monot sw =
     (let (state, w) = sw;
          totals = sample_maildir base files (ss_run_start_ts state);
          (total_msgs, total_bytes, run_msgs, run_bytes) = totals;
          rate = tick_rate state run_msgs monot;
          state = state\<lparr>ss_last_run_msgs := run_msgs, ss_last_tick_monotonic := monot,
                        ss_rate := rate, ss_had_tick := True\<rparr>
      in case get_account w account_id of
           None \<Rightarrow> (state, w)
         | Some account \<Rightarrow>
             let n = max 0 (run_bytes - ss_last_run_bytes state);
                 account = book (utc_date now) n account;
                 w = upd_account account_id (book (utc_date now) n) w;
                 state = state\<lparr>ss_last_run_bytes := run_bytes\<rparr>;
                 w = upd_rt (\<lambda>rt. rt\<lparr>live_progress :=
                       AList.update job_id (live_entry account_id account totals rate now) (live_progress rt)\<rparr>) w;
                 over_budget = (case daily_budget_bytes account of
                                  None \<Rightarrow> False | Some budget \<Rightarrow> a_bytes_synced_today account \<ge> budget)
             in if over_budget \<and> job_id \<notin> budget_stops (sync_rt w) then
                  (state, snd (stop_sync_job job_id
                     (upd_rt (\<lambda>rt. rt\<lparr>budget_stops := insert job_id (budget_stops rt)\<rparr>) w)))
                else (state, w))"

text \<open>The bytes the run has on disk at a tick, as the walk of that tick sees them.\<close>

definition run_bytes_of :: "str \<Rightarrow> datetime \<Rightarrow> MailFile list \<Rightarrow> int" where
  "run_bytes_of base start files = (case sample_maildir base files start of (_, _, _, rb) \<Rightarrow> rb)"

lemma book_simps [simp]:
  "a_id (book d n a) = a_id a"
  "a_traffic_date (book d n a) = Some d"
  "a_bytes_synced_today (book d n a) = (if a_traffic_date a = Some d then a_bytes_synced_today a else 0) + n"
  "a_provider (book d n a) = a_provider a"
  "a_daily_sync_budget_mb (book d n a) = a_daily_sync_budget_mb a"
  by (simp_all add: book_def)

lemma daily_budget_book [simp]: "daily_budget_bytes (book d n a) = daily_budget_bytes a"
  by (rule daily_budget_bytes_cong) simp_all

lemma live_entry_simps [simp]:
  "lp_account_id (live_entry i a totals rate now) = i"
  "lp_bytes_today (live_entry i a totals rate now) = a_bytes_synced_today a"
  "lp_updated_ts (live_entry i a totals rate now) = now"
  by (simp_all add: live_entry_def Let_def split: prod.split)

lemma sampler_tick_state:
  assumes "sampler_tick job_id account_id base files now monot (state, w) = (state', w')"
    and "get_account w account_id = Some a"
  shows "ss_run_start_ts state' = ss_run_start_ts state
    \<and> ss_last_run_bytes state' = run_bytes_of base (ss_run_start_ts state) files"
  using assms
  by (auto simp: sampler_tick_def Let_def run_bytes_of_def split: prod.splits if_splits)

lemma sampler_tick_account:
  assumes "sampler_tick job_id account_id base files now monot (state, w) = (state', w')"
    and "get_account w account_id = Some a"
  shows "get_account w' account_id =
    Some (book (utc_date now) (max 0 (run_bytes_of base (ss_run_start_ts state) files - ss_last_run_bytes state)) a)"
  using assms
  by (auto simp: sampler_tick_def Let_def run_bytes_of_def row_set_row split: prod.splits if_splits)

lemma sampler_tick_jobs [simp]:
  "sync_jobs (snd (sampler_tick job_id account_id base files now monot sw)) = sync_jobs (snd sw)"
  by (auto simp: sampler_tick_def Let_def split: prod.splits option.splits)

section \<open>The ledger\<close>

text \<open>
  A run of the sampler: what other threads did to the world since the last tick, the walk and
  the two clocks of each tick.
\<close>

type_synonym tick = "(world \<Rightarrow> world) \<times> MailFile list \<times> datetime \<times> datetime"

fun sampler_run :: "str \<Rightarrow> str \<Rightarrow> str \<Rightarrow> tick list \<Rightarrow> SamplerState \<times> world \<Rightarrow> SamplerState \<times> world" where
  "sampler_run job_id account_id base [] sw = sw"
| "sampler_run job_id account_id base ((others, files, now, monot) # ticks) sw =
     sampler_run job_id account_id base ticks
       (sampler_tick job_id account_id base files now monot (fst sw, others (snd sw)))"

text \<open>Other threads leave the ledger columns of the account alone.\<close>

definition ledger :: "str \<Rightarrow> world \<Rightarrow> (int option \<times> int) option" where
  "ledger account_id w =
     map_option (\<lambda>a. (a_traffic_date a, a_bytes_synced_today a)) (get_account w account_id)"

definition today_ledger :: "int \<Rightarrow> int option \<times> int \<Rightarrow> int" where
  "today_ledger d l = (if fst l = Some d then snd l else 0)"

lemma sampler_tick_ledger:
  assumes "sampler_tick job_id account_id base files now monot (state, w) = (state', w')"
    and "ledger account_id w = Some l"
  shows "ledger account_id w' = Some (Some (utc_date now),
      today_ledger (utc_date now) l + max 0 (run_bytes_of base (ss_run_start_ts state) files - ss_last_run_bytes state))"
proof -
  from assms(2) obtain a where a: "get_account w account_id = Some a"
    and l: "l = (a_traffic_date a, a_bytes_synced_today a)"
    by (auto simp: ledger_def)
  show ?thesis
    unfolding ledger_def sampler_tick_account [OF assms(1) a] by (simp add: l today_ledger_def)
qed

lemma sampler_run_books:
  assumes "\<forall>others files now monot. (others, files, now, monot) \<in> set ticks \<longrightarrow> utc_date now = d
      \<and> (\<forall>v. ledger account_id (others v) = ledger account_id v)"
    and "ledger account_id w = Some l" and "ticks \<noteq> []"
    and "sampler_run job_id account_id base ticks (state, w) = (state', w')"
  shows "\<exists>b. ledger account_id w' = Some (Some d, b) \<and> today_ledger d l \<le> b
    \<and> (\<forall>others files now monot. (others, files, now, monot) \<in> set ticks \<longrightarrow>
         today_ledger d l + (run_bytes_of base (ss_run_start_ts state) files - ss_last_run_bytes state) \<le> b)"
  using assms
proof (induction ticks arbitrary: state w l)
  case Nil
  then show ?case by simp
next
  case (Cons t ticks)
  obtain others files now monot where t: "t = (others, files, now, monot)" by (cases t)
  let ?r = "\<lambda>files. run_bytes_of base (ss_run_start_ts state) files"
  obtain s1 w1 where tick: "sampler_tick job_id account_id base files now monot (state, others w) = (s1, w1)"
    by (cases "sampler_tick job_id account_id base files now monot (state, others w)")
  have d: "utc_date now = d" and l0: "ledger account_id (others w) = Some l"
    using Cons.prems(1,2) by (auto simp: t)
  then obtain a where a: "get_account (others w) account_id = Some a"
    by (auto simp: ledger_def)
  let ?b1 = "today_ledger d l + max 0 (?r files - ss_last_run_bytes state)"
  have l1: "ledger account_id w1 = Some (Some d, ?b1)"
    using sampler_tick_ledger [OF tick l0] by (simp add: d)
  have s1: "ss_run_start_ts s1 = ss_run_start_ts state" "ss_last_run_bytes s1 = ?r files"
    using sampler_tick_state [OF tick a] by auto
  have rest: "sampler_run job_id account_id base ticks (s1, w1) = (state', w')"
    using Cons.prems(4) by (simp add: t tick)
  show ?case
  proof (cases "ticks = []")
    case True
    with rest l1 show ?thesis by (simp add: t)
  next
    case False
    have "\<forall>others files now monot. (others, files, now, monot) \<in> set ticks \<longrightarrow> utc_date now = d
      \<and> (\<forall>v. ledger account_id (others v) = ledger account_id v)"
      using Cons.prems(1) by auto
    from Cons.IH [OF this l1 False rest] obtain b
      where b: "ledger account_id w' = Some (Some d, b)" "?b1 \<le> b"
        and more: "\<forall>others files' now monot. (others, files', now, monot) \<in> set ticks \<longrightarrow> ?b1 + (?r files' - ?r files) \<le> b"
      unfolding s1 by (auto simp: today_ledger_def)
    have "today_ledger d l + (?r files' - ss_last_run_bytes state) \<le> b"
      if "(o', files', n', m') \<in> set ticks" for o' files' n' m'
      using more that by fastforce
    with b show ?thesis by (auto simp: t)
  qed
qed


definition sampler_demo :: "MailFile list" where
  "sampler_demo = [\<lparr>mf_dir = [''INBOX'', ''cur''], mf_name = ''1'', mf_size = 700, mf_mtime = 50, mf_statable = True\<rparr>,
     \<lparr>mf_dir = [''INBOX'', ''tmp''], mf_name = ''2'', mf_size = 900, mf_mtime = 50, mf_statable = True\<rparr>]"

definition sampler_world :: world where
  "sampler_world = empty_world\<lparr>accounts := [new_account ''a1'' ''Main'' ''m@x'' ''google'' ''h'' 993 app_password
     None ''s1'' ''/data/a1'' None 0]\<rparr>"


text \<open>
  C20. A tick that finds the day's traffic at or over the budget has marked the job as
  budget-stopped and, the first time, killed its process; below the budget, or without one, it
  stops nothing. Either way the published progress carries the ledger it was judged by.
\<close>

theorem sampler_tick_enforces_budget:
  fixes w w' :: world
  assumes "sampler_tick job_id account_id base files now monot (state, w) = (state', w')"
    and "get_account w account_id = Some a0" and "get_account w' account_id = Some a"
  defines "rt \<equiv> sync_rt w" and "rt' \<equiv> sync_rt w'"
  shows "(\<exists>prog. get_live_progress w' job_id = Some prog \<and> lp_account_id prog = account_id
        \<and> lp_bytes_today prog = a_bytes_synced_today a \<and> lp_updated_ts prog = now)
    \<and> (if \<exists>budget. daily_budget_bytes a = Some budget \<and> budget \<le> a_bytes_synced_today a
       then job_id \<in> budget_stops rt'
          \<and> (\<forall>p. job_id \<notin> budget_stops rt \<and> running_procs rt job_id = Some p \<longrightarrow>
               killed_signals rt' job_id \<noteq> None
               \<and> (\<exists>p'. running_procs rt' job_id = Some p' \<and> p_returncode p' \<noteq> None))
       else budget_stops rt' = budget_stops rt \<and> running_procs rt' = running_procs rt
          \<and> killed_signals rt' = killed_signals rt)"
proof -
  obtain tm tb rm rb where tot: "sample_maildir base files (ss_run_start_ts state) = (tm, tb, rm, rb)"
    by (cases "sample_maildir base files (ss_run_start_ts state)")
  let ?n = "max 0 (rb - ss_last_run_bytes state)"
  have a: "a = book (utc_date now) ?n a0"
    using sampler_tick_account [OF assms(1,2)] assms(3) by (simp add: run_bytes_of_def tot)
  let ?rate = "tick_rate state rm monot"
  define w1 where "w1 = upd_rt (\<lambda>rt. rt\<lparr>live_progress :=
      AList.update job_id (live_entry account_id a (tm, tb, rm, rb) ?rate now) (live_progress rt)\<rparr>)
      (upd_account account_id (book (utc_date now) ?n) w)"
  define w2 where "w2 = upd_rt (\<lambda>rt. rt\<lparr>budget_stops := insert job_id (budget_stops rt)\<rparr>) w1"
  let ?over = "\<exists>budget. daily_budget_bytes a = Some budget \<and> budget \<le> a_bytes_synced_today a"
  have over: "(case daily_budget_bytes a of None \<Rightarrow> False | Some budget \<Rightarrow> budget \<le> a_bytes_synced_today a) = ?over"
    by (auto split: option.split)
  have w': "w' = (if ?over \<and> job_id \<notin> budget_stops rt then snd (stop_sync_job job_id w2) else w1)"
    using assms(1,2) tot unfolding over [symmetric] unfolding w2_def w1_def rt_def a
    by (auto simp: sampler_tick_def Let_def simp del: book_simps daily_budget_book split: if_splits)
  have w1: "running_procs (sync_rt w1) = running_procs rt" "killed_signals (sync_rt w1) = killed_signals rt"
      "budget_stops (sync_rt w1) = budget_stops rt"
    by (simp_all add: w1_def rt_def)
  have w2: "running_procs (sync_rt w2) = running_procs rt"
    by (simp add: w2_def w1)
  have "get_live_progress w' job_id = Some (live_entry account_id a (tm, tb, rm, rb) ?rate now)"
    by (simp add: w' get_live_progress_def w2_def) (simp add: w1_def update_conv)
  moreover have "job_id \<in> budget_stops rt' \<or> \<not> ?over"
    by (auto simp: rt'_def w' w1 w2_def)
  moreover have "killed_signals rt' job_id \<noteq> None
      \<and> (\<exists>p'. running_procs rt' job_id = Some p' \<and> p_returncode p' \<noteq> None)"
    if "?over" "job_id \<notin> budget_stops rt" "running_procs rt job_id = Some p" for p
    using that stop_sync_job_kills [of w2 job_id p] by (simp add: rt'_def w' w2)
  ultimately show ?thesis
    by (auto simp: rt'_def w' w1)
qed

theorem sampler_tick_enforces_budget_witness:
  "\<exists>w a. get_account w ''a1'' = Some a \<and> a_daily_sync_budget_mb a = Some 1
     \<and> ''j1'' \<in> budget_stops (sync_rt (snd (sampler_tick ''j1'' ''a1'' ''a1''
          [\<lparr>mf_dir = [''cur''], mf_name = ''1'', mf_size = 2000000, mf_mtime = 50, mf_statable = True\<rparr>] 100 100
          (new_sampler_state 10 0, w))))"
proof -
  let ?a = "(new_account ''a1'' ''Main'' ''m@x'' ''google'' ''h'' 993 app_password None ''s1'' ''/data/a1'' None 0)
      \<lparr>a_daily_sync_budget_mb := Some 1\<rparr>"
  let ?w = "empty_world\<lparr>accounts := [?a]\<rparr>"
  let ?fs = "[\<lparr>mf_dir = [''cur''], mf_name = ''1'', mf_size = 2000000, mf_mtime = 50, mf_statable = True\<rparr>]"
  let ?t = "sampler_tick ''j1'' ''a1'' ''a1'' ?fs 100 100 (new_sampler_state 10 0, ?w)"
  have g: "get_account ?w ''a1'' = Some ?a"
    by (simp add: new_account_def)
  have t: "?t = (fst ?t, snd ?t)" by simp
  have r: "run_bytes_of ''a1'' (ss_run_start_ts (new_sampler_state 10 0)) ?fs - ss_last_run_bytes (new_sampler_state 10 0) = 2000000"
    by (simp add: run_bytes_of_def sample_maildir_eq counted_def new_sampler_state_def)
  let ?b = "book (utc_date 100) 2000000 ?a"
  have g': "get_account (snd ?t) ''a1'' = Some ?b"
    using sampler_tick_account [OF t g] unfolding r by simp
  have "daily_budget_bytes ?b = Some MIB"
    by (simp add: daily_budget_bytes_def)
  moreover have "MIB \<le> a_bytes_synced_today ?b"
    by (simp add: MIB_def new_account_def)
  ultimately have "''j1'' \<in> budget_stops (sync_rt (snd ?t))"
    using sampler_tick_enforces_budget [OF t g g'] by (auto split: if_splits)
  with g show ?thesis by (intro exI [of _ ?w] exI [of _ ?a]) simp
qed

section \<open>Attempt counter, pause and deadline\<close>

definition attempt_today :: "datetime \<Rightarrow> str \<Rightarrow> str \<Rightarrow> world \<Rightarrow> int" where
  "attempt_today now account_id kind w =
     (let day_start = utc_midnight (utc_date now);
          prior = length (filter (\<lambda>j. j_account_id j = account_id \<and> j_failure_kind j = Some kind
                     \<and> (case j_started_at j of None \<Rightarrow> False | Some t \<Rightarrow> day_start \<le> t)) (sync_jobs w))
      in int prior + 1)"

definition pause_reason_of :: "str \<Rightarrow> str" where
  "pause_reason_of kind =
     (if kind = ''budget_paused'' then ''budget'' else if kind = ''throttled'' then ''throttle'' else ''transient'')"

definition pause_job :: "str \<Rightarrow> SyncJob \<Rightarrow> SyncJob" where
  "pause_job kind job = job\<lparr>j_status := failed, j_failure_kind := Some kind\<rparr>"

definition pause_account :: "str \<Rightarrow> datetime \<Rightarrow> Account \<Rightarrow> Account" where
  "pause_account kind resume_at account =
     account\<lparr>a_sync_state := SS_idle, a_last_error := None, a_pause_reason := Some (pause_reason_of kind),
             a_sync_paused_until := Some resume_at\<rparr>"

end
