(* ===== verification/Sync_Failures.thy ===== *)
theory Sync_Failures
  imports Prelude
begin

text \<open>
  \<open>services/sync_failures.py\<close>: classification of a failed run from the tail of its log.
  \<open>Some ''throttled''\<close> and \<open>Some ''transient''\<close> are self-recovering; \<open>None\<close> is a real error.
\<close>

definition TRANSIENT_SIGNATURES :: "str list" where
  "TRANSIENT_SIGNATURES =
     [''Connection reset'', ''unexpected EOF'', ''Broken pipe'', ''timed out'', '': timeout'']"

text \<open>\<open>THROTTLE_SIGNATURES.get(provider, ())\<close>\<close>

definition THROTTLE_SIGNATURES :: "str \<Rightarrow> str list" where
  "THROTTLE_SIGNATURES provider =
     (if provider = ''google'' then [''[OVERQUOTA]'', ''Too many simultaneous connections'']
      else if provider = ''microsoft'' then [''Request is throttled'', ''[THROTTLED]'', ''server busy'']
      else [])"

definition GENERIC_THROTTLE :: "str list" where
  "GENERIC_THROTTLE = [''[OVERQUOTA]'', ''[THROTTLED]'']"

definition signature_matches :: "str \<Rightarrow> str \<Rightarrow> bool" where
  "signature_matches log_tail signature =
     (if prefix ''['' signature then sublist signature log_tail
      else sublist (lower signature) (lower log_tail))"

fun first_match :: "str \<Rightarrow> str list \<Rightarrow> bool" where
  "first_match log_tail [] = False"
| "first_match log_tail (s # ss) = (if signature_matches log_tail s then True else first_match log_tail ss)"

definition classify_failure :: "str \<Rightarrow> str \<Rightarrow> str option" where
  "classify_failure log_tail provider =
     (if log_tail = [] then None
      else if first_match log_tail (THROTTLE_SIGNATURES provider @ GENERIC_THROTTLE) then Some ''throttled''
      else if first_match log_tail TRANSIENT_SIGNATURES then Some ''transient''
      else None)"

lemma first_match_iff: "first_match l ss \<longleftrightarrow> (\<exists>s \<in> set ss. signature_matches l s)"
  by (induction ss) auto

lemma signature_matches_grows:
  "signature_matches l s \<Longrightarrow> signature_matches (pre @ l @ post) s"
proof -
  have grow: "sublist x y \<Longrightarrow> sublist x (p @ y @ q)" for x y p q :: str
    unfolding sublist_def by (metis append.assoc)
  assume "signature_matches l s"
  then show ?thesis
    by (auto simp: signature_matches_def intro: grow split: if_splits)
qed

lemma first_match_grows: "first_match l ss \<Longrightarrow> first_match (pre @ l @ post) ss"
  by (auto simp: first_match_iff intro: signature_matches_grows)

lemma classify_values:
  "classify_failure l p = None \<or> classify_failure l p = Some ''throttled'' \<or> classify_failure l p = Some ''transient''"
  by (simp add: classify_failure_def)

text \<open>
  A self-recovering classification survives any surrounding log text: more output before
  or after the tell-tale line never turns a pause into a real error, and can only replace
  "transient" by the stronger "throttled".
\<close>

lemma classify_failure_grows:
  assumes "classify_failure log_tail provider = Some kind"
  shows "classify_failure (pre @ log_tail @ post) provider = Some kind
    \<or> classify_failure (pre @ log_tail @ post) provider = Some ''throttled''"
proof -
  from assms have "log_tail \<noteq> []"
    and "first_match log_tail (THROTTLE_SIGNATURES provider @ GENERIC_THROTTLE) \<and> kind = ''throttled''
      \<or> first_match log_tail TRANSIENT_SIGNATURES \<and> kind = ''transient''"
    by (auto simp: classify_failure_def split: if_splits)
  then show ?thesis
    using first_match_grows [of log_tail _ pre post] by (auto simp: classify_failure_def)
qed

text \<open>
  The bracketed response codes are throttles for every provider, known or not, and win
  over any network-looking text in the same log.
\<close>

lemma bracketed_code_throttles:
  assumes "sublist ''[OVERQUOTA]'' log_tail \<or> sublist ''[THROTTLED]'' log_tail"
  shows "classify_failure log_tail provider = Some ''throttled''"
proof -
  from assms have "log_tail \<noteq> []" by auto
  moreover from assms have "first_match log_tail (THROTTLE_SIGNATURES provider @ GENERIC_THROTTLE)"
    by (auto simp: first_match_iff GENERIC_THROTTLE_def signature_matches_def)
  ultimately show ?thesis
    by (simp add: classify_failure_def)
qed

end
