(* ===== verification/Notifications.thy ===== *)
theory Notifications
  imports Models
begin

text \<open>
  \<open>services/notification_service.py\<close>: event keys, the account and channel snapshots, the
  selection of the channels an event reaches, the once-per-state deduplication of problem
  events, and the delivery of one notification. Starting a delivery thread is appending to
  \<open>outbox\<close>; Apprise and the credential cipher are arguments of \<open>send_to_channel\<close>.
\<close>

section \<open>Event keys\<close>

definition PROBLEM_EVENT_KEYS :: "str list" where
  "PROBLEM_EVENT_KEYS = [''needs_reauth'', ''sync_error'', ''sync_paused'', ''stale'', ''backup_failed'']"

definition ACTIVITY_EVENT_KEYS :: "str list" where
  "ACTIVITY_EVENT_KEYS =
     [''sync_completed'', ''initial_sync_completed'', ''restore_completed'', ''backup_completed'', ''account_added'']"

definition EVENT_KEYS :: "str list" where
  "EVENT_KEYS = PROBLEM_EVENT_KEYS @ ACTIVITY_EVENT_KEYS"

section \<open>Snapshots\<close>

definition account_info :: "world \<Rightarrow> Account \<Rightarrow> AccountInfo" where
  "account_info w account =
    \<lparr> ai_id = a_id account, ai_name = a_name account, ai_email = a_email_address account,
      ai_provider = a_provider account,
      ai_store = map_option st_name (row st_id (mail_stores w) (a_store_id account)) \<rparr>"

definition channel_snapshot :: "NotificationChannel \<Rightarrow> ChannelSnapshot" where
  "channel_snapshot channel =
    \<lparr> cs_id = ch_id channel, cs_user_id = ch_user_id channel,
      cs_apprise_url = ch_apprise_url channel, cs_payload_format = ch_payload_format channel,
      cs_events = ch_events channel \<rparr>"

section \<open>Delivery of one notification\<close>

text \<open>
  The body handed to Apprise: the plain text, or the JSON envelope with its fields. \<open>decrypt\<close>,
  \<open>add\<close> and \<open>notify\<close> stand for \<open>decrypt_credentials\<close>, \<open>Apprise.add\<close> and
  \<open>Apprise.notify\<close>; \<open>None\<close> is an exception. The second result is what was handed over.
\<close>

datatype payload =
    Payload_text str
  | Payload_json str str str datetime "AccountInfo option" "(str \<times> json_val) list"

definition payload_of :: "Notification \<Rightarrow> datetime \<Rightarrow> payload" where
  "payload_of n now =
     (if cs_payload_format (n_channel n) = ''json'' then
        Payload_json (n_event_key n) (n_title n) (n_body n) now (n_account n)
          (case n_details n of None \<Rightarrow> [] | Some d \<Rightarrow> d)
      else Payload_text (n_body n))"

definition send_to_channel ::
  "(str \<Rightarrow> str option) \<Rightarrow> (str \<Rightarrow> bool option) \<Rightarrow> (str \<Rightarrow> str \<Rightarrow> payload \<Rightarrow> bool option)
   \<Rightarrow> datetime \<Rightarrow> Notification \<Rightarrow> bool \<times> (str \<times> str \<times> payload) option"
where
  "send_to_channel decrypt add notify now n =
     (case decrypt (cs_apprise_url (n_channel n)) of
        None \<Rightarrow> (False, None)
      | Some url \<Rightarrow>
          (case add url of
             None \<Rightarrow> (False, None)
           | Some False \<Rightarrow> (False, None)
           | Some True \<Rightarrow>
               (let body = payload_of n now in
                (case notify url (n_title n) body of
                   None \<Rightarrow> (False, Some (url, n_title n, body))
                 | Some ok \<Rightarrow> (ok, Some (url, n_title n, body))))))"

section \<open>Who is told\<close>

definition clear_notified_state :: "Account \<Rightarrow> Account" where
  "clear_notified_state account = account\<lparr>a_last_notified_state := None\<rparr>"

definition send_to_users ::
  "str list \<Rightarrow> str \<Rightarrow> str \<Rightarrow> str \<Rightarrow> (str \<times> json_val) list option \<Rightarrow> AccountInfo option \<Rightarrow> world \<Rightarrow> world"
where
  "send_to_users user_ids event_key title body details account w =
     (if user_ids = [] then w
      else
        let chans = filter (\<lambda>c. ch_user_id c \<in> set user_ids \<and> ch_enabled c) (channels w);
            targets = filter (\<lambda>c. event_key \<in> set (ch_events c)) chans
        in w\<lparr>outbox := outbox w @ map (\<lambda>c.
               \<lparr> n_channel = channel_snapshot c, n_event_key = event_key, n_title = title,
                 n_body = body, n_account = account, n_details = details \<rparr>) targets\<rparr>)"

definition notify_account_problem :: "str \<Rightarrow> str \<Rightarrow> str \<Rightarrow> str \<Rightarrow> world \<Rightarrow> world" where
  "notify_account_problem account_id event_key title body w =
     (case get_account w account_id of
        None \<Rightarrow> w
      | Some account \<Rightarrow>
          if a_last_notified_state account = Some event_key then w
          else
            let account' = account\<lparr>a_last_notified_state := Some event_key\<rparr>;
                w' = upd_account account_id (\<lambda>a. a\<lparr>a_last_notified_state := Some event_key\<rparr>) w;
                owner_ids = map u_id (owners w' account')
            in send_to_users owner_ids event_key title body None (Some (account_info w' account')) w')"

definition notify_account_event ::
  "str \<Rightarrow> str \<Rightarrow> str \<Rightarrow> str \<Rightarrow> (str \<times> json_val) list option \<Rightarrow> world \<Rightarrow> world"
where
  "notify_account_event account_id event_key title body details w =
     (case get_account w account_id of
        None \<Rightarrow> w
      | Some account \<Rightarrow>
          let owner_ids = map u_id (owners w account)
          in send_to_users owner_ids event_key title body details (Some (account_info w account)) w)"

definition notify_users ::
  "str list \<Rightarrow> str \<Rightarrow> str \<Rightarrow> str \<Rightarrow> (str \<times> json_val) list option \<Rightarrow> world \<Rightarrow> world"
where
  "notify_users user_ids event_key title body details w =
     send_to_users user_ids event_key title body details None w"

section \<open>Frame lemmas\<close>

named_theorems notify_frame \<open>what a notification leaves unchanged\<close>

lemma send_to_users_frame [simp, notify_frame]:
  "users (send_to_users us k t b d i w) = users w"
  "mail_stores (send_to_users us k t b d i w) = mail_stores w"
  "account_owners (send_to_users us k t b d i w) = account_owners w"
  "channels (send_to_users us k t b d i w) = channels w"
  "accounts (send_to_users us k t b d i w) = accounts w"
  "sync_jobs (send_to_users us k t b d i w) = sync_jobs w"
  "backup_policies (send_to_users us k t b d i w) = backup_policies w"
  "backup_jobs (send_to_users us k t b d i w) = backup_jobs w"
  "app_credentials (send_to_users us k t b d i w) = app_credentials w"
  "groups (send_to_users us k t b d i w) = groups w"
  "user_allowed_stores (send_to_users us k t b d i w) = user_allowed_stores w"
  "recoveries (send_to_users us k t b d i w) = recoveries w"
  "background_tasks (send_to_users us k t b d i w) = background_tasks w"
  "task_progress (send_to_users us k t b d i w) = task_progress w"
  "sync_rt (send_to_users us k t b d i w) = sync_rt w"
  "backup_rt (send_to_users us k t b d i w) = backup_rt w"
  "sync_queue (send_to_users us k t b d i w) = sync_queue w"
  by (simp_all add: send_to_users_def Let_def)

lemma notify_account_event_frame [simp, notify_frame]:
  "users (notify_account_event a k t b d w) = users w"
  "mail_stores (notify_account_event a k t b d w) = mail_stores w"
  "account_owners (notify_account_event a k t b d w) = account_owners w"
  "channels (notify_account_event a k t b d w) = channels w"
  "accounts (notify_account_event a k t b d w) = accounts w"
  "sync_jobs (notify_account_event a k t b d w) = sync_jobs w"
  "backup_policies (notify_account_event a k t b d w) = backup_policies w"
  "backup_jobs (notify_account_event a k t b d w) = backup_jobs w"
  "app_credentials (notify_account_event a k t b d w) = app_credentials w"
  "groups (notify_account_event a k t b d w) = groups w"
  "user_allowed_stores (notify_account_event a k t b d w) = user_allowed_stores w"
  "recoveries (notify_account_event a k t b d w) = recoveries w"
  "background_tasks (notify_account_event a k t b d w) = background_tasks w"
  "task_progress (notify_account_event a k t b d w) = task_progress w"
  "sync_rt (notify_account_event a k t b d w) = sync_rt w"
  "backup_rt (notify_account_event a k t b d w) = backup_rt w"
  "sync_queue (notify_account_event a k t b d w) = sync_queue w"
  by (simp_all add: notify_account_event_def Let_def split: option.split)

lemma notify_account_problem_frame [simp, notify_frame]:
  "users (notify_account_problem a k t b w) = users w"
  "mail_stores (notify_account_problem a k t b w) = mail_stores w"
  "account_owners (notify_account_problem a k t b w) = account_owners w"
  "channels (notify_account_problem a k t b w) = channels w"
  "sync_jobs (notify_account_problem a k t b w) = sync_jobs w"
  "backup_policies (notify_account_problem a k t b w) = backup_policies w"
  "backup_jobs (notify_account_problem a k t b w) = backup_jobs w"
  "app_credentials (notify_account_problem a k t b w) = app_credentials w"
  "groups (notify_account_problem a k t b w) = groups w"
  "user_allowed_stores (notify_account_problem a k t b w) = user_allowed_stores w"
  "recoveries (notify_account_problem a k t b w) = recoveries w"
  "background_tasks (notify_account_problem a k t b w) = background_tasks w"
  "task_progress (notify_account_problem a k t b w) = task_progress w"
  "sync_rt (notify_account_problem a k t b w) = sync_rt w"
  "backup_rt (notify_account_problem a k t b w) = backup_rt w"
  "sync_queue (notify_account_problem a k t b w) = sync_queue w"
  by (simp_all add: notify_account_problem_def Let_def split: option.split)

lemma accounts_notify_account_problem:
  assumes "pk a_id (accounts w)"
  shows "accounts (notify_account_problem a k t b w)
    = set_row a_id a (\<lambda>r. r\<lparr>a_last_notified_state := Some k\<rparr>) (accounts w)"
proof (cases "get_account w a")
  case None
  then show ?thesis by (simp add: notify_account_problem_def set_row_None)
next
  case (Some acc)
  have "set_row a_id a (\<lambda>r. r\<lparr>a_last_notified_state := Some k\<rparr>) (accounts w) = accounts w"
    if "a_last_notified_state acc = Some k"
    unfolding set_row_def
  proof (rule map_idI)
    fix r assume "r \<in> set (accounts w)"
    then show "(if a_id r = a then r\<lparr>a_last_notified_state := Some k\<rparr> else r) = r"
      using row_SomeI [OF assms, of r] Some that by auto
  qed
  with Some show ?thesis
    by (simp add: notify_account_problem_def Let_def)
qed

lemma get_account_notify_problem [tab_simps]:
  "row a_id (accounts (notify_account_problem a k t b w)) a' =
     (if a' = a then map_option (\<lambda>r. r\<lparr>a_last_notified_state := Some k\<rparr>) (get_account w a) else get_account w a')"
  by (auto simp: notify_account_problem_def Let_def row_set_row split: option.split)

lemma pk_notify_problem [tab_simps]:
  "pk a_id (accounts (notify_account_problem a k t b w)) = pk a_id (accounts w)"
  by (auto simp: notify_account_problem_def Let_def pk_set_row split: option.split)

section \<open>Properties\<close>

text \<open>
  A problem event reaches exactly the enabled channels of the account's owners that
  subscribe to it, each exactly once, when the account enters that state; while it stays in
  the state nothing more is sent and nothing changes.
\<close>

lemma problem_notified_once:
  fixes title body :: str
  assumes "get_account w aid = Some acc" and "a_last_notified_state acc \<noteq> Some key"
  defines "w1 \<equiv> notify_account_problem aid key title body w"
  shows "map (\<lambda>n. cs_id (n_channel n)) (outbox w1) =
       map (\<lambda>n. cs_id (n_channel n)) (outbox w) @
       map ch_id (filter (\<lambda>c. (\<exists>u \<in> set (owners w acc). u_id u = ch_user_id c) \<and> ch_enabled c
                            \<and> key \<in> set (ch_events c)) (channels w))
     \<and> notify_account_problem aid key title' body' w1 = w1"
proof -
  let ?acc = "acc\<lparr>a_last_notified_state := Some key\<rparr>"
  let ?w = "upd_account aid (\<lambda>a. a\<lparr>a_last_notified_state := Some key\<rparr>) w"
  have own: "owners ?w ?acc = owners w acc"
    by (simp add: owners_def)
  have w1: "w1 = send_to_users (map u_id (owners w acc)) key title body None (Some (account_info ?w ?acc)) ?w"
    unfolding w1_def using assms(1,2) own by (simp add: notify_account_problem_def Let_def)
  have "get_account w1 aid = Some ?acc"
    unfolding w1 using assms(1) by (simp add: row_set_row)
  then have again: "notify_account_problem aid key title' body' w1 = w1"
    by (simp add: notify_account_problem_def)
  have "filter (\<lambda>c. key \<in> set (ch_events c))
          (filter (\<lambda>c. ch_user_id c \<in> set (map u_id (owners w acc)) \<and> ch_enabled c) (channels w)) =
        filter (\<lambda>c. (\<exists>u \<in> set (owners w acc). u_id u = ch_user_id c) \<and> ch_enabled c
                            \<and> key \<in> set (ch_events c)) (channels w)"
    by (auto intro!: filter_cong intro: rev_image_eqI)
  with again show ?thesis
    unfolding w1 by (auto simp: send_to_users_def Let_def channel_snapshot_def o_def)
qed

definition demo_account :: Account where
  "demo_account = new_account ''a1'' ''Main'' ''me@x.org'' ''google'' ''imap.x.org'' 993 app_password
     (Some ''enc'') ''s1'' ''/data/a1'' (Some ''0 * * * *'') 0"

definition demo_channel :: NotificationChannel where
  "demo_channel = \<lparr> ch_id = ''c1'', ch_user_id = ''u1'', ch_label = ''mail'', ch_apprise_url = ''enc'',
     ch_enabled = True, ch_events = [''sync_error''], ch_payload_format = ''text'', ch_created_at = 0 \<rparr>"

definition demo_world :: world where
  "demo_world = empty_world\<lparr> users := [new_user ''u1'' ''bob'' None Role_user ''s1'' 0],
     accounts := [demo_account], account_owners := [(''a1'', ''u1'')], channels := [demo_channel] \<rparr>"

lemmas demo_defs = demo_world_def demo_account_def demo_channel_def empty_world_def
  new_account_def new_user_def empty_sync_runtime_def empty_backup_runtime_def

text \<open>
  Delivering a notification never raises: whatever the cipher and Apprise do, a result is
  returned; it is a success only when the URL decrypted, Apprise took it and reported delivery,
  and then the envelope is JSON exactly for a channel in JSON format.
\<close>

lemma send_to_channel_sound:
  "fst (send_to_channel decrypt add notify now n) \<longleftrightarrow>
     (\<exists>url. decrypt (cs_apprise_url (n_channel n)) = Some url \<and> add url = Some True
        \<and> notify url (n_title n) (payload_of n now) = Some True
        \<and> snd (send_to_channel decrypt add notify now n) = Some (url, n_title n, payload_of n now)
        \<and> ((\<exists>e t m s a d. payload_of n now = Payload_json e t m s a d) \<longleftrightarrow>
            cs_payload_format (n_channel n) = ''json''))"
  by (auto simp: send_to_channel_def Let_def payload_of_def split: option.splits bool.splits)

end
