(* ===== verification/Mbsync_Config.thy ===== *)
theory Mbsync_Config
  imports Models Folder_Reconcile
begin

text \<open>
  \<open>services/mbsync_config.py\<close>: sanitising of values, the channel name and the text of the
  mbsync configuration file. The \<open>extra_config\<close> object is the association list
  \<open>json.loads\<close> gives, a value being its \<open>str()\<close> and the falsy ones the empty string.
\<close>

section \<open>Values\<close>

definition control :: "char \<Rightarrow> bool" where
  "control c = ((of_char c :: nat) < 32)"

definition sanitize_value :: "str \<Rightarrow> str" where
  "sanitize_value value = strip (filter (\<lambda>c. \<not> control c) value)"

definition channel_name :: "str \<Rightarrow> str" where
  "channel_name account_name =
     map (\<lambda>c. if c = CHR '' '' then CHR ''_'' else c) (lower (sanitize_value account_name))"

definition rstrip_slash :: "str \<Rightarrow> str" where
  "rstrip_slash p = rev (dropWhile (\<lambda>c. c = CHR ''/'') (rev p))"

definition dict_get :: "(str \<times> str) list \<Rightarrow> str \<Rightarrow> str \<Rightarrow> str" where
  "dict_get d k dflt = (case map_of d k of None \<Rightarrow> dflt | Some v \<Rightarrow> v)"

text \<open>\<open>if extra.get(key): lines.append(f"{directive} {extra[key]}")\<close>\<close>

definition opt_line :: "(str \<times> str) list \<Rightarrow> str \<Rightarrow> str \<Rightarrow> str list" where
  "opt_line extra key directive =
     (if truthy (map_of extra key) then [directive @ '' '' @ the (map_of extra key)] else [])"

definition quoted :: "str \<Rightarrow> str" where
  "quoted s = [quote_char] @ s @ [quote_char]"

definition container_negations :: str where
  "container_negations = '' !'' @ quoted REMOVED_CONTAINER @ '' !'' @ quoted (REMOVED_CONTAINER @ ''/*'')"

section \<open>The configuration file\<close>

definition mbsyncrc_lines ::
  "str \<Rightarrow> str \<Rightarrow> int \<Rightarrow> str \<Rightarrow> AuthType \<Rightarrow> str \<Rightarrow> str \<Rightarrow> str option \<Rightarrow> str option \<Rightarrow> (str \<times> str) list \<Rightarrow> str list"
where
  "mbsyncrc_lines account_name imap_host imap_port username auth_type maildir_path tls_type password token_command raw_extra =
     (let extra = map (\<lambda>(k, v). (k, sanitize_value v)) (filter (\<lambda>(k, v). v \<noteq> []) raw_extra);
          account_name = sanitize_value account_name;
          imap_host = sanitize_value imap_host;
          username = sanitize_value username;
          maildir_path = sanitize_value maildir_path;
          tls_type = sanitize_value tls_type;
          password = (if truthy password then map_option sanitize_value password else password);
          token_command = (if truthy token_command then map_option sanitize_value token_command else token_command);
          safe_name = channel_name account_name;
          patterns = dict_get extra ''patterns'' ''*'' @ container_negations
      in [''IMAPAccount '' @ safe_name, ''Host '' @ imap_host, ''Port '' @ show_int imap_port, ''User '' @ username]
         @ (if tls_type \<noteq> [] \<and> tls_type \<noteq> ''None'' then [''TLSType '' @ tls_type] else [])
         @ opt_line extra ''tls_versions'' ''TLSVersions''
         @ [''CertificateFile '' @ dict_get extra ''certificate_file'' ''/etc/ssl/certs/ca-certificates.crt'']
         @ opt_line extra ''client_certificate'' ''ClientCertificate''
         @ opt_line extra ''client_key'' ''ClientKey''
         @ (if auth_type = oauth2 then
              [''AuthMechs XOAUTH2'', ''PassCmd '' @ quoted (case token_command of None \<Rightarrow> ''None'' | Some c \<Rightarrow> c)]
            else
              (let auth_mechs = dict_get extra ''auth_mechs'' [] in
               (if auth_mechs \<noteq> [] then [''AuthMechs '' @ auth_mechs] else [])
               @ (if truthy password then [''Pass '' @ quoted (the password)] else [])))
         @ opt_line extra ''timeout'' ''Timeout''
         @ opt_line extra ''pipeline_depth'' ''PipelineDepth''
         @ opt_line extra ''disable_extensions'' ''DisableExtensions''
         @ [[], ''IMAPStore '' @ safe_name @ ''-remote'', ''Account '' @ safe_name]
         @ (case map_of extra ''use_namespace'' of
              None \<Rightarrow> [] | Some v \<Rightarrow> [''UseNamespace '' @ (if v \<noteq> [] then ''yes'' else ''no'')])
         @ opt_line extra ''path_delimiter'' ''PathDelimiter''
         @ [[], ''MaildirStore '' @ safe_name @ ''-local'',
            ''Path '' @ rstrip_slash maildir_path @ ''/'',
            ''Inbox '' @ rstrip_slash maildir_path @ ''/INBOX'', ''SubFolders Verbatim'',
            [], ''Channel '' @ safe_name, ''Far :'' @ safe_name @ ''-remote:'', ''Near :'' @ safe_name @ ''-local:'',
            ''Patterns '' @ patterns,
            ''Sync '' @ dict_get extra ''sync'' ''Pull'',
            ''Create '' @ dict_get extra ''create'' ''Near'',
            ''Expunge '' @ dict_get extra ''expunge'' ''None'']
         @ opt_line extra ''max_messages'' ''MaxMessages''
         @ opt_line extra ''max_size'' ''MaxSize''
         @ (if truthy (map_of extra ''copy_arrival_date'') then [''CopyArrivalDate yes''] else [])
         @ [''SyncState *''])"

text \<open>\<open>Inl\<close> is the \<open>JSONDecodeError\<close> of a malformed \<open>extra_config\<close>.\<close>

fun json_object :: "json_text option \<Rightarrow> str + (str \<times> str) list" where
  "json_object None = Inr []"
| "json_object (Some (Json_object d)) = Inr d"
| "json_object (Some (Json_malformed e)) = Inl e"

definition generate_mbsyncrc ::
  "str \<Rightarrow> str \<Rightarrow> int \<Rightarrow> str \<Rightarrow> AuthType \<Rightarrow> str \<Rightarrow> str \<Rightarrow> str option \<Rightarrow> str option \<Rightarrow> json_text option \<Rightarrow> str + str"
where
  "generate_mbsyncrc account_name imap_host imap_port username auth_type maildir_path tls_type password token_command extra_config =
     (case json_object extra_config of
        Inl e \<Rightarrow> Inl e
      | Inr raw_extra \<Rightarrow>
          Inr (join [CHR 0x0A] (mbsyncrc_lines account_name imap_host imap_port username auth_type maildir_path
                 tls_type password token_command raw_extra) @ [CHR 0x0A]))"

section \<open>No value can add a directive\<close>

definition clean :: "str \<Rightarrow> bool" where
  "clean s = list_all (\<lambda>c. \<not> control c) s"

lemma clean_simps [simp]:
  "clean []" "clean (c # s) \<longleftrightarrow> \<not> control c \<and> clean s" "clean (s @ t) \<longleftrightarrow> clean s \<and> clean t"
  by (simp_all add: clean_def)

lemma clean_subset: "clean t \<Longrightarrow> set s \<subseteq> set t \<Longrightarrow> clean s"
  by (auto simp: clean_def list_all_iff)

lemma strip_subset: "set (strip s) \<subseteq> set s"
  unfolding strip_def by (auto dest!: set_dropWhileD)

lemma clean_sanitize [simp]: "clean (sanitize_value v)"
  unfolding sanitize_value_def by (rule clean_subset [OF _ strip_subset]) (simp add: clean_def list_all_iff)

lemma clean_lower: "clean s \<Longrightarrow> clean (lower s)"
  by (induction s) (auto simp: lower_def lower_char_def control_def Let_def)

lemma clean_channel_name [simp]: "clean (channel_name n)"
proof -
  have "clean (map (\<lambda>c. if c = CHR '' '' then CHR ''_'' else c) s)" if "clean s" for s
    using that by (induction s) (auto simp: control_def)
  then show ?thesis
    unfolding channel_name_def by (simp add: clean_lower)
qed

lemma clean_rstrip_slash [simp]: "clean s \<Longrightarrow> clean (rstrip_slash s)"
  by (rule clean_subset) (auto simp: rstrip_slash_def dest!: set_dropWhileD)

lemma clean_show_nat [simp]: "clean (show_nat n)"
proof (induction n rule: show_nat.induct)
  case (1 n)
  have "\<not> control (digit_char d)" if "d < 10" for d
    using that by (simp add: control_def digit_char_def)
  with 1 show ?case
    by (subst show_nat.simps) auto
qed

lemma clean_show_int [simp]: "clean (show_int i)"
  by (simp add: show_int_def control_def)

lemma clean_quoted [simp]: "clean (quoted s) \<longleftrightarrow> clean s"
  by (simp add: quoted_def quote_char_def control_def)

lemma clean_container [simp]: "clean container_negations"
  by (simp add: container_negations_def REMOVED_CONTAINER_def control_def)

definition clean_dict :: "(str \<times> str) list \<Rightarrow> bool" where
  "clean_dict d = list_all (\<lambda>p. clean (snd p)) d"

lemma clean_dictD: "clean_dict d \<Longrightarrow> map_of d k = Some v \<Longrightarrow> clean v"
  by (auto simp: clean_dict_def list_all_iff dest!: map_of_SomeD)

lemma clean_dict_get: "clean_dict d \<Longrightarrow> clean v \<Longrightarrow> clean (dict_get d k v)"
  by (auto simp: dict_get_def split: option.split dest: clean_dictD)

lemma clean_opt_line: "clean_dict d \<Longrightarrow> clean directive \<Longrightarrow> l \<in> set (opt_line d k directive) \<Longrightarrow> clean l"
  by (cases "map_of d k") (auto simp: opt_line_def control_def dest: clean_dictD split: if_splits)

lemma clean_lines:
  assumes "l \<in> set (mbsyncrc_lines name host port user auth maildir tls pw tok raw)"
  shows "clean l"
proof -
  let ?e = "map (\<lambda>(k, v). (k, sanitize_value v)) (filter (\<lambda>(k, v). v \<noteq> []) raw)"
  have e: "clean_dict ?e"
    by (auto simp: clean_dict_def list_all_iff)
  note opt = clean_opt_line [OF e] and get = clean_dict_get [OF e]
  have pw: "truthy v \<Longrightarrow> clean (the (map_option sanitize_value v))" for v
    by (cases v) auto
  show ?thesis
    using assms unfolding mbsyncrc_lines_def Let_def
    by (auto dest!: opt [rotated] split: if_splits option.splits simp: control_def pw intro!: get)
qed

lemma join_lines: "ls \<noteq> [] \<Longrightarrow> join [c] ls @ [c] = concat (map (\<lambda>l. l @ [c]) ls)"
proof (induction ls)
  case (Cons l ls)
  then show ?case by (cases ls) auto
qed simp

text \<open>
  C24. No stored value can smuggle a directive into the mbsync configuration: whatever the
  account name, host, user, password, paths and extra settings contain, the file is the
  generator's own lines, each free of control characters, so every newline ends one of them.
\<close>

theorem mbsyncrc_no_injection:
  "\<exists>lines. generate_mbsyncrc name host port user auth maildir tls pw tok (Some (Json_object raw))
       = Inr (concat (map (\<lambda>l. l @ [CHR 0x0A]) lines))
     \<and> lines = mbsyncrc_lines name host port user auth maildir tls pw tok raw
     \<and> list_all (\<lambda>l. list_all (\<lambda>c. \<not> control c) l) lines"
proof -
  let ?ls = "mbsyncrc_lines name host port user auth maildir tls pw tok raw"
  have "?ls \<noteq> []"
    by (simp add: mbsyncrc_lines_def Let_def)
  then show ?thesis
    using clean_lines [of _ name host port user auth maildir tls pw tok raw]
    by (auto simp: generate_mbsyncrc_def join_lines list_all_iff [of _ ?ls] clean_def)
qed

section \<open>The quarantine container is never synced\<close>

definition quotes :: "str \<Rightarrow> nat" where
  "quotes s = length (filter (\<lambda>c. c = quote_char) s)"

lemma quotes_simps [simp]:
  "quotes [] = 0" "quotes (c # s) = (if c = quote_char then Suc (quotes s) else quotes s)"
  "quotes (s @ t) = quotes s + quotes t"
  by (simp_all add: quotes_def)

lemma quotes_dropWhile_bare: "quotes (dropWhile bare s) = quotes s"
  by (induction s) (auto simp: bare_def)

lemma quotes_0: "quotes s = 0 \<longleftrightarrow> quote_char \<notin> set s"
  by (induction s) auto

lemma quote_char_facts: "CHR ''!'' \<noteq> quote_char" "quote_char \<noteq> CHR ''!''" "quote_char \<noteq> CHR '' ''"
  by (simp_all add: quote_char_def)

definition close_quote :: "str \<Rightarrow> str \<Rightarrow> (str \<times> str) option" where
  "close_quote pre r =
     (if quote_char \<notin> set r then None
      else Some (pre @ quoted (takeWhile (\<lambda>c. c \<noteq> quote_char) r), tl (dropWhile (\<lambda>c. c \<noteq> quote_char) r)))"

lemma quoted_at_quote: "quoted_at (quote_char # r) = close_quote [] r"
  by (auto simp: quoted_at_def close_quote_def quoted_def Let_def quote_char_facts)

lemma quoted_at_bang: "quoted_at (CHR ''!'' # quote_char # r) = close_quote ''!'' r"
  by (auto simp: quoted_at_def close_quote_def quoted_def Let_def)

lemma quoted_at_other:
  "c \<noteq> quote_char \<Longrightarrow> \<not> (c = CHR ''!'' \<and> s \<noteq> [] \<and> hd s = quote_char) \<Longrightarrow> quoted_at (c # s) = None"
  by (auto simp: quoted_at_def Let_def)

lemma close_quote_append:
  assumes "quote_char \<in> set r"
  shows "close_quote pre (r @ t) = map_option (\<lambda>(tok, rest). (tok, rest @ t)) (close_quote pre r)"
proof -
  have "dropWhile (\<lambda>c. c \<noteq> quote_char) r \<noteq> []"
    using assms by auto
  with assms show ?thesis
    by (simp add: close_quote_def)
qed

lemma close_quote_quotes: "close_quote pre r = Some (tok, rest) \<Longrightarrow> quotes r = Suc (quotes rest)"
proof -
  have "quote_char \<in> set r \<Longrightarrow> quotes r = Suc (quotes (tl (dropWhile (\<lambda>c. c \<noteq> quote_char) r)))" for r
    by (induction r) auto
  then show "close_quote pre r = Some (tok, rest) \<Longrightarrow> ?thesis"
    by (auto simp: close_quote_def split: if_splits)
qed

text \<open>The tokens of a balanced string are unaffected by text after a blank.\<close>

lemma quoted_at_append:
  assumes "even (quotes s)" and "s \<noteq> []" and "t = [] \<or> hd t = CHR '' ''"
  shows "quoted_at (s @ t) = map_option (\<lambda>(tok, rest). (tok, rest @ t)) (quoted_at s)
    \<and> (\<forall>tok rest. quoted_at s = Some (tok, rest) \<longrightarrow> even (quotes rest))
    \<and> (quoted_at s = None \<longrightarrow> hd s \<noteq> quote_char)"
proof -
  obtain c r where s: "s = c # r" using assms(2) by (cases s) auto
  consider (quote) "c = quote_char" | (bang) r' where "c = CHR ''!''" "c \<noteq> quote_char" "r = quote_char # r'"
    | (other) "c \<noteq> quote_char" "\<not> (c = CHR ''!'' \<and> r \<noteq> [] \<and> hd r = quote_char)"
    by (cases r) auto
  then show ?thesis
  proof cases
    case quote
    then have "odd (quotes r)" using assms(1) by (simp add: s)
    then have mem: "quote_char \<in> set r" using quotes_0 [of r] by (auto intro: ccontr)
    then have "\<exists>p. close_quote [] r = Some p" by (simp add: close_quote_def)
    with mem quote \<open>odd (quotes r)\<close> show ?thesis
      by (auto simp: s quoted_at_quote close_quote_append dest: close_quote_quotes)
  next
    case bang
    then have "odd (quotes r')" using assms(1) by (simp add: s)
    then have mem: "quote_char \<in> set r'" using quotes_0 [of r'] by (auto intro: ccontr)
    with bang \<open>odd (quotes r')\<close> show ?thesis
      by (auto simp: s quoted_at_bang close_quote_append dest: close_quote_quotes)
  next
    case other
    moreover have "\<not> (c = CHR ''!'' \<and> r @ t \<noteq> [] \<and> hd (r @ t) = quote_char)"
      using other(2) assms(3) quote_char_facts by (cases r) auto
    ultimately show ?thesis
      by (simp add: s quoted_at_other)
  qed
qed

lemma takeWhile_blank: "t = [] \<or> hd t = CHR '' '' \<Longrightarrow> takeWhile bare (s @ t) = takeWhile bare s"
  by (induction s) (auto simp: bare_def is_space_def takeWhile_eq_Nil_iff)

lemma dropWhile_blank: "t = [] \<or> hd t = CHR '' '' \<Longrightarrow> dropWhile bare (s @ t) = dropWhile bare s @ t"
proof (induction s)
  case Nil
  then show ?case by (cases t) (auto simp: bare_def is_space_def)
qed auto

lemma pattern_tokens_append:
  assumes "even (quotes s)" and "t = [] \<or> hd t = CHR '' ''"
  shows "pattern_tokens (s @ t) = pattern_tokens s @ pattern_tokens t"
  using assms
proof (induction s rule: pattern_tokens.induct)
  case (1 s)
  show ?case
  proof (cases "s = []")
    case False
    note q = quoted_at_append [OF "1.prems"(1) False "1.prems"(2)]
    show ?thesis
    proof (cases "quoted_at s")
      case (Some p)
      obtain tok rest where p: "p = (tok, rest)" by (cases p)
      then have "pattern_tokens (rest @ t) = pattern_tokens rest @ pattern_tokens t"
        using "1.IH"(3) [OF False Some p [symmetric]] q Some "1.prems"(2) by simp
      with Some p q False show ?thesis
        by (subst (1 2) pattern_tokens.simps) simp
    next
      case None
      show ?thesis
      proof (cases "bare (hd s)")
        case True
        have "pattern_tokens (dropWhile bare s @ t) = pattern_tokens (dropWhile bare s) @ pattern_tokens t"
          using "1.IH"(1) [OF False None True] "1.prems" by (simp add: quotes_dropWhile_bare)
        with None q False True show ?thesis
          by (subst (1 2) pattern_tokens.simps)
            (simp add: takeWhile_blank [OF "1.prems"(2)] dropWhile_blank [OF "1.prems"(2)])
      next
        case bare: False
        have "quotes (tl s) = quotes s"
          using None q False by (cases s) auto
        then have "pattern_tokens (tl s @ t) = pattern_tokens (tl s) @ pattern_tokens t"
          using "1.IH"(2) [OF False None bare] "1.prems" by simp
        with None q False bare show ?thesis
          by (subst (1 2) pattern_tokens.simps) simp
      qed
    qed
  qed (simp add: pattern_tokens.simps [of "[]"])
qed

lemma glob_star: "glob ''*'' s"
  by (induction s) (simp_all add: glob.simps(2))

lemma glob_literal:
  "CHR ''*'' \<notin> set p \<Longrightarrow> CHR ''?'' \<notin> set p \<Longrightarrow> glob (p @ q) (p @ s) = glob q s"
  by (induction p) (auto simp: glob.simps(2))

lemma excluded_folder_names_append:
  "even (quotes s) \<Longrightarrow> t = [] \<or> hd t = CHR '' '' \<Longrightarrow>
   excluded_folder_names (s @ t) = excluded_folder_names s @ excluded_folder_names t"
  by (simp add: excluded_folder_names_def pattern_tokens_append)

lemma excluded_container_negations:
  "excluded_folder_names container_negations = [REMOVED_CONTAINER, REMOVED_CONTAINER @ ''/*'']"
  by code_simp

text \<open>
  The quarantine container is never synced: for every user pattern with balanced quotes the
  generated Patterns line keeps the user's exclusions and excludes both the container itself
  and every folder inside it.
\<close>

lemma container_always_excluded:
  assumes "even (quotes patterns)"
  shows "excluded_folder_names (patterns @ container_negations)
      = excluded_folder_names patterns @ [REMOVED_CONTAINER, REMOVED_CONTAINER @ ''/*'']
    \<and> folder_excluded REMOVED_CONTAINER (excluded_folder_names (patterns @ container_negations))
    \<and> folder_excluded (REMOVED_CONTAINER @ ''/'' @ sub) (excluded_folder_names (patterns @ container_negations))"
proof -
  have eq: "excluded_folder_names (patterns @ container_negations)
      = excluded_folder_names patterns @ [REMOVED_CONTAINER, REMOVED_CONTAINER @ ''/*'']"
    using excluded_folder_names_append [OF assms, of container_negations]
    by (simp add: excluded_container_negations) (simp add: container_negations_def)
  have "glob ((REMOVED_CONTAINER @ ''/'') @ ''*'') ((REMOVED_CONTAINER @ ''/'') @ sub)"
    by (subst glob_literal) (simp_all add: REMOVED_CONTAINER_def glob_star)
  then show ?thesis
    by (auto simp: eq folder_excluded_iff)
qed

end
