(* ===== verification/Sync_Worker.thy ===== *)
theory Sync_Worker
  imports Sync_Sampler Sync_Failures Notifications Mbsync_Config Imap_Check
begin

text \<open>
  The second half of \<open>services/sync_worker.py\<close>: one sync job from the queue to its closed row.
  \<open>execute_sync_job\<close> is split along the source: the checks before the job starts, the
  credentials, the initial-sync regime, the mbsync invocations, folder reconciliation with its
  single retry, and the finalisation with its outcome branches and exception handlers.

  Everything the worker meets outside its own code is a field of \<open>SyncEnv\<close>: name resolution,
  the cipher, the token endpoint, IMAP answers, what mbsync prints and its exit status, the
  operating system's faults, the clock and the jitter. Other threads (the sampler, the
  watchdog, a user's Stop, requests) are arbitrary functions on the world that run at the
  points where the worker blocks. The result is the exception that leaves the function, if
  any, and the world.
\<close>

section \<open>The environment\<close>

datatype fault = TimeoutExpired | Raised str

text \<open>
  One turn of the read loop: the time since the loop started, what other threads did while
  \<open>readline\<close> blocked, and the line read (\<open>None\<close> is end of file).
\<close>

record ReadEvent =
  re_elapsed :: timedelta
  re_others :: "world \<Rightarrow> world"
  re_line :: "str option"

text \<open>
  One mbsync process: what other threads did before it was registered, the exception
  \<open>Popen\<close> raised, its answer to SIGTERM, its output, and the exit status it ends with when
  nobody stops it (\<open>None\<close> when even the forced kill was not reaped in time).
\<close>

record Invocation =
  inv_others :: "world \<Rightarrow> world"
  inv_spawn_error :: "fault option"
  inv_exits_on_term :: bool
  inv_reads :: "ReadEvent list"
  inv_exit :: "int option"

record SyncEnv =
  env_start :: datetime
  env_end :: datetime
  env_jitter :: timedelta
  env_max_runtime_s :: int
  env_mbsync_binary :: str
  env_config_path :: str
  env_debug :: bool
  env_std_internal :: "ip \<Rightarrow> bool"
  env_getaddrinfo :: "str \<Rightarrow> ip list option"
  env_decrypt :: "str \<Rightarrow> (str \<times> str option) option"
  env_loads :: "str \<Rightarrow> json_text"
  env_refresh :: "str \<Rightarrow> str \<Rightarrow> str + str"
  env_encrypt :: "(str \<times> str) list \<Rightarrow> str"
  env_token_file_error :: "fault option"
  env_list :: "str + str list"
  env_status :: "str \<Rightarrow> int option"
  env_setup :: "fault option"
  env_log_path :: "str option"
  env_open_log :: "fault option"
  env_first :: "str \<Rightarrow> str list \<Rightarrow> Invocation"
  env_retry :: "str \<Rightarrow> str list \<Rightarrow> Invocation"
  env_relist :: "str + str list"
  env_local_folders :: "str + str list"
  env_quarantine :: "str \<Rightarrow> bool option"
  env_reconcile_others :: "world \<Rightarrow> world"
  env_final_others :: "world \<Rightarrow> world"
  env_parse :: "str \<Rightarrow> str option \<times> str option"
  env_mailbox_stats :: "str \<Rightarrow> (str \<times> int \<times> int \<times> int) list option"
  env_dump_stats :: "(str \<times> int \<times> int \<times> int) list \<Rightarrow> str"

section \<open>Token refresh\<close>

text \<open>\<open>d[k] = v\<close> on a JSON object, and \<open>d.setdefault(k, v)\<close>.\<close>

definition dict_set :: "(str \<times> str) list \<Rightarrow> str \<Rightarrow> str \<Rightarrow> (str \<times> str) list" where
  "dict_set d k v = AList.update k v d"

definition setdefault :: "(str \<times> str) list \<Rightarrow> str \<Rightarrow> str \<Rightarrow> (str \<times> str) list" where
  "setdefault d k v = (if map_of d k = None then d @ [(k, v)] else d)"

definition refresh_oauth_token ::
  "SyncEnv \<Rightarrow> str \<Rightarrow> str \<Rightarrow> world \<Rightarrow> (str option \<times> bool) \<times> world"
where
  "refresh_oauth_token env creds_json account_id w =
     (case env_loads env creds_json of
        Json_malformed e \<Rightarrow> ((None, True), w)
      | Json_object token_data \<Rightarrow>
          let refresh_token = dict_get token_data ''refresh_token'' [] in
          if refresh_token = [] then ((None, True), w)
          else
            let provider = dict_get token_data ''provider'' ''google'';
                endpoint = (if provider = ''microsoft'' then ''microsoft'' else ''google'') in
            (case env_refresh env endpoint refresh_token of
               Inr access_token \<Rightarrow>
                 ((Some access_token, False),
                  upd_account account_id (\<lambda>a. a\<lparr>a_credentials :=
                    Some (env_encrypt env (dict_set token_data ''access_token'' access_token))\<rparr>) w)
             | Inl err \<Rightarrow> ((None, sublist ''invalid_grant'' (lower err)), w)))"

section \<open>The upstream STATUS pass\<close>

definition patterns_of :: "(str \<times> str) list \<Rightarrow> str" where
  "patterns_of extra = dict_get extra ''patterns'' ''*''"

text \<open>
  \<open>_count_upstream_messages\<close>: \<open>Inl\<close> is an exception (which the caller swallows), \<open>Inr None\<close>
  the answer when the LIST gave nothing.
\<close>

definition count_upstream_messages ::
  "json_text option \<Rightarrow> (str + str list) \<Rightarrow> (str \<Rightarrow> int option) \<Rightarrow> str + (int \<times> int) option"
where
  "count_upstream_messages extra_config listing status =
     (case json_object extra_config of
        Inl e \<Rightarrow> Inl e
      | Inr extra \<Rightarrow>
          let excludes = excluded_folder_names (patterns_of extra) in
          (case listing of
             Inl e \<Rightarrow> Inl e
           | Inr names \<Rightarrow>
               if names = [] then Inr None
               else
                 Inr (Some (fold (\<lambda>name (total, folders).
                        if folder_excluded name excludes then (total, folders)
                        else (case status name of
                                None \<Rightarrow> (total, folders + 1)
                              | Some n \<Rightarrow> (total + n, folders + 1))) names (0, 0)))))"

section \<open>Running mbsync\<close>

definition log_append :: "str \<Rightarrow> str \<Rightarrow> world \<Rightarrow> world" where
  "log_append job_id line =
     upd_rt (\<lambda>rt. rt\<lparr>running_logs := (running_logs rt)(job_id \<mapsto>
       (case running_logs rt job_id of None \<Rightarrow> [] | Some ls \<Rightarrow> ls) @ [line])\<rparr>)"

definition rstrip :: "str \<Rightarrow> str" where
  "rstrip s = rev (dropWhile is_space (rev s))"

fun read_until_deadline :: "str \<Rightarrow> int \<Rightarrow> ReadEvent list \<Rightarrow> world \<Rightarrow> world" where
  "read_until_deadline job_id deadline_s [] w = w"
| "read_until_deadline job_id deadline_s (r # rs) w =
     (if re_elapsed r > seconds deadline_s then
        snd (stop_sync_job job_id
          (upd_rt (\<lambda>rt. rt\<lparr>deadline_stops := (deadline_stops rt)(job_id \<mapsto> deadline_s)\<rparr>) w))
      else
        let w = re_others r w in
        (case re_line r of
           None \<Rightarrow> w
         | Some line \<Rightarrow> read_until_deadline job_id deadline_s rs (log_append job_id (rstrip line) w)))"

definition register_proc :: "str \<Rightarrow> bool \<Rightarrow> world \<Rightarrow> world" where
  "register_proc job_id exits_on_term =
     upd_rt (\<lambda>rt. rt\<lparr>running_procs := (running_procs rt)(job_id \<mapsto>
       \<lparr>p_returncode = None, p_exits_on_term = exits_on_term\<rparr>)\<rparr>)"

text \<open>The status \<open>proc.wait\<close> leaves: the signal a stop delivered, else the process's own.\<close>

definition reap :: "str \<Rightarrow> int option \<Rightarrow> world \<Rightarrow> int option \<times> world" where
  "reap job_id own w =
     (let rc = (case running_procs (sync_rt w) job_id of
                  None \<Rightarrow> own
                | Some p \<Rightarrow> (case p_returncode p of None \<Rightarrow> own | Some r \<Rightarrow> Some r))
      in (rc, upd_rt (\<lambda>rt. rt\<lparr>running_procs :=
                (case running_procs rt job_id of
                   None \<Rightarrow> running_procs rt
                 | Some p \<Rightarrow> (running_procs rt)(job_id \<mapsto> p\<lparr>p_returncode := rc\<rparr>))\<rparr>) w))"

definition pass_marker :: "nat \<Rightarrow> nat \<Rightarrow> str" where
  "pass_marker idx n =
     ''--- mbsync invocation '' @ show_nat (idx + 1) @ ''/'' @ show_nat n @ '': full pass ---''"

text \<open>
  One process: registered, stopped at once when a stop or the budget got in between, read to
  its end and reaped.
\<close>

definition run_process :: "str \<Rightarrow> int \<Rightarrow> Invocation \<Rightarrow> world \<Rightarrow> int option \<times> world" where
  "run_process job_id cap iv w =
     (let w = register_proc job_id (inv_exits_on_term iv) w;
          w = (if job_id \<in> budget_stops (sync_rt w) \<or> job_id \<in> dom (killed_signals (sync_rt w))
               then snd (stop_sync_job job_id w) else w);
          w = read_until_deadline job_id cap (inv_reads iv) w
      in reap job_id (inv_exit iv) w)"

fun run_invocations ::
  "str \<Rightarrow> int \<Rightarrow> nat \<Rightarrow> nat \<Rightarrow> Invocation list \<Rightarrow> int option \<Rightarrow> world \<Rightarrow> (fault + int option) \<times> world"
where
  "run_invocations job_id cap n idx [] result_code w = (Inr result_code, w)"
| "run_invocations job_id cap n idx (iv # ivs) result_code w =
     (if 0 < idx \<and> job_id \<in> budget_stops (sync_rt w) then (Inr result_code, w)
      else
        let w = inv_others iv (if 0 < idx then log_append job_id (pass_marker idx n) w else w) in
        (case inv_spawn_error iv of
           Some e \<Rightarrow> (Inl e, w)
         | None \<Rightarrow>
             (case run_process job_id cap iv w of
                (rc, w) \<Rightarrow>
                  if rc \<noteq> Some 0 then (Inr rc, w)
                  else run_invocations job_id cap n (idx + 1) ivs rc w)))"

text \<open>The commands: INBOX first while the initial sync is incomplete, unless it is excluded.\<close>

definition invocation_commands :: "SyncEnv \<Rightarrow> bool \<Rightarrow> Account \<Rightarrow> (str \<times> str) list \<Rightarrow> str list list" where
  "invocation_commands env initial_sync account extra =
     (let channel = channel_name (a_name account);
          base = [env_mbsync_binary env] @ (if env_debug env then [''-Dm''] else []) @ [''-c'', env_config_path env]
      in if initial_sync then
           (if folder_excluded ''INBOX'' (excluded_folder_names (patterns_of extra)) then []
            else [base @ [channel @ '':INBOX'']])
           @ [base @ [channel]]
         else [base @ [''-a'']])"

section \<open>Folder reconciliation\<close>

definition refusal_line :: "str \<Rightarrow> str" where
  "refusal_line exc =
     ''--- No folder was moved to '' @ quoted REMOVED_CONTAINER @ '': '' @ exc @
     ''. Losing that many at once points to a problem at the Source rather than deliberate deletions. Check the Source, then sync again. ---''"

definition reconcile_removed_folders :: "SyncEnv \<Rightarrow> str \<Rightarrow> Account \<Rightarrow> world \<Rightarrow> str list \<times> world" where
  "reconcile_removed_folders env job_id account w =
     (case env_relist env of
        Inl e \<Rightarrow> ([], w)
      | Inr remote \<Rightarrow>
          (case env_local_folders env of
             Inl e \<Rightarrow> ([], w)
           | Inr local_dirs \<Rightarrow>
               (case json_object (a_extra_config account) of
                  Inl e \<Rightarrow> ([], w)
                | Inr extra \<Rightarrow>
                    (case folders_to_quarantine (set local_dirs) (set remote)
                            (excluded_folder_names (patterns_of extra)) of
                       Inl exc \<Rightarrow> ([], log_append job_id (refusal_line exc) w)
                     | Inr missing \<Rightarrow> (filter (\<lambda>f. env_quarantine env f = Some True) missing, w)))))"

section \<open>Before the job starts\<close>

definition block_reason :: "world \<Rightarrow> Account \<Rightarrow> str option" where
  "block_reason w account =
     (if a_suspended account then Some ''Sync blocked: account is suspended''
      else if \<not> is_authenticated account then Some ''Sync blocked: account not authenticated''
      else if a_migrating account then Some ''Sync blocked: account migration in progress''
      else if \<exists>u \<in> set (owners w account). u_migrating u then Some ''Sync blocked: user migration in progress''
      else None)"

definition fail_job :: "datetime \<Rightarrow> str \<Rightarrow> SyncJob \<Rightarrow> SyncJob" where
  "fail_job now msg job = job\<lparr>j_status := failed, j_log := Some msg, j_completed_at := Some now\<rparr>"

definition start_job :: "datetime \<Rightarrow> SyncJob \<Rightarrow> SyncJob" where
  "start_job now job = job\<lparr>j_status := running, j_started_at := Some now\<rparr>"

definition error_account :: "str option \<Rightarrow> Account \<Rightarrow> Account" where
  "error_account err account = account\<lparr>a_sync_state := SS_error, a_last_error := err\<rparr>"

definition unpause :: "Account \<Rightarrow> Account" where
  "unpause account = account\<lparr>a_sync_paused_until := None, a_pause_reason := None\<rparr>"

section \<open>Credentials\<close>

datatype credentials =
    Cred_fault fault
  | Cred_refused
  | Cred_ok "str option" "str option"

definition refuse_token :: "datetime \<Rightarrow> str \<Rightarrow> Account \<Rightarrow> bool \<Rightarrow> world \<Rightarrow> world" where
  "refuse_token now job_id account terminal w =
     (let w = upd_job job_id (fail_job now TOKEN_REFRESH_FAILED) w;
          w = upd_account (a_id account) (\<lambda>a. unpause
                (a\<lparr>a_sync_state := (if terminal then SS_needs_reauth else SS_error),
                   a_last_error := Some TOKEN_REFRESH_FAILED\<rparr>)) w
      in if terminal then
           notify_account_problem (a_id account) ''needs_reauth'' (a_name account @ '': sign-in expired'')
             ''Reconnect the account in MailFallBack to resume backups.'' w
         else
           notify_account_problem (a_id account) ''sync_error'' (a_name account @ '': sync failed'')
             TOKEN_REFRESH_FAILED w)"

text \<open>
  \<open>decrypt_account_credentials\<close>: the plaintext, with legacy ciphertext rewritten on read.
\<close>

definition decrypt_account_credentials :: "SyncEnv \<Rightarrow> Account \<Rightarrow> world \<Rightarrow> (fault + str) \<times> world" where
  "decrypt_account_credentials env account w =
     (case env_decrypt env (the (a_credentials account)) of
        None \<Rightarrow> (Inl (Raised ''decryption failed''), w)
      | Some (plaintext, None) \<Rightarrow> (Inr plaintext, w)
      | Some (plaintext, Some upgraded) \<Rightarrow>
          (Inr plaintext, upd_account (a_id account) (\<lambda>a. a\<lparr>a_credentials := Some upgraded\<rparr>) w))"

definition acquire_credentials :: "SyncEnv \<Rightarrow> str \<Rightarrow> Account \<Rightarrow> world \<Rightarrow> credentials \<times> world" where
  "acquire_credentials env job_id account w =
     (if \<not> truthy (a_credentials account) then (Cred_ok None None, w)
      else
        (case decrypt_account_credentials env account w of
           (Inl e, w) \<Rightarrow> (Cred_fault e, w)
         | (Inr creds, w) \<Rightarrow>
             if a_auth_type account = oauth2 then
               (let ((access_token, terminal), w) = refresh_oauth_token env creds (a_id account) w in
                if \<not> truthy access_token then
                  (Cred_refused, refuse_token (env_start env) job_id account terminal w)
                else
                  (case env_token_file_error env of
                     Some e \<Rightarrow> (Cred_fault e, w)
                   | None \<Rightarrow> (Cred_ok None access_token, w)))
             else (Cred_ok (Some creds) None, w)))"

section \<open>The run\<close>

text \<open>
  Starting the run: an empty live log, and the eviction of the account's last-known progress.
\<close>

definition start_run :: "str \<Rightarrow> str \<Rightarrow> world \<Rightarrow> world" where
  "start_run job_id account_id =
     upd_rt (\<lambda>rt. rt\<lparr>running_logs := (running_logs rt)(job_id \<mapsto> []),
       live_progress := filter (\<lambda>(stale_id, prog). \<not> (lp_account_id prog = account_id \<and> stale_id \<noteq> job_id))
                          (live_progress rt)\<rparr>)"

definition log_text :: "str \<Rightarrow> world \<Rightarrow> str" where
  "log_text job_id w =
     join [CHR 0x0A] (case running_logs (sync_rt w) job_id of None \<Rightarrow> [] | Some ls \<Rightarrow> ls)"

definition retry_marker :: str where
  "retry_marker = ''--- retry after quarantining folders removed from the Source ---''"

text \<open>
  The body of the inner \<open>try\<close>: the invocations and, after a failure that is neither a stop nor
  a pause, reconciliation and one retry. \<open>Inl\<close> is an exception; \<open>Inr\<close> the exit status and the
  output.
\<close>

definition run_job ::
  "SyncEnv \<Rightarrow> str \<Rightarrow> Account \<Rightarrow> str \<Rightarrow> str list list \<Rightarrow> world \<Rightarrow> (fault + int option \<times> str) \<times> world"
where
  "run_job env job_id account config cmds w =
     (case env_open_log env of
        Some e \<Rightarrow> (Inl e, w)
      | None \<Rightarrow>
          (case run_invocations job_id (env_max_runtime_s env) (length cmds) 0 (map (env_first env config) cmds) (Some 1) w of
             (Inl e, w) \<Rightarrow> (Inl e, w)
           | (Inr rc, w) \<Rightarrow>
               let out = log_text job_id w in
               if rc \<noteq> Some 0 \<and> job_id \<notin> budget_stops (sync_rt w) \<and> job_id \<notin> dom (killed_signals (sync_rt w))
                  \<and> classify_failure (last_chars 4096 out) (a_provider account) = None
               then
                 (let (quarantined, w) = reconcile_removed_folders env job_id account w;
                      w = env_reconcile_others env w in
                  if quarantined \<noteq> [] \<and> job_id \<notin> dom (killed_signals (sync_rt w)) then
                    (case run_invocations job_id (env_max_runtime_s env) (length cmds) 0 (map (env_retry env config) cmds) (Some 1)
                            (log_append job_id retry_marker w) of
                       (Inl e, w) \<Rightarrow> (Inl e, w)
                     | (Inr rc, w) \<Rightarrow> (Inr (rc, log_text job_id w), w))
                  else (Inr (rc, log_text job_id w), w))
               else (Inr (rc, out), w)))"

text \<open>The inner \<open>finally\<close>: the sampler's last tick (among others), then the handles go.\<close>

definition end_run :: "SyncEnv \<Rightarrow> str \<Rightarrow> world \<Rightarrow> world" where
  "end_run env job_id w =
     upd_rt (\<lambda>rt. rt\<lparr>running_procs := (running_procs rt)(job_id := None),
                      running_logs := (running_logs rt)(job_id := None)\<rparr>) (env_final_others env w)"

section \<open>Finalisation\<close>

definition record_result ::
  "SyncEnv \<Rightarrow> int option \<Rightarrow> str \<Rightarrow> str option \<Rightarrow> SyncJob \<Rightarrow> SyncJob"
where
  "record_result env rc out job_signal job =
     (let (version, summary) = env_parse env out in
      job\<lparr>j_exit_code := rc, j_log := Some out, j_log_path := env_log_path env,
          j_completed_at := Some (env_end env),
          j_signal := (if truthy job_signal then job_signal else j_signal job),
          j_mbsync_version := version, j_parsed_summary := summary\<rparr>)"

definition current :: "Account \<Rightarrow> world \<Rightarrow> Account" where
  "current account w = (case get_account w (a_id account) of None \<Rightarrow> account | Some a \<Rightarrow> a)"

text \<open>
  \<open>stats_service.collect_account_stats\<close>: the folders under the account's namespace prefix;
  \<open>None\<close> when Dovecot gives no statistics.
\<close>

definition stats_prefix :: "Account \<Rightarrow> str" where
  "stats_prefix account =
     a_name account @ '' ('' @ a_email_address account @ '') ['' @ last_chars 4 (a_id account) @ '']/''"

definition collect_account_stats :: "SyncEnv \<Rightarrow> Account \<Rightarrow> world \<Rightarrow> world" where
  "collect_account_stats env account w =
     (case owners w account of
        [] \<Rightarrow> w
      | owner # _ \<Rightarrow>
          (case env_mailbox_stats env (u_username owner) of
             None \<Rightarrow> w
           | Some [] \<Rightarrow> w
           | Some stats \<Rightarrow>
               let pre = stats_prefix account;
                   folder_stats = map (\<lambda>(mailbox, rest). (drop (length pre) mailbox, rest))
                                    (filter (\<lambda>(mailbox, rest). prefix pre mailbox) stats)
               in upd_account (a_id account) (\<lambda>a. a\<lparr>
                    a_total_messages := sum_list (map (\<lambda>(name, messages, unread, size). messages) folder_stats),
                    a_unread_messages := sum_list (map (\<lambda>(name, messages, unread, size). unread) folder_stats),
                    a_maildir_size_bytes := sum_list (map (\<lambda>(name, messages, unread, size). size) folder_stats),
                    a_folder_stats := (if folder_stats \<noteq> [] then Some (env_dump_stats env folder_stats) else None)\<rparr>) w))"

definition complete_account :: "datetime \<Rightarrow> bool \<Rightarrow> Account \<Rightarrow> Account" where
  "complete_account now was_initial a =
     clear_notified_state (unpause (a\<lparr>a_sync_state := SS_idle, a_last_sync_at := Some now, a_last_error := None,
       a_initial_sync_completed_at := (if was_initial then Some now else a_initial_sync_completed_at a)\<rparr>))"

definition opt_json :: "('a \<Rightarrow> json_val) \<Rightarrow> 'a option \<Rightarrow> json_val" where
  "opt_json f v = (case v of None \<Rightarrow> J_null | Some x \<Rightarrow> f x)"

definition finish_completed :: "SyncEnv \<Rightarrow> str \<Rightarrow> Account \<Rightarrow> timedelta option \<Rightarrow> world \<Rightarrow> world" where
  "finish_completed env job_id account duration w =
     (let aid = a_id account;
          was_initial = (a_initial_sync_completed_at account = None);
          w = upd_job job_id (\<lambda>j. j\<lparr>j_status := completed\<rparr>) w;
          w = upd_account aid (complete_account (env_end env) was_initial) w;
          w = (if was_initial then
                 (let a = current account w in
                  notify_account_event aid ''initial_sync_completed'' (a_name account @ '': first backup complete'')
                    (show_int (case a_initial_sync_total_messages a of None \<Rightarrow> 0 | Some n \<Rightarrow> n) @ '' messages backed up'')
                    (Some [(''messages'', opt_json J_int (a_initial_sync_total_messages a)),
                           (''folders'', opt_json J_int (a_initial_sync_total_folders a)),
                           (''duration_seconds'', opt_json J_duration duration)]) w)
               else w);
          w = collect_account_stats env (current account w) w;
          a = current account w;
          w = notify_account_event aid ''sync_completed'' (a_name account @ '': sync complete'')
                (show_int (a_total_messages a) @ '' messages backed up'')
                (Some [(''messages'', J_int (a_total_messages a)), (''unread'', J_int (a_unread_messages a)),
                       (''size_bytes'', J_int (a_maildir_size_bytes a)),
                       (''duration_seconds'', opt_json J_duration duration),
                       (''last_sync_at'', opt_json J_time (a_last_sync_at a))]) w
      in snd (cleanup_old_jobs aid 150 w))"

definition finish_paused :: "str \<Rightarrow> datetime \<Rightarrow> str \<Rightarrow> Account \<Rightarrow> world \<Rightarrow> world" where
  "finish_paused kind resume_at job_id account w =
     (let w = upd_job job_id (pause_job kind) w;
          w = upd_account (a_id account) (pause_account kind resume_at) w
      in notify_account_problem (a_id account) ''sync_paused''
           (a_name account @ '': sync paused ('' @ kind @ '')'') ''Self-recovering; will resume automatically.'' w)"

definition cap_message :: "int \<Rightarrow> str" where
  "cap_message cap = ''Sync exceeded the '' @ show_int cap @ ''s runtime cap''"

definition finish_deadline :: "int \<Rightarrow> str \<Rightarrow> Account \<Rightarrow> world \<Rightarrow> world" where
  "finish_deadline cap job_id account w =
     (let msg = cap_message cap;
          w = upd_job job_id (\<lambda>j. j\<lparr>j_status := failed, j_failure_kind := Some ''error'',
                                    j_log := Some (append_line (j_log j) msg)\<rparr>) w;
          w = upd_account (a_id account) (\<lambda>a. unpause (error_account (Some msg) a)) w
      in notify_account_problem (a_id account) ''sync_error'' (a_name account @ '': sync failed'') msg w)"

definition finish_stopped :: "str \<Rightarrow> Account \<Rightarrow> str \<Rightarrow> world \<Rightarrow> world" where
  "finish_stopped job_id account out w =
     (let w = upd_job job_id (\<lambda>j. j\<lparr>j_status := failed\<rparr>) w
      in upd_account (a_id account) (\<lambda>a. unpause (error_account (Some out) a)) w)"

definition finish_error :: "str \<Rightarrow> Account \<Rightarrow> str \<Rightarrow> world \<Rightarrow> world" where
  "finish_error job_id account out w =
     (let w = upd_job job_id (\<lambda>j. j\<lparr>j_status := failed, j_failure_kind := Some ''error''\<rparr>) w;
          w = upd_account (a_id account) (\<lambda>a. unpause (error_account (Some out) a)) w
      in notify_account_problem (a_id account) ''sync_error'' (a_name account @ '': sync failed'')
           (take 200 (str_or (Some out) ''Sync failed'')) w)"

text \<open>
  A failed run that nobody stopped: throttles and blips pause (the backoff never overflows, so
  the missing case is an exception of the source that does not occur), the rest is an error.
\<close>

definition finish_failed :: "SyncEnv \<Rightarrow> str \<Rightarrow> Account \<Rightarrow> str \<Rightarrow> world \<Rightarrow> fault option \<times> world" where
  "finish_failed env job_id account out w =
     (let now = env_end env;
          kind = classify_failure (last_chars 4096 out) (a_provider account) in
      if kind = Some ''throttled'' then
        (case next_throttle_resume now (attempt_today now (a_id account) ''throttled'' w) (env_jitter env) of
           None \<Rightarrow> (Some (Raised ''OverflowError''), w)
         | Some t \<Rightarrow> (None, finish_paused ''throttled'' t job_id account w))
      else if kind = Some ''transient'' then
        (case next_transient_resume now (attempt_today now (a_id account) ''transient'' w) (env_jitter env) of
           None \<Rightarrow> (Some (Raised ''OverflowError''), w)
         | Some t \<Rightarrow> (None, finish_paused ''transient'' t job_id account w))
      else (None, finish_error job_id account out w))"

definition drop_markers :: "str \<Rightarrow> world \<Rightarrow> world" where
  "drop_markers job_id =
     upd_rt (\<lambda>rt. rt\<lparr>budget_stops := budget_stops rt - {job_id}, deadline_stops := (deadline_stops rt)(job_id := None)\<rparr>)"

definition finalise :: "SyncEnv \<Rightarrow> str \<Rightarrow> Account \<Rightarrow> int option \<Rightarrow> str \<Rightarrow> world \<Rightarrow> fault option \<times> world" where
  "finalise env job_id account rc out w =
     (let budget_stopped = (job_id \<in> budget_stops (sync_rt w));
          w = upd_rt (\<lambda>rt. rt\<lparr>budget_stops := budget_stops rt - {job_id}\<rparr>) w in
      case get_sync_job w job_id of
        None \<Rightarrow> (Some (Raised ''Could not refresh instance''), w)
      | Some job \<Rightarrow>
          if j_status job \<noteq> running then (None, w)
          else
            let job_signal = killed_signals (sync_rt w) job_id;
                deadline_cap = deadline_stops (sync_rt w) job_id;
                w = upd_rt (\<lambda>rt. rt\<lparr>killed_signals := (killed_signals rt)(job_id := None),
                                     deadline_stops := (deadline_stops rt)(job_id := None)\<rparr>) w;
                w = upd_job job_id (record_result env rc out job_signal) w in
            if rc = Some 0 \<and> \<not> budget_stopped then
              (None, finish_completed env job_id account (map_option (\<lambda>s. env_end env - s) (j_started_at job)) w)
            else if budget_stopped then
              (None, finish_paused ''budget_paused'' (next_budget_resume (env_end env) (env_jitter env)) job_id account w)
            else if truthy job_signal \<and> deadline_cap \<noteq> None then
              (None, finish_deadline (the deadline_cap) job_id account w)
            else if truthy job_signal then (None, finish_stopped job_id account out w)
            else finish_failed env job_id account out w)"

text \<open>The two exception handlers and the outer \<open>finally\<close>.\<close>

definition fault_message :: "fault \<Rightarrow> str" where
  "fault_message e = (case e of TimeoutExpired \<Rightarrow> ''Sync timed out after 3600 seconds'' | Raised m \<Rightarrow> m)"

definition handle_fault :: "SyncEnv \<Rightarrow> str \<Rightarrow> Account \<Rightarrow> fault \<Rightarrow> world \<Rightarrow> world" where
  "handle_fault env job_id account e w =
     (let msg = fault_message e;
          w = upd_job job_id (\<lambda>j. (fail_job (env_end env) msg j)\<lparr>j_failure_kind := Some ''error''\<rparr>) w;
          w = upd_account (a_id account) (error_account (Some msg)) w
      in notify_account_problem (a_id account) ''sync_error'' (a_name account @ '': sync failed'')
           (take 200 (str_or (Some msg) (case e of TimeoutExpired \<Rightarrow> ''Sync timed out'' | Raised m \<Rightarrow> ''Sync failed''))) w)"

section \<open>The whole job\<close>

text \<open>The outer \<open>try\<close>: set-up, run, inner \<open>finally\<close>, finalisation.\<close>

definition guarded_run :: "SyncEnv \<Rightarrow> str \<Rightarrow> Account \<Rightarrow> str \<Rightarrow> str list list \<Rightarrow> world \<Rightarrow> fault option \<times> world" where
  "guarded_run env job_id account config cmds w =
     (case env_setup env of
        Some e \<Rightarrow> (Some e, w)
      | None \<Rightarrow>
          let (res, w) = run_job env job_id account config cmds (start_run job_id (a_id account) w);
              w = end_run env job_id w in
          (case res of
             Inl e \<Rightarrow> (Some e, w)
           | Inr (rc, out) \<Rightarrow> finalise env job_id account rc out w))"

definition run_and_close :: "SyncEnv \<Rightarrow> str \<Rightarrow> Account \<Rightarrow> str \<Rightarrow> str list list \<Rightarrow> world \<Rightarrow> world" where
  "run_and_close env job_id account config cmds w =
     (let (e, w) = guarded_run env job_id account config cmds w;
          w = (case e of None \<Rightarrow> w | Some e \<Rightarrow> handle_fault env job_id account e w)
      in drop_markers job_id w)"

text \<open>The initial-sync regime up to the configuration text: the account row as the worker then has it.\<close>

definition initial_regime :: "SyncEnv \<Rightarrow> Account \<Rightarrow> world \<Rightarrow> Account \<times> world" where
  "initial_regime env account w =
     (if a_initial_sync_completed_at account \<noteq> None then (account, w)
      else
        (case count_upstream_messages (a_extra_config account) (env_list env) (env_status env) of
           Inr (Some (total_msgs, folders)) \<Rightarrow>
             let f = (\<lambda>a. a\<lparr>a_initial_sync_total_messages := Some total_msgs, a_initial_sync_total_folders := Some folders\<rparr>)
             in (f account, upd_account (a_id account) f w)
         | _ \<Rightarrow> (account, w)))"

definition runtime_extra :: "bool \<Rightarrow> (str \<times> str) list \<Rightarrow> (str \<times> str) list" where
  "runtime_extra initial_sync extra =
     (if initial_sync then setdefault extra ''pipeline_depth'' ''1'' else extra)"

text \<open>The configuration the run is started with.\<close>

definition job_config :: "bool \<Rightarrow> Account \<Rightarrow> str option \<Rightarrow> str option \<Rightarrow> (str \<times> str) list \<Rightarrow> str + str" where
  "job_config initial_sync account password token extra =
     generate_mbsyncrc (a_name account) (a_imap_host account) (a_imap_port account)
       (str_or (a_imap_user account) (str_or (Some (a_email_address account)) (a_name account)))
       (a_auth_type account) (a_maildir_path account) (str_or (Some (a_tls_type account)) ''IMAPS'')
       password (map_option (\<lambda>t. ''cat /tmp/mfb_token_'' @ a_id account) token)
       (Some (Json_object (runtime_extra initial_sync extra)))"

text \<open>From the credentials on: the exceptions raised before the \<open>try\<close> leave the function.\<close>

definition configure_and_run ::
  "SyncEnv \<Rightarrow> str \<Rightarrow> Account \<Rightarrow> str option \<Rightarrow> str option \<Rightarrow> world \<Rightarrow> fault option \<times> world"
where
  "configure_and_run env job_id account password token w =
     (let initial_sync = (a_initial_sync_completed_at account = None);
          (account, w) = initial_regime env account w in
      case json_object (a_extra_config account) of
        Inl e \<Rightarrow> (Some (Raised e), w)
      | Inr extra \<Rightarrow>
          (case job_config initial_sync account password token extra of
             Inl e \<Rightarrow> (Some (Raised e), w)
           | Inr config \<Rightarrow>
               (None, run_and_close env job_id account config (invocation_commands env initial_sync account extra) w)))"

definition run_started :: "SyncEnv \<Rightarrow> str \<Rightarrow> Account \<Rightarrow> world \<Rightarrow> fault option \<times> world" where
  "run_started env job_id account w =
     (case acquire_credentials env job_id account w of
        (Cred_fault e, w) \<Rightarrow> (Some e, w)
      | (Cred_refused, w) \<Rightarrow> (None, w)
      | (Cred_ok password token, w) \<Rightarrow> configure_and_run env job_id account password token w)"

definition mark_started :: "SyncEnv \<Rightarrow> str \<Rightarrow> Account \<Rightarrow> world \<Rightarrow> world" where
  "mark_started env job_id account w =
     upd_account (a_id account) (\<lambda>a. a\<lparr>a_sync_state := SS_syncing\<rparr>) (upd_job job_id (start_job (env_start env)) w)"

definition execute_sync_job :: "SyncEnv \<Rightarrow> str \<Rightarrow> world \<Rightarrow> fault option \<times> world" where
  "execute_sync_job env job_id w =
     (case get_sync_job w job_id of
        None \<Rightarrow> (None, w)
      | Some job \<Rightarrow>
          (case get_account w (j_account_id job) of
             None \<Rightarrow> (None, upd_job job_id (fail_job (env_start env) ''Account not found'') w)
           | Some account \<Rightarrow>
               (case block_reason w account of
                  Some msg \<Rightarrow> (None, upd_job job_id (fail_job (env_start env) msg) w)
                | None \<Rightarrow>
                    (case validate_host_not_internal (env_std_internal env) (env_getaddrinfo env) (a_imap_host account) of
                       Some e \<Rightarrow>
                         (None, upd_account (a_id account) (error_account (Some e))
                            (upd_job job_id (fail_job (env_start env) (''Sync blocked: '' @ e)) w))
                     | None \<Rightarrow> run_started env job_id account (mark_started env job_id account w)))))"

end
