(* ===== verification/Sync_Worker_Props.thy ===== *)
theory Sync_Worker_Props
  imports Sync_Worker
begin

text \<open>
  What \<open>execute_sync_job\<close> guarantees for every environment. Other threads may do anything that
  keeps a stated invariant; \<open>env_preserves\<close> says that every function the environment
  interleaves keeps it, and \<open>run_job_preserves\<close> that the run then does.
\<close>

section \<open>Interference\<close>

definition inv_preserves :: "(world \<Rightarrow> bool) \<Rightarrow> Invocation \<Rightarrow> bool" where
  "inv_preserves P iv =
     ((\<forall>w. P w \<longrightarrow> P (inv_others iv w)) \<and> (\<forall>r \<in> set (inv_reads iv). \<forall>w. P w \<longrightarrow> P (re_others r w)))"

definition env_preserves :: "(world \<Rightarrow> bool) \<Rightarrow> SyncEnv \<Rightarrow> bool" where
  "env_preserves P env =
     ((\<forall>config cmd. inv_preserves P (env_first env config cmd) \<and> inv_preserves P (env_retry env config cmd))
      \<and> (\<forall>w. P w \<longrightarrow> P (env_reconcile_others env w)) \<and> (\<forall>w. P w \<longrightarrow> P (env_final_others env w)))"

text \<open>An invariant the worker's own bookkeeping in the module dictionaries cannot break.\<close>

definition rt_stable :: "(world \<Rightarrow> bool) \<Rightarrow> bool" where
  "rt_stable P = (\<forall>f w. P w \<longrightarrow> P (upd_rt f w))"

lemma rt_stable_stop: "rt_stable P \<Longrightarrow> P w \<Longrightarrow> P (snd (stop_sync_job i w))"
  by (auto simp: stop_sync_job_def rt_stable_def Let_def split: option.split)

lemma rt_stable_ops:
  assumes "rt_stable P" and "P w"
  shows "P (log_append i l w)" "P (register_proc i b w)" "P (snd (reap i own w))" "P (upd_rt f w)"
    "P (start_run i a w)"
  using assms by (simp_all add: rt_stable_def log_append_def register_proc_def reap_def Let_def start_run_def)

lemma read_preserves:
  assumes P: "rt_stable P"
  shows "\<forall>r \<in> set rs. \<forall>w. P w \<longrightarrow> P (re_others r w) \<Longrightarrow> P w \<Longrightarrow> P (read_until_deadline i cap rs w)"
  by (induction rs arbitrary: w)
    (auto simp: rt_stable_stop [OF P] rt_stable_ops [OF P] Let_def split: option.split)

lemma run_process_preserves:
  assumes "rt_stable P" and "inv_preserves P iv" and "P w"
  shows "P (snd (run_process i cap iv w))"
proof -
  let ?w1 = "register_proc i (inv_exits_on_term iv) w"
  let ?w2 = "if i \<in> budget_stops (sync_rt ?w1) \<or> i \<in> dom (killed_signals (sync_rt ?w1))
      then snd (stop_sync_job i ?w1) else ?w1"
  have "P ?w2"
    using assms(3) by (simp add: rt_stable_ops [OF assms(1)] rt_stable_stop [OF assms(1)])
  then have "P (read_until_deadline i cap (inv_reads iv) ?w2)"
    using assms by (intro read_preserves [OF assms(1)]) (auto simp: inv_preserves_def)
  then show ?thesis
    unfolding run_process_def Let_def by (rule rt_stable_ops(3) [OF assms(1)])
qed

lemma run_invocations_preserves:
  assumes P: "rt_stable P"
  shows "\<forall>iv \<in> set ivs. inv_preserves P iv \<Longrightarrow> P w \<Longrightarrow> P (snd (run_invocations i cap n idx ivs rc w))"
proof (induction ivs arbitrary: idx rc w)
  case (Cons iv ivs)
  define w0 where "w0 = inv_others iv (if 0 < idx then log_append i (pass_marker idx n) w else w)"
  have Pw0: "P w0"
    using Cons.prems by (simp add: w0_def inv_preserves_def rt_stable_ops [OF P])
  have w1: "P (snd (run_process i cap iv w0))"
    using Cons.prems(1) by (intro run_process_preserves [OF P] Pw0) auto
  have run: "P (snd (run_invocations i cap n idx' ivs rc' (snd (run_process i cap iv w0))))" for rc' idx'
    using Cons.IH [OF _ w1] Cons.prems(1) by simp
  show ?case
    unfolding run_invocations.simps Let_def case_prod_beta w0_def [symmetric]
    using Cons.prems(2) Pw0 w1 run by (simp split: option.split)
qed simp

lemma reconcile_preserves:
  assumes P: "rt_stable P"
  shows "P w \<Longrightarrow> P (snd (reconcile_removed_folders env i a w))"
  by (auto simp: reconcile_removed_folders_def rt_stable_ops [OF P] split: sum.split)

lemma run_job_preserves:
  assumes P: "rt_stable P" and env: "env_preserves P env" and "P w"
  shows "P (snd (run_job env i a config cmds w))"
proof -
  let ?first = "run_invocations i (env_max_runtime_s env) (length cmds) 0 (map (env_first env config) cmds) (Some 1) w"
  have first: "P (snd ?first)"
    using env \<open>P w\<close> by (intro run_invocations_preserves [OF P]) (auto simp: env_preserves_def)
  obtain res w1 where w1: "?first = (res, w1)" by (cases ?first)
  obtain q w2 where w2: "reconcile_removed_folders env i a w1 = (q, w2)"
    by (cases "reconcile_removed_folders env i a w1")
  have "P w2"
    using reconcile_preserves [OF P, of w1 env i a] first w1 w2 by simp
  then have w3: "P (env_reconcile_others env w2)"
    using env by (simp add: env_preserves_def)
  define again where "again = run_invocations i (env_max_runtime_s env) (length cmds) 0
      (map (env_retry env config) cmds) (Some 1) (log_append i retry_marker (env_reconcile_others env w2))"
  have retry: "P (snd again)"
    unfolding again_def using env w3
    by (intro run_invocations_preserves [OF P]) (auto simp: env_preserves_def rt_stable_ops [OF P])
  obtain res2 w4 where w4: "again = (res2, w4)" by (cases again)
  show ?thesis
  proof (cases "env_open_log env")
    case (Some e)
    with assms(3) show ?thesis by (simp add: run_job_def)
  next
    case None
    show ?thesis
    proof (cases res)
      case (Inl e)
      with None first w1 show ?thesis by (simp add: run_job_def)
    next
      case (Inr rc)
      with None w1 w2 first w3 retry w4 show ?thesis
        by (simp add: run_job_def Let_def again_def [symmetric] split: sum.split)
    qed
  qed
qed

lemma end_run_preserves: "rt_stable P \<Longrightarrow> env_preserves P env \<Longrightarrow> P w \<Longrightarrow> P (end_run env i w)"
  by (simp add: end_run_def rt_stable_def env_preserves_def)

section \<open>The job row\<close>

definition job_closed :: "str \<Rightarrow> world \<Rightarrow> bool" where
  "job_closed i w = (\<forall>j \<in> set (sync_jobs w). j_id j = i \<longrightarrow> \<not> active (j_status j))"

text \<open>The row of a started job: present, and running or closed by someone else.\<close>

definition started :: "str \<Rightarrow> world \<Rightarrow> bool" where
  "started i w = (pk j_id (sync_jobs w) \<and> (\<exists>j. get_sync_job w i = Some j \<and> j_status j \<noteq> pending))"

lemma rt_stable_started: "rt_stable (started i)"
  by (simp add: rt_stable_def started_def)

lemma closed_set_row:
  "sync_jobs w' = set_row j_id i f (sync_jobs w) \<Longrightarrow> (\<And>j. \<not> active (j_status (f j))) \<Longrightarrow> job_closed i w'"
  unfolding job_closed_def by (auto dest!: set_row_memD)

lemma closed_subset: "job_closed i w \<Longrightarrow> set (sync_jobs w') \<subseteq> set (sync_jobs w) \<Longrightarrow> job_closed i w'"
  by (auto simp: job_closed_def)

lemma closed_row: "pk j_id (sync_jobs w) \<Longrightarrow> get_sync_job w i = Some j \<Longrightarrow> \<not> active (j_status j) \<Longrightarrow> job_closed i w"
  unfolding job_closed_def using row_SomeI [of j_id "sync_jobs w"] by fastforce

lemma collect_stats_frame [simp]:
  "sync_jobs (collect_account_stats env a w) = sync_jobs w"
  "sync_rt (collect_account_stats env a w) = sync_rt w"
  "outbox (collect_account_stats env a w) = outbox w"
  "channels (collect_account_stats env a w) = channels w"
  "account_owners (collect_account_stats env a w) = account_owners w"
  "users (collect_account_stats env a w) = users w"
  by (simp_all add: collect_account_stats_def Let_def split: list.split option.split)

lemma cleanup_frame [simp]:
  "accounts (snd (cleanup_old_jobs a k w)) = accounts w"
  "sync_rt (snd (cleanup_old_jobs a k w)) = sync_rt w"
  "outbox (snd (cleanup_old_jobs a k w)) = outbox w"
  by (simp_all add: cleanup_old_jobs_def Let_def)

lemma cleanup_subset: "set (sync_jobs (snd (cleanup_old_jobs a k w))) \<subseteq> set (sync_jobs w)"
  by (auto simp: cleanup_old_jobs_def Let_def prune_def)

lemma sync_jobs_finish:
  "sync_jobs (finish_paused kind t i a w) = set_row j_id i (pause_job kind) (sync_jobs w)"
  "sync_jobs (finish_deadline cap i a w) = set_row j_id i (\<lambda>j. j\<lparr>j_status := failed, j_failure_kind := Some ''error'',
      j_log := Some (append_line (j_log j) (cap_message cap))\<rparr>) (sync_jobs w)"
  "sync_jobs (finish_stopped i a out w) = set_row j_id i (\<lambda>j. j\<lparr>j_status := failed\<rparr>) (sync_jobs w)"
  "sync_jobs (finish_error i a out w) = set_row j_id i (\<lambda>j. j\<lparr>j_status := failed, j_failure_kind := Some ''error''\<rparr>) (sync_jobs w)"
  "sync_jobs (handle_fault env i a e w) = set_row j_id i (\<lambda>j. (fail_job (env_end env) (fault_message e) j)\<lparr>j_failure_kind := Some ''error''\<rparr>) (sync_jobs w)"
  "sync_jobs (refuse_token now i a terminal w) = set_row j_id i (fail_job now TOKEN_REFRESH_FAILED) (sync_jobs w)"
  by (simp_all add: finish_paused_def finish_deadline_def finish_stopped_def finish_error_def handle_fault_def
      refuse_token_def Let_def)

lemma closed_finish:
  "job_closed i (finish_paused kind t i a w)" "job_closed i (finish_deadline cap i a w)"
  "job_closed i (finish_stopped i a out w)" "job_closed i (finish_error i a out w)" "job_closed i (handle_fault env i a e w)"
  "job_closed i (refuse_token now i a terminal w)" "job_closed i (upd_job i (fail_job now msg) w)"
  by (rule closed_set_row, simp add: sync_jobs_finish, simp add: pause_job_def fail_job_def)+

lemma closed_completed: "job_closed i (finish_completed env i a d w)"
proof (rule closed_subset)
  let ?w = "upd_job i (\<lambda>j. j\<lparr>j_status := completed\<rparr>) w"
  show "job_closed i ?w"
    by (rule closed_set_row, simp, simp)
  show "set (sync_jobs (finish_completed env i a d w)) \<subseteq> set (sync_jobs ?w)"
    unfolding finish_completed_def Let_def
    by (rule subset_trans [OF cleanup_subset]) simp
qed

lemma finish_failed_cases:
  obtains (throttled) t where "classify_failure (last_chars 4096 out) (a_provider a) = Some ''throttled''"
      "next_throttle_resume (env_end env) (attempt_today (env_end env) (a_id a) ''throttled'' w) (env_jitter env) = Some t"
      "finish_failed env i a out w = (None, finish_paused ''throttled'' t i a w)"
  | (transient) t where "classify_failure (last_chars 4096 out) (a_provider a) = Some ''transient''"
      "next_transient_resume (env_end env) (attempt_today (env_end env) (a_id a) ''transient'' w) (env_jitter env) = Some t"
      "finish_failed env i a out w = (None, finish_paused ''transient'' t i a w)"
  | (err) "classify_failure (last_chars 4096 out) (a_provider a) \<noteq> Some ''throttled''"
      "classify_failure (last_chars 4096 out) (a_provider a) \<noteq> Some ''transient''"
      "finish_failed env i a out w = (None, finish_error i a out w)"
  by (cases "classify_failure (last_chars 4096 out) (a_provider a) = Some ''throttled''";
      cases "classify_failure (last_chars 4096 out) (a_provider a) = Some ''transient''")
    (auto simp: finish_failed_def Let_def throttle.resume_delay transient.resume_delay)

lemma finalise_closed:
  assumes "started i w" and "finalise env i a rc out w = (None, w')"
  shows "job_closed i w'"
proof -
  let ?w = "upd_rt (\<lambda>rt. rt\<lparr>budget_stops := budget_stops rt - {i}\<rparr>) w"
  from assms(1) obtain job where job: "get_sync_job w i = Some job" "j_status job \<noteq> pending"
    and pk: "pk j_id (sync_jobs w)"
    by (auto simp: started_def)
  show ?thesis
  proof (cases "j_status job = running")
    case False
    with job have "\<not> active (j_status job)" by (simp add: active_def)
    moreover have "w' = ?w"
      using assms(2) job False by (simp add: finalise_def Let_def)
    ultimately show ?thesis
      using closed_row [of ?w i job] pk job by simp
  next
    case True
    have "finish_failed env i a out v = (None, w') \<Longrightarrow> job_closed i w'" for v
      by (cases rule: finish_failed_cases [of out a env v i]) (auto simp: closed_finish)
    with assms(2) job True show ?thesis
      by (auto simp: finalise_def Let_def closed_finish closed_completed split: if_splits)
  qed
qed

lemma sync_jobs_drop_markers [simp]: "sync_jobs (drop_markers i w) = sync_jobs w"
  by (simp add: drop_markers_def)

lemma closed_drop_markers [simp]: "job_closed i (drop_markers i w) = job_closed i w"
  by (simp add: job_closed_def)

lemma run_and_close_closed:
  assumes "env_preserves (started i) env" and "started i w"
  shows "job_closed i (run_and_close env i a config cmds w)"
proof -
  let ?w0 = "start_run i (a_id a) w"
  obtain res w1 where run: "run_job env i a config cmds ?w0 = (res, w1)"
    by (cases "run_job env i a config cmds ?w0")
  have "started i w1"
    using run_job_preserves [OF rt_stable_started assms(1), of ?w0 i a config cmds]
      rt_stable_ops(5) [OF rt_stable_started assms(2)] run by simp
  then have w2: "started i (end_run env i w1)"
    by (rule end_run_preserves [OF rt_stable_started assms(1)])
  obtain e w3 where g: "guarded_run env i a config cmds w = (e, w3)"
    by (cases "guarded_run env i a config cmds w")
  have "job_closed i w3" if "e = None"
    using g that run finalise_closed [OF w2]
    by (auto simp: guarded_run_def Let_def split: option.splits sum.splits prod.splits)
  then show ?thesis
    by (auto simp: run_and_close_def g closed_finish split: option.split)
qed

lemma decrypt_jobs [simp]: "sync_jobs (snd (decrypt_account_credentials env a w)) = sync_jobs w"
  by (auto simp: decrypt_account_credentials_def split: option.split)

lemma refresh_jobs [simp]: "sync_jobs (snd (refresh_oauth_token env c a w)) = sync_jobs w"
  by (simp add: refresh_oauth_token_def Let_def split: json_text.split sum.split)

lemma acquire_cases:
  obtains (refused) terminal v where
      "acquire_credentials env i a w = (Cred_refused, refuse_token (env_start env) i a terminal v)"
      "sync_jobs v = sync_jobs w"
  | (fault) e v where "acquire_credentials env i a w = (Cred_fault e, v)" "sync_jobs v = sync_jobs w"
  | (ok) pw tok v where "acquire_credentials env i a w = (Cred_ok pw tok, v)" "sync_jobs v = sync_jobs w"
proof (cases "truthy (a_credentials a)")
  case False
  then show ?thesis by (intro ok [of None None w]) (simp_all add: acquire_credentials_def)
next
  case True
  obtain res v1 where d: "decrypt_account_credentials env a w = (res, v1)"
    by (cases "decrypt_account_credentials env a w")
  then have v1: "sync_jobs v1 = sync_jobs w"
    using decrypt_jobs [of env a w] by simp
  show ?thesis
  proof (cases res)
    case (Inl e)
    with True d v1 show ?thesis by (intro fault [of e v1]) (simp_all add: acquire_credentials_def)
  next
    case (Inr creds)
    obtain acc terminal v2 where r: "refresh_oauth_token env creds (a_id a) v1 = ((acc, terminal), v2)"
      by (metis prod.collapse)
    then have v2: "sync_jobs v2 = sync_jobs w"
      using refresh_jobs [of env creds "a_id a" v1] v1 by simp
    consider "a_auth_type a \<noteq> oauth2" | "a_auth_type a = oauth2" "\<not> truthy acc"
      | e where "a_auth_type a = oauth2" "truthy acc" "env_token_file_error env = Some e"
      | "a_auth_type a = oauth2" "truthy acc" "env_token_file_error env = None"
      by (cases "env_token_file_error env") auto
    then show ?thesis
    proof cases
      case 1
      with True d Inr v1 show ?thesis by (intro ok [of "Some creds" None v1]) (simp_all add: acquire_credentials_def)
    next
      case 2
      with True d Inr r v2 show ?thesis by (intro refused [of terminal v2]) (simp_all add: acquire_credentials_def)
    next
      case 3
      with True d Inr r v2 show ?thesis by (intro fault [of e v2]) (simp_all add: acquire_credentials_def)
    next
      case 4
      with True d Inr r v2 show ?thesis by (intro ok [of None acc v2]) (simp_all add: acquire_credentials_def)
    qed
  qed
qed

lemma initial_regime_jobs [simp]: "sync_jobs (snd (initial_regime env a w)) = sync_jobs w"
  by (auto simp: initial_regime_def Let_def split: sum.split option.split prod.split)

section \<open>Every job ends\<close>

lemma started_start_job:
  assumes "pk j_id (sync_jobs w)" and "get_sync_job w i = Some job"
    and "sync_jobs v = set_row j_id i (start_job now) (sync_jobs w)"
  shows "started i v"
  using assms by (simp add: started_def start_job_def pk_set_row row_set_row)

text \<open>
  C1. Every sync job is closed: whatever mbsync, the provider, the operating system and other
  threads do (as long as they neither delete the row nor put it back to pending), when
  \<open>execute_sync_job\<close> returns, the job is no longer pending or running, so the account is not
  blocked for the next job.
\<close>

theorem sync_job_always_closed:
  assumes "pk j_id (sync_jobs w)" and "get_sync_job w i = Some job"
    and "env_preserves (started i) env" and "execute_sync_job env i w = (None, w')"
  shows "\<forall>j \<in> set (sync_jobs w'). j_id j = i \<longrightarrow> \<not> active (j_status j)"
proof (cases "get_account w (j_account_id job)")
  case None
  with assms(2,4) show ?thesis
    using closed_finish(7) by (auto simp: execute_sync_job_def job_closed_def)
next
  case (Some a)
  let ?w0 = "upd_account (a_id a) (\<lambda>x. x\<lparr>a_sync_state := SS_syncing\<rparr>) (upd_job i (start_job (env_start env)) w)"
  have blocked: "job_closed i (upd_account k f (upd_job i (fail_job t m) w))" for k f t m
    by (rule closed_set_row [where f = "fail_job t m"]) (simp_all add: fail_job_def)
  show ?thesis
  proof (cases "block_reason w a = None \<and>
      validate_host_not_internal (env_std_internal env) (env_getaddrinfo env) (a_imap_host a) = None")
    case False
    with Some assms(2,4) closed_finish(7) blocked have "job_closed i w'"
      by (auto simp: execute_sync_job_def split: option.splits)
    then show ?thesis by (simp add: job_closed_def)
  next
    case True
    have exec: "execute_sync_job env i w = run_started env i a ?w0"
      using Some assms(2) True by (simp add: execute_sync_job_def mark_started_def)
    have "job_closed i w'"
    proof (cases rule: acquire_cases [of env i a ?w0])
      case (refused terminal v)
      with assms(4) exec show ?thesis by (auto simp: run_started_def closed_finish)
    next
      case (fault e v)
      with assms(4) exec show ?thesis by (simp add: run_started_def)
    next
      case (ok pw tok v)
      obtain account u where u: "initial_regime env a v = (account, u)" by (cases "initial_regime env a v")
      then have "sync_jobs u = sync_jobs ?w0"
        using initial_regime_jobs [of env a v] ok(2) by simp
      then have "started i u"
        by (intro started_start_job [OF assms(1,2)]) simp
      with assms(4) exec ok u show ?thesis
        using run_and_close_closed [OF assms(3)]
        by (auto simp: run_started_def configure_and_run_def Let_def split: sum.splits)
    qed
    then show ?thesis by (simp add: job_closed_def)
  qed
qed

definition demo_invocation :: Invocation where
  "demo_invocation = \<lparr> inv_others = (\<lambda>w. w), inv_spawn_error = None, inv_exits_on_term = True,
     inv_reads = [\<lparr>re_elapsed = 1, re_others = (\<lambda>w. w), re_line = Some ''C: 1/1''\<rparr>], inv_exit = Some 0 \<rparr>"

definition demo_env :: SyncEnv where
  "demo_env = \<lparr> env_start = 10, env_end = 20, env_jitter = 0, env_max_runtime_s = 3600,
     env_mbsync_binary = ''mbsync'', env_config_path = ''/tmp/c'', env_debug = False,
     env_std_internal = (\<lambda>_. False), env_getaddrinfo = (\<lambda>_. Some [IPv4 0x08080808]),
     env_decrypt = (\<lambda>c. if c = ''enc'' then Some (''secret'', None) else None),
     env_loads = (\<lambda>_. Json_malformed []), env_refresh = (\<lambda>_ _. Inl []), env_encrypt = (\<lambda>_. ''enc''),
     env_token_file_error = None, env_list = Inr [''INBOX''], env_status = (\<lambda>_. Some 7), env_setup = None,
     env_log_path = None, env_open_log = None, env_first = (\<lambda>_ _. demo_invocation),
     env_retry = (\<lambda>_ _. demo_invocation), env_relist = Inr [], env_local_folders = Inr [],
     env_quarantine = (\<lambda>_. None), env_reconcile_others = (\<lambda>w. w), env_final_others = (\<lambda>w. w),
     env_parse = (\<lambda>_. (None, None)), env_mailbox_stats = (\<lambda>_. None), env_dump_stats = (\<lambda>_. ''[]'') \<rparr>"

definition queued_world :: world where
  "queued_world = demo_world\<lparr>sync_jobs := [new_sync_job ''j1'' ''a1'' ''api'' 5]\<rparr>"

lemma demo_env_preserves: "env_preserves P demo_env"
  by (simp add: env_preserves_def inv_preserves_def demo_env_def demo_invocation_def)

lemma queued_world_simps:
  "pk j_id (sync_jobs queued_world)"
  "get_sync_job queued_world ''j1'' = Some (new_sync_job ''j1'' ''a1'' ''api'' 5)"
  "get_account queued_world ''a1'' = Some demo_account"
  by (simp_all add: queued_world_def demo_world_def empty_world_def pk_def demo_account_def new_account_def)

lemma demo_starts:
  "block_reason queued_world demo_account = None"
  "validate_host_not_internal (env_std_internal demo_env) (env_getaddrinfo demo_env) (a_imap_host demo_account) = None"
  by (simp_all add: block_reason_def queued_world_def demo_defs is_authenticated_def owners_def
      validate_host_not_internal_def is_internal_ip_def demo_env_def)

lemma demo_returns: "fst (execute_sync_job demo_env ''j1'' queued_world) = None"
proof -
  have cred: "\<exists>v. acquire_credentials demo_env i demo_account w = (Cred_ok (Some ''secret'') None, v)" for i w
    by (simp add: acquire_credentials_def decrypt_account_credentials_def demo_env_def demo_account_def new_account_def)
  have "initial_regime demo_env demo_account w = (x, u) \<Longrightarrow> a_extra_config x = None" for w x u
    by (auto simp: initial_regime_def Let_def demo_account_def new_account_def split: sum.splits option.splits prod.splits)
  then have "fst (configure_and_run demo_env i demo_account pw tok w) = None" for i pw tok w
    by (simp add: configure_and_run_def job_config_def generate_mbsyncrc_def Let_def split: prod.split)
  moreover have "fst (execute_sync_job demo_env ''j1'' queued_world)
      = fst (run_started demo_env ''j1'' demo_account (mark_started demo_env ''j1'' demo_account queued_world))"
    using demo_starts by (simp add: execute_sync_job_def queued_world_simps)
  ultimately show ?thesis
    using cred [of "''j1''" "mark_started demo_env ''j1'' demo_account queued_world"]
    by (auto simp: run_started_def)
qed

theorem sync_job_always_closed_witness:
  "fst (execute_sync_job demo_env ''j1'' queued_world) = None
   \<and> list_all (\<lambda>j. j_id j = ''j1'' \<longrightarrow> \<not> active (j_status j)) (sync_jobs (snd (execute_sync_job demo_env ''j1'' queued_world)))"
proof -
  have "execute_sync_job demo_env ''j1'' queued_world = (None, snd (execute_sync_job demo_env ''j1'' queued_world))"
    using demo_returns by (metis prod.collapse)
  from sync_job_always_closed [OF queued_world_simps(1,2) demo_env_preserves this] demo_returns
  show ?thesis by (simp add: list_all_iff)
qed

section \<open>What escapes\<close>

text \<open>
  What the source does not close: a credential that cannot be decrypted raises after the
  job was marked running and before the \<open>try\<close>. The exception leaves the worker, the row stays
  running with the account \<open>syncing\<close>, nobody is told, and a new job is refused; once the grace
  window has passed the watchdog closes it as interrupted.
\<close>

lemma undecryptable_credentials_strand_job:
  assumes "pk j_id (sync_jobs w)" and "get_sync_job w i = Some job" and "get_account w (j_account_id job) = Some a"
    and "block_reason w a = None"
    and "validate_host_not_internal (env_std_internal env) (env_getaddrinfo env) (a_imap_host a) = None"
    and "truthy (a_credentials a)" and "env_decrypt env (the (a_credentials a)) = None"
    and "execute_sync_job env i w = (e, w')"
  shows "e = Some (Raised ''decryption failed'')
    \<and> get_sync_job w' i = Some (start_job (env_start env) job)
    \<and> map_option a_sync_state (get_account w' (a_id a)) = Some SS_syncing
    \<and> outbox w' = outbox w
    \<and> fst (create_sync_job i' t (j_account_id job) src w') = None
    \<and> (running_procs (sync_rt w) i = None \<and> get_live_progress w i = None \<and> env_start env + grace \<le> now \<longrightarrow>
        get_sync_job (snd (recover_stalled_sync_jobs now grace threshold w')) i
          = Some (close_interrupted now stalled_marker (start_job (env_start env) job)))"
proof -
  have ids: "j_id job = i" "a_id a = j_account_id job"
    using row_SomeD [OF assms(2)] row_SomeD [OF assms(3)] by auto
  have run: "e = Some (Raised ''decryption failed'')" "w' = mark_started env i a w"
    using assms(2-8) by (simp_all add: execute_sync_job_def run_started_def acquire_credentials_def
      decrypt_account_credentials_def)
  have jobs: "sync_jobs w' = set_row j_id i (start_job (env_start env)) (sync_jobs w)"
    by (simp add: run mark_started_def)
  have key: "j_id (start_job t j) = j_id j" for t j
    by (simp add: start_job_def)
  have job: "get_sync_job w' i = Some (start_job (env_start env) job)"
    using assms(2) by (simp add: jobs row_set_row key)
  have "map_option a_sync_state (get_account w' (a_id a)) = Some SS_syncing"
    using assms(3) by (simp add: run mark_started_def row_set_row ids)
  moreover have "fst (create_sync_job i' t (j_account_id job) src w') = None"
  proof -
    have "start_job (env_start env) job \<in> set (sync_jobs w')"
      using row_SomeD [OF job] by simp
    moreover have "j_account_id (start_job (env_start env) job) = j_account_id job"
      "active (j_status (start_job (env_start env) job))"
      by (simp_all add: start_job_def)
    ultimately show ?thesis
      by (cases rule: create_sync_job_cases [of i' t "j_account_id job" src w']) auto
  qed
  moreover have "get_sync_job (snd (recover_stalled_sync_jobs now grace threshold w')) i
      = Some (close_interrupted now stalled_marker (start_job (env_start env) job))"
    if "running_procs (sync_rt w) i = None" "get_live_progress w i = None" "env_start env + grace \<le> now"
  proof -
    have pk: "pk j_id (sync_jobs w')"
      using assms(1) by (simp add: jobs pk_set_row key)
    let ?f = "\<lambda>r. if j_status r = running \<and> stalled_due now grace threshold w' r
        then close_interrupted now stalled_marker r else r"
    have rt: "sync_rt w' = sync_rt w"
      by (simp add: run mark_started_def)
    have "stalled_due now grace threshold w' (start_job (env_start env) job)"
      using that by (simp add: stalled_due_def start_job_def ids get_live_progress_def rt)
    then have f: "?f (start_job (env_start env) job) = close_interrupted now stalled_marker (start_job (env_start env) job)"
      by (simp add: start_job_def)
    have "row j_id (map ?f t) k = map_option ?f (row j_id t k)" for t k
      by (induction t) auto
    with job f show ?thesis
      unfolding stalled_rows [OF pk] by simp
  qed
  ultimately show ?thesis
    using job by (simp add: run mark_started_def)
qed

definition broken_env :: SyncEnv where
  "broken_env = demo_env\<lparr>env_decrypt := (\<lambda>_. None)\<rparr>"

end
