(* ===== verification/Sync_Outcome.thy ===== *)
theory Sync_Outcome
  imports Sync_Worker_Props
begin

text \<open>
  The outcome of a run: which job status, failure kind, account state and pause every
  combination of exit status, stop marker and output classification leads to, which module
  markers are gone afterwards, and when the initial sync may be called complete.
\<close>

section \<open>Account rows after each outcome\<close>

lemma collect_stats_accounts:
  "\<exists>f. accounts (collect_account_stats env a w) = set_row a_id (a_id a) f (accounts w)
     \<and> (\<forall>x. a_id (f x) = a_id x \<and> a_sync_state (f x) = a_sync_state x \<and> a_last_error (f x) = a_last_error x
          \<and> a_sync_paused_until (f x) = a_sync_paused_until x \<and> a_pause_reason (f x) = a_pause_reason x
          \<and> a_last_sync_at (f x) = a_last_sync_at x
          \<and> a_initial_sync_completed_at (f x) = a_initial_sync_completed_at x
          \<and> a_last_notified_state (f x) = a_last_notified_state x)"
proof -
  have same: "\<exists>f. accounts w = set_row a_id (a_id a) f (accounts w)
     \<and> (\<forall>x. a_id (f x) = a_id x \<and> a_sync_state (f x) = a_sync_state x \<and> a_last_error (f x) = a_last_error x
          \<and> a_sync_paused_until (f x) = a_sync_paused_until x \<and> a_pause_reason (f x) = a_pause_reason x
          \<and> a_last_sync_at (f x) = a_last_sync_at x
          \<and> a_initial_sync_completed_at (f x) = a_initial_sync_completed_at x
          \<and> a_last_notified_state (f x) = a_last_notified_state x)"
    by (intro exI [of _ "\<lambda>x. x"]) (simp add: set_row_id)
  show ?thesis
    unfolding collect_account_stats_def Let_def using same
    by (cases "owners w a"; cases "env_mailbox_stats env (u_username (hd (owners w a)))")
      (auto split: list.split intro!: exI)
qed

text \<open>The fields a finalisation decides.\<close>

definition verdict :: "Account \<Rightarrow> SyncState \<times> str option \<times> datetime option \<times> str option" where
  "verdict a = (a_sync_state a, a_last_error a, a_sync_paused_until a, a_pause_reason a)"

lemma verdict_paused:
  "get_account w (a_id a) = Some a0 \<Longrightarrow>
   \<exists>a'. get_account (finish_paused kind t i a w) (a_id a) = Some a'
     \<and> verdict a' = (SS_idle, None, Some t, Some (pause_reason_of kind))
     \<and> a_initial_sync_completed_at a' = a_initial_sync_completed_at a0"
  by (simp add: finish_paused_def Let_def get_account_notify_problem row_set_row pause_account_def verdict_def)

lemma verdict_error:
  "get_account w (a_id a) = Some a0 \<Longrightarrow>
   \<exists>a'. get_account (finish_error i a out w) (a_id a) = Some a' \<and> verdict a' = (SS_error, Some out, None, None)
     \<and> a_initial_sync_completed_at a' = a_initial_sync_completed_at a0"
  by (simp add: finish_error_def Let_def get_account_notify_problem row_set_row error_account_def unpause_def verdict_def)

lemma verdict_deadline:
  "get_account w (a_id a) = Some a0 \<Longrightarrow>
   \<exists>a'. get_account (finish_deadline cap i a w) (a_id a) = Some a'
     \<and> verdict a' = (SS_error, Some (cap_message cap), None, None)
     \<and> a_initial_sync_completed_at a' = a_initial_sync_completed_at a0"
  by (simp add: finish_deadline_def Let_def get_account_notify_problem row_set_row error_account_def unpause_def verdict_def)

lemma verdict_stopped:
  "get_account w (a_id a) = Some a0 \<Longrightarrow>
   \<exists>a'. get_account (finish_stopped i a out w) (a_id a) = Some a' \<and> verdict a' = (SS_error, Some out, None, None)
     \<and> a_initial_sync_completed_at a' = a_initial_sync_completed_at a0"
  by (simp add: finish_stopped_def Let_def row_set_row error_account_def unpause_def verdict_def)

lemma current_id: "a_id (current a w) = a_id a"
  by (auto simp: current_def split: option.split dest: row_SomeD)

lemma verdict_completed:
  assumes "get_account w (a_id a) = Some a0"
  shows "\<exists>a'. get_account (finish_completed env i a d w) (a_id a) = Some a' \<and> verdict a' = (SS_idle, None, None, None)
     \<and> a_last_sync_at a' = Some (env_end env) \<and> a_last_notified_state a' = None
     \<and> a_initial_sync_completed_at a' = (if a_initial_sync_completed_at a = None then Some (env_end env)
          else a_initial_sync_completed_at a0)"
proof -
  let ?f = "complete_account (env_end env) (a_initial_sync_completed_at a = None)"
  define w1 where "w1 = upd_account (a_id a) ?f (upd_job i (\<lambda>j. j\<lparr>j_status := completed\<rparr>) w)"
  define w2 where "w2 = (if a_initial_sync_completed_at a = None then
      notify_account_event (a_id a) ''initial_sync_completed'' (a_name a @ '': first backup complete'')
        (show_int (case a_initial_sync_total_messages (current a w1) of None \<Rightarrow> 0 | Some n \<Rightarrow> n) @ '' messages backed up'')
        (Some [(''messages'', opt_json J_int (a_initial_sync_total_messages (current a w1))),
               (''folders'', opt_json J_int (a_initial_sync_total_folders (current a w1))),
               (''duration_seconds'', opt_json J_duration d)]) w1 else w1)"
  obtain f where f: "accounts (collect_account_stats env (current a w2) w2)
        = set_row a_id (a_id (current a w2)) f (accounts w2)"
      and fx: "\<forall>x. a_id (f x) = a_id x \<and> a_sync_state (f x) = a_sync_state x \<and> a_last_error (f x) = a_last_error x
          \<and> a_sync_paused_until (f x) = a_sync_paused_until x \<and> a_pause_reason (f x) = a_pause_reason x
          \<and> a_last_sync_at (f x) = a_last_sync_at x
          \<and> a_initial_sync_completed_at (f x) = a_initial_sync_completed_at x
          \<and> a_last_notified_state (f x) = a_last_notified_state x"
    using collect_stats_accounts by blast
  have fin: "accounts (finish_completed env i a d w) = accounts (collect_account_stats env (current a w2) w2)"
    by (simp add: finish_completed_def Let_def w2_def w1_def)
  have "accounts w2 = set_row a_id (a_id a) ?f (accounts w)"
    by (simp add: w2_def w1_def)
  moreover have "a_id (?f x) = a_id x" for x
    by (simp add: complete_account_def clear_notified_state_def unpause_def)
  ultimately have "get_account (finish_completed env i a d w) (a_id a) = Some (f (?f a0))"
    using assms fx by (simp add: fin f current_id row_set_row)
  then show ?thesis
    using fx by (simp add: verdict_def complete_account_def clear_notified_state_def unpause_def)
qed

section \<open>The outcome table\<close>

text \<open>
  The verdict on a run that nobody else closed, as a table: completed, budget pause, runtime
  cap, user stop, throttle, network blip, error, in this order of precedence.
\<close>

datatype outcome = Completed | Budget | Deadline int | Stopped | Throttled | Transient | Errored

definition outcome_of :: "int option \<Rightarrow> bool \<Rightarrow> str option \<Rightarrow> int option \<Rightarrow> str option \<Rightarrow> outcome" where
  "outcome_of rc budget_stopped job_signal cap kind =
     (if budget_stopped then Budget
      else if rc = Some 0 then Completed
      else if truthy job_signal then (case cap of Some c \<Rightarrow> Deadline c | None \<Rightarrow> Stopped)
      else if kind = Some ''throttled'' then Throttled
      else if kind = Some ''transient'' then Transient
      else Errored)"

definition outcome_kind :: "outcome \<Rightarrow> str option" where
  "outcome_kind oc = (case oc of Completed \<Rightarrow> None | Budget \<Rightarrow> Some ''budget_paused'' | Deadline _ \<Rightarrow> Some ''error''
     | Stopped \<Rightarrow> None | Throttled \<Rightarrow> Some ''throttled'' | Transient \<Rightarrow> Some ''transient'' | Errored \<Rightarrow> Some ''error'')"

definition self_recovering :: "outcome \<Rightarrow> bool" where
  "self_recovering oc = (oc = Budget \<or> oc = Throttled \<or> oc = Transient)"

text \<open>The range of the random jitter of the resume times.\<close>

definition jitter_max :: "outcome \<Rightarrow> timedelta" where
  "jitter_max oc = (if oc = Transient then seconds 30 else if oc = Throttled then minutes 10 else minutes 30)"

text \<open>What the table says about the account and about the job row, if retention left it.\<close>

definition account_verdict :: "outcome \<Rightarrow> datetime \<Rightarrow> Account \<Rightarrow> bool" where
  "account_verdict oc now a =
     (if oc = Completed then verdict a = (SS_idle, None, None, None) \<and> a_last_sync_at a = Some now
      else if self_recovering oc then
        a_sync_state a = SS_idle \<and> a_last_error a = None
        \<and> a_pause_reason a = Some (if oc = Budget then ''budget'' else if oc = Throttled then ''throttle'' else ''transient'')
        \<and> (\<exists>t. a_sync_paused_until a = Some t \<and> now < t
             \<and> t \<le> now + (if oc = Transient then minutes 30 else days 1) + jitter_max oc)
      else a_sync_state a = SS_error \<and> a_last_error a \<noteq> None \<and> a_sync_paused_until a = None
        \<and> a_pause_reason a = None)"

lemma verdict_iff:
  "verdict a = (st, err, until, reason) \<longleftrightarrow>
     a_sync_state a = st \<and> a_last_error a = err \<and> a_sync_paused_until a = until \<and> a_pause_reason a = reason"
  by (auto simp: verdict_def)

lemma finish_failed_outcome:
  assumes acc: "get_account w (a_id a) = Some a0"
    and fin: "finish_failed env i a out w = (e, w')"
    and oc: "oc = outcome_of (Some 1) False None None (classify_failure (last_chars 4096 out) (a_provider a))"
    and jitter: "0 \<le> env_jitter env" "env_jitter env \<le> jitter_max oc"
  shows "e = None \<and> (\<exists>a'. get_account w' (a_id a) = Some a' \<and> account_verdict oc (env_end env) a'
      \<and> a_initial_sync_completed_at a' = a_initial_sync_completed_at a0)
    \<and> (\<exists>f. sync_jobs w' = set_row j_id i f (sync_jobs w)
        \<and> (\<forall>j. j_status (f j) = failed \<and> j_failure_kind (f j) = outcome_kind oc \<and> j_id (f j) = j_id j))"
proof (cases rule: finish_failed_cases [of out a env w i])
  case (throttled t)
  then have o: "oc = Throttled" by (simp add: oc outcome_of_def)
  have "env_end env < t" "t \<le> env_end env + days 1 + jitter_max Throttled"
    using throttled(2) jitter by (auto simp: throttle_delay o time_defs split: if_splits)
  then show ?thesis
    using throttled fin verdict_paused [OF acc, of "''throttled''" t i]
    by (auto simp: o account_verdict_def self_recovering_def verdict_iff pause_reason_of_def sync_jobs_finish
        outcome_kind_def pause_job_def intro!: exI [of _ "pause_job ''throttled''"])
next
  case (transient t)
  then have o: "oc = Transient" by (simp add: oc outcome_of_def)
  have "env_jitter env \<le> seconds 30"
    using jitter by (simp add: o jitter_max_def)
  then obtain t' where "next_transient_resume (env_end env) (attempt_today (env_end env) (a_id a) ''transient'' w) (env_jitter env) = Some t'"
      "env_end env + minutes 2 \<le> t'" "t' \<le> env_end env + minutes 30 + seconds 30"
    using transient.resume_window [OF jitter(1)] by blast
  then have "env_end env < t" "t \<le> env_end env + minutes 30 + jitter_max Transient"
    using transient(2) by (auto simp: jitter_max_def time_defs)
  then show ?thesis
    using transient fin verdict_paused [OF acc, of "''transient''" t i]
    by (auto simp: o account_verdict_def self_recovering_def verdict_iff pause_reason_of_def sync_jobs_finish
        outcome_kind_def pause_job_def intro!: exI [of _ "pause_job ''transient''"])
next
  case err
  then have o: "oc = Errored" by (simp add: oc outcome_of_def)
  show ?thesis
    using err fin verdict_error [OF acc, of i out]
    by (auto simp: o account_verdict_def self_recovering_def verdict_iff sync_jobs_finish outcome_kind_def)
qed

lemma by_row:
  assumes "sync_jobs v = set_row j_id i f t" and "\<And>j. j_status (f j) = st \<and> (k \<noteq> None \<longrightarrow> j_failure_kind (f j) = k)"
  shows "\<forall>j \<in> set (sync_jobs v). j_id j = i \<longrightarrow> j_status j = st \<and> (k \<noteq> None \<longrightarrow> j_failure_kind j = k)"
  unfolding assms(1) using assms(2) by (auto dest!: set_row_memD)

lemma finalise_judged:
  assumes "get_sync_job w i = Some job" and "j_status job = running" and acc: "get_account w (a_id a) = Some a0"
    and fin: "finalise env i a rc out w = (e, w')"
    and oc: "oc = outcome_of rc (i \<in> budget_stops (sync_rt w)) (killed_signals (sync_rt w) i)
        (deadline_stops (sync_rt w) i) (classify_failure (last_chars 4096 out) (a_provider a))"
    and jitter: "0 \<le> env_jitter env" "env_jitter env \<le> jitter_max oc"
  shows "e = None
    \<and> (\<exists>a'. get_account w' (a_id a) = Some a' \<and> account_verdict oc (env_end env) a'
        \<and> (a_initial_sync_completed_at a' \<noteq> a_initial_sync_completed_at a0 \<longrightarrow> oc = Completed))
    \<and> (\<forall>j \<in> set (sync_jobs w'). j_id j = i \<longrightarrow>
        j_status j = (if oc = Completed then completed else failed)
        \<and> (outcome_kind oc \<noteq> None \<longrightarrow> j_failure_kind j = outcome_kind oc))"
proof -
  define w2 where "w2 = upd_job i (record_result env rc out (killed_signals (sync_rt w) i))
      (upd_rt (\<lambda>rt. rt\<lparr>killed_signals := (killed_signals rt)(i := None), deadline_stops := (deadline_stops rt)(i := None)\<rparr>)
        (upd_rt (\<lambda>rt. rt\<lparr>budget_stops := budget_stops rt - {i}\<rparr>) w))"
  have acc2: "get_account w2 (a_id a) = Some a0"
    using acc by (simp add: w2_def)
  have step: "finalise env i a rc out w =
     (if rc = Some 0 \<and> i \<notin> budget_stops (sync_rt w) then
        (None, finish_completed env i a (map_option (\<lambda>s. env_end env - s) (j_started_at job)) w2)
      else if i \<in> budget_stops (sync_rt w) then
        (None, finish_paused ''budget_paused'' (next_budget_resume (env_end env) (env_jitter env)) i a w2)
      else if truthy (killed_signals (sync_rt w) i) \<and> deadline_stops (sync_rt w) i \<noteq> None then
        (None, finish_deadline (the (deadline_stops (sync_rt w) i)) i a w2)
      else if truthy (killed_signals (sync_rt w) i) then (None, finish_stopped i a out w2)
      else finish_failed env i a out w2)"
    using assms(1,2) by (simp add: finalise_def Let_def w2_def)
  consider (budget) "i \<in> budget_stops (sync_rt w)" | (ok) "i \<notin> budget_stops (sync_rt w)" "rc = Some 0"
    | (cap) c where "i \<notin> budget_stops (sync_rt w)" "rc \<noteq> Some 0" "truthy (killed_signals (sync_rt w) i)"
        "deadline_stops (sync_rt w) i = Some c"
    | (stop) "i \<notin> budget_stops (sync_rt w)" "rc \<noteq> Some 0" "truthy (killed_signals (sync_rt w) i)"
        "deadline_stops (sync_rt w) i = None"
    | (fail) "i \<notin> budget_stops (sync_rt w)" "rc \<noteq> Some 0" "\<not> truthy (killed_signals (sync_rt w) i)"
    by fastforce
  then show ?thesis
  proof cases
    case budget
    then have o: "oc = Budget" by (simp add: oc outcome_of_def)
    have "0 \<le> env_jitter env \<and> env_jitter env \<le> seconds 1800"
      using jitter by (simp add: o jitter_max_def time_defs)
    then have "env_end env < next_budget_resume (env_end env) (env_jitter env)
        \<and> next_budget_resume (env_end env) (env_jitter env) \<le> env_end env + days 1 + seconds 1800"
      using utc_midnight_gt [of "env_end env"] utc_midnight_le [of "env_end env"]
      by (simp add: next_budget_resume_def utc_midnight_def algebra_simps)
    then show ?thesis
      using fin step budget verdict_paused [OF acc2, of "''budget_paused''" "next_budget_resume (env_end env) (env_jitter env)" i]
        by_row [where st = failed and k = "Some ''budget_paused''", OF sync_jobs_finish(1) [of "''budget_paused''"]]
      by (auto simp: o account_verdict_def self_recovering_def verdict_iff pause_reason_of_def outcome_kind_def
          pause_job_def jitter_max_def time_defs)
  next
    case ok
    then have o: "oc = Completed" by (simp add: oc outcome_of_def)
    have w': "w' = finish_completed env i a (map_option (\<lambda>s. env_end env - s) (j_started_at job)) w2" "e = None"
      using fin step ok by simp_all
    have "set (sync_jobs w') \<subseteq> set (sync_jobs (upd_job i (\<lambda>j. j\<lparr>j_status := completed\<rparr>) w2))"
      unfolding w' finish_completed_def Let_def by (rule subset_trans [OF cleanup_subset]) simp
    moreover have "\<forall>j \<in> set (sync_jobs (upd_job i (\<lambda>j. j\<lparr>j_status := completed\<rparr>) w2)). j_id j = i \<longrightarrow> j_status j = completed"
      using by_row [where st = completed and k = None, OF upd_job_simps(8) [of i "\<lambda>j. j\<lparr>j_status := completed\<rparr>" w2]]
      by simp
    ultimately have "\<forall>j \<in> set (sync_jobs w'). j_id j = i \<longrightarrow> j_status j = completed"
      by blast
    then show ?thesis
      using verdict_completed [OF acc2, of env i "map_option (\<lambda>s. env_end env - s) (j_started_at job)"]
      by (auto simp: w' o account_verdict_def outcome_kind_def)
  next
    case cap
    then have o: "oc = Deadline c" by (simp add: oc outcome_of_def)
    show ?thesis
      using fin step cap verdict_deadline [OF acc2, of c i]
        by_row [where st = failed and k = "Some ''error''", OF sync_jobs_finish(2) [of c]]
      by (auto simp: o account_verdict_def self_recovering_def verdict_iff outcome_kind_def)
  next
    case stop
    then have o: "oc = Stopped" by (simp add: oc outcome_of_def)
    show ?thesis
      using fin step stop verdict_stopped [OF acc2, of i out] by_row [where st = failed and k = None, OF sync_jobs_finish(3)]
      by (auto simp: o account_verdict_def self_recovering_def verdict_iff outcome_kind_def)
  next
    case fail
    then have o: "oc = outcome_of (Some 1) False None None (classify_failure (last_chars 4096 out) (a_provider a))"
      by (simp add: oc outcome_of_def)
    have ff: "finish_failed env i a out w2 = (e, w')"
      using fin step fail by simp
    have nc: "oc \<noteq> Completed" by (simp add: o outcome_of_def)
    from finish_failed_outcome [OF acc2 ff o jitter] obtain f a'
      where e: "e = None" and a': "get_account w' (a_id a) = Some a'" "account_verdict oc (env_end env) a'"
        "a_initial_sync_completed_at a' = a_initial_sync_completed_at a0"
      and f: "sync_jobs w' = set_row j_id i f (sync_jobs w2)"
        "\<And>j. j_status (f j) = failed \<and> j_failure_kind (f j) = outcome_kind oc"
      by blast
    have "\<forall>j \<in> set (sync_jobs w'). j_id j = i \<longrightarrow> j_status j = failed
        \<and> (outcome_kind oc \<noteq> None \<longrightarrow> j_failure_kind j = outcome_kind oc)"
      by (rule by_row [OF f(1)]) (simp add: f(2))
    with e a' nc show ?thesis by simp
  qed
qed


definition finished_world :: world where
  "finished_world = demo_world\<lparr>sync_jobs := [(new_sync_job ''j1'' ''a1'' ''api'' 5)\<lparr>j_status := running\<rparr>],
     sync_rt := empty_sync_runtime\<lparr>budget_stops := {''j1''}\<rparr>\<rparr>"


section \<open>Markers and the verdict of others\<close>

lemma sync_rt_finish [simp]:
  "sync_rt (finish_paused kind t i a w) = sync_rt w"
  "sync_rt (finish_deadline cap i a w) = sync_rt w"
  "sync_rt (finish_stopped i a out w) = sync_rt w"
  "sync_rt (finish_error i a out w) = sync_rt w"
  "sync_rt (handle_fault env i a e w) = sync_rt w"
  "sync_rt (finish_completed env i a d w) = sync_rt w"
  by (simp_all add: finish_paused_def finish_deadline_def finish_stopped_def finish_error_def handle_fault_def
      finish_completed_def Let_def)

lemma sync_rt_finish_failed [simp]: "sync_rt (snd (finish_failed env i a out w)) = sync_rt w"
  by (cases rule: finish_failed_cases [of out a env w i]) simp_all

lemma finalise_handles:
  "running_procs (sync_rt (snd (finalise env i a rc out w))) = running_procs (sync_rt w)
   \<and> running_logs (sync_rt (snd (finalise env i a rc out w))) = running_logs (sync_rt w)"
  by (simp add: finalise_def Let_def split: option.split)

lemma end_run_handles:
  "running_procs (sync_rt (end_run env i w)) i = None" "running_logs (sync_rt (end_run env i w)) i = None"
  by (simp_all add: end_run_def)

text \<open>
  No marker leaks into a later job: when the worker is done with a run, its budget and
  deadline markers are gone on every path, and once the run had started so are the process
  handle and the live log, whatever happened in between.
\<close>

lemma run_consumes_markers:
  "i \<notin> budget_stops (sync_rt (run_and_close env i a config cmds w))
   \<and> deadline_stops (sync_rt (run_and_close env i a config cmds w)) i = None
   \<and> (env_setup env = None \<longrightarrow>
        running_procs (sync_rt (run_and_close env i a config cmds w)) i = None
      \<and> running_logs (sync_rt (run_and_close env i a config cmds w)) i = None)"
proof -
  obtain e v where g: "guarded_run env i a config cmds w = (e, v)"
    by (cases "guarded_run env i a config cmds w")
  have rt: "run_and_close env i a config cmds w = drop_markers i (case e of None \<Rightarrow> v | Some e \<Rightarrow> handle_fault env i a e v)"
    by (simp add: run_and_close_def g)
  have same: "sync_rt (case e of None \<Rightarrow> v | Some e \<Rightarrow> handle_fault env i a e v) = sync_rt v"
    by (simp split: option.split)
  have "running_procs (sync_rt v) i = None \<and> running_logs (sync_rt v) i = None" if "env_setup env = None"
  proof -
    obtain res u where u: "run_job env i a config cmds (start_run i (a_id a) w) = (res, u)"
      by (cases "run_job env i a config cmds (start_run i (a_id a) w)")
    have v: "v = end_run env i u \<or> (\<exists>rc out. v = snd (finalise env i a rc out (end_run env i u)))"
      using g that u by (auto simp: guarded_run_def Let_def split: sum.splits prod.splits) (metis snd_conv)
    then show ?thesis
      using end_run_handles [of env i u] finalise_handles [of env i a _ _ "end_run env i u"] by auto
  qed
  then show ?thesis
    by (simp add: rt drop_markers_def same)
qed


definition reaped_env :: SyncEnv where
  "reaped_env = demo_env\<lparr>env_open_log := None,
     env_final_others := (\<lambda>w. snd (recover_stalled_sync_jobs (hours 9) (minutes 10) (minutes 5) w))\<rparr>"

definition overdue_world :: world where
  "overdue_world = demo_world\<lparr>sync_jobs :=
     [(new_sync_job ''j1'' ''a1'' ''api'' 5)\<lparr>j_status := running, j_started_at := Some 10\<rparr>]\<rparr>"


section \<open>Exit 0 means a full pass\<close>

text \<open>No other thread forges a clean exit: they only ever stop the process.\<close>

definition no_clean_exit :: "str \<Rightarrow> world \<Rightarrow> bool" where
  "no_clean_exit i w = (\<forall>p. running_procs (sync_rt w) i = Some p \<longrightarrow> p_returncode p \<noteq> Some 0)"

lemma no_clean_exit_stop: "no_clean_exit i w \<Longrightarrow> no_clean_exit i (snd (stop_sync_job i w))"
  by (auto simp: no_clean_exit_def stop_sync_job_def terminate_def kill_def Let_def split: option.split)

lemma no_clean_exit_simps [simp]:
  "no_clean_exit i (upd_rt (\<lambda>rt. rt\<lparr>deadline_stops := g rt\<rparr>) w) = no_clean_exit i w"
  "no_clean_exit i (log_append i l w) = no_clean_exit i w"
  "no_clean_exit i (register_proc i b w)"
  by (simp_all add: no_clean_exit_def log_append_def register_proc_def)

lemma no_clean_exit_read:
  "\<forall>r \<in> set rs. \<forall>w. no_clean_exit i w \<longrightarrow> no_clean_exit i (re_others r w) \<Longrightarrow> no_clean_exit i w \<Longrightarrow>
   no_clean_exit i (read_until_deadline i cap rs w)"
  by (induction rs arbitrary: w) (auto simp: no_clean_exit_stop Let_def split: option.split)

lemma run_process_clean:
  assumes "inv_preserves (no_clean_exit i) iv" and "fst (run_process i cap iv w) = Some 0"
  shows "inv_exit iv = Some 0"
proof -
  let ?w1 = "register_proc i (inv_exits_on_term iv) w"
  let ?w2 = "if i \<in> budget_stops (sync_rt ?w1) \<or> i \<in> dom (killed_signals (sync_rt ?w1))
      then snd (stop_sync_job i ?w1) else ?w1"
  let ?w3 = "read_until_deadline i cap (inv_reads iv) ?w2"
  have "no_clean_exit i ?w2"
    by (simp add: no_clean_exit_stop)
  then have "no_clean_exit i ?w3"
    using assms(1) by (intro no_clean_exit_read) (auto simp: inv_preserves_def)
  with assms(2) show ?thesis
    by (auto simp: run_process_def reap_def Let_def no_clean_exit_def split: option.splits)
qed

lemma run_invocations_clean:
  "\<forall>iv \<in> set ivs. inv_preserves (no_clean_exit i) iv \<Longrightarrow>
   run_invocations i cap n idx ivs rc w = (Inr (Some 0), w') \<Longrightarrow> i \<notin> budget_stops (sync_rt w') \<Longrightarrow>
   \<forall>iv \<in> set ivs. inv_spawn_error iv = None \<and> inv_exit iv = Some 0"
proof (induction ivs arbitrary: idx rc w)
  case (Cons iv ivs)
  define w0 where "w0 = inv_others iv (if 0 < idx then log_append i (pass_marker idx n) w else w)"
  have step: "\<not> (0 < idx \<and> i \<in> budget_stops (sync_rt w))" "inv_spawn_error iv = None"
    "fst (run_process i cap iv w0) = Some 0"
    "run_invocations i cap n (idx + 1) ivs (Some 0) (snd (run_process i cap iv w0)) = (Inr (Some 0), w')"
    using Cons.prems(2,3) unfolding run_invocations.simps Let_def w0_def [symmetric]
    by (auto split: if_splits option.splits prod.splits)
  then show ?case
    using Cons.IH [OF _ step(4) Cons.prems(3)] Cons.prems(1) run_process_clean [of i iv cap w0] by auto
qed simp

text \<open>
  A run only counts as clean after a full pass: exit status 0 without a budget marker means
  that every invocation, the INBOX pass and the full pass, was started and exited 0 by itself,
  in the first attempt or all of them in the retry. Since only such a run is finalised as
  completed, the initial sync is never declared complete after the INBOX pass alone.
\<close>

lemma clean_exit_is_full_pass:
  assumes "env_preserves (no_clean_exit i) env" and "cmds \<noteq> []"
    and "run_job env i a config cmds w = (Inr (Some 0, out), w')" and "i \<notin> budget_stops (sync_rt w')"
  shows "(\<forall>c \<in> set cmds. inv_spawn_error (env_first env config c) = None \<and> inv_exit (env_first env config c) = Some 0)
    \<or> (\<forall>c \<in> set cmds. inv_spawn_error (env_retry env config c) = None \<and> inv_exit (env_retry env config c) = Some 0)"
proof -
  let ?first = "run_invocations i (env_max_runtime_s env) (length cmds) 0 (map (env_first env config) cmds) (Some 1) w"
  have pres: "\<forall>iv \<in> set (map (env_first env config) cmds). inv_preserves (no_clean_exit i) iv"
    "\<forall>iv \<in> set (map (env_retry env config) cmds). inv_preserves (no_clean_exit i) iv"
    using assms(1) by (auto simp: env_preserves_def)
  obtain res w1 where w1: "?first = (res, w1)" by (cases ?first)
  have none: "env_open_log env = None"
    using assms(3) by (auto simp: run_job_def split: option.splits)
  obtain rc where rc: "res = Inr rc"
    using assms(3) none w1 by (cases res) (auto simp: run_job_def)
  show ?thesis
  proof (cases "rc = Some 0")
    case True
    then have "w' = w1"
      using assms(3) none w1 rc by (simp add: run_job_def Let_def)
    then show ?thesis
      using run_invocations_clean [OF pres(1)] w1 rc True assms(4) by fastforce
  next
    case False
    obtain q w2 where w2: "reconcile_removed_folders env i a w1 = (q, w2)"
      by (cases "reconcile_removed_folders env i a w1")
    define again where "again = run_invocations i (env_max_runtime_s env) (length cmds) 0
        (map (env_retry env config) cmds) (Some 1) (log_append i retry_marker (env_reconcile_others env w2))"
    obtain res2 w4 where w4: "again = (res2, w4)" by (cases again)
    have "res2 = Inr (Some 0)" "w4 = w'"
      using assms(3) none w1 rc w2 w4 False
      by (auto simp: run_job_def Let_def again_def [symmetric] split: if_splits sum.splits)
    then show ?thesis
      using run_invocations_clean [OF pres(2)] w4 assms(4) unfolding again_def by fastforce
  qed
qed

end
