(* ===== verification/Status_Contract.thy ===== *)
theory Status_Contract
  imports Mailbox_Status Sync_Outcome
begin

text \<open>
  What the user sees after a run: the worker's finalisation (\<open>Sync_Outcome\<close>) composed with the
  status resolver (\<open>Mailbox_Status\<close>), and the worker's own error messages with the classifier
  of error texts (\<open>Sync_Progress\<close>), which match on each other's exact wording.
\<close>

section \<open>Red means a real failure\<close>

lemma finalise_stopped:
  assumes "get_sync_job w i = Some job" and "j_status job = running" and "get_account w (a_id a) = Some a0"
    and "finalise env i a rc out w = (e, w')" and "i \<notin> budget_stops (sync_rt w)" and "rc \<noteq> Some 0"
    and "truthy (killed_signals (sync_rt w) i)" and "deadline_stops (sync_rt w) i = None"
    and "get_account w' (a_id a) = Some a'" and "get_sync_job w' i = Some j'" and "j_failure_kind job = None"
  shows "stopped_job a' (Some j')"
proof -
  have w': "sync_jobs w' = set_row j_id i (\<lambda>j. j\<lparr>j_status := failed\<rparr>)
      (set_row j_id i (record_result env rc out (killed_signals (sync_rt w) i)) (sync_jobs w))"
    and acc: "accounts w' = set_row a_id (a_id a) (\<lambda>a. unpause (error_account (Some out) a)) (accounts w)"
    using assms(1,2,4-8) by (auto simp: finalise_def Let_def finish_stopped_def)
  have keys: "j_id (record_result env rc out s j) = j_id j" "a_id (unpause (error_account m b)) = a_id b" for s j m b
    by (simp_all add: record_result_def unpause_def error_account_def split: prod.split)
  have "j' = (record_result env rc out (killed_signals (sync_rt w) i) job)\<lparr>j_status := failed\<rparr>"
    using assms(1,10) unfolding w' by (simp add: row_set_row keys)
  moreover have "a' = unpause (error_account (Some out) a0)"
    using assms(3,9) unfolding acc by (simp add: row_set_row keys)
  ultimately show ?thesis
    using assms(7,11) by (simp add: stopped_job_def record_result_def unpause_def error_account_def split: prod.split)
qed

lemma resolve_red:
  assumes "\<not> a_migrating a" and "\<not> a_suspended a" and "signed_in a"
  shows "ms_tone (resolve_mailbox_status nf a job live False now) = Tone_error
    \<longleftrightarrow> a_sync_state a = SS_error \<and> \<not> stopped_job a job \<and> \<not> truthy (a_pause_reason a)"
  unfolding resolver_tone resolve_state status_state_def Let_def
  using assms by (cases "a_sync_state a") simp_all



section \<open>The worker's own messages\<close>

lemma visible_show_nat: "list_all visible (show_nat n)"
proof (induction n rule: show_nat.induct)
  case (1 n)
  have "visible (digit_char d)" if "d < 10" for d
    using that by (auto simp: visible_def is_space_def digit_char_def of_char_of Let_def take_bit_nat_def char_of_eq_iff)
  then show ?case
    using 1 by (subst show_nat.simps) auto
qed

lemma runs_first: "list_all P p \<Longrightarrow> \<not> P c \<Longrightarrow> c # s \<in> set (runs P (p @ c # s))"
  by (induction p) auto

lemma cap_text_matches:
  assumes "ds \<noteq> []" and "list_all visible ds"
  shows "re_search (seq [LitI ''exceeded the '', Regex.plus visible, LitI '' runtime cap'']) (''Sync '' @ ''exceeded the '' @ ds @ ''s runtime cap'') \<noteq> None"
proof (rule re_search_append)
  obtain d ds' where ds: "ds = d # ds'" "visible d" "list_all visible ds'"
    using assms by (cases ds) auto
  have "''s'' @ '' runtime cap'' = CHR ''s'' # CHR '' '' # ''runtime cap''" by simp
  have "list_all visible (ds' @ ''s'')"
    using ds(3) by (simp add: visible_def is_space_def Let_def)
  moreover have "\<not> visible (CHR '' '')" by (simp add: visible_def is_space_def)
  ultimately have "CHR '' '' # ''runtime cap'' \<in> set (runs visible ((ds' @ ''s'') @ CHR '' '' # ''runtime cap''))"
    by (rule runs_first)
  then have run: "'' runtime cap'' \<in> set (runs visible (ds' @ ''s runtime cap''))" by simp
  let ?rest = "seq [LitI '' runtime cap'']"
  have "matches ?rest ([], '' runtime cap'') \<noteq> []"
    using matches_LitI_append [of "'' runtime cap''" "[]" "[]"] by (simp del: matches.simps(3) matches_LitI_append)
  with run have "concat (map (matches ?rest) (map (Pair []) (runs visible (ds' @ ''s runtime cap'')))) \<noteq> []"
    by force
  moreover have "matches (seq [LitI ''exceeded the '', Regex.plus visible, LitI '' runtime cap'']) ([], ''exceeded the '' @ ds @ ''s runtime cap'')
      = concat (map (matches ?rest) (matches (Regex.plus visible) ([], ds @ ''s runtime cap'')))"
    by (simp only: seq.simps matches.simps(7) matches_LitI_append list.map concat.simps append_Nil2)
  moreover have "matches (Regex.plus visible) ([], ds @ ''s runtime cap'') = map (Pair []) (runs visible (ds' @ ''s runtime cap''))"
    using ds(2) by (simp add: ds(1) matches_plus)
  ultimately show "matches (seq [LitI ''exceeded the '', Regex.plus visible, LitI '' runtime cap'']) ([], ''exceeded the '' @ ds @ ''s runtime cap'') \<noteq> []"
    by simp
qed

lemma category_first:
  "re_search p text \<noteq> None \<Longrightarrow> fst (first_category ((p, c, m, a) # cs) text) = c"
  by simp

lemma category_next:
  "re_search p text = None \<Longrightarrow> first_category ((p, c, m, a) # cs) text = first_category cs text"
  by simp

lemma no_cap_text:
  "\<not> sublist (lower ''exceeded the '') (lower s) \<Longrightarrow>
   re_search (seq [LitI ''exceeded the '', Regex.plus visible, LitI '' runtime cap'']) s = None"
  using search_seq_LitI by blast

lemma no_text: "\<not> sublist (lower l) (lower s) \<Longrightarrow> re_search (LitI l) s = None"
  using search_LitI by blast

lemma timeout_category: "fst (classify_error ''Sync timed out after 3600 seconds'') = ''timeout''"
proof -
  have "\<not> sublist (lower ''exceeded the '') (lower ''Sync timed out after 3600 seconds'')" by code_simp
  moreover have "sublist (lower ''Sync timed out after'') (lower ''Sync timed out after 3600 seconds'')" by code_simp
  ultimately show ?thesis
    unfolding classify_error_def ERROR_CATEGORIES_def
    by (simp only: category_next [OF no_cap_text] category_first search_LitI not_False_eq_True simp_thms)
qed

lemma token_category: "fst (classify_error TOKEN_REFRESH_FAILED) = ''token_refresh''"
proof -
  let ?t = TOKEN_REFRESH_FAILED
  have "\<not> sublist (lower ''exceeded the '') (lower ?t)" "\<not> sublist (lower ''Sync timed out after'') (lower ?t)"
    "\<not> sublist (lower ''private/internal addresses are not allowed'') (lower ?t)"
    "\<not> sublist (lower ''Host could not be resolved'') (lower ?t)"
    by code_simp+
  moreover have "re_search (Lit ?t) ?t \<noteq> None" using search_Lit [of ?t ?t] by blast
  ultimately show ?thesis
    unfolding classify_error_def ERROR_CATEGORIES_def
    by (simp only: category_next [OF no_cap_text] category_next [OF no_text] category_first not_False_eq_True simp_thms)
qed

text \<open>
  The worker's own messages never collapse into "The last sync failed.": a run killed by
  the cap of \<open>n\<close> seconds, a timeout and a rejected token refresh are each classified as their own
  category, for every cap.
\<close>

lemma own_messages_classified:
  "error_category (Some (cap_message (int n))) = ''runtime_cap''
   \<and> error_category (Some (fault_message TimeoutExpired)) = ''timeout''
   \<and> error_category (Some TOKEN_REFRESH_FAILED) = ''token_refresh''"
proof -
  have "show_nat n \<noteq> []" by (subst show_nat.simps) simp
  from cap_text_matches [OF this visible_show_nat]
  have "re_search (seq [LitI ''exceeded the '', Regex.plus visible, LitI '' runtime cap'']) (cap_message (int n)) \<noteq> None"
    by (simp add: cap_message_def show_int_def)
  then have "fst (classify_error (cap_message (int n))) = ''runtime_cap''"
    unfolding classify_error_def ERROR_CATEGORIES_def by (rule category_first)
  moreover have "truthy (Some (cap_message (int n)))" "truthy (Some TOKEN_REFRESH_FAILED)"
    by (simp_all add: cap_message_def TOKEN_REFRESH_FAILED_def)
  ultimately show ?thesis
    using timeout_category token_category by (simp add: error_category_def fault_message_def)
qed

end
