(* ===== verification/Scheduler.thy ===== *)
theory Scheduler
  imports Sync_Runtime Notifications
begin

text \<open>
  \<open>services/scheduler.py\<close>: the reconciliation of the APScheduler job table with the accounts,
  backup policies and repositories, the periodic sync with its gates, the tick that lifts
  expired pauses, and the weekly stale notice. The scheduler's job table is an association
  list from job ids to the function and trigger; which cron texts APScheduler accepts is the
  argument \<open>cron_ok\<close> (building a trigger it refuses raises).
\<close>

section \<open>The job table\<close>

datatype trigger = Cron_fields "str list" | Crontab str | Fixed str

datatype action =
    Run_sync str | Run_backup str | Run_config_backup str
  | Mount_cleanup | Staging_cleanup | Pause_expiry | Sync_watchdog | Backup_watchdog | Stale_notify

type_synonym sched = "(str \<times> action \<times> trigger) list"

definition reschedule_job :: "str \<Rightarrow> trigger \<Rightarrow> sched \<Rightarrow> sched" where
  "reschedule_job i t s = map (\<lambda>(k, a, t0). if k = i then (k, a, t) else (k, a, t0)) s"

definition add_job :: "str \<Rightarrow> action \<Rightarrow> trigger \<Rightarrow> sched \<Rightarrow> sched" where
  "add_job i a t s = AList.update i (a, t) s"

definition put_job :: "str set \<Rightarrow> str \<Rightarrow> action \<Rightarrow> trigger \<Rightarrow> sched \<Rightarrow> sched" where
  "put_job existing i a t s = (if i \<in> existing then reschedule_job i t s else add_job i a t s)"

text \<open>\<open>str.split()\<close>: the maximal runs of non-blank characters.\<close>

fun words_from :: "str \<Rightarrow> str \<Rightarrow> str list" where
  "words_from cur [] = (if cur = [] then [] else [rev cur])"
| "words_from cur (c # cs) =
     (if is_space c then (if cur = [] then words_from [] cs else rev cur # words_from [] cs)
      else words_from (c # cur) cs)"

definition words :: "str \<Rightarrow> str list" where
  "words s = words_from [] s"

section \<open>Reconciliation\<close>

definition sync_job_id :: "Account \<Rightarrow> str" where
  "sync_job_id account = ''sync_'' @ a_id account"

text \<open>\<open>False\<close> is the exception of a malformed five-field cron, with the table as it then is.\<close>

fun schedule_accounts :: "(trigger \<Rightarrow> bool) \<Rightarrow> str set \<Rightarrow> Account list \<Rightarrow> sched \<Rightarrow> bool \<times> sched" where
  "schedule_accounts cron_ok existing [] s = (True, s)"
| "schedule_accounts cron_ok existing (account # accts) s =
     (if \<not> is_authenticated account then schedule_accounts cron_ok existing accts s
      else if \<not> truthy (a_sync_schedule account) then schedule_accounts cron_ok existing accts s
      else
        let parts = words (the (a_sync_schedule account)) in
        if length parts \<noteq> 5 then schedule_accounts cron_ok existing accts s
        else if \<not> cron_ok (Cron_fields parts) then (False, s)
        else schedule_accounts cron_ok existing accts
               (put_job existing (sync_job_id account) (Run_sync (a_id account)) (Cron_fields parts) s))"

definition sync_scheduler_jobs :: "(trigger \<Rightarrow> bool) \<Rightarrow> world \<Rightarrow> sched \<Rightarrow> bool \<times> sched" where
  "sync_scheduler_jobs cron_ok w s =
     (let existing = fst ` set s;
          accts = filter (\<lambda>a. \<not> a_suspended a) (accounts w);
          active_ids = sync_job_id ` set accts;
          (ok, s') = schedule_accounts cron_ok existing accts s
      in if \<not> ok then (False, s')
         else (True, filter (\<lambda>(k, v). \<not> (k \<in> existing - active_ids \<and> prefix ''sync_'' k)) s'))"

definition backup_job_id :: "str \<Rightarrow> str" where
  "backup_job_id policy_id = ''backup-'' @ policy_id"

definition backup_scheduler_jobs :: "(trigger \<Rightarrow> bool) \<Rightarrow> world \<Rightarrow> sched \<Rightarrow> sched" where
  "backup_scheduler_jobs cron_ok w s =
     (let existing = fst ` set s;
          active_backups = filter bp_enabled (backup_policies w);
          s' = fold (\<lambda>ab s. if \<not> cron_ok (Crontab (bp_schedule ab)) then s
                 else put_job existing (backup_job_id (bp_id ab)) (Run_backup (bp_id ab)) (Crontab (bp_schedule ab)) s)
                 active_backups s;
          active_ids = (\<lambda>ab. backup_job_id (bp_id ab)) ` set active_backups
      in filter (\<lambda>(k, v). \<not> (k \<in> existing \<and> prefix ''backup-'' k \<and> k \<notin> active_ids)) s')"

definition config_job_id :: "str \<Rightarrow> str" where
  "config_job_id repo_id = ''config-backup-'' @ repo_id"

text \<open>\<open>enabled\<close> are the ids of the repositories with \<open>config_backup_enabled\<close>.\<close>

definition config_backup_scheduler_jobs :: "str list \<Rightarrow> sched \<Rightarrow> sched" where
  "config_backup_scheduler_jobs enabled s =
     (let existing = fst ` set s;
          s' = fold (\<lambda>repo s. put_job existing (config_job_id repo) (Run_config_backup repo) (Fixed ''03:00'') s) enabled s
      in filter (\<lambda>(k, v). \<not> (k \<in> existing \<and> prefix ''config-backup-'' k \<and> k \<notin> config_job_id ` set enabled)) s')"

definition add_once :: "str \<Rightarrow> action \<Rightarrow> trigger \<Rightarrow> sched \<Rightarrow> sched" where
  "add_once i a t s = (if i \<in> fst ` set s then s else add_job i a t s)"

definition start_scheduler :: "(trigger \<Rightarrow> bool) \<Rightarrow> str list \<Rightarrow> world \<Rightarrow> sched \<Rightarrow> bool \<times> sched" where
  "start_scheduler cron_ok repos w s =
     (case sync_scheduler_jobs cron_ok w s of
        (False, s) \<Rightarrow> (False, s)
      | (True, s) \<Rightarrow>
          let s = backup_scheduler_jobs cron_ok w s;
              s = config_backup_scheduler_jobs repos s;
              s = add_once ''mount-cleanup'' Mount_cleanup (Fixed ''minute=0'') s;
              s = add_once ''staging-cleanup'' Staging_cleanup (Fixed ''minute=*/15'') s;
              s = add_once ''pause-expiry'' Pause_expiry (Fixed ''minute=*'') s;
              s = add_once ''sync-watchdog'' Sync_watchdog (Fixed ''watchdog'') s;
              s = add_once ''backup-watchdog'' Backup_watchdog (Fixed ''minute=*'') s;
              s = add_once ''stale-notify'' Stale_notify (Fixed ''minute=0'') s
          in (True, s))"

definition refresh_scheduler :: "(trigger \<Rightarrow> bool) \<Rightarrow> str list \<Rightarrow> world \<Rightarrow> sched \<Rightarrow> bool \<times> sched" where
  "refresh_scheduler cron_ok repos w s =
     (case sync_scheduler_jobs cron_ok w s of
        (False, s) \<Rightarrow> (False, s)
      | (True, s) \<Rightarrow> (True, config_backup_scheduler_jobs repos (backup_scheduler_jobs cron_ok w s)))"

section \<open>Periodic sync and pauses\<close>

definition enqueue :: "str \<Rightarrow> datetime \<Rightarrow> str \<Rightarrow> world \<Rightarrow> world" where
  "enqueue i now account_id w =
     (case create_sync_job i now account_id ''scheduler'' w of
        (None, w) \<Rightarrow> w
      | (Some job, w) \<Rightarrow> w\<lparr>sync_queue := sync_queue w @ [j_id job]\<rparr>)"

definition run_scheduled_sync :: "str \<Rightarrow> datetime \<Rightarrow> str \<Rightarrow> world \<Rightarrow> world" where
  "run_scheduled_sync i now account_id w =
     (case get_account w account_id of
        None \<Rightarrow> w
      | Some account \<Rightarrow>
          if a_suspended account then w
          else if \<not> is_authenticated account then w
          else if a_migrating account then w
          else if \<exists>u \<in> set (owners w account). u_migrating u then w
          else if a_sync_state account = SS_needs_reauth then w
          else if (case a_sync_paused_until account of None \<Rightarrow> False | Some t \<Rightarrow> now < t) then w
          else enqueue i now account_id w)"

definition lift_pause :: "Account \<Rightarrow> Account" where
  "lift_pause account = account\<lparr>a_sync_paused_until := None, a_pause_reason := None\<rparr>"

definition eligible :: "world \<Rightarrow> Account \<Rightarrow> bool" where
  "eligible w account =
     (\<not> a_suspended account \<and> is_authenticated account \<and> a_sync_state account \<noteq> SS_needs_reauth
      \<and> \<not> a_migrating account \<and> (\<forall>u \<in> set (owners w account). \<not> u_migrating u))"

definition expire_pause :: "(str \<Rightarrow> str) \<Rightarrow> datetime \<Rightarrow> Account \<Rightarrow> world \<Rightarrow> world" where
  "expire_pause new_id now account w =
     (case a_sync_paused_until account of
        None \<Rightarrow> w
      | Some t \<Rightarrow>
          if now < t then w
          else
            let w = upd_account (a_id account) lift_pause w in
            if a_initial_sync_completed_at account = None \<and> eligible w account
            then enqueue (new_id (a_id account)) now (a_id account) w else w)"

text \<open>\<open>new_id\<close> gives the fresh job id (\<open>uuid4\<close>) used for an account.\<close>

definition run_pause_expiry_tick :: "(str \<Rightarrow> str) \<Rightarrow> datetime \<Rightarrow> world \<Rightarrow> world" where
  "run_pause_expiry_tick new_id now w =
     fold (expire_pause new_id now) (filter (\<lambda>a. a_sync_paused_until a \<noteq> None) (accounts w)) w"

definition is_stale :: "datetime \<Rightarrow> Account \<Rightarrow> bool" where
  "is_stale now a =
     ((case a_last_sync_at a of None \<Rightarrow> False | Some t \<Rightarrow> t < now - days 7)
      \<and> a_enabled a \<and> \<not> a_suspended a \<and> a_sync_state a \<noteq> SS_needs_reauth \<and> a_pause_reason a = None)"

definition run_stale_notify :: "datetime \<Rightarrow> world \<Rightarrow> world" where
  "run_stale_notify now w =
     fold (\<lambda>a. notify_account_problem (a_id a) ''stale'' (a_name a @ '': no sync in 7+ days'')
             ''MailFallBack has not synced this account in over a week.'')
       (filter (is_stale now) (accounts w)) w"

section \<open>Lookups in the job table\<close>

lemma map_of_reschedule:
  "map_of (reschedule_job i t s) k =
     (if k = i then map_option (\<lambda>(a, _). (a, t)) (map_of s k) else map_of s k)"
  by (induction s) (auto simp: reschedule_job_def)

lemma map_of_put_job:
  "map_of (put_job ex i a t s) k =
     (if k = i then (if i \<in> ex then map_option (\<lambda>(a, _). (a, t)) (map_of s k) else Some (a, t)) else map_of s k)"
  by (simp add: put_job_def map_of_reschedule add_job_def update_conv)

lemma map_of_filter_key:
  "map_of (filter (\<lambda>(k, v). Q k) s) k = (if Q k then map_of s k else None)"
  by (induction s) auto

lemma map_of_None_key: "map_of s k \<noteq> None \<longleftrightarrow> k \<in> fst ` set s"
  by (metis map_of_eq_None_iff)

lemma schedule_accounts_frame:
  "schedule_accounts cron_ok ex accts s = (ok, s') \<Longrightarrow> k \<notin> sync_job_id ` set accts \<Longrightarrow> map_of s' k = map_of s k"
  by (induction accts arbitrary: s) (auto simp: Let_def map_of_put_job split: if_splits)

lemma schedule_accounts_keep:
  "schedule_accounts cron_ok ex accts s = (ok, s') \<Longrightarrow> map_of s k \<noteq> None \<Longrightarrow> map_of s' k \<noteq> None"
proof (induction accts arbitrary: s)
  case (Cons a accts)
  have "map_of (put_job ex i act t s) k \<noteq> None" for i act t
    using Cons.prems(2) by (auto simp: map_of_put_job)
  with Cons show ?case
    by (simp add: Let_def del: not_None_eq split: if_splits)
qed simp

text \<open>An account whose schedule the reconciliation accepts.\<close>

definition schedulable :: "Account \<Rightarrow> bool" where
  "schedulable a = (is_authenticated a \<and> truthy (a_sync_schedule a) \<and> length (words (the (a_sync_schedule a))) = 5)"

lemma schedule_accounts_sets:
  assumes "schedule_accounts cron_ok ex accts s = (True, s')" and "a \<in> set accts" and "schedulable a"
    and "distinct (map a_id accts)" and "\<forall>k \<in> ex. map_of s k \<noteq> None"
  shows "\<exists>act. map_of s' (sync_job_id a) = Some (act, Cron_fields (words (the (a_sync_schedule a))))"
  using assms
proof (induction accts arbitrary: s)
  case (Cons b accts)
  show ?case
  proof (cases "a = b")
    case True
    let ?t = "Cron_fields (words (the (a_sync_schedule a)))"
    let ?s = "put_job ex (sync_job_id a) (Run_sync (a_id a)) ?t s"
    have rest: "schedule_accounts cron_ok ex accts ?s = (True, s')"
      using Cons.prems(1,3) True by (auto simp: schedulable_def Let_def split: if_splits)
    have "sync_job_id a \<notin> sync_job_id ` set accts"
      using Cons.prems(4) True by (auto simp: sync_job_id_def)
    then have "map_of s' (sync_job_id a) = map_of ?s (sync_job_id a)"
      by (rule schedule_accounts_frame [OF rest])
    then show ?thesis
      using Cons.prems(5) by (auto simp: map_of_put_job)
  next
    case False
    then obtain s1 where "schedule_accounts cron_ok ex accts s1 = (True, s')" "\<forall>k \<in> ex. map_of s1 k \<noteq> None"
      using Cons.prems(1,5) by (auto simp: Let_def map_of_put_job split: if_splits)
    with False Cons.prems Cons.IH show ?thesis by auto
  qed
qed simp

text \<open>
  A successful reconciliation gives every unsuspended, authenticated account with a
  five-field schedule a job with exactly that trigger, removes the sync jobs of suspended and
  deleted accounts, and leaves every other job of the scheduler alone.
\<close>

lemma sync_reconciliation_sound:
  assumes "pk a_id (accounts w)" and "sync_scheduler_jobs cron_ok w s = (True, s')"
  shows "(\<forall>a \<in> set (accounts w). \<not> a_suspended a \<and> schedulable a \<longrightarrow>
        (\<exists>act. map_of s' (sync_job_id a) = Some (act, Cron_fields (words (the (a_sync_schedule a))))))
    \<and> (\<forall>k. prefix ''sync_'' k \<and> map_of s' k \<noteq> None \<longrightarrow>
        (\<exists>a \<in> set (accounts w). \<not> a_suspended a \<and> k = sync_job_id a))
    \<and> (\<forall>k. \<not> prefix ''sync_'' k \<longrightarrow> map_of s' k = map_of s k)"
proof -
  let ?ex = "fst ` set s" and ?accts = "filter (\<lambda>a. \<not> a_suspended a) (accounts w)"
  let ?act = "sync_job_id ` set ?accts"
  obtain s1 where s1: "schedule_accounts cron_ok ?ex ?accts s = (True, s1)"
    and s': "s' = filter (\<lambda>(k, v). \<not> (k \<in> ?ex - ?act \<and> prefix ''sync_'' k)) s1"
    using assms(2) by (auto simp: sync_scheduler_jobs_def Let_def split: prod.splits if_splits)
  have look: "map_of s' k = (if \<not> (k \<in> ?ex - ?act \<and> prefix ''sync_'' k) then map_of s1 k else None)" for k
    unfolding s' by (rule map_of_filter_key)
  have dist: "distinct (map a_id ?accts)"
    using pk_filter [OF assms(1)] by (simp add: pk_def)
  have ex: "\<forall>k \<in> ?ex. map_of s k \<noteq> None"
    by (simp only: map_of_None_key Ball_def) simp
  have "\<exists>act. map_of s' (sync_job_id a) = Some (act, Cron_fields (words (the (a_sync_schedule a))))"
    if "a \<in> set (accounts w)" "\<not> a_suspended a" "schedulable a" for a
    using schedule_accounts_sets [OF s1 _ that(3) dist ex] that(1,2) by (auto simp: look)
  moreover have "\<exists>a \<in> set (accounts w). \<not> a_suspended a \<and> k = sync_job_id a"
    if "prefix ''sync_'' k" "map_of s' k \<noteq> None" for k
  proof (rule ccontr)
    assume "\<not> ?thesis"
    then have out: "k \<notin> ?act" by auto
    then have "map_of s1 k = map_of s k"
      by (rule schedule_accounts_frame [OF s1])
    moreover have "k \<notin> ?ex"
      using that out unfolding look by (cases "k \<in> ?ex") simp_all
    then have "map_of s k = None"
      using map_of_None_key [of s k] by blast
    ultimately have "map_of s' k = None"
      unfolding look by simp
    with that(2) show False by contradiction
  qed
  moreover have "map_of s' k = map_of s k" if "\<not> prefix ''sync_'' k" for k
  proof -
    have "k \<notin> ?act"
      using that by (auto simp: sync_job_id_def)
    then show ?thesis
      using that schedule_accounts_frame [OF s1] by (simp add: look)
  qed
  ultimately show ?thesis by blast
qed

lemma prefix_sync_old: "prefix ''sync_'' ''sync_old''"
  by (simp add: prefix_def)

text \<open>
  What the reconciliation gets wrong about its own jobs: the backup pass takes every id
  that starts with "backup-" for a policy's job. The watchdog that \<open>start_scheduler\<close> registers as
  "backup-watchdog" is gone after the first refresh of the scheduler, which any edit of an
  account triggers, and stalled backups are no longer reaped.
\<close>

lemma refresh_drops_backup_watchdog:
  assumes "\<forall>p \<in> set (backup_policies w). bp_id p \<noteq> ''watchdog''"
    and "start_scheduler cron_ok repos w s = (True, s1)" and "refresh_scheduler cron_ok repos' w s1 = (True, s2)"
  shows "map_of s1 ''backup-watchdog'' \<noteq> None \<and> map_of s2 ''backup-watchdog'' = None"
proof
  have once: "k \<in> fst ` set (add_once i a t u) \<longleftrightarrow> k = i \<or> k \<in> fst ` set u" for i a t u k
  proof -
    have "map_of (add_once i a t u) k = None \<longleftrightarrow> \<not> (k = i \<or> map_of u k \<noteq> None)"
      using map_of_None_key [of u i] by (auto simp: add_once_def add_job_def update_conv simp del: not_None_eq)
    then show ?thesis
      unfolding map_of_None_key [symmetric] by simp
  qed
  show s1: "map_of s1 ''backup-watchdog'' \<noteq> None"
    unfolding map_of_None_key
    using assms(2) by (auto simp only: start_scheduler_def Let_def once prod.inject split: prod.splits bool.splits)
  obtain v where v: "sync_scheduler_jobs cron_ok w s1 = (True, v)"
    and s2: "s2 = config_backup_scheduler_jobs repos' (backup_scheduler_jobs cron_ok w v)"
    using assms(3) by (auto simp: refresh_scheduler_def split: prod.splits bool.splits)
  have "''backup-watchdog'' \<in> fst ` set v"
  proof -
    obtain u where u: "schedule_accounts cron_ok (fst ` set s1) (filter (\<lambda>a. \<not> a_suspended a) (accounts w)) s1 = (True, u)"
      and vu: "v = filter (\<lambda>(k, x). \<not> (k \<in> fst ` set s1 - sync_job_id ` set (filter (\<lambda>a. \<not> a_suspended a) (accounts w))
            \<and> prefix ''sync_'' k)) u"
      using v by (auto simp: sync_scheduler_jobs_def Let_def split: prod.splits if_splits)
    have "map_of u ''backup-watchdog'' \<noteq> None"
      by (rule schedule_accounts_keep [OF u s1])
    then have "map_of v ''backup-watchdog'' \<noteq> None"
      unfolding vu map_of_filter_key by simp
    then show ?thesis
      by (simp only: map_of_None_key)
  qed
  moreover have "''backup-watchdog'' \<notin> (\<lambda>ab. backup_job_id (bp_id ab)) ` set (filter bp_enabled (backup_policies w))"
    using assms(1) by (auto simp: backup_job_id_def)
  ultimately have gone: "map_of (backup_scheduler_jobs cron_ok w v) ''backup-watchdog'' = None"
    by (simp add: backup_scheduler_jobs_def Let_def map_of_filter_key)
  have "map_of (fold (\<lambda>repo s. put_job ex (config_job_id repo) (Run_config_backup repo) (Fixed ''03:00'') s) rs u)
      ''backup-watchdog'' = map_of u ''backup-watchdog''" for ex rs u
    by (induction rs arbitrary: u) (auto simp: map_of_put_job config_job_id_def)
  then show "map_of s2 ''backup-watchdog'' = None"
    by (simp add: s2 config_backup_scheduler_jobs_def Let_def map_of_filter_key gone)
qed

text \<open>
  Clearing an account's schedule does not stop its periodic sync: the reconciliation counts
  the account's job as active before it looks at the schedule, so the job stays in the table
  with its old trigger, and the periodic run itself does not look at the schedule either.
\<close>

lemma cleared_schedule_keeps_firing:
  assumes "pk a_id (accounts w)" and "a \<in> set (accounts w)" and "\<not> a_suspended a"
    and "\<not> truthy (a_sync_schedule a)"
    and "map_of s (sync_job_id a) = Some job" and "sync_scheduler_jobs cron_ok w s = (True, s')"
  shows "map_of s' (sync_job_id a) = Some job
    \<and> run_scheduled_sync i now (a_id a) (upd_account (a_id a) (\<lambda>x. x\<lparr>a_sync_schedule := sched\<rparr>) w)
        = upd_account (a_id a) (\<lambda>x. x\<lparr>a_sync_schedule := sched\<rparr>) (run_scheduled_sync i now (a_id a) w)"
proof
  let ?ex = "fst ` set s" and ?accts = "filter (\<lambda>a. \<not> a_suspended a) (accounts w)"
  obtain s1 where s1: "schedule_accounts cron_ok ?ex ?accts s = (True, s1)"
    and s': "s' = filter (\<lambda>(k, v). \<not> (k \<in> ?ex - sync_job_id ` set ?accts \<and> prefix ''sync_'' k)) s1"
    using assms(6) by (auto simp: sync_scheduler_jobs_def Let_def split: prod.splits if_splits)
  have skip: "map_of u' k = map_of u k"
    if "schedule_accounts cron_ok ex as u = (ok, u')" "\<forall>b \<in> set as. k = sync_job_id b \<longrightarrow> \<not> truthy (a_sync_schedule b)"
    for ex as u ok u' k
    using that
  proof (induction as arbitrary: u)
    case (Cons b as)
    show ?case
    proof (cases "sync_job_id b = k")
      case True
      then have "\<not> truthy (a_sync_schedule b)" using Cons.prems(2) by simp
      with Cons show ?thesis by (cases "is_authenticated b") simp_all
    next
      case False
      then have put: "map_of (put_job ex (sync_job_id b) act t u) k = map_of u k" for act t
        by (simp add: map_of_put_job)
      have IH: "map_of u' k = map_of v k" if "schedule_accounts cron_ok ex as v = (ok, u')" for v
        using Cons.IH [OF that] Cons.prems(2) by simp
      from Cons.prems(1) IH put show ?thesis
        by (simp add: Let_def split: if_split_asm)
    qed
  qed simp
  have "\<forall>b \<in> set ?accts. sync_job_id a = sync_job_id b \<longrightarrow> \<not> truthy (a_sync_schedule b)"
  proof (intro ballI impI)
    fix b assume "b \<in> set ?accts" and "sync_job_id a = sync_job_id b"
    then have "a_id b = a_id a" "b \<in> set (accounts w)" by (auto simp: sync_job_id_def)
    then have "b = a"
      using row_SomeI [OF assms(1)] assms(2) by (metis option.inject)
    with assms(4) show "\<not> truthy (a_sync_schedule b)" by simp
  qed
  from skip [OF s1 this] show "map_of s' (sync_job_id a) = Some job"
    using assms(2,3,5) unfolding s' map_of_filter_key by auto
next
  let ?f = "\<lambda>x. x\<lparr>a_sync_schedule := sched\<rparr>"
  have own: "owners (upd_account k ?f w) (?f b) = owners w b" for k b
    by (simp add: owners_def)
  have enq: "enqueue i now k (upd_account k ?f w) = upd_account k ?f (enqueue i now k w)" for k
    by (simp add: enqueue_def create_sync_job_def Let_def upd_account_def split: option.split)
  show "run_scheduled_sync i now (a_id a) (upd_account (a_id a) ?f w) = upd_account (a_id a) ?f (run_scheduled_sync i now (a_id a) w)"
    by (simp add: run_scheduled_sync_def row_set_row own enq is_authenticated_def split: option.split)
qed

definition unscheduled_world :: world where
  "unscheduled_world = empty_world\<lparr>accounts := [demo_account\<lparr>a_sync_schedule := None\<rparr>]\<rparr>"

section \<open>The gates of the periodic sync\<close>

lemma enqueue_eq:
  "enqueue i now aid w =
     (if \<exists>j \<in> set (sync_jobs w). j_account_id j = aid \<and> active (j_status j) then w
      else w\<lparr>sync_jobs := sync_jobs w @ [new_sync_job i aid ''scheduler'' now], sync_queue := sync_queue w @ [i]\<rparr>)"
  by (cases rule: create_sync_job_cases [of i now aid "''scheduler''" w]) (auto simp: enqueue_def)

text \<open>
  The periodic path enqueues exactly when nothing forbids it: the account exists, is neither
  suspended nor migrating nor owned by a migrating user, is authenticated and not waiting for
  re-authorisation, carries no pause that still lies in the future, and has no live job. Then
  one pending job is added and handed to the executor; otherwise nothing changes.
\<close>

lemma scheduled_sync_gates:
  fixes w :: world and i aid :: str and now :: datetime
  defines "w' \<equiv> run_scheduled_sync i now aid w"
  shows "if (\<exists>a. get_account w aid = Some a \<and> eligible w a
            \<and> \<not> (\<exists>t. a_sync_paused_until a = Some t \<and> now < t))
          \<and> \<not> (\<exists>j \<in> set (sync_jobs w). j_account_id j = aid \<and> active (j_status j))
       then sync_jobs w' = sync_jobs w @ [new_sync_job i aid ''scheduler'' now] \<and> sync_queue w' = sync_queue w @ [i]
         \<and> accounts w' = accounts w
       else w' = w"
  by (auto simp: w'_def run_scheduled_sync_def eligible_def enqueue_eq split: option.split)

section \<open>The pause-expiry tick\<close>

lemma expire_pause_users [simp]:
  "users (expire_pause f now a w) = users w" "account_owners (expire_pause f now a w) = account_owners w"
  by (auto simp: expire_pause_def enqueue_eq Let_def split: option.split)

lemma expire_pause_other:
  assumes "a_id b \<noteq> k"
  shows "row a_id (accounts (expire_pause f now b w)) k = get_account w k"
    and "filter (\<lambda>j. j_account_id j = k) (sync_jobs (expire_pause f now b w)) = filter (\<lambda>j. j_account_id j = k) (sync_jobs w)"
    and "set (sync_queue w) \<subseteq> set (sync_queue (expire_pause f now b w))"
  using assms by (auto simp: expire_pause_def enqueue_eq Let_def row_set_row lift_pause_def split: option.split)

lemma expire_pauses_other:
  assumes "k \<notin> a_id ` set as"
  shows "row a_id (accounts (fold (expire_pause f now) as w)) k = get_account w k
    \<and> filter (\<lambda>j. j_account_id j = k) (sync_jobs (fold (expire_pause f now) as w)) = filter (\<lambda>j. j_account_id j = k) (sync_jobs w)
    \<and> set (sync_queue w) \<subseteq> set (sync_queue (fold (expire_pause f now) as w))"
  using assms
proof (induction as arbitrary: w)
  case (Cons b as)
  then have "a_id b \<noteq> k" "k \<notin> a_id ` set as" by auto
  from Cons.IH [OF this(2)] expire_pause_other [OF this(1)] show ?case
    by (metis fold_simps(2) subset_trans)
qed simp

lemma eligible_cong:
  "users w' = users w \<Longrightarrow> account_owners w' = account_owners w \<Longrightarrow> eligible w' a = eligible w a"
  by (simp add: eligible_def owners_def)

lemma tick_users [simp]:
  "users (fold (expire_pause f now) as w) = users w"
  "account_owners (fold (expire_pause f now) as w) = account_owners w"
  by (induction as arbitrary: w) simp_all

text \<open>What one tick does for an account whose pause has run out.\<close>

lemma tick_resumes:
  fixes f :: "str \<Rightarrow> str"
  assumes "pk a_id (accounts w)" and "get_account w k = Some a"
    and "a_sync_paused_until a = Some t" and "t \<le> now"
  defines "w' \<equiv> run_pause_expiry_tick f now w"
  shows "get_account w' k = Some (lift_pause a)"
    and "a_initial_sync_completed_at a = None \<Longrightarrow> eligible w a \<Longrightarrow>
      \<forall>j \<in> set (sync_jobs w). j_account_id j = k \<longrightarrow> \<not> active (j_status j) \<Longrightarrow>
      new_sync_job (f k) k ''scheduler'' now \<in> set (sync_jobs w') \<and> f k \<in> set (sync_queue w')"
proof -
  let ?P = "\<lambda>a. a_sync_paused_until a \<noteq> None"
  have a: "a \<in> set (accounts w)" "a_id a = k"
    using row_SomeD [OF assms(2)] by simp_all
  then have "a \<in> set (filter ?P (accounts w))"
    using assms(3) by simp
  then obtain xs ys where split: "filter ?P (accounts w) = xs @ a # ys"
    by (meson split_list)
  have "distinct (map a_id (xs @ a # ys))"
    using pk_filter [OF assms(1), of ?P] unfolding pk_def split .
  then have out: "k \<notin> a_id ` set xs" "k \<notin> a_id ` set ys"
    using a by auto
  define w1 where "w1 = fold (expire_pause f now) xs w"
  define w2 where "w2 = expire_pause f now a w1"
  have w': "w' = fold (expire_pause f now) ys w2"
    unfolding w'_def run_pause_expiry_tick_def split by (simp add: w1_def w2_def)
  note x = expire_pauses_other [OF out(1), of f now w, folded w1_def]
  note y = expire_pauses_other [OF out(2), of f now w2, folded w']
  have acc: "get_account w2 k = Some (lift_pause a)"
    using x assms(2,3,4) a
    by (auto simp: w2_def expire_pause_def enqueue_eq Let_def row_set_row lift_pause_def split: option.split)
  with y show "get_account w' k = Some (lift_pause a)" by simp
  show "new_sync_job (f k) k ''scheduler'' now \<in> set (sync_jobs w') \<and> f k \<in> set (sync_queue w')"
    if "a_initial_sync_completed_at a = None" "eligible w a"
      "\<forall>j \<in> set (sync_jobs w). j_account_id j = k \<longrightarrow> \<not> active (j_status j)"
  proof -
    have free: "\<not> (\<exists>j \<in> set (sync_jobs w1). j_account_id j = k \<and> active (j_status j))"
    proof
      assume "\<exists>j \<in> set (sync_jobs w1). j_account_id j = k \<and> active (j_status j)"
      then obtain j where "j \<in> set (filter (\<lambda>j. j_account_id j = k) (sync_jobs w1))" "active (j_status j)" by auto
      with x that(3) show False by auto
    qed
    have el: "eligible (upd_account k lift_pause w1) a"
      using that(2) by (subst eligible_cong [of _ w]) (simp_all add: w1_def)
    have "new_sync_job (f k) k ''scheduler'' now \<in> set (sync_jobs w2) \<and> f k \<in> set (sync_queue w2)"
      using free el that(1) assms(3,4) a by (auto simp: w2_def expire_pause_def enqueue_eq Let_def)
    note queued = this
    then have "new_sync_job (f k) k ''scheduler'' now \<in> set (filter (\<lambda>j. j_account_id j = k) (sync_jobs w'))"
      using y by simp
    then have "new_sync_job (f k) k ''scheduler'' now \<in> set (sync_jobs w')" by simp
    moreover have "f k \<in> set (sync_queue w')"
      using y queued by auto
    ultimately show ?thesis ..
  qed
qed

text \<open>
  C6. An interrupted initial sync resumes by itself: when the boot sweep closes the job of an
  account whose initial sync is incomplete and whose daily budget has headroom, then at any
  later minute tick, without any user action, a fresh job for the account is queued and its
  pause is gone, provided the account may sync at all.
\<close>

theorem interrupted_initial_sync_resumes:
  assumes "pk j_id (sync_jobs w)" and "pk a_id (accounts w)" and "running_procs (sync_rt w) = Map.empty"
    and "job \<in> set (sync_jobs w)" and "active (j_status job)" and "get_account w (j_account_id job) = Some a"
    and "a_initial_sync_completed_at a = None" and "budget_headroom_today now a" and "eligible w a"
    and "now \<le> later" and "w' = run_pause_expiry_tick f later (snd (recover_zombie_sync_jobs now w))"
  shows "(\<exists>j \<in> set (sync_jobs w'). j_account_id j = a_id a \<and> j_status j = pending \<and> j_id j \<in> set (sync_queue w'))
    \<and> map_option a_sync_paused_until (get_account w' (a_id a)) = Some None"
proof -
  define w1 where "w1 = snd (recover_zombie_sync_jobs now w)"
  let ?r = "release_account now a"
  have a: "a \<in> set (accounts w)" "a_id a = j_account_id job"
    using row_SomeD [OF assms(6)] by simp_all
  let ?hit = "\<lambda>p. \<exists>r \<in> set (sync_jobs w). (j_status r = running \<or> j_status r = pending) \<and> zombie_due w r \<and> j_account_id r = a_id p"
  let ?g = "\<lambda>p. if ?hit p then release_account now p else p"
  have accts: "accounts w1 = map ?g (accounts w)"
    unfolding w1_def by (rule zombie_parents [OF assms(1)])
  have hit: "?hit a"
    using assms(3,4,5) a by (auto simp: zombie_due_def active_def)
  have gid: "a_id (?g p) = a_id p" for p by simp
  have pk1: "pk a_id (accounts w1)"
    using assms(2) unfolding accts pk_def map_map comp_def gid .
  have "?g a \<in> set (accounts w1)"
    unfolding accts set_map using a(1) by (rule imageI)
  from row_SomeI [OF pk1 this] hit have get1: "get_account w1 (a_id a) = Some ?r"
    by simp
  have paused: "a_sync_paused_until ?r = Some (now - seconds 1)"
    using assms(7,8) by (simp add: release_account_pause)
  have due: "now - seconds 1 \<le> later"
    using assms(10) by (simp add: time_defs)
  have frame: "users w1 = users w" "account_owners w1 = account_owners w"
    unfolding w1_def recover_zombie_sync_jobs_def recover_zombie_def Let_def
    by (rule sweep_frame, simp split: option.split)+
  have "eligible w1 ?r"
    using assms(9) unfolding eligible_cong [OF frame]
    by (auto simp: eligible_def owners_def is_authenticated_def release_account_def redrive_or_keep_pause_def)
  moreover have "\<forall>j \<in> set (sync_jobs w1). j_account_id j = a_id a \<longrightarrow> \<not> active (j_status j)"
    using zombie_closes_all [OF assms(1,3)] by (simp add: w1_def)
  moreover have "a_initial_sync_completed_at ?r = None"
    using assms(7) by simp
  ultimately have "new_sync_job (f (a_id a)) (a_id a) ''scheduler'' later \<in> set (sync_jobs w') \<and> f (a_id a) \<in> set (sync_queue w')"
    using tick_resumes(2) [OF pk1 get1 paused due, of f] assms(11) by (simp add: w1_def)
  moreover have "get_account w' (a_id a) = Some (lift_pause ?r)"
    using tick_resumes(1) [OF pk1 get1 paused due, of f] assms(11) by (simp add: w1_def)
  ultimately show ?thesis
    by (auto simp: lift_pause_def intro!: bexI [of _ "new_sync_job (f (a_id a)) (a_id a) ''scheduler'' later"])
qed

definition interrupted_world :: world where
  "interrupted_world = demo_world\<lparr>sync_jobs := [(new_sync_job ''j1'' ''a1'' ''api'' 5)\<lparr>j_status := running\<rparr>]\<rparr>"

theorem interrupted_initial_sync_resumes_witness:
  "map_option a_sync_paused_until (get_account (run_pause_expiry_tick (\<lambda>_. ''j2'') 90
     (snd (recover_zombie_sync_jobs 50 interrupted_world))) ''a1'') = Some None"
proof -
  let ?j = "(new_sync_job ''j1'' ''a1'' ''api'' 5)\<lparr>j_status := running\<rparr>"
  have "pk j_id (sync_jobs interrupted_world)" "pk a_id (accounts interrupted_world)"
    "running_procs (sync_rt interrupted_world) = Map.empty" "?j \<in> set (sync_jobs interrupted_world)" "active (j_status ?j)"
    "get_account interrupted_world (j_account_id ?j) = Some demo_account"
    "a_initial_sync_completed_at demo_account = None" "budget_headroom_today 50 demo_account"
    "eligible interrupted_world demo_account"
    by (simp_all add: interrupted_world_def pk_def demo_defs budget_headroom_today_def eligible_def is_authenticated_def
        owners_def split: option.split)
  from interrupted_initial_sync_resumes [OF this, of 90 _ "\<lambda>_. ''j2''"] show ?thesis
    by (simp add: demo_account_def new_account_def)
qed

end
