(* ===== verification/Backup_Worker.thy ===== *)
theory Backup_Worker
  imports Sync_Runtime Notifications
begin

text \<open>
  \<open>services/backup_worker.py\<close> and \<open>services/backup_service.py\<close>: the off-site backup jobs, their
  two recovery sweeps, stopping a restic process, one backup run, and the retention of the job
  history. restic (\<open>restic_service\<close>) is a set of answers in \<open>BackupEnv\<close>; the watchdog and other
  threads act through \<open>be_others\<close> while restic runs and \<open>be_late_others\<close> during retention.
\<close>

section \<open>Rows\<close>

definition upd_backup_job :: "str \<Rightarrow> (BackupJob \<Rightarrow> BackupJob) \<Rightarrow> world \<Rightarrow> world" where
  "upd_backup_job k f w = w\<lparr>backup_jobs := set_row bj_id k f (backup_jobs w)\<rparr>"

definition upd_policy :: "str \<Rightarrow> (BackupPolicy \<Rightarrow> BackupPolicy) \<Rightarrow> world \<Rightarrow> world" where
  "upd_policy k f w = w\<lparr>backup_policies := set_row bp_id k f (backup_policies w)\<rparr>"

definition upd_brt :: "(BackupRuntime \<Rightarrow> BackupRuntime) \<Rightarrow> world \<Rightarrow> world" where
  "upd_brt f w = w\<lparr>backup_rt := f (backup_rt w)\<rparr>"

lemma upd_backup_simps [simp]:
  "backup_jobs (upd_backup_job k f w) = set_row bj_id k f (backup_jobs w)"
  "backup_policies (upd_backup_job k f w) = backup_policies w"
  "backup_rt (upd_backup_job k f w) = backup_rt w"
  "accounts (upd_backup_job k f w) = accounts w"
  "backup_jobs (upd_policy k g w) = backup_jobs w"
  "backup_policies (upd_policy k g w) = set_row bp_id k g (backup_policies w)"
  "backup_rt (upd_policy k g w) = backup_rt w"
  "accounts (upd_policy k g w) = accounts w"
  "backup_jobs (upd_brt h w) = backup_jobs w"
  "backup_policies (upd_brt h w) = backup_policies w"
  "backup_rt (upd_brt h w) = h (backup_rt w)"
  "accounts (upd_brt h w) = accounts w"
  by (simp_all add: upd_backup_job_def upd_policy_def upd_brt_def)

abbreviation get_backup_job :: "world \<Rightarrow> str \<Rightarrow> BackupJob option" where
  "get_backup_job w \<equiv> row bj_id (backup_jobs w)"

abbreviation get_policy :: "world \<Rightarrow> str \<Rightarrow> BackupPolicy option" where
  "get_policy w \<equiv> row bp_id (backup_policies w)"

definition get_backup_progress :: "world \<Rightarrow> str \<Rightarrow> datetime option" where
  "get_backup_progress w job_id = backup_progress (backup_rt w) job_id"

definition list_backup_jobs_for_account :: "world \<Rightarrow> str \<Rightarrow> nat \<Rightarrow> BackupJob list" where
  "list_backup_jobs_for_account w account_id limit =
     take limit (newest_first bj_requested_at (filter (\<lambda>j. bj_account_id j = account_id) (backup_jobs w)))"

definition cleanup_old_backup_jobs :: "str \<Rightarrow> nat \<Rightarrow> world \<Rightarrow> nat \<times> world" where
  "cleanup_old_backup_jobs account_id keep w =
     (let rows = beyond bj_account_id bj_requested_at account_id keep (backup_jobs w) in
      if rows = [] then (0, w)
      else
        let left = prune bj_id rows (backup_jobs w)
        in (length (backup_jobs w) - length left, w\<lparr>backup_jobs := left\<rparr>))"

section \<open>Closing a job\<close>

definition heal_policy :: "str \<Rightarrow> BackupPolicy \<Rightarrow> BackupPolicy" where
  "heal_policy marker policy =
     (if bp_last_status policy = B_running
      then policy\<lparr>bp_last_status := B_failed, bp_last_error := Some marker\<rparr> else policy)"

definition close_backup :: "datetime \<Rightarrow> str \<Rightarrow> str \<Rightarrow> BackupJob \<Rightarrow> BackupJob" where
  "close_backup now failure_kind marker job =
     job\<lparr>bj_status := failed, bj_failure_kind := Some failure_kind, bj_completed_at := Some now,
         bj_log := Some (append_line (bj_log job) marker)\<rparr>"

definition close_job :: "datetime \<Rightarrow> str \<Rightarrow> str \<Rightarrow> BackupJob \<Rightarrow> world \<Rightarrow> world" where
  "close_job now failure_kind marker job w =
     (let w = upd_backup_job (bj_id job) (close_backup now failure_kind marker) w in
      case get_policy w (bj_policy_id job) of
        None \<Rightarrow> w
      | Some policy \<Rightarrow> upd_policy (bj_policy_id job) (heal_policy marker) w)"

definition notify_backup_failed :: "Account \<Rightarrow> str \<Rightarrow> world \<Rightarrow> world" where
  "notify_backup_failed account error w =
     notify_account_problem (a_id account) ''backup_failed'' (''Snapshot failed: '' @ a_name account)
       (take 500 error) w"

definition recovered_marker :: str where
  "recovered_marker = ''[recovered] container restarted mid-backup '' @ em_dash @ '' closed as interrupted''"

definition reaped_marker :: str where
  "reaped_marker = ''[reaped] no restic progress '' @ em_dash @ '' closed as stalled''"

definition stop_backup_job :: "str \<Rightarrow> world \<Rightarrow> bool \<times> world" where
  "stop_backup_job job_id w =
     (case running_backup_procs (backup_rt w) job_id of
        None \<Rightarrow> (False, w)
      | Some proc \<Rightarrow>
          let p1 = terminate proc; p2 = (if p_returncode p1 \<noteq> None then p1 else kill p1)
          in (True, upd_brt (\<lambda>rt. rt\<lparr>running_backup_procs := (running_backup_procs rt)(job_id \<mapsto> p2)\<rparr>) w))"

definition zombie_backup_due :: "world \<Rightarrow> BackupJob \<Rightarrow> bool" where
  "zombie_backup_due w job = (bj_id job \<notin> dom (running_backup_procs (backup_rt w)))"

definition recover_zombie_backup_jobs :: "datetime \<Rightarrow> world \<Rightarrow> nat \<times> world" where
  "recover_zombie_backup_jobs now w =
     sweep zombie_backup_due (close_job now ''interrupted'' recovered_marker)
       (filter (\<lambda>j. bj_status j = running \<or> bj_status j = pending) (backup_jobs w)) (0, w)"

definition stalled_backup_due :: "datetime \<Rightarrow> timedelta \<Rightarrow> timedelta \<Rightarrow> world \<Rightarrow> BackupJob \<Rightarrow> bool" where
  "stalled_backup_due now grace threshold w job =
     (case bj_started_at job of
        None \<Rightarrow> False
      | Some t0 \<Rightarrow>
          if now - t0 < grace then False
          else \<not> (case get_backup_progress w (bj_id job) of
                    None \<Rightarrow> False | Some updated_ts \<Rightarrow> now - updated_ts < threshold))"

definition reap_stalled_backup :: "datetime \<Rightarrow> BackupJob \<Rightarrow> world \<Rightarrow> world" where
  "reap_stalled_backup now job w =
     (let w = close_job now ''stalled'' reaped_marker job w;
          w = snd (stop_backup_job (bj_id job) w)
      in upd_brt (\<lambda>rt. rt\<lparr>backup_progress := (backup_progress rt)(bj_id job := None),
                           running_backup_procs := (running_backup_procs rt)(bj_id job := None)\<rparr>) w)"

definition recover_stalled_backup_jobs :: "datetime \<Rightarrow> timedelta \<Rightarrow> timedelta \<Rightarrow> world \<Rightarrow> nat \<times> world" where
  "recover_stalled_backup_jobs now grace threshold w =
     sweep (stalled_backup_due now grace threshold) (reap_stalled_backup now)
       (filter (\<lambda>j. bj_status j = running) (backup_jobs w)) (0, w)"

section \<open>The sweeps\<close>

lemma heal_policy_simps [simp]:
  "bp_id (heal_policy m p) = bp_id p"
  "heal_policy m (heal_policy m p) = heal_policy m p"
  "bp_last_status (heal_policy m p) = (if bp_last_status p = B_running then B_failed else bp_last_status p)"
  by (simp_all add: heal_policy_def)

lemma close_backup_simps [simp]:
  "bj_id (close_backup now k m j) = bj_id j"
  "bj_policy_id (close_backup now k m j) = bj_policy_id j"
  "bj_status (close_backup now k m j) = failed"
  "bj_failure_kind (close_backup now k m j) = Some k"
  by (simp_all add: close_backup_def)

lemma close_job_tables [simp]:
  "backup_jobs (close_job now k m j w) = set_row bj_id (bj_id j) (close_backup now k m) (backup_jobs w)"
  "backup_policies (close_job now k m j w) = set_row bp_id (bj_policy_id j) (heal_policy m) (backup_policies w)"
  "backup_rt (close_job now k m j w) = backup_rt w"
  by (auto simp: close_job_def Let_def set_row_None split: option.split)

lemma stop_backup_job_frame [simp]:
  "backup_jobs (snd (stop_backup_job i w)) = backup_jobs w"
  "backup_policies (snd (stop_backup_job i w)) = backup_policies w"
  "backup_progress (backup_rt (snd (stop_backup_job i w))) = backup_progress (backup_rt w)"
  by (simp_all add: stop_backup_job_def Let_def split: option.split)

interpretation zombie_backup: job_sweep backup_jobs bj_id zombie_backup_due
  "close_job now ''interrupted'' recovered_marker" "close_backup now ''interrupted'' recovered_marker"
  backup_policies bp_id bj_policy_id "heal_policy recovered_marker" for now
  by unfold_locales (auto simp: zombie_backup_due_def)

interpretation stalled_backup: job_sweep backup_jobs bj_id "stalled_backup_due now grace threshold"
  "reap_stalled_backup now" "close_backup now ''stalled'' reaped_marker"
  backup_policies bp_id bj_policy_id "heal_policy reaped_marker" for now grace threshold
  by unfold_locales
    (auto simp: reap_stalled_backup_def stalled_backup_due_def get_backup_progress_def Let_def split: option.split)

lemmas zombie_backup_rows = zombie_backup.sweep_table_rows
  [where P = "\<lambda>j. bj_status j = running \<or> bj_status j = pending", folded recover_zombie_backup_jobs_def]
lemmas zombie_backup_policies = zombie_backup.sweep_table_parents
  [where P = "\<lambda>j. bj_status j = running \<or> bj_status j = pending", folded recover_zombie_backup_jobs_def]
lemmas stalled_backup_rows = stalled_backup.sweep_table_rows
  [where P = "\<lambda>j. bj_status j = running", folded recover_stalled_backup_jobs_def]
lemmas stalled_backup_policies = stalled_backup.sweep_table_parents
  [where P = "\<lambda>j. bj_status j = running", folded recover_stalled_backup_jobs_def]

text \<open>
  After a crash no backup stays "running" on the dashboard: the boot sweep closes every
  pending or running backup job as interrupted, and every policy that a dead process left
  running is failed with the recovery message, while the result of a policy that was not
  running is kept.
\<close>

lemma zombie_backup_sweep_heals:
  assumes "pk bj_id (backup_jobs w)" and "running_backup_procs (backup_rt w) = Map.empty"
    and "recover_zombie_backup_jobs now w = (n, w')"
    and orphan: "\<forall>p \<in> set (backup_policies w). bp_last_status p = B_running \<longrightarrow>
      (\<exists>j \<in> set (backup_jobs w). bj_policy_id j = bp_id p \<and> active (bj_status j))"
  shows "(\<forall>j \<in> set (backup_jobs w'). \<not> active (bj_status j))
    \<and> map bp_last_status (backup_policies w')
        = map (\<lambda>p. if bp_last_status p = B_running then B_failed else bp_last_status p) (backup_policies w)
    \<and> (\<forall>p \<in> set (backup_policies w'). p \<in> set (backup_policies w) \<or> bp_last_error p = Some recovered_marker)"
proof -
  have w': "w' = snd (recover_zombie_backup_jobs now w)"
    using assms(3) by simp
  have due: "zombie_backup_due w j" for j
    using assms(2) by (simp add: zombie_backup_due_def)
  have rows: "\<forall>j \<in> set (backup_jobs w'). \<not> active (bj_status j)"
    unfolding w' zombie_backup_rows [OF assms(1)] by (auto simp: due active_def)
  let ?hit = "\<lambda>p. \<exists>r \<in> set (backup_jobs w). (bj_status r = running \<or> bj_status r = pending)
      \<and> zombie_backup_due w r \<and> bj_policy_id r = bp_id p"
  have pols: "backup_policies w' = map (\<lambda>p. if ?hit p then heal_policy recovered_marker p else p) (backup_policies w)"
    unfolding w' by (rule zombie_backup_policies [OF assms(1)])
  have hit: "p \<in> set (backup_policies w) \<Longrightarrow> bp_last_status p = B_running \<Longrightarrow> ?hit p" for p
    using orphan due by (fastforce simp: active_def)
  have "map bp_last_status (backup_policies w')
        = map (\<lambda>p. if bp_last_status p = B_running then B_failed else bp_last_status p) (backup_policies w)"
    unfolding pols map_map by (rule map_cong [OF refl]) (use hit in auto)
  moreover have "\<forall>p \<in> set (backup_policies w'). p \<in> set (backup_policies w) \<or> bp_last_error p = Some recovered_marker"
    unfolding pols by (auto simp: heal_policy_def)
  ultimately show ?thesis
    using rows by blast
qed

definition new_backup_job :: "str \<Rightarrow> str \<Rightarrow> str \<Rightarrow> str \<Rightarrow> datetime \<Rightarrow> BackupJob" where
  "new_backup_job i policy_id account_id source now =
    \<lparr> bj_id = i, bj_policy_id = policy_id, bj_account_id = account_id, bj_status = running,
      bj_source = source, bj_requested_at = now, bj_started_at = Some now, bj_completed_at = None,
      bj_failure_kind = None, bj_log = None, bj_snapshot_id = None, bj_bytes_processed = 0, bj_bytes_added = 0 \<rparr>"

definition demo_policy :: BackupPolicy where
  "demo_policy = \<lparr> bp_id = ''p1'', bp_account_id = ''a1'', bp_destination_id = ''d1'', bp_enabled = True,
     bp_schedule = ''0 3 * * *'', bp_retention_preset = R_standard, bp_keep_daily = None, bp_keep_weekly = None,
     bp_keep_monthly = None, bp_last_backup_at = None, bp_last_run_at = Some 0, bp_last_successful_run_at = None,
     bp_last_snapshot_count = 0, bp_last_snapshot_at = None, bp_last_status = B_running, bp_last_error = None,
     bp_created_at = 0 \<rparr>"

definition crashed_world :: world where
  "crashed_world = demo_world\<lparr>backup_policies := [demo_policy],
     backup_jobs := [new_backup_job ''b1'' ''p1'' ''a1'' ''schedule'' 0]\<rparr>"

lemmas crashed_defs = crashed_world_def demo_policy_def new_backup_job_def demo_defs

text \<open>
  A live process does not excuse a backup: a running job past the grace window is reaped
  exactly when its last restic heartbeat is missing or older than the threshold, whether or
  not the process is alive, its policy leaves \<open>running\<close>, and its handles are dropped.
\<close>

lemma backup_watchdog_ignores_liveness:
  assumes "pk bj_id (backup_jobs w)" and "j \<in> set (backup_jobs w)"
    and "recover_stalled_backup_jobs now grace threshold w = (n, w')"
  shows "get_backup_job w' (bj_id j) =
      Some (if bj_status j = running
               \<and> (\<exists>t0. bj_started_at j = Some t0 \<and> grace \<le> now - t0)
               \<and> (\<forall>ts. get_backup_progress w (bj_id j) = Some ts \<longrightarrow> threshold \<le> now - ts)
            then close_backup now ''stalled'' reaped_marker j else j)
    \<and> (get_backup_job w' (bj_id j) \<noteq> Some j \<and> bj_status j = running \<longrightarrow>
        (\<forall>p \<in> set (backup_policies w'). bp_id p = bj_policy_id j \<longrightarrow> bp_last_status p \<noteq> B_running))"
proof -
  let ?due = "stalled_backup_due now grace threshold w"
  have w': "w' = snd (recover_stalled_backup_jobs now grace threshold w)"
    using assms(3) by simp
  have due: "?due j \<longleftrightarrow> (\<exists>t0. bj_started_at j = Some t0 \<and> grace \<le> now - t0)
      \<and> (\<forall>ts. get_backup_progress w (bj_id j) = Some ts \<longrightarrow> threshold \<le> now - ts)"
    by (auto simp: stalled_backup_due_def not_less split: option.split)
  let ?f = "\<lambda>r. if bj_status r = running \<and> ?due r then close_backup now ''stalled'' reaped_marker r else r"
  have rows: "backup_jobs w' = map ?f (backup_jobs w)"
    unfolding w' by (rule stalled_backup_rows [OF assms(1)])
  have "pk bj_id (backup_jobs w')"
    using assms(1) unfolding rows pk_def by (simp add: comp_def if_distrib cong: if_cong)
  moreover have "?f j \<in> set (backup_jobs w')"
    unfolding rows using assms(2) by auto
  ultimately have "get_backup_job w' (bj_id (?f j)) = Some (?f j)"
    by (rule row_SomeI)
  moreover have "bj_id (?f j) = bj_id j" by simp
  ultimately have job: "get_backup_job w' (bj_id j) = Some (?f j)" by simp
  have "bp_last_status p \<noteq> B_running"
    if "?due j" "bj_status j = running" "p \<in> set (backup_policies w')" "bp_id p = bj_policy_id j" for p
    using that assms(2) unfolding w' stalled_backup_policies [OF assms(1)] by (auto split: if_splits)
  with job show ?thesis
    unfolding due by auto
qed

section \<open>One backup run\<close>

text \<open>
  What restic answers: \<open>init_repo\<close>, \<open>run_backup\<close> (the summary's snapshot id and byte counts),
  \<open>apply_retention\<close>, \<open>list_snapshots\<close> (the count and the newest time, when it parses); \<open>Inl\<close> is
  the text of an exception. Times are those at which the source reads the clock.
\<close>

record BackupEnv =
  be_job_id :: str
  be_now :: datetime
  be_tick :: datetime
  be_success_at :: datetime
  be_failed_at :: datetime
  be_init :: "str + bool"
  be_exits_on_term :: bool
  be_others :: "world \<Rightarrow> world"
  be_run :: "str + str option \<times> int option \<times> int option"
  be_late_others :: "world \<Rightarrow> world"
  be_retention :: "str + str list"
  be_list :: "str + nat \<times> datetime option"

definition set_heartbeat :: "str \<Rightarrow> datetime \<Rightarrow> world \<Rightarrow> world" where
  "set_heartbeat job_id t = upd_brt (\<lambda>rt. rt\<lparr>backup_progress := (backup_progress rt)(job_id \<mapsto> t)\<rparr>)"

definition start_backup :: "BackupEnv \<Rightarrow> BackupPolicy \<Rightarrow> Account \<Rightarrow> str \<Rightarrow> world \<Rightarrow> world" where
  "start_backup env backup account source w =
     (let job = new_backup_job (be_job_id env) (bp_id backup) (a_id account) source (be_now env);
          w = w\<lparr>backup_jobs := backup_jobs w @ [job]\<rparr>;
          w = upd_policy (bp_id backup) (\<lambda>p. p\<lparr>bp_last_status := B_running, bp_last_error := None,
                bp_last_run_at := Some (be_now env)\<rparr>) w
      in set_heartbeat (be_job_id env) (be_now env) w)"

text \<open>The phases inside the \<open>try\<close>: the summary, or the exception.\<close>

definition backup_phases :: "BackupEnv \<Rightarrow> world \<Rightarrow> (str + str option \<times> int option \<times> int option) \<times> world" where
  "backup_phases env w =
     (case be_init env of
        Inl e \<Rightarrow> (Inl e, w)
      | Inr False \<Rightarrow> (Inl ''Failed to initialize restic repository'', w)
      | Inr True \<Rightarrow>
          let w = set_heartbeat (be_job_id env) (be_now env) w;
              w = upd_brt (\<lambda>rt. rt\<lparr>running_backup_procs := (running_backup_procs rt)(be_job_id env \<mapsto>
                    \<lparr>p_returncode = None, p_exits_on_term = be_exits_on_term env\<rparr>)\<rparr>) w;
              w = be_others env w in
          (case be_run env of
             Inl e \<Rightarrow> (Inl e, w)
           | Inr summary \<Rightarrow>
               let w = be_late_others env (set_heartbeat (be_job_id env) (be_tick env) w) in
               (case be_retention env of
                  Inl e \<Rightarrow> (Inl e, w)
                | Inr removed \<Rightarrow> (Inr summary, w))))"

definition complete_backup_job :: "datetime \<Rightarrow> str option \<times> int option \<times> int option \<Rightarrow> BackupJob \<Rightarrow> BackupJob" where
  "complete_backup_job now summary job =
     (case summary of (snapshot_id, processed, added) \<Rightarrow>
        job\<lparr>bj_status := completed, bj_completed_at := Some now, bj_snapshot_id := snapshot_id,
            bj_bytes_processed := (case processed of None \<Rightarrow> 0 | Some n \<Rightarrow> n),
            bj_bytes_added := (case added of None \<Rightarrow> 0 | Some n \<Rightarrow> n)\<rparr>)"

definition backup_succeeded ::
  "BackupEnv \<Rightarrow> BackupPolicy \<Rightarrow> Account \<Rightarrow> str option \<times> int option \<times> int option \<Rightarrow> world \<Rightarrow> world"
where
  "backup_succeeded env backup account summary w =
     (let w = upd_policy (bp_id backup) (\<lambda>p. p\<lparr>bp_last_status := B_completed,
                bp_last_backup_at := Some (be_success_at env), bp_last_successful_run_at := Some (be_success_at env),
                bp_last_error := None\<rparr>) w;
          w = upd_account (a_id account) (\<lambda>a. if a_last_notified_state a = Some ''backup_failed''
                then a\<lparr>a_last_notified_state := None\<rparr> else a) w;
          w = upd_backup_job (be_job_id env) (complete_backup_job (be_success_at env) summary) w
      in case be_list env of
           Inl e \<Rightarrow> w
         | Inr (n, newest) \<Rightarrow>
             upd_policy (bp_id backup) (\<lambda>p. p\<lparr>bp_last_snapshot_count := int n,
               bp_last_snapshot_at := (case newest of None \<Rightarrow> bp_last_snapshot_at p | Some t \<Rightarrow> Some t)\<rparr>) w)"

text \<open>The \<open>except\<close> branch: a verdict already recorded (by the watchdog) is kept and extended.\<close>

definition backup_failed :: "BackupEnv \<Rightarrow> BackupPolicy \<Rightarrow> Account \<Rightarrow> str \<Rightarrow> world \<Rightarrow> world" where
  "backup_failed env backup account e w =
     (let already_closed = (case get_backup_job w (be_job_id env) of
                              None \<Rightarrow> False
                            | Some job \<Rightarrow> bj_status job = failed \<and> truthy (bj_failure_kind job));
          w = upd_policy (bp_id backup) (\<lambda>p. p\<lparr>bp_last_status := B_failed,
                bp_last_error := (if already_closed then bp_last_error p else Some e)\<rparr>) w;
          w = upd_backup_job (be_job_id env) (\<lambda>j. j\<lparr>bj_status := failed,
                bj_completed_at := (case bj_completed_at j of None \<Rightarrow> Some (be_failed_at env) | Some t \<Rightarrow> Some t),
                bj_failure_kind := (if already_closed then bj_failure_kind j else Some ''error''),
                bj_log := (if already_closed then Some (append_line (bj_log j) e) else Some e)\<rparr>) w
      in notify_backup_failed account e w)"

definition execute_backup :: "BackupEnv \<Rightarrow> str \<Rightarrow> str \<Rightarrow> world \<Rightarrow> world" where
  "execute_backup env policy_id source w =
     (case get_policy w policy_id of
        None \<Rightarrow> w
      | Some backup \<Rightarrow>
          (case get_account w (bp_account_id backup) of
             None \<Rightarrow> upd_policy policy_id (\<lambda>p. p\<lparr>bp_last_status := B_failed, bp_last_error := Some ''Account not found''\<rparr>) w
           | Some account \<Rightarrow>
               let (res, w) = backup_phases env (start_backup env backup account source w);
                   w = (case res of
                          Inl e \<Rightarrow> backup_failed env backup account e w
                        | Inr summary \<Rightarrow> backup_succeeded env backup account summary w);
                   w = upd_brt (\<lambda>rt. rt\<lparr>backup_progress := (backup_progress rt)(be_job_id env := None),
                         running_backup_procs := (running_backup_procs rt)(be_job_id env := None)\<rparr>) w
               in snd (cleanup_old_backup_jobs (a_id account) 150 w)))"

text \<open>Rows with a given id after an update of them.\<close>

lemma set_row_all:
  "\<forall>r \<in> set (set_row key k f t). key r = k \<longrightarrow> P r" if "\<And>r. P (f r)" for P
  using that by (auto simp: set_row_def)

lemma notify_backup_failed_frame [simp]:
  "backup_jobs (notify_backup_failed a e w) = backup_jobs w"
  "backup_policies (notify_backup_failed a e w) = backup_policies w"
  "backup_rt (notify_backup_failed a e w) = backup_rt w"
  by (simp_all add: notify_backup_failed_def)

lemma cleanup_backup_frame [simp]:
  "backup_policies (snd (cleanup_old_backup_jobs a k w)) = backup_policies w"
  "backup_rt (snd (cleanup_old_backup_jobs a k w)) = backup_rt w"
  by (simp_all add: cleanup_old_backup_jobs_def Let_def)

lemma cleanup_backup_subset: "set (backup_jobs (snd (cleanup_old_backup_jobs a k w))) \<subseteq> set (backup_jobs w)"
  by (auto simp: cleanup_old_backup_jobs_def Let_def prune_def)

lemma upd_account_backup [simp]:
  "backup_jobs (upd_account k f w) = backup_jobs w" "backup_policies (upd_account k f w) = backup_policies w"
  by simp_all

lemma backup_succeeded_tables:
  "backup_jobs (backup_succeeded env b a s w)
     = set_row bj_id (be_job_id env) (complete_backup_job (be_success_at env) s) (backup_jobs w)"
  "\<exists>f. backup_policies (backup_succeeded env b a s w) = set_row bp_id (bp_id b) f (backup_policies w)
     \<and> (\<forall>p. bp_last_status (f p) = B_completed)"
proof -
  let ?g = "\<lambda>p. p\<lparr>bp_last_status := B_completed, bp_last_backup_at := Some (be_success_at env),
      bp_last_successful_run_at := Some (be_success_at env), bp_last_error := None\<rparr>"
  have two: "set_row bp_id k g (set_row bp_id k ?g t) = set_row bp_id k (\<lambda>p. g (?g p)) t" for g k t
    by (induction t) auto
  show "backup_jobs (backup_succeeded env b a s w)
     = set_row bj_id (be_job_id env) (complete_backup_job (be_success_at env) s) (backup_jobs w)"
    by (auto simp: backup_succeeded_def Let_def split: sum.split prod.split)
  show "\<exists>f. backup_policies (backup_succeeded env b a s w) = set_row bp_id (bp_id b) f (backup_policies w)
     \<and> (\<forall>p. bp_last_status (f p) = B_completed)"
    by (cases "be_list env")
      (auto simp: backup_succeeded_def Let_def two split: prod.split intro!: exI)
qed

text \<open>What a run leaves, before the history is pruned.\<close>

lemma backup_outcome:
  assumes w2_def: "w2 = (case res of Inl e \<Rightarrow> backup_failed env b a e w1 | Inr s \<Rightarrow> backup_succeeded env b a s w1)"
  shows "\<forall>j \<in> set (backup_jobs w2). bj_id j = be_job_id env \<longrightarrow>
      bj_status j = (if isl res then failed else completed)"
    and "\<forall>p \<in> set (backup_policies w2). bp_id p = bp_id b \<longrightarrow>
      bp_last_status p = (if isl res then B_failed else B_completed)"
proof -
  have ok: "\<forall>j \<in> set (backup_jobs w2). bj_id j = be_job_id env \<longrightarrow> bj_status j = completed"
      "\<forall>p \<in> set (backup_policies w2). bp_id p = bp_id b \<longrightarrow> bp_last_status p = B_completed"
    if "res = Inr s" for s
  proof -
    have w2: "w2 = backup_succeeded env b a s w1"
      by (simp add: w2_def that)
    obtain f where f: "backup_policies w2 = set_row bp_id (bp_id b) f (backup_policies w1)"
        "\<forall>p. bp_last_status (f p) = B_completed"
      using backup_succeeded_tables(2) [of env b a s w1] unfolding w2 by blast
    show "\<forall>p \<in> set (backup_policies w2). bp_id p = bp_id b \<longrightarrow> bp_last_status p = B_completed"
      unfolding f(1) by (rule set_row_all) (simp add: f(2))
    show "\<forall>j \<in> set (backup_jobs w2). bj_id j = be_job_id env \<longrightarrow> bj_status j = completed"
      using that unfolding w2_def by (simp add: backup_succeeded_tables(1))
        (rule set_row_all, simp add: complete_backup_job_def split: prod.split)
  qed
  have bad: "\<forall>j \<in> set (backup_jobs w2). bj_id j = be_job_id env \<longrightarrow> bj_status j = failed"
      "\<forall>p \<in> set (backup_policies w2). bp_id p = bp_id b \<longrightarrow> bp_last_status p = B_failed"
    if "res = Inl e" for e
  proof -
    have w2: "w2 = backup_failed env b a e w1"
      by (simp add: w2_def that)
    show "\<forall>j \<in> set (backup_jobs w2). bj_id j = be_job_id env \<longrightarrow> bj_status j = failed"
      unfolding w2 backup_failed_def Let_def notify_backup_failed_frame upd_backup_simps by (rule set_row_all) simp
    show "\<forall>p \<in> set (backup_policies w2). bp_id p = bp_id b \<longrightarrow> bp_last_status p = B_failed"
      unfolding w2 backup_failed_def Let_def notify_backup_failed_frame upd_backup_simps by (rule set_row_all) simp
  qed
  show "\<forall>j \<in> set (backup_jobs w2). bj_id j = be_job_id env \<longrightarrow>
      bj_status j = (if isl res then failed else completed)"
    using ok(1) bad(1) by (cases res) auto
  show "\<forall>p \<in> set (backup_policies w2). bp_id p = bp_id b \<longrightarrow>
      bp_last_status p = (if isl res then B_failed else B_completed)"
    using ok(2) bad(2) by (cases res) auto
qed

text \<open>
  C23. Every backup run ends: whatever restic answers and other threads do meanwhile, afterwards
  the run's row is completed or failed, the policy shows the same result and is not left
  running, and neither a heartbeat nor a process handle of the job remains.
\<close>

theorem backup_run_always_ends:
  assumes "get_policy w policy_id = Some b" and "get_account w (bp_account_id b) = Some a"
  shows "\<exists>ok. (\<forall>j \<in> set (backup_jobs (execute_backup env policy_id source w)).
        bj_id j = be_job_id env \<longrightarrow> bj_status j = (if ok then completed else failed))
    \<and> (\<forall>p \<in> set (backup_policies (execute_backup env policy_id source w)).
        bp_id p = policy_id \<longrightarrow> bp_last_status p = (if ok then B_completed else B_failed))
    \<and> backup_progress (backup_rt (execute_backup env policy_id source w)) (be_job_id env) = None
    \<and> running_backup_procs (backup_rt (execute_backup env policy_id source w)) (be_job_id env) = None"
proof -
  have id: "bp_id b = policy_id"
    using row_SomeD [OF assms(1)] by simp
  obtain res w1 where ph: "backup_phases env (start_backup env b a source w) = (res, w1)"
    by (cases "backup_phases env (start_backup env b a source w)")
  define w2 where "w2 = (case res of Inl e \<Rightarrow> backup_failed env b a e w1 | Inr s \<Rightarrow> backup_succeeded env b a s w1)"
  define w3 where "w3 = upd_brt (\<lambda>rt. rt\<lparr>backup_progress := (backup_progress rt)(be_job_id env := None),
      running_backup_procs := (running_backup_procs rt)(be_job_id env := None)\<rparr>) w2"
  have fin: "execute_backup env policy_id source w = snd (cleanup_old_backup_jobs (a_id a) 150 w3)"
    using assms by (simp add: execute_backup_def ph Let_def w3_def w2_def)
  have sub: "set (backup_jobs (execute_backup env policy_id source w)) \<subseteq> set (backup_jobs w2)"
    using cleanup_backup_subset [of "a_id a" 150 w3] by (simp add: fin w3_def)
  have "backup_policies (execute_backup env policy_id source w) = backup_policies w2"
    by (simp add: fin w3_def)
  then show ?thesis
    using backup_outcome [OF w2_def] sub
    by (intro exI [of _ "\<not> isl res"]) (auto simp: fin w3_def id)
qed

definition backup_env :: BackupEnv where
  "backup_env = \<lparr> be_job_id = ''b2'', be_now = 100, be_tick = 110, be_success_at = 120, be_failed_at = 121,
     be_init = Inr True, be_exits_on_term = True, be_others = (\<lambda>w. w),
     be_run = Inr (Some ''snap'', Some 10, None), be_late_others = (\<lambda>w. w), be_retention = Inr [], be_list = Inl ''x'' \<rparr>"

theorem backup_run_always_ends_witness:
  "\<exists>ok. list_all (\<lambda>p. bp_last_status p = (if ok then B_completed else B_failed))
     (backup_policies (execute_backup backup_env ''p1'' ''manual'' crashed_world))"
proof -
  have h: "get_policy crashed_world ''p1'' = Some demo_policy"
      "get_account crashed_world (bp_account_id demo_policy) = Some demo_account"
    by (simp_all add: crashed_defs)
  have "list_all (\<lambda>p. bp_id p = ''p1'') (backup_policies (execute_backup backup_env ''p1'' ''manual'' crashed_world))"
    by (simp add: execute_backup_def h backup_phases_def backup_env_def start_backup_def backup_succeeded_def
        set_heartbeat_def Let_def) (simp add: crashed_defs)
  with backup_run_always_ends [OF h, of backup_env "''manual''"] show ?thesis
    by (auto simp: list_all_iff)
qed

text \<open>
  The watchdog's verdict outlives the restic it killed: when the row was already failed
  with a kind, the exception of the dying process keeps that kind and completion time and only
  adds its text to the log, and the policy keeps the watchdog's message. The source gives the
  success path no such guard: a run reaped during the silent retention phase that then finishes
  is completed with the stale failure kind.
\<close>

lemma backup_verdict_kept:
  assumes "get_backup_job w (be_job_id env) = Some j" and "bj_status j = failed"
    and "bj_failure_kind j = Some k" and "k \<noteq> []"
  shows "get_backup_job (backup_failed env b a e w) (be_job_id env)
      = Some (j\<lparr>bj_completed_at := (case bj_completed_at j of None \<Rightarrow> Some (be_failed_at env) | Some t \<Rightarrow> Some t),
                bj_log := Some (append_line (bj_log j) e)\<rparr>)
    \<and> map bp_last_error (backup_policies (backup_failed env b a e w)) = map bp_last_error (backup_policies w)
    \<and> map_option (\<lambda>r. (bj_status r, bj_failure_kind r)) (get_backup_job (backup_succeeded env b a s w) (be_job_id env))
        = Some (completed, Some k)"
proof -
  have ok: "get_backup_job (backup_succeeded env b a s w) (be_job_id env)
      = Some (complete_backup_job (be_success_at env) s j)"
    using assms(1) unfolding backup_succeeded_tables
    by (simp add: row_set_row complete_backup_job_def split: prod.split)
  have "map bp_last_error (set_row bp_id (bp_id b) (\<lambda>p. p\<lparr>bp_last_status := B_failed, bp_last_error := bp_last_error p\<rparr>) t)
      = map bp_last_error t" for t :: "BackupPolicy list"
    by (rule map_set_row) simp
  then show ?thesis
    using assms ok
    by (simp add: backup_failed_def Let_def row_set_row complete_backup_job_def split: prod.split)
qed

end
