(* ===== verification/Lifecycle.thy ===== *)
theory Lifecycle
  imports Sync_Outcome Scheduler Backup_Worker
begin

text \<open>
  The sync system as a transition system: requests, the periodic paths, the executor's workers,
  the sampler, stops, the watchdog, edits of accounts, and a crash followed by the boot sweep.
  A worker that runs a job is interleaved at every point where it blocks with arbitrary runs of
  the same system: the functions of its environment are themselves made of steps, so a step
  refers to the reflexive transitive closure of the steps. Job ids are fresh (\<open>uuid4\<close>): a new id
  is neither in the table nor queued, and a worker's own id is not issued again.
\<close>

section \<open>The steps\<close>

text \<open>Creation behind the guard and hand-over to the executor, as every trigger does it.\<close>

definition submit_new :: "str \<Rightarrow> datetime \<Rightarrow> str \<Rightarrow> str \<Rightarrow> world \<Rightarrow> world" where
  "submit_new i now account_id source w =
     (case create_sync_job i now account_id source w of
        (None, w) \<Rightarrow> w
      | (Some job, w) \<Rightarrow> w\<lparr>sync_queue := sync_queue w @ [j_id job]\<rparr>)"

lemma enqueue_submit: "enqueue i now aid w = submit_new i now aid ''scheduler'' w"
  by (simp add: enqueue_def submit_new_def)

text \<open>The functions of other threads a worker's environment interleaves.\<close>

definition env_actors :: "SyncEnv \<Rightarrow> (world \<Rightarrow> world) set" where
  "env_actors env =
     {env_reconcile_others env, env_final_others env}
     \<union> {f. \<exists>config cmd. \<exists>iv \<in> {env_first env config cmd, env_retry env config cmd}.
            f = inv_others iv \<or> f \<in> re_others ` set (inv_reads iv)}"

lemma env_preserves_actors:
  assumes "\<And>f v. f \<in> env_actors env \<Longrightarrow> P v \<Longrightarrow> P (f v)"
  shows "env_preserves P env"
proof -
  have act: "inv_others (env_first env c k) \<in> env_actors env" "inv_others (env_retry env c k) \<in> env_actors env"
    "r \<in> set (inv_reads (env_first env c k)) \<Longrightarrow> re_others r \<in> env_actors env"
    "r \<in> set (inv_reads (env_retry env c k)) \<Longrightarrow> re_others r \<in> env_actors env"
    "env_reconcile_others env \<in> env_actors env" "env_final_others env \<in> env_actors env" for r c k
    by (auto simp: env_actors_def)
  then show ?thesis
    unfolding env_preserves_def inv_preserves_def using assms by simp
qed

text \<open>The boot sweeps of the two workers; a crash loses the module state and the executor's queue first.\<close>

definition recover_zombie_jobs :: "datetime \<Rightarrow> world \<Rightarrow> world" where
  "recover_zombie_jobs now w = snd (recover_zombie_backup_jobs now (snd (recover_zombie_sync_jobs now w)))"

definition reboot :: "datetime \<Rightarrow> world \<Rightarrow> world" where
  "reboot now w =
     recover_zombie_jobs now
       (w\<lparr>sync_rt := empty_sync_runtime, backup_rt := empty_backup_runtime, sync_queue := []\<rparr>)"

definition fresh :: "world \<Rightarrow> str \<Rightarrow> bool" where
  "fresh w i = (i \<notin> j_id ` set (sync_jobs w) \<and> i \<notin> set (sync_queue w))"

inductive step :: "world \<Rightarrow> world \<Rightarrow> bool" where
  request: "fresh w i \<Longrightarrow> step w (submit_new i now aid src w)"
| scheduled: "fresh w i \<Longrightarrow> step w (run_scheduled_sync i now aid w)"
| pause_tick: "inj f \<Longrightarrow> (\<And>k. fresh w (f k)) \<Longrightarrow> step w (run_pause_expiry_tick f now w)"
| watchdog: "step w (snd (recover_stalled_sync_jobs now grace threshold w))"
| stop: "step w (snd (stop_sync_job i w))"
| sample: "step w (snd (sampler_tick i aid base files now monot (st, w)))"
| edit: "step w (upd_account aid g w)"
| restart: "step w (reboot now w)"
| work: "i \<in> set (sync_queue w) \<Longrightarrow>
    (\<And>f v. f \<in> env_actors env \<Longrightarrow> step\<^sup>*\<^sup>* v (f v) \<and> (i \<in> set (sync_queue (f v)) \<longrightarrow> i \<in> set (sync_queue v))) \<Longrightarrow>
    step w (snd (execute_sync_job env i (w\<lparr>sync_queue := remove1 i (sync_queue w)\<rparr>)))"

section \<open>The invariant\<close>

definition jobs_ok :: "world \<Rightarrow> bool" where
  "jobs_ok w = (pk j_id (sync_jobs w) \<and> one_active_job w \<and> distinct (sync_queue w)
     \<and> (\<forall>j \<in> set (sync_jobs w). j_id j \<in> set (sync_queue w) \<longrightarrow> j_status j = pending))"

text \<open>
  A change of the job table that opens no job: rows keep their id and account, may go away, and
  none becomes active that was not; queued jobs keep their status.
\<close>

definition closes :: "world \<Rightarrow> world \<Rightarrow> bool" where
  "closes w w' = (\<exists>f P. sync_jobs w' = filter P (map f (sync_jobs w)) \<and> sync_queue w' = sync_queue w
     \<and> (\<forall>j \<in> set (sync_jobs w). j_id (f j) = j_id j \<and> j_account_id (f j) = j_account_id j
          \<and> (j_status (f j) = j_status j
               \<or> (active (j_status (f j)) \<longrightarrow> active (j_status j)) \<and> j_id j \<notin> set (sync_queue w))))"

lemma closes_same: "sync_jobs w' = sync_jobs w \<Longrightarrow> sync_queue w' = sync_queue w \<Longrightarrow> closes w w'"
  unfolding closes_def by (rule exI [of _ id], rule exI [of _ "\<lambda>_. True"]) simp

lemma closes_ok:
  assumes "closes w w'" and "jobs_ok w"
  shows "jobs_ok w'"
proof -
  obtain f P where w': "sync_jobs w' = filter P (map f (sync_jobs w))" "sync_queue w' = sync_queue w"
    and f: "\<forall>j \<in> set (sync_jobs w). j_id (f j) = j_id j \<and> j_account_id (f j) = j_account_id j
          \<and> (j_status (f j) = j_status j
               \<or> (active (j_status (f j)) \<longrightarrow> active (j_status j)) \<and> j_id j \<notin> set (sync_queue w))"
    using assms(1) unfolding closes_def by blast
  have "map j_id (map f (sync_jobs w)) = map j_id (sync_jobs w)"
    using f by simp
  then have "pk j_id (map f (sync_jobs w))"
    using assms(2) unfolding jobs_ok_def pk_def by metis
  then have "pk j_id (sync_jobs w')"
    unfolding w' by (rule pk_filter)
  moreover have "one_active_job w'"
    unfolding one_active_job_eq w'
    using assms(2) f by (intro sync_q.at_most_one_filter sync_q.at_most_one_map)
      (auto simp: jobs_ok_def one_active_job_eq)
  ultimately show ?thesis
    using assms(2) f unfolding jobs_ok_def w' by fastforce
qed

lemma closes_upd_job:
  assumes "i \<notin> set (sync_queue w)"
    and "\<And>j. j \<in> set (sync_jobs w) \<Longrightarrow> j_id j = i \<Longrightarrow> j_id (f j) = j_id j \<and> j_account_id (f j) = j_account_id j
      \<and> (active (j_status (f j)) \<longrightarrow> active (j_status j))"
    and "sync_jobs w' = set_row j_id i f (sync_jobs w)" "sync_queue w' = sync_queue w"
  shows "closes w w'"
  unfolding closes_def assms(3,4) set_row_def
  using assms(1,2) by (intro exI [of _ "\<lambda>j. if j_id j = i then f j else j"] exI [of _ "\<lambda>_. True"]) auto

lemma closes_sublist:
  assumes "sync_jobs w' = filter P (sync_jobs w)" "sync_queue w' = sync_queue w"
  shows "closes w w'"
  unfolding closes_def assms by (rule exI [of _ id], rule exI [of _ P]) simp

section \<open>Each step keeps it\<close>

lemma submit_new_ok:
  assumes "jobs_ok w" and "fresh w i"
  shows "jobs_ok (submit_new i now aid src w)"
proof (cases rule: create_sync_job_cases [of i now aid src w])
  case busy
  with assms show ?thesis by (simp add: submit_new_def)
next
  case free
  have "one_active_job (submit_new i now aid src w)"
    using create_sync_job_one_active [of w i now aid src] assms(1) free(1)
    by (simp add: submit_new_def jobs_ok_def one_active_job_def)
  then show ?thesis
    using assms free(1) by (auto simp: submit_new_def jobs_ok_def fresh_def pk_append)
qed

lemma submit_new_fresh: "fresh w k \<Longrightarrow> k \<noteq> i \<Longrightarrow> fresh (submit_new i now aid src w) k"
  by (cases rule: create_sync_job_cases [of i now aid src w]) (auto simp: submit_new_def fresh_def)

text \<open>
  The tick uses one fresh id per account; an account that already got its job is refused by the
  guard, so each id is used once.
\<close>

definition busy :: "world \<Rightarrow> str \<Rightarrow> bool" where
  "busy w k = (\<exists>j \<in> set (sync_jobs w). j_account_id j = k \<and> active (j_status j))"

lemma submit_new_busy: "busy w k \<Longrightarrow> submit_new i now k src w = w"
  by (cases rule: create_sync_job_cases [of i now k src w]) (auto simp: submit_new_def busy_def)

lemma submit_new_makes_busy: "busy (submit_new i now k src w) k"
  by (cases rule: create_sync_job_cases [of i now k src w]) (auto simp: submit_new_def busy_def)

lemma submit_new_other_busy: "busy w k \<Longrightarrow> busy (submit_new i now aid src w) k"
  by (cases rule: create_sync_job_cases [of i now aid src w]) (auto simp: submit_new_def busy_def)

lemma expire_pause_cases:
  obtains "sync_jobs (expire_pause f now a w) = sync_jobs w" "sync_queue (expire_pause f now a w) = sync_queue w"
  | v where "sync_jobs v = sync_jobs w" "sync_queue v = sync_queue w"
      "expire_pause f now a w = submit_new (f (a_id a)) now (a_id a) ''scheduler'' v"
proof -
  let ?v = "upd_account (a_id a) lift_pause w"
  have "expire_pause f now a w \<in> {w, ?v, submit_new (f (a_id a)) now (a_id a) ''scheduler'' ?v}"
    by (simp add: expire_pause_def enqueue_submit Let_def split: option.split)
  then show ?thesis
    using that(1) that(2) [of ?v] by fastforce
qed

lemma jobs_ok_cong: "sync_jobs v = sync_jobs w \<Longrightarrow> sync_queue v = sync_queue w \<Longrightarrow> jobs_ok v = jobs_ok w"
  by (simp add: jobs_ok_def one_active_job_def)

lemma expire_pause_ok:
  assumes "jobs_ok w" and "\<And>k. fresh w (f k) \<or> busy w k" and "inj f"
  shows "jobs_ok (expire_pause f now a w) \<and> (\<forall>k. fresh (expire_pause f now a w) (f k) \<or> busy (expire_pause f now a w) k)"
proof (cases rule: expire_pause_cases [of f now a w])
  case 1
  then show ?thesis
    using assms jobs_ok_cong [OF 1] by (simp add: fresh_def busy_def)
next
  case (2 v)
  have v: "jobs_ok v" "\<And>k. fresh v (f k) \<or> busy v k"
    using assms(1,2) jobs_ok_cong [OF 2(1,2)] by (simp_all add: fresh_def busy_def 2(1,2))
  have "jobs_ok (submit_new (f (a_id a)) now (a_id a) src v)" for src
    using v submit_new_ok submit_new_busy by metis
  moreover have "fresh (submit_new (f (a_id a)) now (a_id a) src v) (f k) \<or> busy (submit_new (f (a_id a)) now (a_id a) src v) k" for k src
  proof (cases "k = a_id a")
    case True
    then show ?thesis using submit_new_makes_busy by blast
  next
    case False
    then have "f k \<noteq> f (a_id a)" using assms(3) by (auto dest: injD)
    then show ?thesis using v(2) [of k] submit_new_fresh submit_new_other_busy by blast
  qed
  ultimately show ?thesis unfolding 2(3) by blast
qed

lemma pause_tick_ok:
  assumes "jobs_ok w" and "\<And>k. fresh w (f k)" and "inj f"
  shows "jobs_ok (run_pause_expiry_tick f now w)"
proof -
  have "jobs_ok (fold (expire_pause f now) as v)" if "jobs_ok v" "\<And>k. fresh v (f k) \<or> busy v k" for as v
    using that
  proof (induction as arbitrary: v)
    case (Cons a as)
    show ?case
      using expire_pause_ok [OF Cons.prems assms(3), of now a] Cons.IH by simp
  qed simp
  then show ?thesis
    using assms(1,2) by (simp add: run_pause_expiry_tick_def)
qed

lemma scheduled_ok: "jobs_ok w \<Longrightarrow> fresh w i \<Longrightarrow> jobs_ok (run_scheduled_sync i now aid w)"
  by (simp add: run_scheduled_sync_def enqueue_submit submit_new_ok split: option.split)

lemma closes_map:
  assumes "sync_jobs w' = map f (sync_jobs w)" and "sync_queue w' = sync_queue w"
    and "\<And>j. j \<in> set (sync_jobs w) \<Longrightarrow> f j = j \<or> f j = close_interrupted now m j \<and> j_id j \<notin> set (sync_queue w)"
  shows "closes w w'"
proof -
  have "j_id (f j) = j_id j \<and> j_account_id (f j) = j_account_id j
      \<and> (j_status (f j) = j_status j \<or> (active (j_status (f j)) \<longrightarrow> active (j_status j)) \<and> j_id j \<notin> set (sync_queue w))"
    if "j \<in> set (sync_jobs w)" for j
    using assms(3) [OF that] by (auto simp: close_interrupted_def)
  moreover have "sync_jobs w' = filter (\<lambda>_. True) (map f (sync_jobs w))" using assms(1) by simp
  ultimately show ?thesis unfolding closes_def using assms(2) by blast
qed

lemma watchdog_ok: "jobs_ok w \<Longrightarrow> jobs_ok (snd (recover_stalled_sync_jobs now grace threshold w))"
proof (rule closes_ok)
  assume ok: "jobs_ok w"
  then have pk: "pk j_id (sync_jobs w)" by (simp add: jobs_ok_def)
  show "closes w (snd (recover_stalled_sync_jobs now grace threshold w))"
    using ok by (intro closes_map [OF stalled_rows [OF pk]]) (auto simp: jobs_ok_def)
qed

lemma recover_backup_frame [simp]:
  "sync_jobs (snd (recover_zombie_backup_jobs now w)) = sync_jobs w"
  "sync_queue (snd (recover_zombie_backup_jobs now w)) = sync_queue w"
  unfolding recover_zombie_backup_jobs_def
  by (simp_all add: sweep_frame [where g = sync_jobs] sweep_frame [where g = sync_queue]
      close_job_def upd_backup_job_def upd_policy_def Let_def split: option.split)

lemma reboot_ok:
  assumes "jobs_ok w"
  shows "jobs_ok (reboot now w)"
proof -
  let ?w = "w\<lparr>sync_rt := empty_sync_runtime, backup_rt := empty_backup_runtime, sync_queue := []\<rparr>"
  have ok: "jobs_ok ?w"
    using assms by (simp add: jobs_ok_def one_active_job_def)
  then have pk: "pk j_id (sync_jobs ?w)" by (simp add: jobs_ok_def)
  have "closes ?w (reboot now w)"
    by (rule closes_map [where f = "\<lambda>j. if (j_status j = running \<or> j_status j = pending) \<and> zombie_due ?w j
        then close_interrupted now zombie_marker j else j" and m = zombie_marker and now = now])
      (auto simp: reboot_def recover_zombie_jobs_def zombie_rows [OF pk])
  then show ?thesis using ok by (rule closes_ok)
qed

lemma sampler_tick_frame:
  "sync_jobs (snd (sampler_tick i aid base files now monot (st, w))) = sync_jobs w"
  "sync_queue (snd (sampler_tick i aid base files now monot (st, w))) = sync_queue w"
  by (simp_all add: sampler_tick_def Let_def split: option.split prod.split)

section \<open>A worker keeps it\<close>

text \<open>While job \<open>i\<close> runs it is not queued.\<close>

definition working :: "str \<Rightarrow> world \<Rightarrow> bool" where
  "working i w = (jobs_ok w \<and> i \<notin> set (sync_queue w))"

lemma working_cong: "working i w \<Longrightarrow> sync_jobs v = sync_jobs w \<Longrightarrow> sync_queue v = sync_queue w \<Longrightarrow> working i v"
  unfolding working_def using jobs_ok_cong by metis

lemma rt_stable_working: "rt_stable (working i)"
  unfolding rt_stable_def by (auto intro: working_cong)

lemma working_upd_job:
  assumes "working i w" and "\<And>j. j_id (f j) = j_id j \<and> j_account_id (f j) = j_account_id j
      \<and> (active (j_status (f j)) \<longrightarrow> active (j_status j))"
    and "sync_jobs w' = set_row j_id i f (sync_jobs w)" "sync_queue w' = sync_queue w"
  shows "working i w'"
proof -
  have "closes w w'"
    using assms by (intro closes_upd_job [OF _ _ assms(3,4)]) (simp_all add: working_def)
  with assms(1,4) closes_ok show ?thesis by (simp add: working_def)
qed

lemma queue_frames [simp]:
  "sync_queue (collect_account_stats env a w) = sync_queue w"
  "sync_queue (snd (cleanup_old_jobs aid k w)) = sync_queue w"
  "sync_queue (finish_paused kind t i a w) = sync_queue w"
  "sync_queue (finish_deadline cap i a w) = sync_queue w"
  "sync_queue (finish_stopped i a out w) = sync_queue w"
  "sync_queue (finish_error i a out w) = sync_queue w"
  "sync_queue (handle_fault env i a e w) = sync_queue w"
  "sync_queue (refuse_token now i a terminal w) = sync_queue w"
  "sync_queue (drop_markers i w) = sync_queue w"
  by (simp_all add: collect_account_stats_def cleanup_old_jobs_def finish_paused_def finish_deadline_def finish_stopped_def
      finish_error_def handle_fault_def refuse_token_def drop_markers_def Let_def split: list.split option.split)

lemma working_finish:
  assumes "working i w"
  shows "working i (finish_paused kind t i a w)" "working i (finish_deadline cap i a w)"
    "working i (finish_stopped i a out w)" "working i (finish_error i a out w)" "working i (handle_fault env i a e w)"
    "working i (refuse_token now i a terminal w)"
  by (rule working_upd_job [OF assms, rotated], rule sync_jobs_finish, simp, simp add: pause_job_def fail_job_def)+

lemma working_cleanup: "working i w \<Longrightarrow> working i (snd (cleanup_old_jobs aid k w))"
proof -
  assume w: "working i w"
  obtain P where "sync_jobs (snd (cleanup_old_jobs aid k w)) = filter P (sync_jobs w)"
  proof (cases "beyond j_account_id j_requested_at aid k (sync_jobs w) = []")
    case True
    then show ?thesis using that [of "\<lambda>_. True"] by (simp add: cleanup_old_jobs_def)
  next
    case False
    then show ?thesis using that by (simp add: cleanup_old_jobs_def Let_def prune_def)
  qed
  from closes_sublist [OF this] closes_ok w show ?thesis by (simp add: working_def)
qed

lemma working_completed: "working i w \<Longrightarrow> working i (finish_completed env i a d w)"
proof -
  assume "working i w"
  then have w1: "working i (upd_job i (\<lambda>j. j\<lparr>j_status := completed\<rparr>) w)"
    by (rule working_upd_job) simp_all
  show ?thesis
    unfolding finish_completed_def Let_def
    by (rule working_cleanup) (rule working_cong [OF w1]; simp)
qed

lemma working_finish_failed: "working i w \<Longrightarrow> working i (snd (finish_failed env i a out w))"
  by (cases rule: finish_failed_cases [of out a env w i]) (simp_all add: working_finish)

lemma working_finalise:
  assumes "working i w"
  shows "working i (snd (finalise env i a rc out w))"
proof -
  let ?r = "record_result env rc out (killed_signals (sync_rt w) i)"
  define w1 where "w1 = upd_rt (\<lambda>rt. rt\<lparr>budget_stops := budget_stops rt - {i}\<rparr>) w"
  define w2 where "w2 = upd_job i ?r (upd_rt (\<lambda>rt. rt\<lparr>killed_signals := (killed_signals rt)(i := None),
      deadline_stops := (deadline_stops rt)(i := None)\<rparr>) w1)"
  have w1: "working i w1"
    using working_cong [OF assms, of w1] by (simp add: w1_def)
  have w2: "working i w2"
    by (rule working_upd_job [OF assms, of ?r])
      (simp_all add: w2_def w1_def record_result_def split: prod.split)
  show ?thesis
  proof (cases "get_sync_job w1 i")
    case None
    then show ?thesis using w1 by (simp add: finalise_def Let_def w1_def)
  next
    case (Some job)
    have "j_status job \<noteq> running \<Longrightarrow> snd (finalise env i a rc out w) = w1"
      using Some by (simp add: finalise_def Let_def w1_def)
    moreover have "j_status job = running \<Longrightarrow> \<exists>c t d. snd (finalise env i a rc out w) \<in>
        {finish_completed env i a d w2, finish_paused ''budget_paused'' t i a w2, finish_deadline c i a w2,
         finish_stopped i a out w2, snd (finish_failed env i a out w2)}"
      using Some by (simp add: finalise_def Let_def w1_def w2_def) blast
    ultimately show ?thesis
      using w1 w2 working_finish [OF w2] working_completed [OF w2] working_finish_failed [OF w2]
      by (cases "j_status job = running") auto
  qed
qed

lemma working_run_and_close:
  assumes env: "env_preserves (working i) env" and w: "working i w"
  shows "working i (run_and_close env i a config cmds w)"
proof -
  obtain res w1 where run: "run_job env i a config cmds (start_run i (a_id a) w) = (res, w1)"
    by (cases "run_job env i a config cmds (start_run i (a_id a) w)")
  have "working i w1"
    using run_job_preserves [OF rt_stable_working env rt_stable_ops(5) [OF rt_stable_working w, of i "a_id a"], of i a config cmds] run
    by simp
  then have w2: "working i (end_run env i w1)"
    by (rule end_run_preserves [OF rt_stable_working env])
  obtain e w3 where g: "guarded_run env i a config cmds w = (e, w3)"
    by (cases "guarded_run env i a config cmds w")
  have "w3 = w \<or> w3 = end_run env i w1 \<or> (\<exists>rc out. w3 = snd (finalise env i a rc out (end_run env i w1)))"
    using g run by (auto simp: guarded_run_def Let_def split: option.splits sum.splits prod.splits) (metis snd_conv)+
  then have w3: "working i w3"
    using w w2 working_finalise by blast
  have drop: "working i v \<Longrightarrow> working i (drop_markers i v)" for v
    by (erule working_cong) simp_all
  show ?thesis
    using w3 working_finish(5) [OF w3] by (auto simp: run_and_close_def g intro!: drop split: option.split)
qed

lemma queue_decrypt: "sync_queue (snd (decrypt_account_credentials env a w)) = sync_queue w"
  by (simp add: decrypt_account_credentials_def split: option.split)

lemma queue_refresh: "sync_queue (snd (refresh_oauth_token env c a w)) = sync_queue w"
  by (simp add: refresh_oauth_token_def Let_def split: json_text.split sum.split)

lemma queue_acquire: "sync_queue (snd (acquire_credentials env i a w)) = sync_queue w"
proof -
  obtain res v where d: "decrypt_account_credentials env a w = (res, v)"
    by (cases "decrypt_account_credentials env a w")
  obtain tok terminal u where r: "refresh_oauth_token env (projr res) (a_id a) v = ((tok, terminal), u)"
    by (metis prod.collapse)
  have "sync_queue v = sync_queue w" "sync_queue u = sync_queue v"
    using queue_decrypt [of env a w] queue_refresh [of env "projr res" "a_id a" v] d r by simp_all
  then show ?thesis
    using r by (cases res) (simp_all add: acquire_credentials_def d split: option.split)
qed

lemma queue_initial_regime: "sync_queue (snd (initial_regime env a w)) = sync_queue w"
  by (auto simp: initial_regime_def Let_def split: sum.split option.split prod.split)

lemma working_started:
  assumes env: "env_preserves (working i) env" and w: "working i w"
  shows "working i (snd (run_started env i a w))"
proof (cases rule: acquire_cases [of env i a w])
  case (refused terminal v)
  then have "sync_queue v = sync_queue w" using queue_acquire [of env i a w] by simp
  moreover have "sync_jobs v = sync_jobs w" by (rule refused(2))
  ultimately have "working i v" by (intro working_cong [OF w])
  with refused show ?thesis by (simp add: run_started_def working_finish)
next
  case (fault e v)
  then have "sync_queue v = sync_queue w" using queue_acquire [of env i a w] by simp
  then have "working i v" using working_cong [OF w] fault by simp
  with fault show ?thesis by (simp add: run_started_def)
next
  case (ok pw tok v)
  then have "sync_queue v = sync_queue w" using queue_acquire [of env i a w] by simp
  then have v: "working i v" using working_cong [OF w] ok by simp
  obtain account u where u: "initial_regime env a v = (account, u)" by (cases "initial_regime env a v")
  have "working i u"
    using working_cong [OF v, of u] initial_regime_jobs [of env a v] queue_initial_regime [of env a v] u by simp
  with ok u show ?thesis
    using working_run_and_close [OF env]
    by (auto simp: run_started_def configure_and_run_def Let_def split: sum.splits)
qed

lemma work_ok:
  assumes ok: "jobs_ok w" and i: "i \<in> set (sync_queue w)" and env: "env_preserves (working i) env"
  shows "jobs_ok (snd (execute_sync_job env i (w\<lparr>sync_queue := remove1 i (sync_queue w)\<rparr>)))"
proof -
  let ?w = "w\<lparr>sync_queue := remove1 i (sync_queue w)\<rparr>"
  have w: "working i ?w"
    using ok by (auto simp: working_def jobs_ok_def one_active_job_def dest: notin_set_remove1)
  have fail: "working i (upd_job i (fail_job t m) ?w)" for t m
    by (rule working_upd_job [OF w]) (simp_all add: fail_job_def)
  have fail2: "working i (upd_account k f (upd_job i (fail_job t m) ?w))" for k f t m
    by (rule working_cong [OF fail]) simp_all
  have "working i (snd (execute_sync_job env i ?w))"
  proof (cases "get_sync_job ?w i")
    case None
    with w show ?thesis by (simp add: execute_sync_job_def)
  next
    case (Some job)
    have rows: "j_status j = pending" if "j \<in> set (sync_jobs w)" "j_id j = i" for j
      using ok i that by (auto simp: jobs_ok_def)
    have mark: "working i (mark_started env i a ?w)" for a
    proof -
      have "closes ?w (mark_started env i a ?w)"
        using w rows
        by (intro closes_upd_job [where i = i and f = "start_job (env_start env)"])
          (auto simp: mark_started_def working_def start_job_def)
      then show ?thesis using w closes_ok by (simp add: working_def mark_started_def)
    qed
    show ?thesis
      using Some fail fail2 working_started [OF env mark] by (simp add: execute_sync_job_def split: option.split)
  qed
  then show ?thesis by (simp add: working_def)
qed

lemma step_ok: "step w w' \<Longrightarrow> jobs_ok w \<longrightarrow> jobs_ok w'"
proof (induction rule: step.induct)
  case (work i w env)
  have "env_preserves (working i) env"
  proof (rule env_preserves_actors)
    fix f v assume f: "f \<in> env_actors env" and v: "working i v"
    from work.IH [OF f, of v] have "(\<lambda>a b. step a b \<and> (jobs_ok a \<longrightarrow> jobs_ok b))\<^sup>*\<^sup>* v (f v)"
      and "i \<in> set (sync_queue (f v)) \<longrightarrow> i \<in> set (sync_queue v)" by simp_all
    moreover from this(1) have "jobs_ok v \<longrightarrow> jobs_ok (f v)"
      by (induction rule: rtranclp_induct) simp_all
    ultimately show "working i (f v)" using v by (auto simp: working_def)
  qed
  with work.hyps show ?case using work_ok by blast
next
  case sample
  then show ?case using jobs_ok_cong [OF sampler_tick_frame] by blast
next
  case (stop w i)
  then show ?case using jobs_ok_cong [of "snd (stop_sync_job i w)" w] by simp
next
  case (edit w aid g)
  then show ?case using jobs_ok_cong [of "upd_account aid g w" w] by simp
qed (simp_all add: submit_new_ok scheduled_ok pause_tick_ok watchdog_ok reboot_ok)



end
