(* ===== verification/Access_Tokens.thy ===== *)
theory Access_Tokens
  imports Models "HOL-Library.Word" "HOL-Library.List_Lexorder" "HOL-Library.Char_ord"
begin

text \<open>
  Access tokens: \<open>services/app_credential_service.py\<close> and the three surfaces that accept one,
  \<open>dependencies.py\<close> (HTTP bearer requests and the session), \<open>mcp_auth.py\<close> (the MCP server) and
  the passdb endpoint of \<open>routers/dovecot.py\<close> (IMAP logins).

  The keyed hash \<open>mac key secret\<close> (HMAC-SHA256 in hexadecimal) is a parameter; the bytes that
  \<open>secrets.token_hex\<close> draws, the new row's id and the clock are arguments. A header or form
  value is a \<open>str\<close>; a session is the value of its \<open>user_id\<close> entry.
\<close>

section \<open>Strings and errors\<close>

fun split_on :: "char \<Rightarrow> str \<Rightarrow> str list" where
  "split_on c [] = [[]]"
| "split_on c (x # xs) =
    (if x = c then [] # split_on c xs
     else (case split_on c xs of [] \<Rightarrow> [[x]] | y # ys \<Rightarrow> (x # y) # ys))"

definition str_partition :: "char \<Rightarrow> str \<Rightarrow> str \<times> str" where
  "str_partition c s =
     (takeWhile (\<lambda>x. x \<noteq> c) s, case dropWhile (\<lambda>x. x \<noteq> c) s of [] \<Rightarrow> [] | _ # t \<Rightarrow> t)"

definition hex_digit :: "nat \<Rightarrow> char" where
  "hex_digit n = (if n < 10 then char_of (48 + n) else char_of (87 + n))"

definition token_hex :: "8 word list \<Rightarrow> str" where
  "token_hex bytes = concat (map (\<lambda>b. [hex_digit (unat b div 16), hex_digit (unat b mod 16)]) bytes)"

datatype http_error = HTTPException int str

datatype py_error = ValueError str | OverflowError | IntegrityError

text \<open>\<open>datetime.now(UTC) + timedelta(days=n)\<close>, with the ranges of the two types.\<close>

definition add_days :: "datetime \<Rightarrow> int \<Rightarrow> py_error + datetime" where
  "add_days now n =
     (if \<bar>n\<bar> > 999999999 then Inl OverflowError
      else if now + days n > 253402300799999999 \<or> now + days n < - 62135596800000000 then Inl OverflowError
      else Inr (now + days n))"

section \<open>Credentials\<close>

definition TOKEN_MARKER :: str where
  "TOKEN_MARKER = ''mfb_''"

definition SCOPE_IMAP :: str where "SCOPE_IMAP = ''imap''"
definition SCOPE_MAIL_READ :: str where "SCOPE_MAIL_READ = ''mail:read''"
definition SCOPE_SYNC_TRIGGER :: str where "SCOPE_SYNC_TRIGGER = ''sync:trigger''"

definition VALID_SCOPES :: "str list" where
  "VALID_SCOPES = [SCOPE_IMAP, SCOPE_MAIL_READ, SCOPE_SYNC_TRIGGER]"

datatype VerifyResult = V_ok | V_not_a_token | V_unknown | V_rejected

definition hash_token :: "(str \<Rightarrow> str \<Rightarrow> str) \<Rightarrow> str \<Rightarrow> str \<Rightarrow> str" where
  "hash_token mac secret secret_key = mac secret_key secret"

definition verify_token :: "(str \<Rightarrow> str \<Rightarrow> str) \<Rightarrow> str \<Rightarrow> str \<Rightarrow> str \<Rightarrow> bool" where
  "verify_token mac secret hashed secret_key = (hash_token mac secret secret_key = hashed)"

definition scope_set :: "AppCredential \<Rightarrow> str set" where
  "scope_set c = set (filter (\<lambda>s. s \<noteq> []) (split_on CHR '','' (c_scopes c)))"

definition credential_active :: "datetime \<Rightarrow> AppCredential \<Rightarrow> bool" where
  "credential_active now c =
     (if c_revoked_at c \<noteq> None then False
      else case c_expires_at c of None \<Rightarrow> True | Some expires \<Rightarrow> expires > now)"

definition upd_credential :: "str \<Rightarrow> (AppCredential \<Rightarrow> AppCredential) \<Rightarrow> world \<Rightarrow> world" where
  "upd_credential k f w = w\<lparr>app_credentials := set_row c_id k f (app_credentials w)\<rparr>"

definition new_credential ::
  "str \<Rightarrow> str \<Rightarrow> str \<Rightarrow> str \<Rightarrow> str \<Rightarrow> str \<Rightarrow> datetime option \<Rightarrow> datetime \<Rightarrow> AppCredential"
where
  "new_credential i user_id name pfx hash scopes expires now =
    \<lparr> c_id = i, c_user_id = user_id, c_name = name, c_token_prefix = pfx, c_secret_hash = hash,
      c_scopes = scopes, c_created_at = now, c_expires_at = expires, c_revoked_at = None,
      c_last_used_at = None, c_last_used_kind = None \<rparr>"

definition create_credential ::
  "(str \<Rightarrow> str \<Rightarrow> str) \<Rightarrow> str \<Rightarrow> str \<Rightarrow> 8 word list \<Rightarrow> 8 word list \<Rightarrow> datetime \<Rightarrow> User \<Rightarrow> str \<Rightarrow> str list \<Rightarrow> int option
   \<Rightarrow> world \<Rightarrow> (py_error + AppCredential \<times> str) \<times> world"
where
  "create_credential mac key i prefix_bytes secret_bytes now user name scopes ttl_days w =
    (let unknown = sort (remdups (filter (\<lambda>s. s \<notin> set VALID_SCOPES) scopes)) in
     if scopes = [] then (Inl (ValueError ''At least one scope is required''), w)
     else if unknown \<noteq> [] then (Inl (ValueError (''Unknown scope(s): '' @ join '', '' unknown)), w)
     else
       (let pfx = token_hex prefix_bytes; secret = token_hex secret_bytes;
            expiry = (case ttl_days of None \<Rightarrow> Inr None
              | Some n \<Rightarrow> if n = 0 then Inr None else map_sum (\<lambda>e. e) Some (add_days now n))
        in case expiry of
             Inl e \<Rightarrow> (Inl e, w)
           | Inr expires \<Rightarrow>
               (let cred = new_credential i (u_id user) name pfx (hash_token mac secret key)
                      (join '','' (sort (remdups scopes))) expires now
                in if \<exists>c \<in> set (app_credentials w). c_token_prefix c = pfx \<or> c_id c = i then (Inl IntegrityError, w)
                   else (Inr (cred, TOKEN_MARKER @ pfx @ ''_'' @ secret),
                         w\<lparr>app_credentials := app_credentials w @ [cred]\<rparr>))))"

definition list_credentials :: "world \<Rightarrow> User \<Rightarrow> AppCredential list" where
  "list_credentials w user =
     sort_key (\<lambda>c. - c_created_at c) (filter (\<lambda>c. c_user_id c = u_id user) (app_credentials w))"

definition revoke_credential :: "datetime \<Rightarrow> User \<Rightarrow> str \<Rightarrow> world \<Rightarrow> bool \<times> world" where
  "revoke_credential now user credential_id w =
    (case find (\<lambda>c. c_id c = credential_id \<and> c_user_id c = u_id user) (app_credentials w) of
       None \<Rightarrow> (False, w)
     | Some cred \<Rightarrow>
         if c_revoked_at cred = None
         then (True, upd_credential (c_id cred) (\<lambda>c. c\<lparr>c_revoked_at := Some now\<rparr>) w)
         else (True, w))"

definition token_split :: "str \<Rightarrow> (str \<times> str) option" where
  "token_split token =
    (if token = [] \<or> \<not> prefix TOKEN_MARKER token then None
     else
       (let (pfx, secret) = str_partition CHR ''_'' (drop (length TOKEN_MARKER) token) in
        if pfx = [] \<or> secret = [] then None else Some (pfx, secret)))"

definition verify_credential ::
  "(str \<Rightarrow> str \<Rightarrow> str) \<Rightarrow> str \<Rightarrow> datetime \<Rightarrow> str option \<Rightarrow> str \<Rightarrow> str option \<Rightarrow> str \<Rightarrow> world
   \<Rightarrow> (VerifyResult \<times> AppCredential option) \<times> world"
where
  "verify_credential mac key now username token required_scope kind w =
    (case token_split token of
       None \<Rightarrow> ((V_not_a_token, None), w)
     | Some (pfx, secret) \<Rightarrow>
        (case row c_token_prefix (app_credentials w) pfx of
           None \<Rightarrow> ((V_unknown, None), w)
         | Some cred \<Rightarrow>
            (case get_user w (c_user_id cred) of
               None \<Rightarrow> ((V_unknown, None), w)
             | Some user \<Rightarrow>
                if username \<noteq> None \<and> username \<noteq> Some (u_username user) then ((V_unknown, None), w)
                else if \<not> u_enabled user \<or> u_migrating user then ((V_rejected, None), w)
                else if \<not> credential_active now cred then ((V_rejected, None), w)
                else if required_scope \<noteq> None \<and> the required_scope \<notin> scope_set cred then ((V_rejected, None), w)
                else if \<not> verify_token mac secret (c_secret_hash cred) key then ((V_rejected, None), w)
                else
                  (let used = cred\<lparr>c_last_used_at := Some now, c_last_used_kind := Some kind\<rparr> in
                   ((V_ok, Some used),
                    upd_credential (c_id cred) (\<lambda>c. c\<lparr>c_last_used_at := Some now, c_last_used_kind := Some kind\<rparr>) w)))))"


section \<open>The surfaces\<close>

definition get_current_user :: "str option \<Rightarrow> world \<Rightarrow> http_error + User" where
  "get_current_user session w =
    (if \<not> truthy session then Inl (HTTPException 401 ''Not authenticated'')
     else case get_user w (the session) of
       None \<Rightarrow> Inl (HTTPException 401 ''User not found'')
     | Some user \<Rightarrow>
         if \<not> u_enabled user then Inl (HTTPException 403 ''Account disabled'') else Inr user)"

definition require_admin :: "http_error + User \<Rightarrow> http_error + User" where
  "require_admin current =
    (case current of
       Inl e \<Rightarrow> Inl e
     | Inr user \<Rightarrow>
         if u_role user \<noteq> Role_admin then Inl (HTTPException 403 ''Admin access required'') else Inr user)"

record Principal =
  pr_user :: User
  pr_credential :: "AppCredential option"
  pr_scopes :: "str set"

definition get_current_principal ::
  "(str \<Rightarrow> str \<Rightarrow> str) \<Rightarrow> str \<Rightarrow> datetime \<Rightarrow> str option \<Rightarrow> str option \<Rightarrow> world \<Rightarrow> (http_error + Principal) \<times> world"
where
  "get_current_principal mac key now authorization session w =
    (let header = (case authorization of None \<Rightarrow> [] | Some h \<Rightarrow> h);
         (scheme, rest) = str_partition CHR '' '' header
     in if lower scheme = ''bearer'' then
          (let ((result, cred), w) = verify_credential mac key now None (strip rest) None ''api'' w in
           case cred of
             None \<Rightarrow> (Inl (HTTPException 401 ''Invalid access token''), w)
           | Some c \<Rightarrow>
               if result \<noteq> V_ok then (Inl (HTTPException 401 ''Invalid access token''), w)
               else (case get_user w (c_user_id c) of
                       None \<Rightarrow> (Inl (HTTPException 500 ''Internal Server Error''), w)
                     | Some user \<Rightarrow>
                         (Inr \<lparr> pr_user = user, pr_credential = Some c, pr_scopes = scope_set c \<rparr>, w)))
        else
          (case get_current_user session w of
             Inl e \<Rightarrow> (Inl e, w)
           | Inr user \<Rightarrow> (Inr \<lparr> pr_user = user, pr_credential = None, pr_scopes = set VALID_SCOPES \<rparr>, w)))"

definition require_scope :: "str \<Rightarrow> http_error + Principal \<Rightarrow> http_error + Principal" where
  "require_scope scope caller =
    (case caller of
       Inl e \<Rightarrow> Inl e
     | Inr p \<Rightarrow>
         if scope \<notin> pr_scopes p then Inl (HTTPException 403 (''Access token lacks the '' @ scope @ '' scope''))
         else Inr p)"

text \<open>
  The owner of an accepted credential exists (\<open>verify_credential\<close> has just read it), so the two
  branches without an owner are never taken; lemma \<open>verify_ok_cases\<close> shows it.
\<close>

text \<open>What the MCP verifier tells the SDK about an accepted token.\<close>

record AccessToken =
  at_token :: str
  at_client_id :: str
  at_scopes :: "str list"
  at_subject :: str

definition mcp_verify_token ::
  "(str \<Rightarrow> str \<Rightarrow> str) \<Rightarrow> str \<Rightarrow> datetime \<Rightarrow> str \<Rightarrow> world \<Rightarrow> AccessToken option \<times> world"
where
  "mcp_verify_token mac key now token w =
    (let ((result, cred), w) = verify_credential mac key now None token None ''mcp'' w in
     case cred of
       None \<Rightarrow> (None, w)
     | Some c \<Rightarrow>
         if result \<noteq> V_ok then (None, w)
         else (case get_user w (c_user_id c) of
                 None \<Rightarrow> (None, w)
               | Some user \<Rightarrow>
                   (Some \<lparr> at_token = token, at_client_id = u_username user,
                           at_scopes = sort (remdups (filter (\<lambda>s. s \<noteq> []) (split_on CHR '','' (c_scopes c)))),
                           at_subject = u_id user \<rparr>, w)))"

definition mcp_require_scope :: "str \<Rightarrow> AccessToken option \<Rightarrow> str + str" where
  "mcp_require_scope scope token =
    (case token of
       None \<Rightarrow> Inl ''Not authenticated''
     | Some t \<Rightarrow>
         if scope \<notin> set (at_scopes t) then Inl (''This access token lacks the '' @ scope @ '' scope'')
         else Inr (at_subject t))"

definition verify_api_key :: "str option \<Rightarrow> str option \<Rightarrow> bool" where
  "verify_api_key configured x_api_key = (truthy x_api_key \<and> truthy configured \<and> x_api_key = configured)"

definition passdb_verify ::
  "(str \<Rightarrow> str \<Rightarrow> str) \<Rightarrow> str \<Rightarrow> str option \<Rightarrow> datetime \<Rightarrow> str option \<Rightarrow> str \<Rightarrow> str \<Rightarrow> str option \<Rightarrow> world
   \<Rightarrow> (http_error + unit) \<times> world"
where
  "passdb_verify mac key configured now x_api_key username password protocol w =
    (if \<not> verify_api_key configured x_api_key then (Inl (HTTPException 401 ''Invalid API key''), w)
     else
       (let ((result, cred), w) =
              verify_credential mac key now (Some username) password (Some SCOPE_IMAP) (str_or protocol ''imap'') w
        in case result of
             V_ok \<Rightarrow> (Inr (), w)
           | V_not_a_token \<Rightarrow> (Inl (HTTPException 404 ''No such access token''), w)
           | V_unknown \<Rightarrow> (Inl (HTTPException 404 ''No such access token''), w)
           | V_rejected \<Rightarrow> (Inl (HTTPException 401 ''Access token rejected''), w)))"

section \<open>Parsing what was printed\<close>

lemma hex_digits: "\<forall>n \<in> set [0..<16]. hex_digit n \<noteq> CHR ''_'' \<and> \<not> is_space (hex_digit n)"
  by code_simp

lemma hex_digit_plain [simp]: "n < 16 \<Longrightarrow> hex_digit n \<noteq> CHR ''_'' \<and> \<not> is_space (hex_digit n)"
  using hex_digits by (simp del: upt_rec_numeral upt_Suc)

lemma byte_div_16 [simp]: "unat (b :: 8 word) div 16 < 16"
proof -
  have "unat b < 2 ^ LENGTH(8)" by (rule unsigned_less)
  then show ?thesis by (simp add: less_mult_imp_div_less)
qed

lemma token_hex_chars: "x \<in> set (token_hex bs) \<Longrightarrow> x \<noteq> CHR ''_'' \<and> \<not> is_space x"
  by (auto simp: token_hex_def)

lemma length_token_hex [simp]: "length (token_hex bs) = 2 * length bs"
  by (induction bs) (simp_all add: token_hex_def)

lemma token_hex_eq_Nil [simp]: "token_hex bs = [] \<longleftrightarrow> bs = []"
  using length_token_hex [of bs] by (metis length_0_conv mult_is_0 zero_neq_numeral)

lemma str_partition_append: "c \<notin> set p \<Longrightarrow> str_partition c (p @ c # s) = (p, s)"
  by (induction p) (auto simp: str_partition_def)

lemma token_split_made:
  assumes "ps \<noteq> []" and "ss \<noteq> []"
  shows "token_split (TOKEN_MARKER @ token_hex ps @ ''_'' @ token_hex ss) = Some (token_hex ps, token_hex ss)"
proof -
  have "CHR ''_'' \<notin> set (token_hex ps)" using token_hex_chars by blast
  then show ?thesis
    using assms by (simp add: token_split_def TOKEN_MARKER_def str_partition_append)
qed

lemma split_on_nonempty [simp]: "split_on c s \<noteq> []"
  by (induction s) (auto split: list.split)

lemma split_on_plain: "c \<notin> set s \<Longrightarrow> split_on c s = [s]"
  by (induction s) auto

lemma split_on_append: "c \<notin> set s \<Longrightarrow> split_on c (s @ c # t) = s # split_on c t"
  by (induction s) (auto split: list.split)

lemma split_on_join:
  "xs \<noteq> [] \<Longrightarrow> \<forall>x \<in> set xs. c \<notin> set x \<Longrightarrow> split_on c (join [c] xs) = xs"
proof (induction xs rule: induct_list012)
  case (3 x y zs)
  then show ?case by (simp add: split_on_append)
qed (simp_all add: split_on_plain)

lemma valid_scope_chars: "s \<in> set VALID_SCOPES \<Longrightarrow> s \<noteq> [] \<and> CHR '','' \<notin> set s"
  by (auto simp: VALID_SCOPES_def SCOPE_IMAP_def SCOPE_MAIL_READ_def SCOPE_SYNC_TRIGGER_def)

lemma scope_set_stored:
  assumes "scopes \<noteq> []" and "set scopes \<subseteq> set VALID_SCOPES" and "c_scopes c = join '','' (sort (remdups scopes))"
  shows "scope_set c = set scopes"
proof -
  have "split_on CHR '','' (c_scopes c) = sort (remdups scopes)"
    unfolding assms(3) using assms(1,2) valid_scope_chars
    by (intro split_on_join) (auto simp flip: set_empty)
  then show ?thesis
    using assms(2) valid_scope_chars unfolding scope_set_def by auto
qed

section \<open>The ladder of checks\<close>

definition accepts ::
  "(str \<Rightarrow> str \<Rightarrow> str) \<Rightarrow> str \<Rightarrow> datetime \<Rightarrow> str option \<Rightarrow> str \<Rightarrow> str option \<Rightarrow> world \<Rightarrow> AppCredential \<Rightarrow> User \<Rightarrow> bool"
where
  "accepts mac key now username token scope w cred user =
    (case token_split token of
       None \<Rightarrow> False
     | Some (pfx, secret) \<Rightarrow>
         row c_token_prefix (app_credentials w) pfx = Some cred \<and> get_user w (c_user_id cred) = Some user
         \<and> (username = None \<or> username = Some (u_username user)) \<and> u_enabled user \<and> \<not> u_migrating user
         \<and> credential_active now cred \<and> (scope = None \<or> the scope \<in> scope_set cred)
         \<and> c_secret_hash cred = mac key secret)"

abbreviation used_by :: "datetime \<Rightarrow> str \<Rightarrow> AppCredential \<Rightarrow> AppCredential" where
  "used_by now kind cred \<equiv> cred\<lparr>c_last_used_at := Some now, c_last_used_kind := Some kind\<rparr>"

lemma verify_accepts:
  "accepts mac key now username token scope w cred user \<Longrightarrow>
   verify_credential mac key now username token scope kind w =
     ((V_ok, Some (used_by now kind cred)), upd_credential (c_id cred) (\<lambda>c. used_by now kind c) w)"
  by (auto simp: accepts_def verify_credential_def verify_token_def hash_token_def Let_def split: option.splits)

lemma verify_refuses:
  assumes "\<nexists>cred user. accepts mac key now username token scope w cred user"
  shows "\<exists>r. r \<noteq> V_ok \<and> verify_credential mac key now username token scope kind w = ((r, None), w)"
proof (cases "token_split token")
  case (Some ps)
  then show ?thesis
    using assms
    by (cases ps) (auto simp: accepts_def verify_credential_def verify_token_def hash_token_def Let_def
        split: option.splits)
qed (simp add: verify_credential_def)

lemma verify_cases:
  obtains (ok) cred user where "accepts mac key now username token scope w cred user"
      "verify_credential mac key now username token scope kind w =
        ((V_ok, Some (used_by now kind cred)), upd_credential (c_id cred) (\<lambda>c. used_by now kind c) w)"
  | (refused) r where "r \<noteq> V_ok" "\<nexists>cred user. accepts mac key now username token scope w cred user"
      "verify_credential mac key now username token scope kind w = ((r, None), w)"
  using verify_accepts verify_refuses by metis

lemma upd_credential_simps [simp]:
  "users (upd_credential k f w) = users w"
  "app_credentials (upd_credential k f w) = set_row c_id k f (app_credentials w)"
  by (simp_all add: upd_credential_def)

lemma used_by_scopes [simp]: "scope_set (used_by now kind cred) = scope_set cred"
  by (simp add: scope_set_def)

text \<open>
  Round trip of an access token. What \<open>create_credential\<close> returns is accepted, as the
  credential that was created, for its owner and for every one of its scopes, until it expires:
  the token parses back into its two parts, the scopes column back into the requested set, and
  only the keyed hash of the secret is stored.
\<close>

lemma token_round_trip:
  assumes create: "create_credential mac key i ps ss now user name scopes ttl w = (Inr (cred, token), w')"
    and random: "ps \<noteq> []" "ss \<noteq> []"
    and owner: "get_user w (u_id user) = Some user" "u_enabled user" "\<not> u_migrating user"
    and unexpired: "\<forall>e. c_expires_at cred = Some e \<longrightarrow> later < e"
    and scope: "scope = None \<or> the scope \<in> set scopes"
    and username: "username = None \<or> username = Some (u_username user)"
  shows "fst (verify_credential mac key later username token scope kind w')
      = (V_ok, Some (cred\<lparr>c_last_used_at := Some later, c_last_used_kind := Some kind\<rparr>))
    \<and> scope_set cred = set scopes \<and> set scopes \<subseteq> set VALID_SCOPES
    \<and> c_secret_hash cred = mac key (token_hex ss) \<and> c_user_id cred = u_id user"
proof -
  have w': "w' = w\<lparr>app_credentials := app_credentials w @ [cred]\<rparr>"
    and free: "c_token_prefix cred \<notin> c_token_prefix ` set (app_credentials w)"
    and token: "token = TOKEN_MARKER @ token_hex ps @ ''_'' @ token_hex ss"
    and cred: "c_token_prefix cred = token_hex ps" "c_secret_hash cred = mac key (token_hex ss)"
      "c_user_id cred = u_id user" "c_scopes cred = join '','' (sort (remdups scopes))" "c_revoked_at cred = None"
    and sc: "scopes \<noteq> []" "filter (\<lambda>s. s \<notin> set VALID_SCOPES) scopes = []"
    using create
    by (auto simp: create_credential_def new_credential_def hash_token_def Let_def simp flip: set_empty
        split: if_splits sum.splits)
  have valid: "set scopes \<subseteq> set VALID_SCOPES" using sc(2) by (auto simp: filter_empty_conv)
  have scopes: "scope_set cred = set scopes" by (rule scope_set_stored [OF sc(1) valid cred(4)])
  have "row c_token_prefix (app_credentials w') (token_hex ps) = Some cred"
    using free cred(1) row_None [of c_token_prefix "app_credentials w" "token_hex ps"] by (simp add: w' row_append)
  then have "accepts mac key later username token scope w' cred user"
    using owner scope username unexpired scopes cred
    by (auto simp: accepts_def token token_split_made [OF random, simplified] w' credential_active_def split: option.split)
  then show ?thesis
    using verify_accepts scopes valid cred by simp
qed

section \<open>Revocation\<close>

text \<open>
  The life of the credential table: tokens are issued (with a prefix that was never drawn before,
  \<open>issued\<close> collects them), revoked and used; users are edited in any way and deleted together
  with their credentials.
\<close>

inductive token_step :: "(str \<Rightarrow> str \<Rightarrow> str) \<Rightarrow> str \<Rightarrow> world \<times> str set \<Rightarrow> world \<times> str set \<Rightarrow> bool"
  for mac key
where
  issue: "token_hex ps \<notin> issued \<Longrightarrow>
    create_credential mac key i ps ss now user name scopes ttl w = (Inr (c, t), w') \<Longrightarrow>
    token_step mac key (w, issued) (w', insert (token_hex ps) issued)"
| revoke: "token_step mac key (w, issued) (snd (revoke_credential now user cid w), issued)"
| use: "token_step mac key (w, issued) (snd (verify_credential mac key now username token scope kind w), issued)"
| edit_users: "token_step mac key (w, issued) (w\<lparr>users := us\<rparr>, issued)"
| delete_user: "token_step mac key (w, issued)
    (w\<lparr>users := filter (\<lambda>u. u_id u \<noteq> k) (users w),
       app_credentials := filter (\<lambda>c. c_user_id c \<noteq> k) (app_credentials w)\<rparr>, issued)"

definition tokens_ok :: "world \<times> str set \<Rightarrow> bool" where
  "tokens_ok s = (pk c_id (app_credentials (fst s)) \<and> pk c_token_prefix (app_credentials (fst s))
     \<and> c_token_prefix ` set (app_credentials (fst s)) \<subseteq> snd s)"

definition dead_prefix :: "str \<Rightarrow> world \<times> str set \<Rightarrow> bool" where
  "dead_prefix p s = (p \<in> snd s \<and> (\<forall>c \<in> set (app_credentials (fst s)). c_token_prefix c = p \<longrightarrow> c_revoked_at c \<noteq> None))"

text \<open>Every step appends one fresh row, removes rows, or updates rows without touching their keys.\<close>

lemma token_step_shape:
  assumes "token_step mac key s s'"
  obtains (added) c where "app_credentials (fst s') = app_credentials (fst s) @ [c]"
      "c_id c \<notin> c_id ` set (app_credentials (fst s))" "c_token_prefix c \<notin> snd s"
      "snd s' = insert (c_token_prefix c) (snd s)"
  | (removed) P where "app_credentials (fst s') = filter P (app_credentials (fst s))" "snd s' = snd s"
  | (updated) k f where "app_credentials (fst s') = set_row c_id k f (app_credentials (fst s))" "snd s' = snd s"
      "\<And>c. c_id (f c) = c_id c \<and> c_token_prefix (f c) = c_token_prefix c
        \<and> (c_revoked_at c \<noteq> None \<longrightarrow> c_revoked_at (f c) \<noteq> None)"
  using assms
proof cases
  case (issue ps issued i ss now user name scopes ttl w c t w')
  then show ?thesis
    by (intro added [of c])
      (auto simp: create_credential_def new_credential_def Let_def split: if_splits sum.splits)
next
  case (revoke w issued now user cid)
  have "app_credentials (snd (revoke_credential now user cid w)) = app_credentials w \<or>
      (\<exists>k. app_credentials (snd (revoke_credential now user cid w))
        = set_row c_id k (\<lambda>c. c\<lparr>c_revoked_at := Some now\<rparr>) (app_credentials w))"
    by (auto simp: revoke_credential_def split: option.split)
  then show ?thesis
    using revoke removed [of "\<lambda>_. True"] updated [of _ "\<lambda>c. c\<lparr>c_revoked_at := Some now\<rparr>"] by auto
next
  case (use w issued now username token scope kind)
  show ?thesis
  proof (cases rule: verify_cases [of mac key now username token scope w kind])
    case (ok cred user)
    then show ?thesis using use updated [of "c_id cred" "used_by now kind"] by simp
  next
    case (refused r)
    then show ?thesis using use removed [of "\<lambda>_. True"] by simp
  qed
next
  case edit_users
  then show ?thesis using removed [of "\<lambda>_. True"] by simp
next
  case delete_user
  then show ?thesis using removed by simp
qed

lemma tokens_ok_step:
  assumes "token_step mac key s s'" and ok: "tokens_ok s"
  shows "tokens_ok s'"
  using assms(1)
proof (cases rule: token_step_shape)
  case (added c)
  then show ?thesis using ok by (auto simp: tokens_ok_def pk_append)
next
  case (removed P)
  then show ?thesis using ok by (auto simp: tokens_ok_def pk_filter)
next
  case (updated k f)
  then have "map c_id (app_credentials (fst s')) = map c_id (app_credentials (fst s))"
    "map c_token_prefix (app_credentials (fst s')) = map c_token_prefix (app_credentials (fst s))"
    by (simp_all add: map_set_row)
  moreover from this have "c_token_prefix ` set (app_credentials (fst s')) = c_token_prefix ` set (app_credentials (fst s))"
    by (metis set_map)
  ultimately show ?thesis
    using updated(2) ok by (simp add: tokens_ok_def pk_def)
qed

lemma dead_prefix_step:
  assumes "token_step mac key s s'" and "dead_prefix p s"
  shows "dead_prefix p s'"
  using assms(1)
  by (cases rule: token_step_shape) (use assms(2) in \<open>auto simp: dead_prefix_def set_row_def\<close>)

lemma dead_prefix_steps: "(token_step mac key)\<^sup>*\<^sup>* s s' \<Longrightarrow> dead_prefix p s \<Longrightarrow> dead_prefix p s'"
  by (induction rule: rtranclp_induct) (auto intro: dead_prefix_step)

lemma tokens_ok_steps: "(token_step mac key)\<^sup>*\<^sup>* s s' \<Longrightarrow> tokens_ok s \<Longrightarrow> tokens_ok s'"
  by (induction rule: rtranclp_induct) (auto intro: tokens_ok_step)

lemma dead_prefix_refused:
  assumes "dead_prefix p (w, issued)" and "token_split token = Some (p, secret)"
  shows "fst (fst (verify_credential mac key now username token scope kind w)) \<noteq> V_ok"
proof (cases rule: verify_cases [of mac key now username token scope w kind])
  case (ok cred user)
  then have "row c_token_prefix (app_credentials w) p = Some cred" "c_revoked_at cred = None"
    using assms(2) by (simp_all add: accepts_def credential_active_def split: if_splits)
  then show ?thesis
    using assms(1) row_SomeD [of c_token_prefix "app_credentials w" p cred] by (auto simp: dead_prefix_def)
qed simp

lemma revoked_prefix_dead:
  assumes ok: "tokens_ok (w, issued)" and rev: "revoke_credential now user cid w = (True, w')"
    and c: "c \<in> set (app_credentials w)" "c_id c = cid"
  shows "dead_prefix (c_token_prefix c) (w', issued)"
proof -
  obtain d where d: "find (\<lambda>c. c_id c = cid \<and> c_user_id c = u_id user) (app_credentials w) = Some d"
    using rev by (auto simp: revoke_credential_def split: option.splits)
  then have "d \<in> set (app_credentials w)" "c_id d = cid" by (auto simp: find_Some_iff)
  then have "d = c"
    using ok c by (auto simp: tokens_ok_def pk_def distinct_map inj_on_def)
  have same: "y = c" if "y \<in> set (app_credentials w)" "c_token_prefix y = c_token_prefix c" for y
    using ok c that by (auto simp: tokens_ok_def pk_def distinct_map inj_on_def)
  have "c_revoked_at x \<noteq> None" if x: "x \<in> set (app_credentials w')" "c_token_prefix x = c_token_prefix c" for x
  proof (cases "c_revoked_at c = None")
    case True
    then have w': "app_credentials w' = set_row c_id (c_id c) (\<lambda>c. c\<lparr>c_revoked_at := Some now\<rparr>) (app_credentials w)"
      using d \<open>d = c\<close> rev by (auto simp: revoke_credential_def)
    then obtain y where y: "y \<in> set (app_credentials w)" "x = (if c_id y = c_id c then y\<lparr>c_revoked_at := Some now\<rparr> else y)"
      using x(1) by (auto simp: set_row_def)
    then have "y = c" using same x(2) by (simp split: if_splits)
    with y show ?thesis by simp
  next
    case False
    then have "w' = w" using d \<open>d = c\<close> rev by (auto simp: revoke_credential_def)
    then have "x = c" using same x by simp
    with False show ?thesis by simp
  qed
  then show ?thesis
    using ok c by (auto simp: dead_prefix_def tokens_ok_def)
qed

lemma bearer_header: "str_partition CHR '' '' (''Bearer '' @ token) = (''Bearer'', token)" "lower ''Bearer'' = ''bearer''"
  using str_partition_append [of "CHR '' ''" "''Bearer''" token] by simp code_simp

text \<open>
  C8. A revoked token is dead for good: in every state the system reaches after its owner
  revoked it, by any sequence of issuing, revoking and using tokens, editing and deleting users,
  and at any time, no surface accepts a token with its prefix, whatever secret, user name, scope
  or protocol comes with it; the HTTP bearer and the MCP surface answer as for an invalid token.
\<close>

theorem revoked_token_never_verifies:
  assumes start: "(token_step mac key)\<^sup>*\<^sup>* (w0, {}) (w, issued)" "app_credentials w0 = []"
    and c: "c \<in> set (app_credentials w)"
    and revoked: "revoke_credential t0 user (c_id c) w = (True, w1)"
    and later: "(token_step mac key)\<^sup>*\<^sup>* (w1, issued) (w2, issued2)"
    and token: "token_split token = Some (c_token_prefix c, secret)" "strip token = token"
  shows "fst (fst (verify_credential mac key now username token scope kind w2)) \<noteq> V_ok
    \<and> fst (get_current_principal mac key now (Some (''Bearer '' @ token)) session w2)
        = Inl (HTTPException 401 ''Invalid access token'')
    \<and> fst (mcp_verify_token mac key now token w2) = None
    \<and> (fst (passdb_verify mac key conf now api_key name token protocol w2) \<noteq> Inr ())"
proof -
  have "tokens_ok (w0, {})" using start(2) by (simp add: tokens_ok_def pk_def)
  then have "tokens_ok (w, issued)" by (rule tokens_ok_steps [OF start(1)])
  then have "dead_prefix (c_token_prefix c) (w2, issued2)"
    using revoked_prefix_dead [OF _ revoked c] dead_prefix_steps [OF later] by blast
  then have "fst (fst (verify_credential mac key now u token s k w2)) \<noteq> V_ok" for u s k
    by (rule dead_prefix_refused [OF _ token(1)])
  then have "\<exists>r. r \<noteq> V_ok \<and> verify_credential mac key now u token s k w2 = ((r, None), w2)" for u s k
    using verify_cases [of mac key now u token s w2 k] by (metis fst_conv)
  then obtain r where r: "r u s k \<noteq> V_ok" "verify_credential mac key now u token s k w2 = ((r u s k, None), w2)" for u s k
    by metis
  then show ?thesis
    by (simp add: mcp_verify_token_def passdb_verify_def get_current_principal_def Let_def
        bearer_header [simplified] token(2) split: VerifyResult.split)
qed

section \<open>The three surfaces\<close>

lemma accepts_owner: "accepts mac key now n t sc w c u \<Longrightarrow> get_user w (c_user_id c) = Some u"
  by (auto simp: accepts_def split: option.splits)

lemma accepts_named:
  "accepts mac key now (Some n) t (Some sc) w c u
    \<longleftrightarrow> accepts mac key now None t None w c u \<and> u_username u = n \<and> sc \<in> scope_set c"
  by (auto simp: accepts_def split: option.splits)

lemma bearer_accepts:
  assumes "strip token = token"
  shows "fst (get_current_principal mac key now (Some (''Bearer '' @ token)) session w) = Inr p \<longleftrightarrow>
    (\<exists>c u. accepts mac key now None token None w c u
       \<and> p = \<lparr> pr_user = u, pr_credential = Some (used_by now ''api'' c), pr_scopes = scope_set c \<rparr>)"
proof (cases rule: verify_cases [of mac key now None token None w "''api''"])
  case (ok c u)
  then have "accepts mac key now None token None w c' u' \<longleftrightarrow> c' = c \<and> u' = u" for c' u'
    by (auto simp: accepts_def split: option.splits)
  with ok accepts_owner [OF ok(1)] assms show ?thesis
    by (auto simp: get_current_principal_def bearer_header [simplified])
next
  case (refused r)
  with assms show ?thesis by (simp add: get_current_principal_def bearer_header [simplified])
qed

lemma mcp_accepts:
  "fst (mcp_verify_token mac key now token w) = Some t \<longleftrightarrow>
    (\<exists>c u. accepts mac key now None token None w c u
       \<and> t = \<lparr> at_token = token, at_client_id = u_username u,
             at_scopes = sort (remdups (filter (\<lambda>s. s \<noteq> []) (split_on CHR '','' (c_scopes c)))), at_subject = u_id u \<rparr>)"
proof (cases rule: verify_cases [of mac key now None token None w "''mcp''"])
  case (ok c u)
  then have "accepts mac key now None token None w c' u' \<longleftrightarrow> c' = c \<and> u' = u" for c' u'
    by (auto simp: accepts_def split: option.splits)
  with ok accepts_owner [OF ok(1)] show ?thesis
    by (auto simp: mcp_verify_token_def)
next
  case (refused r)
  then show ?thesis by (simp add: mcp_verify_token_def)
qed

lemma passdb_accepts:
  "fst (passdb_verify mac key conf now api_key name token protocol w) = Inr () \<longleftrightarrow>
    verify_api_key conf api_key \<and> (\<exists>c u. accepts mac key now (Some name) token (Some SCOPE_IMAP) w c u)"
proof (cases rule: verify_cases [of mac key now "Some name" token "Some SCOPE_IMAP" w "str_or protocol ''imap''"])
  case (ok c u)
  then show ?thesis by (auto simp: passdb_verify_def)
next
  case (refused r)
  then show ?thesis by (auto simp: passdb_verify_def split: VerifyResult.split)
qed

text \<open>
  C17. One credential model, three surfaces. The HTTP bearer request and the MCP server accept
  the same tokens, for the same user and with the same scopes; the IMAP passdb accepts exactly
  those of them that belong to the login name and carry the imap scope. A bearer request never
  falls back to the session it arrives with.
\<close>

theorem surfaces_agree:
  assumes "strip token = token" and "pk u_id (users w)" and "pk u_username (users w)"
    and "user \<in> set (users w)" and "verify_api_key conf api_key"
  shows "((\<exists>p. fst (get_current_principal mac key now (Some (''Bearer '' @ token)) session w) = Inr p
            \<and> pr_user p = user \<and> pr_scopes p = S)
        \<longleftrightarrow> (\<exists>t. fst (mcp_verify_token mac key now token w) = Some t \<and> at_subject t = u_id user \<and> set (at_scopes t) = S))
    \<and> (fst (passdb_verify mac key conf now api_key (u_username user) token protocol w) = Inr ()
        \<longleftrightarrow> (\<exists>p. fst (get_current_principal mac key now (Some (''Bearer '' @ token)) session w) = Inr p
              \<and> pr_user p = user \<and> SCOPE_IMAP \<in> pr_scopes p))
    \<and> get_current_principal mac key now (Some (''Bearer '' @ token)) session w
        = get_current_principal mac key now (Some (''Bearer '' @ token)) session' w"
proof -
  have user: "u = user \<longleftrightarrow> u_id u = u_id user" "u = user \<longleftrightarrow> u_username u = u_username user"
    if "accepts mac key now None token None w c u" for c u
    using accepts_owner [OF that] row_SomeD [of u_id "users w" "c_user_id c" u] assms(2-4)
    by (auto simp: pk_def distinct_map dest: inj_onD)
  have scopes: "set (sort (remdups (filter (\<lambda>s. s \<noteq> []) (split_on CHR '','' (c_scopes c))))) = scope_set c" for c
    by (simp add: scope_set_def)
  let ?acc = "accepts mac key now None token None w"
  let ?bearer = "\<lambda>p. fst (get_current_principal mac key now (Some (''Bearer '' @ token)) session w) = Inr p"
  have bearer: "(\<exists>p. ?bearer p \<and> pr_user p = user \<and> Q (pr_scopes p)) \<longleftrightarrow> (\<exists>c. ?acc c user \<and> Q (scope_set c))" for Q
    unfolding bearer_accepts [OF assms(1)] by force
  have mcp: "(\<exists>t. fst (mcp_verify_token mac key now token w) = Some t \<and> at_subject t = u_id user \<and> set (at_scopes t) = S)
      \<longleftrightarrow> (\<exists>c. ?acc c user \<and> scope_set c = S)"
  proof
    assume "\<exists>t. fst (mcp_verify_token mac key now token w) = Some t \<and> at_subject t = u_id user \<and> set (at_scopes t) = S"
    then obtain c u where "?acc c u" "u_id u = u_id user" "scope_set c = S"
      unfolding mcp_accepts using scopes by auto
    then show "\<exists>c. ?acc c user \<and> scope_set c = S" using user(1) by metis
  next
    assume "\<exists>c. ?acc c user \<and> scope_set c = S"
    then show "\<exists>t. fst (mcp_verify_token mac key now token w) = Some t \<and> at_subject t = u_id user \<and> set (at_scopes t) = S"
      unfolding mcp_accepts using scopes by fastforce
  qed
  have passdb: "fst (passdb_verify mac key conf now api_key (u_username user) token protocol w) = Inr ()
      \<longleftrightarrow> (\<exists>c. ?acc c user \<and> SCOPE_IMAP \<in> scope_set c)"
    unfolding passdb_accepts accepts_named using assms(5) user(2) by metis
  show ?thesis
    unfolding mcp passdb bearer [where Q = "\<lambda>s. s = S"] bearer [where Q = "\<lambda>s. SCOPE_IMAP \<in> s"]
    by (simp add: get_current_principal_def bearer_header [simplified])
qed

section \<open>Witnesses\<close>

definition tok_user :: User where
  "tok_user = \<lparr> u_id = ''u1'', u_username = ''ann'', u_password_hash = None, u_role = Role_user, u_oidc_subject = None,
     u_enabled = True, u_created_at = 0, u_store_id = ''s1'', u_migrating = False, u_preferences = [] \<rparr>"

definition tok_world :: world where
  "tok_world = empty_world\<lparr>users := [tok_user]\<rparr>"

definition toy_mac :: "str \<Rightarrow> str \<Rightarrow> str" where
  "toy_mac key secret = rev secret @ key"

definition tok_made :: "(py_error + AppCredential \<times> str) \<times> world" where
  "tok_made = create_credential toy_mac ''k'' ''c1'' [18, 171] [7] 5 tok_user ''laptop'' [''imap'', ''mail:read''] None tok_world"

definition tok_cred :: AppCredential where
  "tok_cred = new_credential ''c1'' ''u1'' ''laptop'' ''12ab'' (toy_mac ''k'' ''07'') ''imap,mail:read'' None 5"

lemma tok_strings: "token_hex [18, 171] = ''12ab''" "token_hex [7] = ''07''" "token_hex [18, 171] \<noteq> []"
  "filter (\<lambda>s. s \<notin> set VALID_SCOPES) [''imap'', ''mail:read''] = []"
  "sort (remdups [''imap'', ''mail:read'']) = [''imap'', ''mail:read'']"
  by code_simp+

lemma tok_made_eq: "tok_made = (Inr (tok_cred, ''mfb_12ab_07''), tok_world\<lparr>app_credentials := [tok_cred]\<rparr>)"
  unfolding tok_made_def create_credential_def tok_strings
  by (simp add: Let_def hash_token_def tok_cred_def TOKEN_MARKER_def tok_world_def empty_world_def tok_user_def)

lemmas tok_created = tok_made_eq [unfolded tok_made_def]

lemma tok_facts: "get_user tok_world (u_id tok_user) = Some tok_user" "u_enabled tok_user" "\<not> u_migrating tok_user"
  "u_username tok_user = ''ann''" "c_expires_at tok_cred = None" "c_id tok_cred = ''c1''" "c_token_prefix tok_cred = ''12ab''"
  "token_split ''mfb_12ab_07'' = Some (''12ab'', ''07'')" "strip ''mfb_12ab_07'' = ''mfb_12ab_07''"
  "app_credentials tok_world = []"
  by code_simp+

theorem revoked_token_never_verifies_witness:
  "fst (fst (verify_credential toy_mac ''k'' 9 None ''mfb_12ab_07'' None ''api''
     (snd (revoke_credential 7 tok_user ''c1'' (snd tok_made))))) \<noteq> V_ok"
proof -
  have "token_step toy_mac ''k'' (tok_world, {}) (snd tok_made, insert (token_hex [18, 171]) {})"
    using token_step.issue [OF _ tok_created, of "{}"] by (simp add: tok_made_eq)
  then have start: "(token_step toy_mac ''k'')\<^sup>*\<^sup>* (tok_world, {}) (snd tok_made, insert (token_hex [18, 171]) {})"
    by (rule r_into_rtranclp)
  have rev: "revoke_credential 7 tok_user (c_id tok_cred) (snd tok_made)
      = (True, snd (revoke_credential 7 tok_user ''c1'' (snd tok_made)))"
    by (simp add: tok_made_eq revoke_credential_def tok_cred_def new_credential_def tok_user_def)
  let ?s = "(snd (revoke_credential 7 tok_user ''c1'' (snd tok_made)), insert (token_hex [18, 171]) {})"
  have later: "(token_step toy_mac ''k'')\<^sup>*\<^sup>* ?s ?s" by simp
  have "tok_cred \<in> set (app_credentials (snd tok_made))" by (simp add: tok_made_eq)
  from revoked_token_never_verifies [OF start tok_facts(10) this rev later, of "''mfb_12ab_07''" "''07''"]
  show ?thesis by (simp add: tok_facts)
qed

theorem surfaces_agree_witness:
  "fst (passdb_verify toy_mac ''k'' (Some ''key'') 6 (Some ''key'') ''ann'' ''mfb_12ab_07'' None (snd tok_made)) = Inr ()
    \<and> (\<exists>p. fst (get_current_principal toy_mac ''k'' 6 (Some ''Bearer mfb_12ab_07'') None (snd tok_made)) = Inr p \<and> pr_user p = tok_user)"
proof -
  have api: "verify_api_key (Some ''key'') (Some ''key'')" by (simp add: verify_api_key_def)
  have users: "pk u_id (users (snd tok_made))" "pk u_username (users (snd tok_made))" "tok_user \<in> set (users (snd tok_made))"
    by (simp_all add: tok_made_eq tok_world_def pk_def)
  have pass: "fst (passdb_verify toy_mac ''k'' (Some ''key'') 6 (Some ''key'') (u_username tok_user) ''mfb_12ab_07'' None (snd tok_made)) = Inr ()"
    unfolding tok_made_eq by code_simp
  with surfaces_agree [OF tok_facts(9) users api, of toy_mac "''k''" 6 None _ None None] show ?thesis
    by (auto simp: tok_facts)
qed

end
