(* ===== verification/Access.thy ===== *)
theory Access
  imports Access_Tokens Scheduler Folder_Reconcile
begin

text \<open>
  Who sees and who changes which mailbox: \<open>services/account_service.py\<close>, \<open>services/group_service.py\<close>
  with the gr form of \<open>routers/ui_admin.py\<close>, the access list of \<open>services/search_service.py\<close> with
  the guards of the agent API and of the MCP server, and the namespaces \<open>routers/dovecot.py\<close>
  publishes to the IMAP server. The association tables are lists of id pairs:
  \<open>account_owners\<close> (account, user), \<open>account_groups\<close> (account, gr), \<open>group_members\<close> (gr, user).
\<close>

section \<open>Visibility\<close>

definition owned_ids :: "world \<Rightarrow> str \<Rightarrow> str list" where
  "owned_ids w uid = map fst (filter (\<lambda>p. snd p = uid) (account_owners w))"

definition group_account_ids :: "world \<Rightarrow> str \<Rightarrow> str list" where
  "group_account_ids w uid =
     map fst (filter (\<lambda>(aid, gid). (gid, uid) \<in> set (group_members w)) (account_groups w))"

definition get_own_accounts :: "world \<Rightarrow> User \<Rightarrow> Account list" where
  "get_own_accounts w user =
     (let all_ids = owned_ids w (u_id user) @ group_account_ids w (u_id user)
      in if all_ids = [] then [] else filter (\<lambda>a. a_id a \<in> set all_ids) (accounts w))"

definition get_accounts_for_user :: "world \<Rightarrow> User \<Rightarrow> Account list" where
  "get_accounts_for_user w user =
     (if u_role user = Role_admin then accounts w else get_own_accounts w user)"

definition is_account_owner :: "world \<Rightarrow> User \<Rightarrow> Account \<Rightarrow> bool" where
  "is_account_owner w user account = ((a_id account, u_id user) \<in> set (account_owners w))"

definition get_account_for :: "world \<Rightarrow> str \<Rightarrow> User \<Rightarrow> Account option" where
  "get_account_for w account_id user =
    (case get_account w account_id of
       None \<Rightarrow> None
     | Some account \<Rightarrow>
         if u_role user = Role_admin then Some account
         else if is_account_owner w user account then Some account
         else if account_id \<in> set (group_account_ids w (u_id user)) then Some account
         else None)"

definition get_account_for_modify :: "world \<Rightarrow> str \<Rightarrow> User \<Rightarrow> Account option" where
  "get_account_for_modify w account_id user =
    (case get_account w account_id of
       None \<Rightarrow> None
     | Some account \<Rightarrow>
         if u_role user = Role_admin then Some account
         else if is_account_owner w user account then Some account
         else None)"

definition accessible_account_ids :: "world \<Rightarrow> User \<Rightarrow> str list" where
  "accessible_account_ids w user =
     remdups (filter (\<lambda>i. i \<in> a_id ` set (accounts w))
       (owned_ids w (u_id user) @ group_account_ids w (u_id user)))"

definition agent_account :: "world \<Rightarrow> User \<Rightarrow> str \<Rightarrow> http_error + Account" where
  "agent_account w user account_id =
     (if account_id \<notin> set (accessible_account_ids w user) then Inl (HTTPException 404 ''Mailbox not found'')
      else case get_account w account_id of
        None \<Rightarrow> Inl (HTTPException 404 ''Mailbox not found'') | Some account \<Rightarrow> Inr account)"

definition mcp_account :: "world \<Rightarrow> User \<Rightarrow> str \<Rightarrow> str + Account" where
  "mcp_account w user account_id =
     (if account_id \<notin> set (accessible_account_ids w user) then Inl ''No such mailbox''
      else case get_account w account_id of None \<Rightarrow> Inl ''No such mailbox'' | Some account \<Rightarrow> Inr account)"

section \<open>Accounts\<close>

text \<open>A keyword argument of \<open>update_account\<close>: a column and its value; other columns are \<open>F_other\<close>.\<close>

datatype account_field =
    F_name str | F_email_address str | F_provider str | F_imap_host str | F_imap_port int
  | F_credentials "str option" | F_imap_user "str option" | F_tls_type str
  | F_maildir_path str | F_sync_schedule "str option" | F_extra_config "json_text option"
  | F_sync_state SyncState | F_last_error "str option" | F_store_id str | F_enabled bool | F_suspended bool
  | F_migrating bool | F_sync_paused_until "datetime option" | F_pause_reason "str option"
  | F_daily_sync_budget_mb "int option" | F_other str

fun field_name :: "account_field \<Rightarrow> str" where
  "field_name (F_name _) = ''name''"
| "field_name (F_email_address _) = ''email_address''"
| "field_name (F_provider _) = ''provider''"
| "field_name (F_imap_host _) = ''imap_host''"
| "field_name (F_imap_port _) = ''imap_port''"
| "field_name (F_credentials _) = ''credentials''"
| "field_name (F_imap_user _) = ''imap_user''"
| "field_name (F_tls_type _) = ''tls_type''"
| "field_name (F_maildir_path _) = ''maildir_path''"
| "field_name (F_sync_schedule _) = ''sync_schedule''"
| "field_name (F_extra_config _) = ''extra_config''"
| "field_name (F_sync_state _) = ''sync_state''"
| "field_name (F_last_error _) = ''last_error''"
| "field_name (F_store_id _) = ''store_id''"
| "field_name (F_enabled _) = ''enabled''"
| "field_name (F_suspended _) = ''suspended''"
| "field_name (F_migrating _) = ''migrating''"
| "field_name (F_sync_paused_until _) = ''sync_paused_until''"
| "field_name (F_pause_reason _) = ''pause_reason''"
| "field_name (F_daily_sync_budget_mb _) = ''daily_sync_budget_mb''"
| "field_name (F_other s) = s"

fun setattr :: "account_field \<Rightarrow> Account \<Rightarrow> Account" where
  "setattr (F_name v) a = a\<lparr>a_name := v\<rparr>"
| "setattr (F_email_address v) a = a\<lparr>a_email_address := v\<rparr>"
| "setattr (F_provider v) a = a\<lparr>a_provider := v\<rparr>"
| "setattr (F_imap_host v) a = a\<lparr>a_imap_host := v\<rparr>"
| "setattr (F_imap_port v) a = a\<lparr>a_imap_port := v\<rparr>"
| "setattr (F_credentials v) a = a\<lparr>a_credentials := v\<rparr>"
| "setattr (F_imap_user v) a = a\<lparr>a_imap_user := v\<rparr>"
| "setattr (F_tls_type v) a = a\<lparr>a_tls_type := v\<rparr>"
| "setattr (F_maildir_path v) a = a\<lparr>a_maildir_path := v\<rparr>"
| "setattr (F_sync_schedule v) a = a\<lparr>a_sync_schedule := v\<rparr>"
| "setattr (F_extra_config v) a = a\<lparr>a_extra_config := v\<rparr>"
| "setattr (F_sync_state v) a = a\<lparr>a_sync_state := v\<rparr>"
| "setattr (F_last_error v) a = a\<lparr>a_last_error := v\<rparr>"
| "setattr (F_store_id v) a = a\<lparr>a_store_id := v\<rparr>"
| "setattr (F_enabled v) a = a\<lparr>a_enabled := v\<rparr>"
| "setattr (F_suspended v) a = a\<lparr>a_suspended := v\<rparr>"
| "setattr (F_migrating v) a = a\<lparr>a_migrating := v\<rparr>"
| "setattr (F_sync_paused_until v) a = a\<lparr>a_sync_paused_until := v\<rparr>"
| "setattr (F_pause_reason v) a = a\<lparr>a_pause_reason := v\<rparr>"
| "setattr (F_daily_sync_budget_mb v) a = a\<lparr>a_daily_sync_budget_mb := v\<rparr>"
| "setattr (F_other s) a = a"

definition UPDATABLE_ACCOUNT_FIELDS :: "str list" where
  "UPDATABLE_ACCOUNT_FIELDS =
    [''name'', ''email_address'', ''imap_host'', ''imap_port'', ''sync_schedule'', ''credentials'', ''provider'',
     ''tls_type'', ''extra_config'', ''enabled'', ''suspended'', ''imap_user'', ''daily_sync_budget_mb'']"

fun encrypted_field :: "(str \<Rightarrow> str) \<Rightarrow> account_field \<Rightarrow> account_field" where
  "encrypted_field enc (F_credentials (Some c)) = F_credentials (Some (enc c))"
| "encrypted_field enc f = f"

text \<open>
  The result \<open>Inl\<close> is the exception of a malformed cron text in \<open>refresh_scheduler\<close>, raised
  after the commit. \<open>enc\<close> is the cipher, \<open>repos\<close> the repositories with a configuration backup.
\<close>

definition refreshed ::
  "(trigger \<Rightarrow> bool) \<Rightarrow> str list \<Rightarrow> 'r \<Rightarrow> world \<Rightarrow> sched \<Rightarrow> (py_error + 'r) \<times> world \<times> sched"
where
  "refreshed cron_ok repos result w s =
     (let (ok, s') = refresh_scheduler cron_ok repos w s
      in (if ok then Inr result else Inl (ValueError ''cron''), w, s'))"

definition update_account ::
  "(str \<Rightarrow> str) \<Rightarrow> (trigger \<Rightarrow> bool) \<Rightarrow> str list \<Rightarrow> str \<Rightarrow> User \<Rightarrow> account_field list \<Rightarrow> world \<Rightarrow> sched
   \<Rightarrow> (py_error + Account option) \<times> world \<times> sched"
where
  "update_account enc cron_ok repos account_id user kwargs w s =
    (case get_account_for_modify w account_id user of
       None \<Rightarrow> (Inr None, w, s)
     | Some account \<Rightarrow>
         let kwargs = map (encrypted_field enc) kwargs;
             change = fold (\<lambda>f a. if field_name f \<in> set UPDATABLE_ACCOUNT_FIELDS then setattr f a else a) kwargs
         in refreshed cron_ok repos (Some (change account)) (upd_account account_id change w) s)"

definition derive_maildir_path :: "str \<Rightarrow> str \<Rightarrow> str" where
  "derive_maildir_path store_path account_id =
     rev (dropWhile (\<lambda>c. c = CHR ''/'') (rev store_path)) @ ''/'' @ account_id"

definition create_account ::
  "(str \<Rightarrow> str) \<Rightarrow> (trigger \<Rightarrow> bool) \<Rightarrow> str list \<Rightarrow> str \<Rightarrow> datetime \<Rightarrow> str \<Rightarrow> str \<Rightarrow> int \<Rightarrow> AuthType \<Rightarrow> MailStore
   \<Rightarrow> str option \<Rightarrow> str option \<Rightarrow> str \<Rightarrow> str \<Rightarrow> world \<Rightarrow> sched \<Rightarrow> (py_error + Account) \<times> world \<times> sched"
where
  "create_account enc cron_ok repos i now name host port auth store creds schedule email provider w s =
    (let account = new_account i name email provider host port auth
           (if truthy creds then Some (enc (the creds)) else None) (st_id store)
           (derive_maildir_path (st_path store) i) schedule now
     in if i \<in> a_id ` set (accounts w) \<or> a_maildir_path account \<in> a_maildir_path ` set (accounts w)
        then (Inl IntegrityError, w, s)
        else refreshed cron_ok repos account (w\<lparr>accounts := accounts w @ [account]\<rparr>) s)"

definition assign_owner :: "str \<Rightarrow> str \<Rightarrow> world \<Rightarrow> (py_error + unit) \<times> world" where
  "assign_owner account_id user_id w =
    (case (get_account w account_id, get_user w user_id) of
       (Some account, Some user) \<Rightarrow>
         if is_account_owner w user account then (Inr (), w)
         else (Inr (), w\<lparr>account_owners := account_owners w @ [(account_id, user_id)]\<rparr>)
     | _ \<Rightarrow> (Inl (ValueError ''Account or user not found''), w))"

definition remove_owner :: "str \<Rightarrow> str \<Rightarrow> world \<Rightarrow> world" where
  "remove_owner account_id user_id w =
    (case (get_account w account_id, get_user w user_id) of
       (Some account, Some user) \<Rightarrow>
         w\<lparr>account_owners := filter (\<lambda>p. p \<noteq> (account_id, user_id)) (account_owners w)\<rparr>
     | _ \<Rightarrow> w)"

text \<open>
  \<open>db.delete(account)\<close>: the association rows go, the sync jobs are deleted with the account
  (\<open>cascade\<close>), the backup jobs by the database (\<open>passive_deletes\<close>). The relationships to the
  backup policies and to the recoveries have neither option, so SQLAlchemy, as it documents,
  sets their \<open>account_id\<close> to NULL, which the columns do not allow. The foreign keys of a store
  migration and of a restore job have no \<open>ON DELETE\<close> action, so a row of either keeps the account
  too. The tables with \<open>ON DELETE CASCADE\<close> (staged and indexed messages, attached prefixes) lose
  the rows of the account.
\<close>

definition account_in_use :: "world \<Rightarrow> str \<Rightarrow> bool" where
  "account_in_use w i =
    ((\<exists>p \<in> set (backup_policies w). bp_account_id p = i) \<or> (\<exists>r \<in> set (recoveries w). r_account_id r = i)
     \<or> (\<exists>m \<in> set (store_migrations w). mg_account_id m = Some i)
     \<or> (\<exists>j \<in> set (restore_jobs w). rj_source_account_id j = i \<or> rj_target_account_id j = i))"

definition delete_account ::
  "(trigger \<Rightarrow> bool) \<Rightarrow> str list \<Rightarrow> str \<Rightarrow> bool \<Rightarrow> world \<Rightarrow> sched
   \<Rightarrow> (py_error + bool \<times> str option) \<times> world \<times> sched"
where
  "delete_account cron_ok repos account_id delete_files w s =
    (case get_account w account_id of
       None \<Rightarrow> (Inr (False, None), w, s)
     | Some account \<Rightarrow>
         let removed = (if delete_files \<and> a_maildir_path account \<noteq> [] then Some (a_maildir_path account) else None)
         in if account_in_use w account_id then (Inl IntegrityError, w, s)
            else refreshed cron_ok repos (True, removed)
              (w\<lparr>accounts := filter (\<lambda>a. a_id a \<noteq> account_id) (accounts w),
                 account_owners := filter (\<lambda>p. fst p \<noteq> account_id) (account_owners w),
                 account_groups := filter (\<lambda>p. fst p \<noteq> account_id) (account_groups w),
                 sync_jobs := filter (\<lambda>j. j_account_id j \<noteq> account_id) (sync_jobs w),
                 backup_jobs := filter (\<lambda>j. bj_account_id j \<noteq> account_id) (backup_jobs w),
                 repo_attachments := filter (\<lambda>t. ra_account_id t \<noteq> account_id) (repo_attachments w),
                 staging_messages := filter (\<lambda>m. sg_source_account_id m \<noteq> account_id) (staging_messages w),
                 index_messages := filter (\<lambda>m. mi_account_id m \<noteq> account_id) (index_messages w)\<rparr>) s)"

section \<open>Groups\<close>

abbreviation get_group :: "world \<Rightarrow> str \<Rightarrow> Group option" where
  "get_group w \<equiv> row g_id (groups w)"

definition create_group :: "str \<Rightarrow> datetime \<Rightarrow> str \<Rightarrow> str \<Rightarrow> bool \<Rightarrow> world \<Rightarrow> (py_error + Group) \<times> world" where
  "create_group i now name owner_id sso_sync w =
    (let gr = \<lparr> g_id = i, g_name = name, g_owner_id = owner_id, g_sso_sync = sso_sync, g_created_at = now \<rparr>
     in if i \<in> g_id ` set (groups w) \<or> name \<in> g_name ` set (groups w) \<or> owner_id \<notin> u_id ` set (users w)
        then (Inl IntegrityError, w) else (Inr gr, w\<lparr>groups := groups w @ [gr]\<rparr>))"

text \<open>The two updatable columns; a new name must be free (the column is unique).\<close>

datatype group_field = G_name str | G_sso_sync bool | G_other str

fun set_group_field :: "group_field \<Rightarrow> Group \<Rightarrow> Group" where
  "set_group_field (G_name v) g = g\<lparr>g_name := v\<rparr>"
| "set_group_field (G_sso_sync v) g = g\<lparr>g_sso_sync := v\<rparr>"
| "set_group_field (G_other _) g = g"

definition update_group :: "str \<Rightarrow> group_field list \<Rightarrow> world \<Rightarrow> (py_error + Group option) \<times> world" where
  "update_group group_id kwargs w =
    (case get_group w group_id of
       None \<Rightarrow> (Inr None, w)
     | Some gr \<Rightarrow>
         let gr' = fold set_group_field kwargs gr
         in if \<exists>g \<in> set (groups w). g_id g \<noteq> group_id \<and> g_name g = g_name gr' then (Inl IntegrityError, w)
            else (Inr (Some gr'), w\<lparr>groups := set_row g_id group_id (\<lambda>_. gr') (groups w)\<rparr>))"

definition delete_group :: "str \<Rightarrow> world \<Rightarrow> bool \<times> world" where
  "delete_group group_id w =
    (case get_group w group_id of
       None \<Rightarrow> (False, w)
     | Some gr \<Rightarrow>
         (True, w\<lparr>groups := filter (\<lambda>g. g_id g \<noteq> group_id) (groups w),
                  group_members := filter (\<lambda>p. fst p \<noteq> group_id) (group_members w),
                  account_groups := filter (\<lambda>p. snd p \<noteq> group_id) (account_groups w)\<rparr>))"

definition add_member :: "str \<Rightarrow> str \<Rightarrow> world \<Rightarrow> world" where
  "add_member group_id user_id w =
    (if get_group w group_id \<noteq> None \<and> get_user w user_id \<noteq> None \<and> (group_id, user_id) \<notin> set (group_members w)
     then w\<lparr>group_members := group_members w @ [(group_id, user_id)]\<rparr> else w)"

definition remove_member :: "str \<Rightarrow> str \<Rightarrow> world \<Rightarrow> world" where
  "remove_member group_id user_id w =
    (if get_group w group_id \<noteq> None \<and> get_user w user_id \<noteq> None
     then w\<lparr>group_members := filter (\<lambda>p. p \<noteq> (group_id, user_id)) (group_members w)\<rparr> else w)"

text \<open>Assigning a relationship keeps the pairs that stay, drops the others and adds the new ones.\<close>

definition replace_pairs :: "('a \<Rightarrow> bool) \<Rightarrow> 'a list \<Rightarrow> 'a list \<Rightarrow> 'a list" where
  "replace_pairs mine new t =
     filter (\<lambda>p. \<not> mine p \<or> p \<in> set new) t @ remdups (filter (\<lambda>p. p \<notin> set t) new)"

definition set_group_accounts :: "str \<Rightarrow> str list \<Rightarrow> world \<Rightarrow> world" where
  "set_group_accounts group_id account_ids w =
    (case get_group w group_id of
       None \<Rightarrow> w
     | Some gr \<Rightarrow>
         w\<lparr>account_groups := replace_pairs (\<lambda>p. snd p = group_id)
             (map (\<lambda>a. (a_id a, group_id)) (filter (\<lambda>a. a_id a \<in> set account_ids) (accounts w))) (account_groups w)\<rparr>)"

definition set_group_members :: "str \<Rightarrow> str list \<Rightarrow> world \<Rightarrow> world" where
  "set_group_members group_id member_ids w =
     w\<lparr>group_members := replace_pairs (\<lambda>p. fst p = group_id)
         (map (\<lambda>u. (group_id, u_id u)) (filter (\<lambda>u. u_id u \<in> set member_ids) (users w))) (group_members w)\<rparr>"

definition get_user_groups :: "world \<Rightarrow> User \<Rightarrow> Group list" where
  "get_user_groups w user = filter (\<lambda>g. (g_id g, u_id user) \<in> set (group_members w)) (groups w)"

definition can_manage_group :: "User \<Rightarrow> Group \<Rightarrow> bool" where
  "can_manage_group user gr = (u_role user = Role_admin \<or> u_id user = g_owner_id gr)"

definition sync_sso_group :: "User \<Rightarrow> str list \<Rightarrow> Group \<Rightarrow> (str \<times> str) list \<Rightarrow> (str \<times> str) list" where
  "sync_sso_group user sso_group_names gr members =
    (let is_member = ((g_id gr, u_id user) \<in> set members);
         should_be_member = (g_name gr \<in> set sso_group_names)
     in if should_be_member \<and> \<not> is_member then members @ [(g_id gr, u_id user)]
        else if \<not> should_be_member \<and> is_member then filter (\<lambda>p. p \<noteq> (g_id gr, u_id user)) members
        else members)"

definition sync_sso_groups :: "User \<Rightarrow> str list \<Rightarrow> world \<Rightarrow> world" where
  "sync_sso_groups user sso_group_names w =
     w\<lparr>group_members := fold (sync_sso_group user sso_group_names) (filter g_sso_sync (groups w)) (group_members w)\<rparr>"

text \<open>
  The group form: an administrator replaces members and accounts, another manager only the part
  of the accounts he owns himself.
\<close>

definition admin_edit_group :: "User option \<Rightarrow> str \<Rightarrow> str list \<Rightarrow> str list \<Rightarrow> bool \<Rightarrow> world \<Rightarrow> world" where
  "admin_edit_group session_user group_id member_ids account_ids sso_sync w =
    (case (session_user, get_group w group_id) of
       (Some user, Some gr) \<Rightarrow>
         if \<not> can_manage_group user gr then w
         else if u_role user = Role_admin then
           (let w = snd (update_group group_id [G_sso_sync sso_sync] w);
                w = set_group_members group_id member_ids w
            in set_group_accounts group_id account_ids w)
         else
           (let owned = owned_ids w (u_id user);
                safe_account_ids = filter (\<lambda>i. i \<in> set owned) account_ids;
                non_owned_ids = filter (\<lambda>i. i \<notin> set owned)
                  (map fst (filter (\<lambda>p. snd p = group_id) (account_groups w)))
            in set_group_accounts group_id (safe_account_ids @ non_owned_ids) w)
     | _ \<Rightarrow> w)"

section \<open>What Dovecot publishes\<close>

text \<open>
  \<open>re.sub\<close> replaces one character at a time: the continuation bytes of a multi-byte character
  disappear with its first byte.
\<close>

definition sanitize_path_component :: "str \<Rightarrow> str" where
  "sanitize_path_component name = concat (map (\<lambda>c.
     let n = (of_char c :: nat) in
     if 128 \<le> n \<and> n < 192 then []
     else if (97 \<le> n \<and> n \<le> 122) \<or> (65 \<le> n \<and> n \<le> 90) \<or> (48 \<le> n \<and> n \<le> 57) \<or> c \<in> set ''@._-'' then [c]
     else ''_'') name)"

definition dovecot_home_dir :: "str \<Rightarrow> str \<Rightarrow> str" where
  "dovecot_home_dir store_path username =
     rev (dropWhile (\<lambda>c. c = CHR ''/'') (rev store_path)) @ ''/.dovecot-home/'' @ sanitize_path_component username"

definition account_namespace_prefix :: "Account \<Rightarrow> str" where
  "account_namespace_prefix account =
     a_name account @ '' ('' @ a_email_address account @ '') ['' @ last_chars 4 (a_id account) @ '']/''"

definition date_text :: "datetime \<Rightarrow> str" where
  "date_text t = (let (y, m, d) = civil_from_days (utc_date t) in pad4 y @ ''-'' @ pad2 m @ ''-'' @ pad2 d)"

definition recovery_namespace_prefix :: "Recovery \<Rightarrow> str \<Rightarrow> str" where
  "recovery_namespace_prefix rec account_label =
     ''Recovery - '' @ account_label @ '' (''
     @ (case r_restored_at rec of None \<Rightarrow> ''snapshot'' | Some t \<Rightarrow> date_text t) @ '') ['' @ take 8 (r_id rec) @ '']/''"

record Namespace =
  ns_name :: str
  ns_prefix :: str
  ns_mail_path :: str
  ns_inbox :: bool

record Userdb =
  db_home :: str
  db_namespaces :: "Namespace list"

text \<open>\<open>ORDER BY restored_at DESC\<close> and \<open>ORDER BY created_at\<close>, as PostgreSQL orders missing values.\<close>

definition newest_recoveries :: "Recovery list \<Rightarrow> Recovery list" where
  "newest_recoveries rs = filter (\<lambda>r. r_restored_at r = None) rs
     @ sort_key (\<lambda>r. - the (r_restored_at r)) (filter (\<lambda>r. r_restored_at r \<noteq> None) rs)"

definition oldest_accounts :: "Account list \<Rightarrow> Account list" where
  "oldest_accounts as = sort_key (\<lambda>a. the (a_created_at a)) (filter (\<lambda>a. a_created_at a \<noteq> None) as)
     @ filter (\<lambda>a. a_created_at a = None) as"

fun unique_recoveries :: "(str \<times> str) list \<Rightarrow> Recovery list \<Rightarrow> Recovery list" where
  "unique_recoveries seen [] = []"
| "unique_recoveries seen (rec # recs) =
    (let key = (r_account_id rec, r_snapshot_id rec)
     in if key \<in> set seen then unique_recoveries seen recs else rec # unique_recoveries (key # seen) recs)"

definition account_namespaces :: "Account list \<Rightarrow> Namespace list" where
  "account_namespaces accts = map (\<lambda>(i, account).
     \<lparr> ns_name = ''acc_'' @ a_id account, ns_prefix = account_namespace_prefix account,
       ns_mail_path = a_maildir_path account, ns_inbox = (i = 0) \<rparr>) (enumerate 0 accts)"

definition recovery_namespaces :: "Account list \<Rightarrow> Recovery list \<Rightarrow> Namespace list" where
  "recovery_namespaces accts recs = concat (map (\<lambda>rec.
     case row a_id accts (r_account_id rec) of
       None \<Rightarrow> []
     | Some src \<Rightarrow>
         [\<lparr> ns_name = ''rec_'' @ r_id rec, ns_prefix = recovery_namespace_prefix rec (a_name src),
            ns_mail_path = r_restore_path rec, ns_inbox = False \<rparr>]) recs)"

definition userdb_accounts :: "world \<Rightarrow> User \<Rightarrow> Account list" where
  "userdb_accounts w user =
    (let ids = owned_ids w (u_id user) @ group_account_ids w (u_id user);
         all_accounts = oldest_accounts (filter (\<lambda>a. a_id a \<in> set ids) (accounts w))
     in filter (\<lambda>a. a_enabled a \<and> \<not> a_suspended a
          \<and> (case row st_id (mail_stores w) (a_store_id a) of None \<Rightarrow> False | Some st \<Rightarrow> st_enabled st)) all_accounts)"

definition userdb_recoveries :: "world \<Rightarrow> Account list \<Rightarrow> Recovery list" where
  "userdb_recoveries w accts =
    (if accts = [] then []
     else unique_recoveries [] (newest_recoveries
       (filter (\<lambda>r. r_account_id r \<in> a_id ` set accts \<and> r_status r = RS_ready) (recoveries w))))"

definition userdb_lookup :: "str option \<Rightarrow> str option \<Rightarrow> str \<Rightarrow> world \<Rightarrow> http_error + Userdb" where
  "userdb_lookup configured x_api_key username w =
    (if \<not> verify_api_key configured x_api_key then Inl (HTTPException 401 ''Invalid API key'')
     else case row u_username (users w) username of
       None \<Rightarrow> Inl (HTTPException 404 ''User not found'')
     | Some user \<Rightarrow>
        if \<not> u_enabled user \<or> u_migrating user then Inl (HTTPException 404 ''User not found'')
        else (case row st_id (mail_stores w) (u_store_id user) of
            None \<Rightarrow> Inl (HTTPException 500 ''Internal Server Error'')
          | Some store \<Rightarrow>
             let accts = userdb_accounts w user; recs = userdb_recoveries w accts
             in Inr \<lparr> db_home = dovecot_home_dir (st_path store) username,
                      db_namespaces = account_namespaces accts @ recovery_namespaces accts recs \<rparr>))"

section \<open>One notion of visibility\<close>

definition may_see :: "world \<Rightarrow> User \<Rightarrow> Account \<Rightarrow> bool" where
  "may_see w user a = ((a_id a, u_id user) \<in> set (account_owners w)
     \<or> (\<exists>g. (a_id a, g) \<in> set (account_groups w) \<and> (g, u_id user) \<in> set (group_members w)))"

lemma set_owned_ids: "i \<in> set (owned_ids w uid) \<longleftrightarrow> (i, uid) \<in> set (account_owners w)"
  by (force simp: owned_ids_def)

lemma set_group_account_ids:
  "i \<in> set (group_account_ids w uid) \<longleftrightarrow> (\<exists>g. (i, g) \<in> set (account_groups w) \<and> (g, uid) \<in> set (group_members w))"
  by (force simp: group_account_ids_def)

lemmas ids_defs = set_owned_ids set_group_account_ids

lemma own_accounts: "a \<in> set (get_own_accounts w user) \<longleftrightarrow> a \<in> set (accounts w) \<and> may_see w user a"
proof -
  have "set (owned_ids w (u_id user) @ group_account_ids w (u_id user)) = {} \<longleftrightarrow>
      owned_ids w (u_id user) @ group_account_ids w (u_id user) = []"
    by simp
  then show ?thesis
    unfolding get_own_accounts_def Let_def may_see_def ids_defs [symmetric]
    by (auto split: if_splits)
qed

lemma accessible_ids:
  "i \<in> set (accessible_account_ids w user) \<longleftrightarrow> (\<exists>a \<in> set (accounts w). a_id a = i \<and> may_see w user a)"
  unfolding accessible_account_ids_def may_see_def by (auto simp: ids_defs)

lemma agent_account_Inr:
  assumes "pk a_id (accounts w)"
  shows "agent_account w user i = Inr a \<longleftrightarrow> a \<in> set (get_own_accounts w user) \<and> a_id a = i"
proof
  assume "agent_account w user i = Inr a"
  then have i: "i \<in> set (accessible_account_ids w user)" and "get_account w i = Some a"
    by (simp_all add: agent_account_def split: if_splits option.splits)
  then have a: "a \<in> set (accounts w)" "a_id a = i" by (auto dest: row_SomeD)
  moreover have "may_see w user a"
    using i a(2) unfolding accessible_ids by (auto simp: may_see_def)
  ultimately show "a \<in> set (get_own_accounts w user) \<and> a_id a = i" by (simp add: own_accounts)
next
  assume "a \<in> set (get_own_accounts w user) \<and> a_id a = i"
  then have a: "a \<in> set (accounts w)" "may_see w user a" "a_id a = i" by (simp_all add: own_accounts)
  then have "i \<in> set (accessible_account_ids w user)" unfolding accessible_ids by blast
  moreover have "get_account w i = Some a" using row_SomeI [OF assms a(1)] a(3) by simp
  ultimately show "agent_account w user i = Inr a" by (simp add: agent_account_def)
qed

lemma account_views:
  assumes "pk a_id (accounts w)"
  shows "(get_account_for w i user = Some a \<longleftrightarrow> a \<in> set (get_accounts_for_user w user) \<and> a_id a = i)
    \<and> set (accessible_account_ids w user) = a_id ` set (get_own_accounts w user)
    \<and> (agent_account w user i = Inr a \<longleftrightarrow> a \<in> set (get_own_accounts w user) \<and> a_id a = i)
    \<and> (agent_account w user i = Inr a \<longleftrightarrow> mcp_account w user i = Inr a)
    \<and> (agent_account w user i \<in> {Inl (HTTPException 404 ''Mailbox not found'')} \<union> range Inr)
    \<and> set (get_own_accounts w user) \<subseteq> set (get_accounts_for_user w user)
    \<and> (get_account_for_modify w i user \<in> {None, get_account_for w i user})"
proof -
  have row: "get_account w i = Some a \<longleftrightarrow> a \<in> set (accounts w) \<and> a_id a = i" for i a
    using row_SomeI [OF assms, of a] row_SomeD [of a_id "accounts w" i a] by auto
  have "get_account_for w i user = Some a \<longleftrightarrow>
      a \<in> set (accounts w) \<and> a_id a = i \<and> (u_role user = Role_admin \<or> may_see w user a)" for a
  proof (cases "get_account w i")
    case None
    then show ?thesis using row [of i a] by (auto simp: get_account_for_def)
  next
    case (Some b)
    then have b: "a_id b = i" "a \<in> set (accounts w) \<and> a_id a = i \<longleftrightarrow> a = b"
      using row [of i b] row [of i a] by auto
    have "get_account_for w i user = (if u_role user = Role_admin \<or> may_see w user b then Some b else None)"
      unfolding get_account_for_def may_see_def is_account_owner_def by (simp add: Some ids_defs b(1))
    then show ?thesis using b(2) by auto
  qed
  then have one: "get_account_for w i user = Some a \<longleftrightarrow> a \<in> set (get_accounts_for_user w user) \<and> a_id a = i"
    by (auto simp: get_accounts_for_user_def own_accounts)
  have "set (accessible_account_ids w user) = a_id ` set (get_own_accounts w user)"
    unfolding set_eq_iff accessible_ids image_iff Bex_def own_accounts by auto
  moreover have "mcp_account w user i = Inr a \<longleftrightarrow> agent_account w user i = Inr a"
    by (simp add: mcp_account_def agent_account_def split: option.split)
  moreover have "agent_account w user i \<in> {Inl (HTTPException 404 ''Mailbox not found'')} \<union> range Inr"
    by (simp add: agent_account_def split: option.split)
  moreover have "set (get_own_accounts w user) \<subseteq> set (get_accounts_for_user w user)"
    by (auto simp: get_accounts_for_user_def own_accounts)
  moreover have "get_account_for_modify w i user \<in> {None, get_account_for w i user}"
    by (simp add: get_account_for_modify_def get_account_for_def split: option.split)
  ultimately show ?thesis
    using one agent_account_Inr [OF assms, of user i a] by simp
qed


section \<open>Groups share only what their manager owns\<close>

lemma set_replace_pairs:
  "set (replace_pairs mine new t) = {p \<in> set t. \<not> mine p} \<union> set new \<inter> set t \<union> (set new - set t)"
  by (auto simp: replace_pairs_def)

lemma group_accounts_pairs:
  assumes "get_group w gid \<noteq> None"
  shows "(i, g) \<in> set (account_groups (set_group_accounts gid ids w)) \<longleftrightarrow>
    (if g = gid then i \<in> set ids \<and> i \<in> a_id ` set (accounts w) else (i, g) \<in> set (account_groups w))"
  using assms by (auto simp: set_group_accounts_def set_replace_pairs)

lemma set_group_accounts_frame [simp]:
  "group_members (set_group_accounts gid ids w) = group_members w"
  "account_owners (set_group_accounts gid ids w) = account_owners w"
  "accounts (set_group_accounts gid ids w) = accounts w"
  "groups (set_group_accounts gid ids w) = groups w"
  by (simp_all add: set_group_accounts_def split: option.split)

text \<open>
  The group form cannot be used to look into other people's mail: after a manager who is no
  administrator has submitted it, with whatever lists, a user sees a mailbox he did not see
  before only if the manager owns that mailbox; members, owners and the other groups are as
  before, and the mailboxes other owners put into the group stay in it.
\<close>

lemma group_edit_shares_own_accounts:
  assumes "u_role manager \<noteq> Role_admin"
    and edit: "w' = admin_edit_group (Some manager) gid member_ids account_ids sso w"
    and fk: "fst ` set (account_groups w) \<subseteq> a_id ` set (accounts w)"
  shows "(\<forall>a \<in> set (accounts w). may_see w' v a \<and> \<not> may_see w v a \<longrightarrow> is_account_owner w manager a)
    \<and> group_members w' = group_members w \<and> account_owners w' = account_owners w \<and> groups w' = groups w
    \<and> (\<forall>i g. g \<noteq> gid \<longrightarrow> ((i, g) \<in> set (account_groups w') \<longleftrightarrow> (i, g) \<in> set (account_groups w)))
    \<and> (\<forall>i. (i, gid) \<in> set (account_groups w) \<and> (i, u_id manager) \<notin> set (account_owners w) \<longrightarrow> (i, gid) \<in> set (account_groups w'))"
proof (cases "\<exists>gr. get_group w gid = Some gr \<and> can_manage_group manager gr")
  case True
  let ?ids = "filter (\<lambda>i. i \<in> set (owned_ids w (u_id manager))) account_ids
    @ filter (\<lambda>i. i \<notin> set (owned_ids w (u_id manager))) (map fst (filter (\<lambda>p. snd p = gid) (account_groups w)))"
  have w': "w' = set_group_accounts gid ?ids w"
    using True assms(1) edit by (auto simp: admin_edit_group_def Let_def)
  have pairs: "(i, g) \<in> set (account_groups w') \<longleftrightarrow>
      (if g = gid then i \<in> set ?ids \<and> i \<in> a_id ` set (accounts w) else (i, g) \<in> set (account_groups w))" for i g
    unfolding w' using True by (intro group_accounts_pairs) auto
  have new: "(i, u_id manager) \<in> set (account_owners w)"
    if "(i, g) \<in> set (account_groups w')" "(i, g) \<notin> set (account_groups w)" for i g
    using that unfolding pairs by (auto simp: set_owned_ids split: if_splits)
  have kept: "(i, gid) \<in> set (account_groups w')"
    if "(i, gid) \<in> set (account_groups w)" "(i, u_id manager) \<notin> set (account_owners w)" for i
    using that fk unfolding pairs by (force simp: set_owned_ids)
  have same: "account_owners w' = account_owners w" "group_members w' = group_members w" "groups w' = groups w"
    by (simp_all add: w')
  have "is_account_owner w manager a" if "may_see w' v a" "\<not> may_see w v a" for a
    using that new same unfolding may_see_def is_account_owner_def by metis
  then show ?thesis
    using kept same pairs by simp
next
  case False
  then have "w' = w"
    using edit by (auto simp: admin_edit_group_def split: option.split)
  then show ?thesis by simp
qed

text \<open>
  The groups of the identity provider are mirrored exactly: after a login the user is a
  member of a synchronised group if and only if the provider named it, his other memberships and
  everybody else's are untouched.
\<close>

lemma sso_groups_mirrored:
  assumes "pk g_id (groups w)" and "gr \<in> set (groups w)"
  shows "((g_id gr, u_id user) \<in> set (group_members (sync_sso_groups user names w)) \<longleftrightarrow>
      (if g_sso_sync gr then g_name gr \<in> set names else (g_id gr, u_id user) \<in> set (group_members w)))
    \<and> (\<forall>g v. v \<noteq> u_id user \<longrightarrow>
        ((g, v) \<in> set (group_members (sync_sso_groups user names w)) \<longleftrightarrow> (g, v) \<in> set (group_members w)))"
proof -
  have one: "(g, v) \<in> set (sync_sso_group user names x ms) \<longleftrightarrow>
      (if g = g_id x \<and> v = u_id user then g_name x \<in> set names else (g, v) \<in> set ms)" for g v x ms
    by (auto simp: sync_sso_group_def Let_def)
  have all: "(g, v) \<in> set (fold (sync_sso_group user names) gs ms) \<longleftrightarrow>
      (if v = u_id user \<and> (\<exists>x \<in> set gs. g_id x = g) then (\<exists>x \<in> set gs. g_id x = g \<and> g_name x \<in> set names)
       else (g, v) \<in> set ms)" if "distinct (map g_id gs)" for g v gs ms
    using that
  proof (induction gs arbitrary: ms)
    case (Cons x gs)
    have "\<not> (\<exists>y \<in> set gs. g_id y = g_id x)" using Cons.prems by (auto simp: rev_image_eqI)
    with Cons show ?case by (auto simp: one)
  qed simp
  have dist: "distinct (map g_id (filter g_sso_sync (groups w)))"
    using pk_filter [OF assms(1)] by (simp add: pk_def)
  have same: "y = gr" if "y \<in> set (groups w)" "g_id y = g_id gr" for y
    using assms that by (auto simp: pk_def distinct_map dest: inj_onD)
  show ?thesis
    using same assms(2) by (auto simp: sync_sso_groups_def all [OF dist])
qed

section \<open>The published namespaces\<close>

lemma set_oldest [simp]: "set (oldest_accounts as) = set as"
  by (auto simp: oldest_accounts_def)

lemma distinct_oldest [simp]: "distinct as \<Longrightarrow> distinct (oldest_accounts as)"
  by (auto simp: oldest_accounts_def)

lemma set_newest [simp]: "set (newest_recoveries rs) = set rs"
  by (auto simp: newest_recoveries_def)

lemma distinct_newest: "distinct rs \<Longrightarrow> distinct (newest_recoveries rs)"
  by (auto simp: newest_recoveries_def)

lemma pk_perm: "pk key t \<Longrightarrow> set u \<subseteq> set t \<Longrightarrow> distinct u \<Longrightarrow> pk key u"
  by (auto simp: pk_def distinct_map intro: inj_on_subset)

lemma pk_distinct: "pk key t \<Longrightarrow> distinct t"
  by (simp add: pk_def distinct_map)

abbreviation rec_key :: "Recovery \<Rightarrow> str \<times> str" where
  "rec_key r \<equiv> (r_account_id r, r_snapshot_id r)"

lemma unique_recoveries_subset: "set (unique_recoveries seen rs) \<subseteq> set rs"
  by (induction seen rs rule: unique_recoveries.induct) (auto simp: Let_def)

lemma unique_recoveries_distinct: "distinct rs \<Longrightarrow> distinct (unique_recoveries seen rs)"
  using unique_recoveries_subset
  by (induction seen rs rule: unique_recoveries.induct) (auto simp: Let_def)

lemma unique_recoveries_keys:
  "distinct (map rec_key (unique_recoveries seen rs)) \<and> rec_key ` set (unique_recoveries seen rs) = rec_key ` set rs - set seen"
  by (induction seen rs rule: unique_recoveries.induct) (auto simp: Let_def)

lemma account_namespaces_names [simp]:
  "map ns_name (account_namespaces accts) = map (\<lambda>a. ''acc_'' @ a_id a) accts"
proof -
  have "map ns_name (account_namespaces accts) = map ((\<lambda>a. ''acc_'' @ a_id a) \<circ> snd) (enumerate 0 accts)"
    by (simp add: account_namespaces_def case_prod_unfold comp_def)
  then show ?thesis by (simp flip: map_map)
qed

lemma account_namespaces_paths:
  "(\<lambda>n. (ns_name n, ns_mail_path n)) ` set (account_namespaces accts) = (\<lambda>a. (''acc_'' @ a_id a, a_maildir_path a)) ` set accts"
proof -
  have "map (\<lambda>n. (ns_name n, ns_mail_path n)) (account_namespaces accts)
      = map ((\<lambda>a. (''acc_'' @ a_id a, a_maildir_path a)) \<circ> snd) (enumerate 0 accts)"
    unfolding account_namespaces_def map_map by (rule map_cong) (simp_all add: case_prod_unfold)
  then have "map (\<lambda>n. (ns_name n, ns_mail_path n)) (account_namespaces accts) = map (\<lambda>a. (''acc_'' @ a_id a, a_maildir_path a)) accts"
    by (simp only: map_map [symmetric] map_snd_enumerate)
  from arg_cong [OF this, of set] show ?thesis by (simp only: set_map)
qed

lemma one_inbox: "length (filter ns_inbox (account_namespaces accts)) = (if accts = [] then 0 else 1)"
proof (cases accts)
  case (Cons a as)
  have "fst p \<noteq> 0" if "p \<in> set (enumerate (Suc 0) as)" for p
    using that by (simp add: in_set_enumerate_eq)
  then show ?thesis
    by (auto simp: Cons account_namespaces_def case_prod_unfold filter_empty_conv)
qed (simp add: account_namespaces_def)

lemma recovery_namespaces_names:
  "\<forall>r \<in> set recs. r_account_id r \<in> a_id ` set accts \<Longrightarrow>
   map ns_name (recovery_namespaces accts recs) = map (\<lambda>r. ''rec_'' @ r_id r) recs"
proof (induction recs)
  case (Cons r recs)
  then obtain a where "row a_id accts (r_account_id r) = Some a"
    using row_None [of a_id accts "r_account_id r"] by (cases "row a_id accts (r_account_id r)") auto
  with Cons show ?case by (simp add: recovery_namespaces_def)
qed (simp add: recovery_namespaces_def)

lemma recovery_namespaces_inbox [simp]: "filter ns_inbox (recovery_namespaces accts recs) = []"
  by (auto simp: recovery_namespaces_def filter_empty_conv split: option.splits)

definition served :: "world \<Rightarrow> User \<Rightarrow> Account \<Rightarrow> bool" where
  "served w user a = (may_see w user a \<and> a_enabled a \<and> \<not> a_suspended a
     \<and> (case row st_id (mail_stores w) (a_store_id a) of None \<Rightarrow> False | Some st \<Rightarrow> st_enabled st))"

lemma userdb_shape:
  assumes ok: "userdb_lookup conf api_key username w = Inr db"
    and pk: "pk a_id (accounts w)" "pk r_id (recoveries w)"
  obtains user accts recs where "row u_username (users w) username = Some user" "u_enabled user" "\<not> u_migrating user"
    "db_namespaces db = account_namespaces accts @ recovery_namespaces accts recs"
    "set accts = {a \<in> set (accounts w). served w user a}" "distinct accts"
    "set recs \<subseteq> {r \<in> set (recoveries w). r_status r = RS_ready \<and> r_account_id r \<in> a_id ` set accts}"
    "rec_key ` set recs = rec_key ` {r \<in> set (recoveries w). r_status r = RS_ready \<and> r_account_id r \<in> a_id ` set accts}"
    "distinct (map rec_key recs)" "distinct recs"
proof -
  obtain user where user: "row u_username (users w) username = Some user" "u_enabled user" "\<not> u_migrating user"
    using ok by (auto simp: userdb_lookup_def split: if_splits option.splits)
  let ?accts = "userdb_accounts w user"
  let ?recs = "userdb_recoveries w ?accts"
  let ?ready = "filter (\<lambda>r. r_account_id r \<in> a_id ` set ?accts \<and> r_status r = RS_ready) (recoveries w)"
  have "db_namespaces db = account_namespaces ?accts @ recovery_namespaces ?accts ?recs"
    using ok user by (auto simp: userdb_lookup_def Let_def split: if_splits option.splits)
  moreover have "set ?accts = {a \<in> set (accounts w). served w user a}" "distinct ?accts"
    using pk_distinct [OF pk(1)] by (auto simp: userdb_accounts_def served_def may_see_def ids_defs Let_def)
  moreover have "distinct (newest_recoveries ?ready)"
    using pk_distinct [OF pk(2)] by (intro distinct_newest distinct_filter)
  then have "set ?recs \<subseteq> set ?ready \<and> rec_key ` set ?recs = rec_key ` set ?ready \<and> distinct (map rec_key ?recs) \<and> distinct ?recs"
    using unique_recoveries_subset [of "[]" "newest_recoveries ?ready"] unique_recoveries_keys [of "[]" "newest_recoveries ?ready"]
      unique_recoveries_distinct [of "newest_recoveries ?ready" "[]"]
    by (auto simp: userdb_recoveries_def)
  moreover have "set ?ready = {r \<in> set (recoveries w). r_status r = RS_ready \<and> r_account_id r \<in> a_id ` set ?accts}" by auto
  ultimately show ?thesis
    using that [of user ?accts ?recs] user by simp
qed

text \<open>
  C18. The webmail shows what the user may see and nothing else: an answer is only given for an
  enabled user who is not being migrated; the published mailboxes are exactly the ones of his own
  list that are enabled, not suspended and on an enabled store, each with its own path; exactly
  one of them is the inbox when there is any; of the recoveries only ready ones of those mailboxes
  appear, one per snapshot; and namespace names never clash.
\<close>

theorem userdb_publishes_visible:
  assumes "userdb_lookup conf api_key username w = Inr db"
    and "pk a_id (accounts w)" and "pk r_id (recoveries w)"
  shows "\<exists>user. row u_username (users w) username = Some user \<and> u_enabled user \<and> \<not> u_migrating user
    \<and> {(ns_name n, ns_mail_path n) | n. n \<in> set (db_namespaces db) \<and> prefix ''acc_'' (ns_name n)}
        = {(''acc_'' @ a_id a, a_maildir_path a) | a. a \<in> set (get_own_accounts w user) \<and> served w user a}
    \<and> length (filter ns_inbox (db_namespaces db)) = (if \<exists>a \<in> set (accounts w). served w user a then 1 else 0)
    \<and> (\<forall>n \<in> set (db_namespaces db). prefix ''rec_'' (ns_name n) \<longrightarrow>
         (\<exists>r \<in> set (recoveries w). ns_name n = ''rec_'' @ r_id r \<and> r_status r = RS_ready
            \<and> (\<exists>a \<in> set (accounts w). a_id a = r_account_id r \<and> served w user a)))
    \<and> distinct (map ns_name (db_namespaces db))"
proof -
  obtain user accts recs where user: "row u_username (users w) username = Some user" "u_enabled user" "\<not> u_migrating user"
    and ns: "db_namespaces db = account_namespaces accts @ recovery_namespaces accts recs"
    and accts: "set accts = {a \<in> set (accounts w). served w user a}" "distinct accts"
    and recs: "set recs \<subseteq> {r \<in> set (recoveries w). r_status r = RS_ready \<and> r_account_id r \<in> a_id ` set accts}" "distinct recs"
    by (rule userdb_shape [OF assms])
  have rnames: "map ns_name (recovery_namespaces accts recs) = map (\<lambda>r. ''rec_'' @ r_id r) recs"
    using recs(1) by (intro recovery_namespaces_names) auto
  then have rn: "ns_name ` set (recovery_namespaces accts recs) = (\<lambda>r. ''rec_'' @ r_id r) ` set recs"
    by (metis set_map)
  have an: "\<exists>a \<in> set accts. ns_name n = ''acc_'' @ a_id a" if "n \<in> set (account_namespaces accts)" for n
    using that account_namespaces_paths [of accts] by (auto simp: set_eq_iff image_iff)
  have acc: "{(ns_name n, ns_mail_path n) | n. n \<in> set (db_namespaces db) \<and> prefix ''acc_'' (ns_name n)}
      = {(''acc_'' @ a_id a, a_maildir_path a) | a. a \<in> set accts}"
  proof -
    have "\<not> prefix ''acc_'' (ns_name n)" if "n \<in> set (recovery_namespaces accts recs)" for n
    proof -
      have "ns_name n \<in> (\<lambda>r. ''rec_'' @ r_id r) ` set recs" using that unfolding rn [symmetric] by (rule imageI)
      then show ?thesis by auto
    qed
    then have "{(ns_name n, ns_mail_path n) | n. n \<in> set (db_namespaces db) \<and> prefix ''acc_'' (ns_name n)}
        = {(ns_name n, ns_mail_path n) | n. n \<in> set (account_namespaces accts)}"
      unfolding ns using an by fastforce
    also have "\<dots> = (\<lambda>n. (ns_name n, ns_mail_path n)) ` set (account_namespaces accts)" by auto
    finally show ?thesis unfolding account_namespaces_paths by auto
  qed
  have "distinct (map ns_name (db_namespaces db))"
  proof -
    have "pk a_id accts" "pk r_id recs"
      using pk_perm [OF assms(2), of accts] pk_perm [OF assms(3), of recs] accts recs by auto
    then have "distinct (map (\<lambda>a. ''acc_'' @ a_id a) accts)" "distinct (map (\<lambda>r. ''rec_'' @ r_id r) recs)"
      by (simp_all add: pk_def distinct_map inj_on_def)
    then show ?thesis by (auto simp: ns rnames)
  qed
  moreover have "length (filter ns_inbox (db_namespaces db)) = (if \<exists>a \<in> set (accounts w). served w user a then 1 else 0)"
  proof -
    have "accts = [] \<longleftrightarrow> \<not> (\<exists>a \<in> set (accounts w). served w user a)" using accts(1) by (auto simp flip: set_empty)
    then show ?thesis by (simp add: ns one_inbox)
  qed
  moreover have "\<exists>r \<in> set (recoveries w). ns_name n = ''rec_'' @ r_id r \<and> r_status r = RS_ready
      \<and> (\<exists>a \<in> set (accounts w). a_id a = r_account_id r \<and> served w user a)"
    if "n \<in> set (db_namespaces db)" "prefix ''rec_'' (ns_name n)" for n
  proof -
    have "n \<in> set (recovery_namespaces accts recs)" using that an by (fastforce simp: ns)
    then obtain r where "r \<in> set recs" "ns_name n = ''rec_'' @ r_id r" using rn by blast
    then show ?thesis using recs(1) accts(1) by fastforce
  qed
  moreover have "{(''acc_'' @ a_id a, a_maildir_path a) | a. a \<in> set accts}
      = {(''acc_'' @ a_id a, a_maildir_path a) | a. a \<in> set (get_own_accounts w user) \<and> served w user a}"
    unfolding accts(1) own_accounts served_def by blast
  ultimately show ?thesis using user acc by auto
qed

text \<open>
  A mailbox with a backup policy, a recovery, a store migration (a finished one too) or a
  restore job cannot be deleted: the deletion fails at the database because those relationships
  and foreign keys are declared without a cascade, and nothing changes. Any
  other mailbox disappears with its memberships and its jobs, and no other row is touched.
\<close>

lemma account_deletion:
  assumes "get_account w i = Some a"
  shows "(if (\<exists>p \<in> set (backup_policies w). bp_account_id p = i) \<or> (\<exists>r \<in> set (recoveries w). r_account_id r = i)
        \<or> (\<exists>m \<in> set (store_migrations w). mg_account_id m = Some i)
        \<or> (\<exists>j \<in> set (restore_jobs w). rj_source_account_id j = i \<or> rj_target_account_id j = i)
      then delete_account cron_ok repos i files w s = (Inl IntegrityError, w, s)
      else (let w' = fst (snd (delete_account cron_ok repos i files w s)) in
        get_account w' i = None \<and> (\<forall>u. \<not> may_see w' u a) \<and> (\<forall>j \<in> set (sync_jobs w'). j_account_id j \<noteq> i)
        \<and> (\<forall>b. a_id b \<noteq> i \<longrightarrow> (b \<in> set (accounts w') \<longleftrightarrow> b \<in> set (accounts w)) \<and> (\<forall>u. may_see w' u b \<longleftrightarrow> may_see w u b))
        \<and> (\<forall>j. j_account_id j \<noteq> i \<longrightarrow> (j \<in> set (sync_jobs w') \<longleftrightarrow> j \<in> set (sync_jobs w)))
        \<and> fst (delete_account cron_ok repos i files w s)
            \<in> {Inl (ValueError ''cron''), Inr (True, if files \<and> a_maildir_path a \<noteq> [] then Some (a_maildir_path a) else None)}))"
proof -
  have "a_id a = i" using assms by (auto dest: row_SomeD)
  then show ?thesis
    using assms
    by (auto simp: delete_account_def account_in_use_def refreshed_def Let_def row_None may_see_def split: prod.split)
qed

section \<open>Witnesses\<close>

definition ann :: User where "ann = new_user ''u1'' ''ann'' None Role_user ''s1'' 0"
definition bob :: User where "bob = new_user ''u2'' ''bob'' None Role_user ''s1'' 0"

definition box :: "str \<Rightarrow> Account" where
  "box i = new_account i ''Work'' ''w@x'' ''other'' ''imap.x'' 993 app_password None ''s1'' (''/m/'' @ i) None 0"

definition shared_world :: world where
  "shared_world = empty_world\<lparr>users := [ann, bob], accounts := [box ''a1'', box ''a2''],
     mail_stores := [\<lparr> st_id = ''s1'', st_name = ''s'', st_path = ''/m'', st_enabled = True, st_is_default = True, st_created_at = 0 \<rparr>],
     account_owners := [(''a1'', ''u1''), (''a2'', ''u2'')],
     groups := [\<lparr> g_id = ''g1'', g_name = ''team'', g_owner_id = ''u1'', g_sso_sync = True, g_created_at = 0 \<rparr>],
     group_members := [(''g1'', ''u2'')]\<rparr>"

lemmas shared_defs = shared_world_def ann_def bob_def box_def new_user_def new_account_def empty_world_def

lemma shared_pk: "pk a_id (accounts shared_world)" "pk g_id (groups shared_world)" "pk r_id (recoveries shared_world)"
  "u_role ann \<noteq> Role_admin" "fst ` set (account_groups shared_world) \<subseteq> a_id ` set (accounts shared_world)"
  by (simp_all add: shared_defs pk_def)


theorem userdb_publishes_visible_witness:
  "\<exists>db. userdb_lookup (Some ''k'') (Some ''k'') ''ann'' shared_world = Inr db
    \<and> length (filter ns_inbox (db_namespaces db)) = 1 \<and> distinct (map ns_name (db_namespaces db))"
proof -
  have user: "row u_username (users shared_world) ''ann'' = Some ann" "u_enabled ann" "\<not> u_migrating ann"
    "row st_id (mail_stores shared_world) (u_store_id ann) \<noteq> None"
    by (simp_all add: shared_defs)
  then obtain db where db: "userdb_lookup (Some ''k'') (Some ''k'') ''ann'' shared_world = Inr db"
    by (auto simp: userdb_lookup_def verify_api_key_def Let_def)
  have "box ''a1'' \<in> set (accounts shared_world) \<and> served shared_world ann (box ''a1'')"
    by (simp add: served_def may_see_def shared_defs)
  then have "\<exists>a \<in> set (accounts shared_world). served shared_world ann a" by blast
  then show ?thesis
    using userdb_publishes_visible [OF db shared_pk(1,3)] user(1) db by auto
qed

end
