(* ===== verification/Sync_Routes.thy ===== *)
theory Sync_Routes
  imports Lifecycle Mailbox_Status Access
begin

text \<open>
  Everything that starts, stops or reads a sync on behalf of a person or a program:
  \<open>routers/sync.py\<close> (web and REST), the sync endpoints of \<open>routers/agent.py\<close> and the sync tools of
  \<open>mcp_server.py\<close>. A failure of the request is an \<open>http_error\<close>; the new job's id and the clock are
  arguments. The audit log entry is not part of the state.
\<close>

section \<open>Host names of a discovery\<close>

definition alnum_hyphen :: "char \<Rightarrow> bool" where
  "alnum_hyphen c = (let n = (of_char c :: nat) in
     (48 \<le> n \<and> n \<le> 57) \<or> (65 \<le> n \<and> n \<le> 90) \<or> (97 \<le> n \<and> n \<le> 122) \<or> c = CHR ''-'')"

definition valid_label :: "str \<Rightarrow> bool" where
  "valid_label l = (1 \<le> length l \<and> length l \<le> 63 \<and> list_all alnum_hyphen l \<and> hd l \<noteq> CHR ''-'' \<and> last l \<noteq> CHR ''-'')"

definition is_valid_domain :: "str \<Rightarrow> bool" where
  "is_valid_domain domain =
    (let labels = split_on CHR ''.'' domain in
     length domain \<le> 253 \<and> length labels \<ge> 2 \<and> list_all valid_label labels \<and> \<not> list_all is_digit (last labels))"

section \<open>The web interface\<close>

definition account_not_found :: http_error where
  "account_not_found = HTTPException 404 ''Account not found''"

definition quota_warning :: str where
  "quota_warning = ''Manual sync may exhaust the provider's daily quota; other IMAP clients for this mailbox could be affected.''"

definition clear_pause :: "Account \<Rightarrow> Account" where
  "clear_pause account = account\<lparr>a_sync_paused_until := None, a_pause_reason := None\<rparr>"

definition paused :: "Account \<Rightarrow> bool" where
  "paused account = (a_sync_paused_until account \<noteq> None \<or> a_pause_reason account \<noteq> None)"

text \<open>\<open>submit_sync_job\<close>: the job's id goes to the executor.\<close>

definition submit_sync_job :: "SyncJob \<Rightarrow> world \<Rightarrow> world" where
  "submit_sync_job job w = w\<lparr>sync_queue := sync_queue w @ [j_id job]\<rparr>"

definition trigger_sync ::
  "str \<Rightarrow> datetime \<Rightarrow> str \<Rightarrow> User \<Rightarrow> world \<Rightarrow> (http_error + SyncJob \<times> str option) \<times> world"
where
  "trigger_sync i now account_id user w =
    (case get_account_for w account_id user of
       None \<Rightarrow> (Inl account_not_found, w)
     | Some account \<Rightarrow>
         if a_suspended account then (Inl (HTTPException 409 ''Sync blocked: account is suspended''), w)
         else if a_migrating account then (Inl (HTTPException 409 ''Sync blocked: account migration in progress''), w)
         else if \<exists>owner \<in> set (owners w account). u_migrating owner
         then (Inl (HTTPException 409 ''Sync blocked: user migration in progress''), w)
         else
           (let warning = (if paused account \<and> a_pause_reason account = Some ''budget'' then Some quota_warning else None);
                w = (if paused account then upd_account account_id clear_pause w else w)
            in case create_sync_job i now account_id ''manual'' w of
                 (None, w) \<Rightarrow> (Inl (HTTPException 409 ''Sync already pending or running''), w)
               | (Some job, w) \<Rightarrow> (Inr (job, warning), submit_sync_job job w)))"

text \<open>One round of the bulk trigger; the fresh job id is a function of the account's id.\<close>

definition trigger_one :: "(str \<Rightarrow> str) \<Rightarrow> datetime \<Rightarrow> Account \<Rightarrow> nat \<times> world \<Rightarrow> nat \<times> world" where
  "trigger_one ids now account s =
    (let (triggered, w) = s in
     if a_suspended account \<or> a_migrating account \<or> \<not> is_authenticated account then s
     else if a_sync_state account = SS_syncing then s
     else
       (let w = upd_account (a_id account) clear_pause w in
        case create_sync_job (ids (a_id account)) now (a_id account) ''manual'' w of
          (None, w) \<Rightarrow> (triggered, w)
        | (Some job, w) \<Rightarrow> (triggered + 1, submit_sync_job job w)))"

definition trigger_sync_all :: "(str \<Rightarrow> str) \<Rightarrow> datetime \<Rightarrow> User \<Rightarrow> world \<Rightarrow> nat \<times> world" where
  "trigger_sync_all ids now user w = fold (trigger_one ids now) (get_accounts_for_user w user) (0, w)"

definition job_not_found :: http_error where
  "job_not_found = HTTPException 404 ''Job not found''"

definition get_job_route :: "str \<Rightarrow> User \<Rightarrow> world \<Rightarrow> http_error + SyncJob" where
  "get_job_route job_id user w =
    (case get_job w job_id of
       None \<Rightarrow> Inl job_not_found
     | Some job \<Rightarrow>
         (case get_account_for w (j_account_id job) user of None \<Rightarrow> Inl job_not_found | Some account \<Rightarrow> Inr job))"

definition job_live_log :: "str \<Rightarrow> User \<Rightarrow> world \<Rightarrow> http_error + JobStatus \<times> str" where
  "job_live_log job_id user w =
    (case get_job_route job_id user w of
       Inl e \<Rightarrow> Inl e
     | Inr job \<Rightarrow>
         (case get_live_log w job_id of
            Some live \<Rightarrow> Inr (running, live)
          | None \<Rightarrow> Inr (j_status job, str_or (j_log job) [])))"

definition job_log_download :: "str \<Rightarrow> User \<Rightarrow> world \<Rightarrow> http_error + str \<times> str" where
  "job_log_download job_id user w =
    (case get_job_route job_id user w of
       Inl e \<Rightarrow> Inl e
     | Inr job \<Rightarrow> Inr (str_or (j_log job) [], ''sync-'' @ take 8 job_id @ ''.log''))"

definition stop_sync :: "str \<Rightarrow> User \<Rightarrow> world \<Rightarrow> (http_error + str) \<times> world" where
  "stop_sync account_id user w =
    (case get_account_for w account_id user of
       None \<Rightarrow> (Inl account_not_found, w)
     | Some account \<Rightarrow>
        (case find (\<lambda>j. j_account_id j = account_id \<and> j_status j = running) (sync_jobs w) of
           None \<Rightarrow> (Inl (HTTPException 404 ''No running sync job''), w)
         | Some running_job \<Rightarrow>
             (let (stopped, w) = stop_sync_job (j_id running_job) w in
              if \<not> stopped then (Inl (HTTPException 404 ''Process not found''), w)
              else (Inr (j_id running_job), w))))"

definition list_jobs :: "str \<Rightarrow> User \<Rightarrow> world \<Rightarrow> http_error + SyncJob list" where
  "list_jobs account_id user w =
    (case get_account_for w account_id user of
       None \<Rightarrow> Inl account_not_found
     | Some account \<Rightarrow> Inr (list_jobs_for_account w account_id 150))"

section \<open>The agent API and the MCP server\<close>

definition newest_active :: "str \<Rightarrow> world \<Rightarrow> SyncJob option" where
  "newest_active account_id w =
    (case newest_first j_requested_at (filter (\<lambda>j. j_account_id j = account_id \<and> active (j_status j)) (sync_jobs w)) of
       [] \<Rightarrow> None | job # _ \<Rightarrow> Some job)"

text \<open>The body both surfaces share; \<open>fail\<close> turns a message into the surface's own error.\<close>

definition program_sync ::
  "(str \<Rightarrow> 'e) \<Rightarrow> str \<Rightarrow> datetime \<Rightarrow> Account \<Rightarrow> world \<Rightarrow> ('e + SyncJob \<times> bool) \<times> world"
where
  "program_sync fail i now account w =
    (if a_suspended account then (Inl (fail ''Sync blocked: account is suspended''), w)
     else if a_migrating account then (Inl (fail ''Sync blocked: account migration in progress''), w)
     else if \<exists>owner \<in> set (owners w account). u_migrating owner
     then (Inl (fail ''Sync blocked: user migration in progress''), w)
     else if paused account
     then (Inl (fail (''Sync blocked: paused ('' @ str_or (a_pause_reason account) ''unknown''
             @ ''); an agent cannot override a self-recovering pause'')), w)
     else
       (case create_sync_job i now (a_id account) ''agent'' w of
          (None, w) \<Rightarrow>
            (case newest_active (a_id account) w of
               None \<Rightarrow> (Inl (fail ''Could not queue a sync; retry''), w)
             | Some job \<Rightarrow> (Inr (job, True), w))
        | (Some job, w) \<Rightarrow> (Inr (job, False), submit_sync_job job w)))"

definition agent_sync_now ::
  "str \<Rightarrow> datetime \<Rightarrow> http_error + Principal \<Rightarrow> str \<Rightarrow> world \<Rightarrow> (http_error + SyncJob \<times> bool) \<times> world"
where
  "agent_sync_now i now principal0 account_id w =
    (case require_scope SCOPE_SYNC_TRIGGER principal0 of
       Inl e \<Rightarrow> (Inl e, w)
     | Inr p \<Rightarrow>
        (case agent_account w (pr_user p) account_id of
           Inl e \<Rightarrow> (Inl e, w)
         | Inr account \<Rightarrow> program_sync (HTTPException 409) i now account w))"

definition agent_job_status :: "http_error + Principal \<Rightarrow> str \<Rightarrow> world \<Rightarrow> http_error + SyncJob" where
  "agent_job_status principal0 job_id w =
    (case require_scope SCOPE_SYNC_TRIGGER principal0 of
       Inl e \<Rightarrow> Inl e
     | Inr p \<Rightarrow>
        (case get_job w job_id of
           None \<Rightarrow> Inl job_not_found
         | Some job \<Rightarrow>
             (case agent_account w (pr_user p) (j_account_id job) of
                Inl e \<Rightarrow> Inl job_not_found | Inr account \<Rightarrow> Inr job)))"

text \<open>\<open>_caller\<close>: the scope, then the row of the user the token names.\<close>

definition mcp_caller :: "str \<Rightarrow> AccessToken option \<Rightarrow> world \<Rightarrow> str + User" where
  "mcp_caller scope token w =
    (case mcp_require_scope scope token of
       Inl e \<Rightarrow> Inl e
     | Inr uid \<Rightarrow> (case get_user w uid of None \<Rightarrow> Inl ''Caller no longer exists'' | Some user \<Rightarrow> Inr user))"

definition mcp_sync_now :: "str \<Rightarrow> datetime \<Rightarrow> AccessToken option \<Rightarrow> str \<Rightarrow> world \<Rightarrow> (str + SyncJob \<times> bool) \<times> world" where
  "mcp_sync_now i now token account_id w =
    (case mcp_caller SCOPE_SYNC_TRIGGER token w of
       Inl e \<Rightarrow> (Inl e, w)
     | Inr user \<Rightarrow>
        (case mcp_account w user account_id of
           Inl e \<Rightarrow> (Inl e, w)
         | Inr account \<Rightarrow> program_sync (\<lambda>m. m) i now account w))"

definition mcp_sync_status :: "AccessToken option \<Rightarrow> str \<Rightarrow> world \<Rightarrow> str + SyncJob" where
  "mcp_sync_status token job_id w =
    (case mcp_caller SCOPE_SYNC_TRIGGER token w of
       Inl e \<Rightarrow> Inl e
     | Inr user \<Rightarrow>
        (case get_job w job_id of
           None \<Rightarrow> Inl ''No such job''
         | Some job \<Rightarrow>
             (case mcp_account w user (j_account_id job) of
                Inl e \<Rightarrow> Inl ''No such job'' | Inr account \<Rightarrow> Inr job)))"

lemma split_on_chars: "c \<in> set s \<Longrightarrow> c = d \<or> (\<exists>l \<in> set (split_on d s). c \<in> set l)"
proof (induction s)
  case (Cons x xs)
  obtain y ys where "split_on d xs = y # ys" using split_on_nonempty by (meson neq_Nil_conv)
  with Cons show ?case by auto
qed simp

lemma valid_domain_chars:
  assumes "is_valid_domain domain" and "c \<in> set domain"
  shows "alnum_hyphen c \<or> c = CHR ''.''"
proof -
  have "\<forall>l \<in> set (split_on CHR ''.'' domain). \<forall>c \<in> set l. alnum_hyphen c"
    using assms(1) by (auto simp: is_valid_domain_def valid_label_def list_all_iff Let_def)
  then show ?thesis using split_on_chars [OF assms(2), of "CHR ''.''"] by blast
qed

section \<open>Every trigger is a sequence of steps of the sync system\<close>

lemma submit_new_cases:
  obtains (busy) "create_sync_job i now aid src w = (None, w)" "submit_new i now aid src w = w"
      "\<exists>j \<in> set (sync_jobs w). j_account_id j = aid \<and> active (j_status j)"
  | (new) "create_sync_job i now aid src w
        = (Some (new_sync_job i aid src now), w\<lparr>sync_jobs := sync_jobs w @ [new_sync_job i aid src now]\<rparr>)"
      "submit_new i now aid src w = submit_sync_job (new_sync_job i aid src now)
          (w\<lparr>sync_jobs := sync_jobs w @ [new_sync_job i aid src now]\<rparr>)"
      "\<not> (\<exists>j \<in> set (sync_jobs w). j_account_id j = aid \<and> active (j_status j))"
proof (cases rule: create_sync_job_cases [of i now aid src w])
  case busy
  show ?thesis by (rule that(1) [OF busy(1) _ busy(2)]) (simp add: submit_new_def busy(1))
next
  case free
  show ?thesis by (rule that(2) [OF free(1) _ free(2)]) (simp add: submit_new_def submit_sync_job_def free(1))
qed

lemma request_steps: "fresh w i \<or> busy w k \<Longrightarrow> step\<^sup>*\<^sup>* w (submit_new i now k src w)"
  using submit_new_busy [of w k i now src] step.request [of w i now k src] by auto

lemma edit_steps: "step\<^sup>*\<^sup>* w (upd_account k g w)"
  by (rule r_into_rtranclp) (rule step.edit)

lemma trigger_sync_world:
  obtains "snd (trigger_sync i now aid user w) = w"
  | v where "v = w \<or> v = upd_account aid clear_pause w" "snd (trigger_sync i now aid user w) = submit_new i now aid ''manual'' v"
proof -
  let ?v = "\<lambda>a. if paused a then upd_account aid clear_pause w else w"
  have created: "snd (case create_sync_job i now aid ''manual'' v of (None, u) \<Rightarrow> (r, u) | (Some job, u) \<Rightarrow> (r' job, submit_sync_job job u))
      = submit_new i now aid ''manual'' v" for v r r'
    by (cases rule: submit_new_cases [of i now aid "''manual''" v]) simp_all
  have "snd (trigger_sync i now aid user w) \<in> {w} \<union> {submit_new i now aid ''manual'' (?v a) | a. True}"
    by (simp add: trigger_sync_def Let_def created split: option.split) blast
  then show ?thesis using that by (auto split: if_splits)
qed

lemma fresh_edit [simp]: "fresh (upd_account k g w) i = fresh w i" "busy (upd_account k g w) aid = busy w aid"
  by (simp_all add: fresh_def busy_def)

lemma trigger_sync_steps:
  assumes "fresh w i"
  shows "step\<^sup>*\<^sup>* w (snd (trigger_sync i now aid user w))"
proof (cases rule: trigger_sync_world [of i now aid user w])
  case (2 v)
  then have "step\<^sup>*\<^sup>* w v" "fresh v i" using assms edit_steps by auto
  then show ?thesis unfolding 2(2) using request_steps by (meson rtranclp_trans)
qed simp

lemma trigger_one_world:
  "snd (trigger_one ids now a (n, w)) = w \<or>
   snd (trigger_one ids now a (n, w)) = submit_new (ids (a_id a)) now (a_id a) ''manual'' (upd_account (a_id a) clear_pause w)"
  by (cases rule: submit_new_cases [of "ids (a_id a)" now "a_id a" "''manual''" "upd_account (a_id a) clear_pause w"])
    (simp_all add: trigger_one_def Let_def)

lemma trigger_sync_all_steps:
  assumes "\<And>k. fresh w (ids k)" and "inj ids"
  shows "step\<^sup>*\<^sup>* w (snd (trigger_sync_all ids now user w))"
proof -
  have "step\<^sup>*\<^sup>* v (snd (fold (trigger_one ids now) as (n, v)))" if "\<And>k. fresh v (ids k) \<or> busy v k" for as n v
    using that
  proof (induction as arbitrary: n v)
    case (Cons a as)
    obtain m u where u: "trigger_one ids now a (n, v) = (m, u)" by (cases "trigger_one ids now a (n, v)")
    let ?e = "upd_account (a_id a) clear_pause v"
    have "u = v \<or> u = submit_new (ids (a_id a)) now (a_id a) ''manual'' ?e"
      using trigger_one_world [of ids now a n v] u by simp
    then have "step\<^sup>*\<^sup>* v u \<and> (\<forall>k. fresh u (ids k) \<or> busy u k)"
    proof
      assume u: "u = submit_new (ids (a_id a)) now (a_id a) ''manual'' ?e"
      have "step\<^sup>*\<^sup>* v u"
        unfolding u using Cons.prems [of "a_id a"] by (intro rtranclp_trans [OF edit_steps request_steps]) simp
      moreover have "fresh u (ids k) \<or> busy u k" for k
      proof (cases "k = a_id a")
        case True
        then show ?thesis using submit_new_makes_busy u by blast
      next
        case False
        then have "ids k \<noteq> ids (a_id a)" using assms(2) by (auto dest: injD)
        then show ?thesis
          unfolding u using Cons.prems [of k] submit_new_fresh [of ?e] submit_new_other_busy [of ?e] by auto
      qed
      ultimately show ?thesis by blast
    qed (use Cons.prems in simp)
    then show ?case
      using Cons.IH [of u m] u by (auto intro: rtranclp_trans)
  qed simp
  then show ?thesis using assms(1) by (simp add: trigger_sync_all_def)
qed

lemma program_sync_world: "snd (program_sync fail i now a w) \<in> {w, submit_new i now (a_id a) ''agent'' w}"
  by (cases rule: submit_new_cases [of i now "a_id a" "''agent''" w]) (simp_all add: program_sync_def split: option.split)

lemma program_sync_steps: "fresh w i \<Longrightarrow> step\<^sup>*\<^sup>* w (snd (program_sync fail i now a w))"
  using program_sync_world [of fail i now a w] request_steps [of w i "a_id a" now "''agent''"] by auto

lemma stop_sync_steps: "step\<^sup>*\<^sup>* w (snd (stop_sync aid user w))"
proof -
  have "snd (stop_sync aid user w) = w \<or> (\<exists>i. snd (stop_sync aid user w) = snd (stop_sync_job i w))"
    by (auto simp: stop_sync_def split: option.split prod.split) (metis snd_conv)+
  then show ?thesis using step.stop [of w] by (metis r_into_rtranclp rtranclp.rtrancl_refl)
qed

section \<open>Persons and programs\<close>

lemma agent_account_visible:
  assumes "pk a_id (accounts w)" and "a \<in> set (accounts w)" and "may_see w user a"
  shows "agent_account w user (a_id a) = Inr a" "mcp_account w user (a_id a) = Inr a" "get_account_for w (a_id a) user = Some a"
proof -
  have "a \<in> set (get_own_accounts w user)" using assms by (simp add: own_accounts)
  moreover from this have "a \<in> set (get_accounts_for_user w user)"
    by (auto simp: get_accounts_for_user_def own_accounts)
  ultimately show "agent_account w user (a_id a) = Inr a" "mcp_account w user (a_id a) = Inr a" "get_account_for w (a_id a) user = Some a"
    using account_views [OF assms(1)] by auto
qed

lemma newest_active_busy:
  assumes "busy w k"
  obtains job where "newest_active k w = Some job" "job \<in> set (sync_jobs w)" "j_account_id job = k" "active (j_status job)"
proof -
  let ?js = "filter (\<lambda>j. j_account_id j = k \<and> active (j_status j)) (sync_jobs w)"
  have "?js \<noteq> []" using assms by (auto simp: busy_def filter_empty_conv)
  then obtain job rest where js: "newest_first j_requested_at ?js = job # rest"
    by (metis neq_Nil_conv set_newest_first set_empty)
  then have "job \<in> set ?js" by (metis list.set_intros(1) set_newest_first)
  with js that show ?thesis by (simp add: newest_active_def)
qed

text \<open>What happens to an account nothing forbids to sync, in the two situations of its queue.\<close>

lemma program_sync_unpaused:
  assumes "\<not> a_suspended a" "\<not> a_migrating a" "\<not> (\<exists>u \<in> set (owners w a). u_migrating u)" "\<not> paused a"
  shows "program_sync fail i now a w =
    (if busy w (a_id a) then (Inr (the (newest_active (a_id a) w), True), w)
     else (Inr (new_sync_job i (a_id a) ''agent'' now, False), submit_new i now (a_id a) ''agent'' w))"
proof (cases rule: submit_new_cases [of i now "a_id a" "''agent''" w])
  case busy
  then have b: "busy w (a_id a)" by (simp add: busy_def)
  obtain job where "newest_active (a_id a) w = Some job" by (rule newest_active_busy [OF b])
  with b busy(1) assms show ?thesis by (simp add: program_sync_def)
next
  case new
  then have "\<not> busy w (a_id a)" by (simp add: busy_def)
  with new(1,2) assms show ?thesis by (simp add: program_sync_def)
qed

lemma migrating_owner_ids:
  "a_id a \<in> accounts_with_migrating_owner w ids \<longleftrightarrow> a_id a \<in> set ids \<and> (\<exists>u \<in> set (owners w a). u_migrating u)"
  unfolding accounts_with_migrating_owner_def owners_def by force

text \<open>
  C12. What the pages and the API advise works: when the status of a mailbox offers "retry" or
  "sync now", a program holding the sync scope and seeing that mailbox is not refused; it gets
  either the job that already waits or runs for this mailbox, or a new pending one, which is in
  the table and queued once.
\<close>

theorem offered_sync_is_accepted:
  assumes pk: "pk a_id (accounts w)" and sub: "set accts \<subseteq> set (accounts w)"
    and st: "(aid, st) \<in> set (resolve_many nf w accts t)" "ms_action st \<in> {Some Retry, Some Sync_now}"
    and see: "\<forall>a \<in> set accts. may_see w (pr_user p) a" and scope: "SCOPE_SYNC_TRIGGER \<in> pr_scopes p"
    and fresh: "fresh w i"
  shows "\<exists>job already w'. agent_sync_now i now (Inr p) aid w = (Inr (job, already), w')
    \<and> j_account_id job = aid \<and> active (j_status job) \<and> job \<in> set (sync_jobs w')
    \<and> (if already then w' = w else sync_queue w' = sync_queue w @ [j_id job] \<and> j_status job = pending)"
proof -
  obtain a job0 live where a: "a \<in> set accts" "aid = a_id a"
    and s: "st = resolve_mailbox_status nf a job0 live (aid \<in> accounts_with_migrating_owner w (map a_id accts)) t"
    using st(1) by (auto simp: resolve_many_def Let_def)
  have ok: "\<not> a_suspended a" "\<not> a_migrating a" "\<not> (\<exists>u \<in> set (owners w a). u_migrating u)" "\<not> paused a"
    using offered_action_is_accepted [OF st(2) [unfolded s]] a migrating_owner_ids [of a w "map a_id accts"]
    by (simp_all add: paused_def)
  have acc: "agent_account w (pr_user p) aid = Inr a"
    using agent_account_visible(1) [OF pk] a sub see by auto
  have run: "agent_sync_now i now (Inr p) aid w = program_sync (HTTPException 409) i now a w"
    using scope acc by (simp add: agent_sync_now_def require_scope_def)
  show ?thesis
  proof (cases "busy w aid")
    case True
    then obtain job where "newest_active aid w = Some job" "job \<in> set (sync_jobs w)" "j_account_id job = aid" "active (j_status job)"
      by (rule newest_active_busy)
    with True run a(2) show ?thesis by (auto simp: program_sync_unpaused [OF ok])
  next
    case False
    then have "create_sync_job i now aid ''agent'' w = (Some (new_sync_job i aid ''agent'' now),
        w\<lparr>sync_jobs := sync_jobs w @ [new_sync_job i aid ''agent'' now]\<rparr>)"
      by (cases rule: create_sync_job_cases [of i now aid "''agent''" w]) (simp_all add: busy_def)
    then have "submit_new i now aid ''agent'' w = w\<lparr>sync_jobs := sync_jobs w @ [new_sync_job i aid ''agent'' now],
        sync_queue := sync_queue w @ [i]\<rparr>"
      by (simp add: submit_new_def new_sync_job_def)
    with False run a(2) show ?thesis
      by (intro exI [of _ "new_sync_job i aid ''agent'' now"] exI [of _ False] exI [of _ "submit_new i now aid ''agent'' w"])
        (simp add: program_sync_unpaused [OF ok] new_sync_job_def active_def)
  qed
qed

text \<open>
  A person and a program ask for the same thing and get the same answer, except for the two
  documented differences. Both are refused with the same words when the account is suspended or
  migrating or an owner is being migrated, and nothing changes; a self-recovering pause is lifted
  by the person and respected by the program; a job that already waits or runs is an error for the
  person and the answer for the program; otherwise both queue the same new job. The MCP tool
  does exactly what the REST endpoint does.
\<close>

lemma person_and_program:
  assumes pk: "pk a_id (accounts w)" and a: "a \<in> set (accounts w)" and see: "may_see w (pr_user p) a"
    and scope: "SCOPE_SYNC_TRIGGER \<in> pr_scopes p"
    and tok: "mcp_caller SCOPE_SYNC_TRIGGER tok w = Inr (pr_user p)"
  shows "(let person = trigger_sync i now (a_id a) (pr_user p) w; prog = agent_sync_now i now (Inr p) (a_id a) w;
      mcp = mcp_sync_now i now tok (a_id a) w; blocked = (\<exists>u \<in> set (owners w a). u_migrating u) in
    (if a_suspended a \<or> a_migrating a \<or> blocked then
       (\<exists>m. person = (Inl (HTTPException 409 m), w) \<and> prog = (Inl (HTTPException 409 m), w) \<and> mcp = (Inl m, w))
     else if paused a then
       (\<exists>m. prog = (Inl (HTTPException 409 m), w) \<and> mcp = (Inl m, w))
       \<and> snd person = submit_new i now (a_id a) ''manual'' (upd_account (a_id a) clear_pause w)
     else if busy w (a_id a) then
       person = (Inl (HTTPException 409 ''Sync already pending or running''), w)
       \<and> (\<exists>job. prog = (Inr (job, True), w) \<and> mcp = (Inr (job, True), w) \<and> j_account_id job = a_id a \<and> active (j_status job))
     else
       person = (Inr (new_sync_job i (a_id a) ''manual'' now, None), submit_new i now (a_id a) ''manual'' w)
       \<and> prog = (Inr (new_sync_job i (a_id a) ''agent'' now, False), submit_new i now (a_id a) ''agent'' w)
       \<and> mcp = (Inr (new_sync_job i (a_id a) ''agent'' now, False), submit_new i now (a_id a) ''agent'' w)))"
proof -
  note vis = agent_account_visible [OF pk a see]
  have prog: "agent_sync_now i now (Inr p) (a_id a) w = program_sync (HTTPException 409) i now a w"
    using scope vis by (simp add: agent_sync_now_def require_scope_def)
  have mcp: "mcp_sync_now i now tok (a_id a) w = program_sync (\<lambda>m. m) i now a w"
    using tok vis by (simp add: mcp_sync_now_def)
  let ?blocked = "a_suspended a \<or> a_migrating a \<or> (\<exists>u \<in> set (owners w a). u_migrating u)"
  consider "?blocked" | "\<not> ?blocked" "paused a" | "\<not> ?blocked" "\<not> paused a" by blast
  then show ?thesis
  proof cases
    case 1
    then show ?thesis by (auto simp: prog mcp trigger_sync_def program_sync_def vis Let_def)
  next
    case 2
    have "snd (trigger_sync i now (a_id a) (pr_user p) w) = submit_new i now (a_id a) ''manual'' (upd_account (a_id a) clear_pause w)"
      using 2 by (cases rule: submit_new_cases [of i now "a_id a" "''manual''" "upd_account (a_id a) clear_pause w"])
        (simp_all add: trigger_sync_def vis Let_def)
    with 2 show ?thesis by (simp add: prog mcp program_sync_def Let_def)
  next
    case 3
    then have ok: "\<not> a_suspended a" "\<not> a_migrating a" "\<not> (\<exists>u \<in> set (owners w a). u_migrating u)" "\<not> paused a" by simp_all
    have person: "trigger_sync i now (a_id a) (pr_user p) w =
        (if busy w (a_id a) then (Inl (HTTPException 409 ''Sync already pending or running''), w)
         else (Inr (new_sync_job i (a_id a) ''manual'' now, None), submit_new i now (a_id a) ''manual'' w))"
      using ok by (cases rule: submit_new_cases [of i now "a_id a" "''manual''" w])
        (simp_all add: trigger_sync_def vis Let_def busy_def)
    show ?thesis
    proof (cases "busy w (a_id a)")
      case True
      then obtain job where "newest_active (a_id a) w = Some job" "j_account_id job = a_id a" "active (j_status job)"
        by (rule newest_active_busy)
      with True ok show ?thesis by (simp add: prog mcp person program_sync_unpaused [OF ok] Let_def)
    next
      case False
      with ok show ?thesis by (simp add: prog mcp person program_sync_unpaused [OF ok] Let_def)
    qed
  qed
qed

text \<open>
  The bulk trigger does not look at the owners: for a mailbox whose owner is being migrated,
  where the single trigger answers 409 and changes nothing, it queues a job all the same.
\<close>

lemma bulk_ignores_migrating_owner:
  assumes a: "a \<in> set (get_accounts_for_user w user)" and pk: "pk a_id (accounts w)"
    and ok: "\<not> a_suspended a" "\<not> a_migrating a" "is_authenticated a" "a_sync_state a \<noteq> SS_syncing" "\<not> busy w (a_id a)"
    and owner: "u \<in> set (owners w a)" "u_migrating u"
  shows "trigger_sync i now (a_id a) user w = (Inl (HTTPException 409 ''Sync blocked: user migration in progress''), w)
    \<and> busy (snd (trigger_sync_all ids now user w)) (a_id a)"
proof
  have "get_account_for w (a_id a) user = Some a" using account_views [OF pk] a by blast
  then show "trigger_sync i now (a_id a) user w = (Inl (HTTPException 409 ''Sync blocked: user migration in progress''), w)"
    using ok owner by (auto simp: trigger_sync_def)
  have keep: "busy (snd (trigger_one ids now b (n, v))) k" if "busy v k" for b n v k
    using trigger_one_world [of ids now b n v] that submit_new_other_busy [of "upd_account (a_id b) clear_pause v" k] by auto
  have keeps: "busy (snd (fold (trigger_one ids now) bs (n, v))) k" if "busy v k" for bs n v k
    using that
  proof (induction bs arbitrary: n v)
    case (Cons b bs)
    show ?case using Cons.IH keep [OF Cons.prems, of b n] by (cases "trigger_one ids now b (n, v)") simp
  qed simp
  have "snd (trigger_one ids now a (n, v)) = submit_new (ids (a_id a)) now (a_id a) ''manual'' (upd_account (a_id a) clear_pause v)" for n v
    using ok by (cases rule: submit_new_cases [of "ids (a_id a)" now "a_id a" "''manual''" "upd_account (a_id a) clear_pause v"])
      (simp_all add: trigger_one_def Let_def)
  then have here: "busy (snd (trigger_one ids now a (n, v))) (a_id a)" for n v
    by (simp add: submit_new_makes_busy)
  have "busy (snd (fold (trigger_one ids now) bs (n, v))) (a_id a)" if "a \<in> set bs" for bs n v
    using that
  proof (induction bs arbitrary: n v)
    case (Cons b bs)
    show ?case
      using Cons here [of n v] keeps by (cases "trigger_one ids now b (n, v)") auto
  qed simp
  then show "busy (snd (trigger_sync_all ids now user w)) (a_id a)"
    using a by (simp add: trigger_sync_all_def)
qed

section \<open>Witnesses\<close>

definition ann_principal :: Principal where
  "ann_principal = \<lparr> pr_user = ann, pr_credential = None, pr_scopes = {SCOPE_SYNC_TRIGGER} \<rparr>"

definition failed_world :: world where
  "failed_world = shared_world\<lparr>accounts := [box ''a1''\<lparr>a_sync_state := SS_error\<rparr>]\<rparr>"

lemmas failed_defs = failed_world_def ann_principal_def shared_defs

lemma failed_world_facts:
  "pk a_id (accounts failed_world)" "\<forall>a \<in> set (accounts failed_world). may_see failed_world (pr_user ann_principal) a"
  "SCOPE_SYNC_TRIGGER \<in> pr_scopes ann_principal" "fresh failed_world ''j1''" "users failed_world = [ann, bob]"
  "\<not> busy failed_world ''a1''" "owners failed_world (box ''a1''\<lparr>a_sync_state := SS_error\<rparr>) = [ann]"
  by (simp_all add: failed_defs pk_def may_see_def fresh_def busy_def owners_def)

lemma failed_box_facts:
  "signed_in (box ''a1''\<lparr>a_sync_state := SS_error\<rparr>)" "a_last_error (box i) = None" "a_pause_reason (box i) = None"
  "a_sync_paused_until (box i) = None" "a_auth_type (box i) = app_password" "\<not> a_migrating (box i)" "\<not> a_suspended (box i)"
  "a_id (box i) = i" "is_authenticated (box i)"
  by (simp_all add: shared_defs signed_in_def token_refresh_failed_def is_authenticated_def)

lemma failed_status:
  "\<exists>st. (''a1'', st) \<in> set (resolve_many (\<lambda>_ _ _. Inr None) failed_world (accounts failed_world) 9) \<and> ms_action st = Some Retry"
proof -
  have "\<not> stopped_job (box ''a1''\<lparr>a_sync_state := SS_error\<rparr>) (latest_finished_jobs_by_account failed_world [''a1''] ''a1'')"
    by (simp add: latest_finished_jobs_by_account_def latest_completion_def stopped_job_def failed_defs List.map_filter_def)
  moreover have "''a1'' \<notin> accounts_with_migrating_owner failed_world [''a1'']"
    by (simp add: accounts_with_migrating_owner_def failed_defs)
  ultimately show ?thesis
    by (simp add: resolve_many_def failed_world_def resolve_mailbox_status_def failed_box_facts
        is_credential_error_def pause_blocks_trigger_def Let_def)
qed

theorem offered_sync_is_accepted_witness:
  "\<exists>job w'. agent_sync_now ''j1'' 9 (Inr ann_principal) ''a1'' failed_world = (Inr (job, False), w') \<and> j_status job = pending"
proof -
  obtain st where st: "(''a1'', st) \<in> set (resolve_many (\<lambda>_ _ _. Inr None) failed_world (accounts failed_world) 9)" "ms_action st = Some Retry"
    using failed_status by blast
  have "ms_action st \<in> {Some Retry, Some Sync_now}" using st(2) by simp
  from offered_sync_is_accepted [OF failed_world_facts(1) subset_refl st(1) this failed_world_facts(2-4), of 9]
  obtain job already w' where r: "agent_sync_now ''j1'' 9 (Inr ann_principal) ''a1'' failed_world = (Inr (job, already), w')"
    "j_account_id job = ''a1''" "active (j_status job)" "job \<in> set (sync_jobs w')"
    "if already then w' = failed_world else sync_queue w' = sync_queue failed_world @ [j_id job] \<and> j_status job = pending"
    by blast
  have "\<not> already"
    using r failed_world_facts(6) by (auto simp: busy_def split: if_splits)
  with r show ?thesis by auto
qed

end
