(* ===== verification/Files.thy ===== *)
theory Files
  imports Folder_Reconcile Access_Tokens
begin

text \<open>
  Files and directories: the calls of \<open>os\<close> and \<open>shutil\<close> that the services make on the file
  system of \<open>Folder_Reconcile\<close>, and the copy engine \<open>services/migration_worker.py\<close>.

  A path string is read by \<open>path_of\<close> as the operating system resolves it (no symbolic links: the
  trees hold directories and regular files only). An \<open>OSError\<close> is the name of its class.
\<close>

section \<open>Paths and directory entries\<close>

definition path_of :: "str \<Rightarrow> path" where
  "path_of s = foldl (\<lambda>p c. if c = [] \<or> c = ''.'' then p else if c = ''..'' then butlast p else p @ [c])
     [] (split_on CHR ''/'' s)"

definition rstrip_slash :: "str \<Rightarrow> str" where
  "rstrip_slash s = rev (dropWhile (\<lambda>c. c = CHR ''/'') (rev s))"

definition file_at :: "fs \<Rightarrow> path \<Rightarrow> str option" where
  "file_at f p = (case map_of f p of Some (File c) \<Rightarrow> Some c | _ \<Rightarrow> None)"

definition rmtree :: "path \<Rightarrow> fs \<Rightarrow> fs" where
  "rmtree p f = filter (\<lambda>e. \<not> prefix p (fst e)) f"

text \<open>\<open>os.makedirs(p, exist_ok=True)\<close> with its two errors: a file on the way, a file at the end.\<close>

definition make_dirs :: "path \<Rightarrow> fs \<Rightarrow> str + fs" where
  "make_dirs p f =
    (if \<exists>n \<in> set [1..<length p]. exists_path f (take n p) \<and> \<not> is_dir f (take n p) then Inl ''NotADirectoryError''
     else if p \<noteq> [] \<and> exists_path f p \<and> \<not> is_dir f p then Inl ''FileExistsError''
     else Inr (makedirs p f))"

text \<open>One entry per path, and every entry's directory is there and is a directory.\<close>

definition fs_ok :: "fs \<Rightarrow> bool" where
  "fs_ok f = (distinct (map fst f) \<and> (\<forall>e \<in> set f. length (fst e) > 1 \<longrightarrow> is_dir f (butlast (fst e))))"

lemma fs_ok_unique: "fs_ok f \<Longrightarrow> (p, n) \<in> set f \<Longrightarrow> (p, m) \<in> set f \<Longrightarrow> n = m"
  unfolding fs_ok_def by (meson eq_key_imp_eq_value)

lemma fs_ok_parent: "fs_ok f \<Longrightarrow> (p, n) \<in> set f \<Longrightarrow> length p > 1 \<Longrightarrow> is_dir f (butlast p)"
  unfolding fs_ok_def by (metis fst_conv)

lemma fs_ok_ancestor:
  assumes "fs_ok f" "(p @ r, n) \<in> set f" "p \<noteq> []" "r \<noteq> []"
  shows "is_dir f p"
  using assms(2,4)
proof (induction r arbitrary: n rule: rev_induct)
  case (snoc x r)
  have "is_dir f (p @ r)"
    using fs_ok_parent [OF assms(1) snoc.prems(1)] assms(3) by (cases p) (auto simp: butlast_append)
  then show ?case using snoc.IH by (cases "r = []") (auto simp: is_dir_def)
qed simp

lemma exists_pathI: "(p, n) \<in> set f \<Longrightarrow> exists_path f p"
  by (force simp: exists_path_def)

lemma exists_path_iff: "exists_path f p \<longleftrightarrow> (\<exists>n. (p, n) \<in> set f)"
  by (force simp: exists_path_def)

lemma is_dir_exists: "is_dir f p \<Longrightarrow> exists_path f p"
  by (auto simp: is_dir_def intro: exists_pathI)

lemma exists_path_cases: "exists_path f p \<longleftrightarrow> is_dir f p \<or> (\<exists>c. (p, File c) \<in> set f)"
proof
  assume "exists_path f p"
  then obtain n where "(p, n) \<in> set f" by (auto simp: exists_path_def)
  then show "is_dir f p \<or> (\<exists>c. (p, File c) \<in> set f)" by (cases n) (auto simp: is_dir_def)
qed (auto simp: is_dir_def intro: exists_pathI)

lemma file_atD: "file_at f p = Some c \<Longrightarrow> (p, File c) \<in> set f"
  by (auto simp: file_at_def split: option.splits node.splits dest: map_of_SomeD)

lemma file_at_iff: "fs_ok f \<Longrightarrow> file_at f p = Some c \<longleftrightarrow> (p, File c) \<in> set f"
proof
  assume "fs_ok f" and "(p, File c) \<in> set f"
  then have "map_of f p = Some (File c)" by (simp add: fs_ok_def)
  then show "file_at f p = Some c" by (simp add: file_at_def)
qed (rule file_atD)

lemma listdir_iff: "n \<in> set (listdir p f) \<longleftrightarrow> exists_path f (p @ [n])"
proof
  assume "n \<in> set (listdir p f)"
  then obtain q m where "(q, m) \<in> set f" "q \<noteq> []" "butlast q = p" "n = last q"
    by (auto simp: listdir_def)
  then show "exists_path f (p @ [n])" using append_butlast_last_id [of q] by (auto intro: exists_pathI)
next
  assume "exists_path f (p @ [n])"
  then obtain m where "(p @ [n], m) \<in> set f" by (auto simp: exists_path_def)
  then show "n \<in> set (listdir p f)" by (force simp: listdir_def)
qed

lemma distinct_listdir: "distinct (map fst f) \<Longrightarrow> distinct (listdir p f)"
  unfolding listdir_def
proof (induction f)
  case (Cons e f)
  obtain q m where e: "e = (q, m)" by (cases e)
  have "last q \<notin> (\<lambda>x. last (fst x)) ` {x \<in> set f. fst x \<noteq> [] \<and> butlast (fst x) = p}"
    if "q \<noteq> []" "butlast q = p"
  proof
    assume "last q \<in> (\<lambda>x. last (fst x)) ` {x \<in> set f. fst x \<noteq> [] \<and> butlast (fst x) = p}"
    then obtain x where "x \<in> set f" "fst x \<noteq> []" "butlast (fst x) = p" "last (fst x) = last q" by auto
    then have "fst x = q" using that by (metis append_butlast_last_id)
    with \<open>x \<in> set f\<close> show False using Cons.prems by (auto simp: e)
  qed
  then show ?case using Cons by (auto simp: e case_prod_beta')
qed simp

lemma rmtree_mem: "e \<in> set (rmtree p f) \<longleftrightarrow> e \<in> set f \<and> \<not> prefix p (fst e)"
  by (simp add: rmtree_def)

section \<open>Making directories\<close>

lemma makedirs_mem:
  "e \<in> set (makedirs p f) \<longleftrightarrow>
     e \<in> set f \<or> (snd e = Dir \<and> fst e \<noteq> [] \<and> prefix (fst e) p \<and> \<not> exists_path f (fst e))"
proof -
  have "e \<in> set (makedirs_upto n p f) \<longleftrightarrow> e \<in> set f \<or>
      (snd e = Dir \<and> (\<exists>k < n. fst e = take (Suc k) p) \<and> \<not> exists_path f (fst e))" for n
  proof (induction n arbitrary: e)
    case (Suc n)
    have "exists_path (makedirs_upto n p f) q \<longleftrightarrow> exists_path f q \<or> (\<exists>k < n. q = take (Suc k) p)" for q
    proof -
      have "(q, m) \<in> set (makedirs_upto n p f) \<longleftrightarrow>
          (q, m) \<in> set f \<or> (m = Dir \<and> (\<exists>k < n. q = take (Suc k) p) \<and> \<not> exists_path f q)" for m
        using Suc.IH [of "(q, m)"] by simp
      then show ?thesis unfolding exists_path_iff by blast
    qed
    then have ex: "exists_path (makedirs_upto n p f) (take (Suc n) p) \<longleftrightarrow>
        exists_path f (take (Suc n) p) \<or> (\<exists>k < n. take (Suc n) p = take (Suc k) p)" .
    obtain q m where e: "e = (q, m)" by (cases e)
    have split: "(\<exists>k < Suc n. q = take (Suc k) p) \<longleftrightarrow> (\<exists>k < n. q = take (Suc k) p) \<or> q = take (Suc n) p"
      by (auto simp: less_Suc_eq)
    have IH: "(q, m) \<in> set (makedirs_upto n p f) \<longleftrightarrow>
        (q, m) \<in> set f \<or> (m = Dir \<and> (\<exists>k < n. q = take (Suc k) p) \<and> \<not> exists_path f q)"
      using Suc.IH [of "(q, m)"] by simp
    show ?case
    proof (cases "q = take (Suc n) p")
      case True
      show ?thesis
        using IH ex split unfolding e True fst_conv snd_conv by (auto simp: Let_def dest: exists_pathI)
    next
      case False
      have "(q, m) \<in> set (makedirs_upto (Suc n) p f) \<longleftrightarrow> (q, m) \<in> set (makedirs_upto n p f)"
        using False by (simp add: Let_def)
      then show ?thesis unfolding e fst_conv snd_conv IH split using False by blast
    qed
  qed simp
  moreover have "(\<exists>k < length p. fst e = take (Suc k) p) \<longleftrightarrow> fst e \<noteq> [] \<and> prefix (fst e) p"
  proof
    assume "fst e \<noteq> [] \<and> prefix (fst e) p"
    then obtain r where r: "p = fst e @ r" and ne: "fst e \<noteq> []" by (auto simp: prefix_def)
    then have "Suc (length (fst e) - 1) = length (fst e)" by simp
    then have "fst e = take (Suc (length (fst e) - 1)) p \<and> length (fst e) - 1 < length p"
      using r ne by (metis append_eq_conv_conj length_append Suc_le_eq le_add1)
    then show "\<exists>k < length p. fst e = take (Suc k) p" by blast
  qed (auto simp: take_is_prefix)
  ultimately show ?thesis by (simp add: makedirs_def)
qed

lemma make_dirs_Inr:
  assumes "make_dirs p f = Inr g"
  shows "g = makedirs p f" "\<And>q. prefix q p \<Longrightarrow> q \<noteq> [] \<Longrightarrow> is_dir g q"
proof -
  show g: "g = makedirs p f" using assms by (simp add: make_dirs_def split: if_splits)
  fix q assume q: "prefix q p" "q \<noteq> []"
  then have tk: "q = take (length q) p" by (auto simp: prefix_def)
  have "exists_path f q \<Longrightarrow> is_dir f q"
  proof (cases "q = p")
    case False
    then have "length q \<in> set [1..<length p]"
      using q by (auto simp: prefix_def Suc_le_eq)
    moreover have "\<forall>n \<in> set [1..<length p]. exists_path f (take n p) \<longrightarrow> is_dir f (take n p)"
      using assms by (auto simp: make_dirs_def split: if_splits)
    ultimately show "exists_path f q \<Longrightarrow> is_dir f q"
      using tk by metis
  qed (use assms q in \<open>auto simp: make_dirs_def split: if_splits\<close>)
  then show "is_dir g q"
    unfolding is_dir_def g makedirs_mem using q by auto
qed

lemma make_dirs_mem:
  assumes "make_dirs p f = Inr g"
  shows "e \<in> set g \<longleftrightarrow> e \<in> set f \<or> (snd e = Dir \<and> fst e \<noteq> [] \<and> prefix (fst e) p \<and> \<not> exists_path f (fst e))"
  using make_dirs_Inr(1) [OF assms] makedirs_mem by simp

lemma distinct_makedirs: "distinct (map fst f) \<Longrightarrow> distinct (map fst (makedirs p f))"
proof -
  assume "distinct (map fst f)"
  then have "distinct (map fst (makedirs_upto n p f))" for n
    by (induction n) (auto simp: Let_def exists_path_def)
  then show ?thesis by (simp add: makedirs_def)
qed

lemma fs_ok_make_dirs:
  assumes "fs_ok f" "make_dirs p f = Inr g"
  shows "fs_ok g"
proof -
  have "is_dir g (butlast q)" if "(q, n) \<in> set g" "length q > 1" for q n
  proof -
    from that(1) consider "(q, n) \<in> set f" | "prefix q p"
      using make_dirs_mem [OF assms(2)] by auto
    then show ?thesis
    proof cases
      case 1
      then have "is_dir f (butlast q)" using fs_ok_parent assms(1) that(2) by blast
      then show ?thesis using make_dirs_mem [OF assms(2)] by (auto simp: is_dir_def)
    next
      case 2
      have "prefix (butlast q) p" using 2 prefix_order.trans prefixeq_butlast by blast
      moreover have "butlast q \<noteq> []" using that(2) by (cases q rule: rev_cases) auto
      ultimately show ?thesis using make_dirs_Inr(2) [OF assms(2)] by blast
    qed
  qed
  moreover have "distinct (map fst g)"
    using distinct_makedirs assms make_dirs_Inr(1) by (metis fs_ok_def)
  ultimately show ?thesis unfolding fs_ok_def by force
qed

section \<open>Scanning a tree\<close>

definition depth :: "fs \<Rightarrow> nat" where
  "depth f = foldr (\<lambda>e. max (length (fst e))) f 0"

lemma depth_ge: "exists_path f p \<Longrightarrow> length p \<le> depth f"
  by (induction f) (auto simp: depth_def exists_path_def le_max_iff_disj)

lemma depth_step:
  assumes "is_dir f (p @ [n])"
  shows "Suc (depth f) - length (p @ [n]) < Suc (depth f) - length p"
  using depth_ge [OF is_dir_exists [OF assms]] by simp

text \<open>\<open>prescan\<close>: the number of regular files below a directory and their size.\<close>

function prescan :: "fs \<Rightarrow> path \<Rightarrow> nat \<times> nat" where
  "prescan f p = fold (\<lambda>n (file_count, total_bytes).
       if is_dir f (p @ [n]) then
         (let (sub_files, sub_bytes) = prescan f (p @ [n]) in (file_count + sub_files, total_bytes + sub_bytes))
       else (case file_at f (p @ [n]) of
           Some c \<Rightarrow> (file_count + 1, total_bytes + length c)
         | None \<Rightarrow> (file_count, total_bytes))) (listdir p f) (0, 0)"
  by pat_completeness auto
termination
  by (relation "measure (\<lambda>(f, p). Suc (depth f) - length p)") (use depth_step in \<open>auto\<close>)

declare prescan.simps [simp del]

text \<open>\<open>os.scandir\<close> on something that is not a directory raises.\<close>

definition prescan_path :: "fs \<Rightarrow> path \<Rightarrow> str + nat \<times> nat" where
  "prescan_path f p =
    (if is_dir f p then Inr (prescan f p)
     else if exists_path f p then Inl ''NotADirectoryError'' else Inl ''FileNotFoundError'')"

text \<open>The reference: a scan counts the files whose path extends the directory's.\<close>

definition files_under :: "fs \<Rightarrow> path \<Rightarrow> (path \<times> str) set" where
  "files_under f p = {(q, c). (q, File c) \<in> set f \<and> strict_prefix p q}"

lemma finite_files_under [simp]: "finite (files_under f p)"
proof -
  have "files_under f p \<subseteq> (\<lambda>e. (fst e, case snd e of File c \<Rightarrow> c | Dir \<Rightarrow> [])) ` set f"
    by (force simp: files_under_def)
  then show ?thesis by (rule finite_subset) simp
qed

definition branch :: "fs \<Rightarrow> path \<Rightarrow> (path \<times> str) set" where
  "branch f q = (if is_dir f q then files_under f q else {(q, c) | c. (q, File c) \<in> set f})"

lemma files_under_branches:
  assumes "fs_ok f"
  shows "files_under f p = (\<Union>n \<in> set (listdir p f). branch f (p @ [n]))"
proof (intro set_eqI iffI; clarify)
  fix q c assume "(q, c) \<in> files_under f p"
  then obtain n r where q: "q = p @ n # r" and c: "(p @ n # r, File c) \<in> set f"
    by (auto simp: files_under_def elim!: strict_prefixE')
  show "(q, c) \<in> (\<Union>n \<in> set (listdir p f). branch f (p @ [n]))"
  proof (cases "r = []")
    case True
    have "\<not> is_dir f (p @ [n])" using fs_ok_unique [OF assms, of q Dir "File c"] c True by (auto simp: is_dir_def q)
    then show ?thesis using c True by (auto simp: branch_def q listdir_iff intro!: bexI [of _ n] exists_pathI)
  next
    case False
    have "is_dir f (p @ [n])" using fs_ok_ancestor [OF assms, of "p @ [n]" r] c False by simp
    then show ?thesis using c False
      by (auto simp: branch_def q files_under_def listdir_iff strict_prefix_def intro!: bexI [of _ n] is_dir_exists)
  qed
next
  fix n q c assume "n \<in> set (listdir p f)" "(q, c) \<in> branch f (p @ [n])"
  then show "(q, c) \<in> files_under f p"
    by (auto simp: branch_def files_under_def strict_prefix_def prefix_def split: if_splits)
qed

lemma branch_disjoint: "n \<noteq> m \<Longrightarrow> branch f (p @ [n]) \<inter> branch f (p @ [m]) = {}"
  by (auto simp: branch_def files_under_def strict_prefix_def prefix_def split: if_splits)

lemma fold_pairs:
  "fold (\<lambda>n (a, b). (a + g n, b + h n)) ns (a0, b0) = (a0 + sum_list (map g ns), b0 + sum_list (map h ns))"
  for g h :: "'a \<Rightarrow> nat"
  by (induction ns arbitrary: a0 b0) (auto simp: add.assoc)

lemma finite_branch [simp]: "fs_ok f \<Longrightarrow> finite (branch f q)"
  by (auto simp: branch_def intro: rev_finite_subset [of "{(q, case map_of f q of Some (File c) \<Rightarrow> c | _ \<Rightarrow> [])}"] simp: fs_ok_def)

lemma prescan_counts:
  "fs_ok f \<Longrightarrow> prescan f p = (card (files_under f p), \<Sum>e \<in> files_under f p. length (snd e))"
proof (induction f p rule: prescan.induct)
  case (1 f p)
  note ok = 1(2)
  let ?B = "\<lambda>n. branch f (p @ [n])"
  have leaf: "?B n = (case file_at f (p @ [n]) of Some c \<Rightarrow> {(p @ [n], c)} | None \<Rightarrow> {})"
    if "\<not> is_dir f (p @ [n])" for n
  proof -
    have "{(p @ [n], c) | c. (p @ [n], File c) \<in> set f} = {(p @ [n], c) | c. file_at f (p @ [n]) = Some c}"
      by (simp add: file_at_iff [OF ok])
    then show ?thesis using that by (auto simp: branch_def split: option.split)
  qed
  have step: "(if is_dir f (p @ [n]) then
         (let (sub_files, sub_bytes) = prescan f (p @ [n]) in (a + sub_files, b + sub_bytes))
       else (case file_at f (p @ [n]) of Some c \<Rightarrow> (a + 1, b + length c) | None \<Rightarrow> (a, b)))
      = (a + card (?B n), b + (\<Sum>e \<in> ?B n. length (snd e)))" if "n \<in> set (listdir p f)" for n a b
  proof (cases "is_dir f (p @ [n])")
    case True
    then show ?thesis using 1(1) [OF that True ok] by (simp add: branch_def)
  next
    case False
    then show ?thesis using leaf [OF False] by (auto split: option.split)
  qed
  have "prescan f p = fold (\<lambda>n (a, b). (a + card (?B n), b + (\<Sum>e \<in> ?B n. length (snd e)))) (listdir p f) (0, 0)"
    unfolding prescan.simps [of f p] using step by (intro fold_cong refl) auto
  also have "\<dots> = (sum_list (map (\<lambda>n. card (?B n)) (listdir p f)),
      sum_list (map (\<lambda>n. \<Sum>e \<in> ?B n. length (snd e)) (listdir p f)))"
    by (simp add: fold_pairs)
  also have "\<dots> = (card (\<Union>n \<in> set (listdir p f). ?B n), \<Sum>e \<in> (\<Union>n \<in> set (listdir p f). ?B n). length (snd e))"
  proof -
    have d: "distinct (listdir p f)" using ok distinct_listdir by (simp add: fs_ok_def)
    have "card (\<Union>n \<in> set (listdir p f). ?B n) = (\<Sum>n \<in> set (listdir p f). card (?B n))"
      using ok branch_disjoint by (intro card_UN_disjoint) auto
    moreover have "(\<Sum>e \<in> (\<Union>n \<in> set (listdir p f). ?B n). length (snd e))
        = (\<Sum>n \<in> set (listdir p f). \<Sum>e \<in> ?B n. length (snd e))"
      using ok branch_disjoint by (intro sum.UNION_disjoint) auto
    ultimately show ?thesis by (simp add: sum_list_distinct_conv_sum_set [OF d])
  qed
  also have "(\<Union>n \<in> set (listdir p f). ?B n) = files_under f p"
    by (rule files_under_branches [OF ok, symmetric])
  finally show ?case .
qed

section \<open>Copying a tree\<close>

text \<open>
  What the operating system may do to the copy of one file: fail with an error after some bytes,
  or see the process killed at that point. \<open>copy2\<close> opens the destination before it writes, so the
  bytes written so far stay there.
\<close>

datatype fault = Disk_error str nat | Process_killed nat

text \<open>
  The file system, the counter of \<open>copy_tree\<close>, what \<open>on_progress\<close> stored in the migration row, and
  the part of it that is committed (every hundredth file).
\<close>

record copy_state =
  cs_fs :: fs
  cs_files :: nat
  cs_bytes :: nat
  cs_reported :: "nat \<times> nat"
  cs_committed :: "nat \<times> nat"

datatype copy_result = Copied copy_state | Copy_cancelled copy_state | Copy_raised str copy_state | Copy_killed copy_state

fun result_state :: "copy_result \<Rightarrow> copy_state" where
  "result_state (Copied st) = st"
| "result_state (Copy_cancelled st) = st"
| "result_state (Copy_raised m st) = st"
| "result_state (Copy_killed st) = st"

definition copy2 :: "(path \<Rightarrow> fault option) \<Rightarrow> str \<Rightarrow> path \<Rightarrow> copy_state \<Rightarrow> copy_result" where
  "copy2 io c dst st =
    (case io dst of
       None \<Rightarrow> Copied (st\<lparr>cs_fs := cs_fs st @ [(dst, File c)]\<rparr>)
     | Some (Disk_error m k) \<Rightarrow> Copy_raised m (st\<lparr>cs_fs := cs_fs st @ [(dst, File (take k c))]\<rparr>)
     | Some (Process_killed k) \<Rightarrow> Copy_killed (st\<lparr>cs_fs := cs_fs st @ [(dst, File (take k c))]\<rparr>))"

text \<open>
  The counter and \<open>on_progress\<close> of the migration: \<open>cancel_seen n\<close> tells whether the cancel flag is
  set when the \<open>n\<close>-th file is reported.
\<close>

definition count_file :: "nat \<Rightarrow> copy_state \<Rightarrow> copy_state" where
  "count_file sz st = st\<lparr>cs_files := cs_files st + 1, cs_bytes := cs_bytes st + sz\<rparr>"

definition on_progress :: "(nat \<Rightarrow> bool) \<Rightarrow> copy_state \<Rightarrow> copy_result" where
  "on_progress cancel_seen st =
    (if cancel_seen (cs_files st) then Copy_cancelled st
     else
       let now = (cs_files st, cs_bytes st)
       in Copied (st\<lparr>cs_reported := now,
            cs_committed := (if cs_files st mod 100 = 0 then now else cs_committed st)\<rparr>))"

text \<open>
  \<open>copy_tree\<close>. The directory listings are those of the file system \<open>f0\<close> at the start of the copy:
  the copy itself writes below the destination only.
\<close>

function copy_tree ::
    "(path \<Rightarrow> fault option) \<Rightarrow> (nat \<Rightarrow> bool) \<Rightarrow> fs \<Rightarrow> path \<Rightarrow> path \<Rightarrow> copy_state \<Rightarrow> copy_result"
  and copy_entries ::
    "(path \<Rightarrow> fault option) \<Rightarrow> (nat \<Rightarrow> bool) \<Rightarrow> fs \<Rightarrow> path \<Rightarrow> path \<Rightarrow> str list \<Rightarrow> copy_state \<Rightarrow> copy_result"
where
  "copy_tree io cancel_seen f0 src dst st =
    (case make_dirs dst (cs_fs st) of
       Inl m \<Rightarrow> Copy_raised m st
     | Inr f \<Rightarrow> copy_entries io cancel_seen f0 src dst (listdir src f0) (st\<lparr>cs_fs := f\<rparr>))"
| "copy_entries io cancel_seen f0 src dst [] st = Copied st"
| "copy_entries io cancel_seen f0 src dst (n # ns) st =
    (if is_dir f0 (src @ [n]) then
       (case copy_tree io cancel_seen f0 (src @ [n]) (dst @ [n]) st of
          Copied st' \<Rightarrow> copy_entries io cancel_seen f0 src dst ns st'
        | stopped \<Rightarrow> stopped)
     else
       (case file_at f0 (src @ [n]) of
          None \<Rightarrow> copy_entries io cancel_seen f0 src dst ns st
        | Some c \<Rightarrow>
            (case (if exists_path (cs_fs st) (dst @ [n]) then Copied st else copy2 io c (dst @ [n]) st) of
               Copied st' \<Rightarrow>
                 (case on_progress cancel_seen (count_file (length c) st') of
                    Copied st'' \<Rightarrow> copy_entries io cancel_seen f0 src dst ns st''
                  | stopped \<Rightarrow> stopped)
             | stopped \<Rightarrow> stopped)))"
  by pat_completeness auto
termination
proof (relation "measures
    [case_sum (\<lambda>(io, c, f0, src, dst, st). Suc (depth f0) - length src)
       (\<lambda>(io, c, f0, src, dst, ns, st). Suc (depth f0) - length src),
     case_sum (\<lambda>(io, c, f0, src, dst, st). Suc (length (listdir src f0)))
       (\<lambda>(io, c, f0, src, dst, ns, st). length ns)]", goal_cases)
qed (use depth_step in auto)

declare copy_tree.simps [simp del]

text \<open>\<open>verify_copy\<close>: both sides are scanned and only the numbers of files are compared.\<close>

definition verify_copy :: "fs \<Rightarrow> path \<Rightarrow> path \<Rightarrow> str + bool \<times> str" where
  "verify_copy f source dest =
    (case prescan_path f source of
       Inl m \<Rightarrow> Inl m
     | Inr (src_files, _) \<Rightarrow>
         (case prescan_path f dest of
            Inl m \<Rightarrow> Inl m
          | Inr (dst_files, _) \<Rightarrow>
              Inr (if src_files = dst_files then (True, ''OK'')
                   else (False, ''File count mismatch: source='' @ show_nat src_files @ '', dest='' @ show_nat dst_files))))"

section \<open>What a copy does\<close>

fun fault_free :: "copy_result \<Rightarrow> bool" where
  "fault_free (Copied st) = True"
| "fault_free (Copy_cancelled st) = True"
| "fault_free (Copy_raised m st) = False"
| "fault_free (Copy_killed st) = False"

abbreviation fs_after :: "copy_result \<Rightarrow> fs" where
  "fs_after r \<equiv> cs_fs (result_state r)"

text \<open>An entry the copy may add: a directory, or a file of the source, possibly cut short.\<close>

definition addable :: "fs \<Rightarrow> path \<Rightarrow> path \<Rightarrow> bool \<Rightarrow> path \<times> node \<Rightarrow> bool" where
  "addable f0 src dst exact e =
    ((snd e = Dir \<and> fst e \<noteq> [] \<and> prefix (fst e) dst)
     \<or> (\<exists>r. r \<noteq> [] \<and> fst e = dst @ r \<and>
         ((snd e = Dir \<and> is_dir f0 (src @ r))
          \<or> (\<exists>c k. (src @ r, File c) \<in> set f0 \<and> snd e = File (take k c) \<and> (exact \<longrightarrow> snd e = File c)))))"

lemma addable_weaken: "addable f0 src dst x e \<Longrightarrow> (y \<Longrightarrow> x) \<Longrightarrow> addable f0 src dst y e"
  unfolding addable_def by blast

lemma addable_child:
  assumes "addable f0 (src @ [n]) (dst @ [n]) x e" "is_dir f0 (src @ [n])"
  shows "addable f0 src dst x e"
proof -
  consider "snd e = Dir" "fst e \<noteq> []" "prefix (fst e) (dst @ [n])"
    | r where "r \<noteq> []" "fst e = dst @ n # r" "(snd e = Dir \<and> is_dir f0 (src @ n # r))
          \<or> (\<exists>c k. (src @ n # r, File c) \<in> set f0 \<and> snd e = File (take k c) \<and> (x \<longrightarrow> snd e = File c))"
    using assms(1) unfolding addable_def by auto
  then show ?thesis
  proof cases
    case 1
    then show ?thesis
      using assms(2) unfolding addable_def prefix_snoc by (intro disjCI) (auto intro!: exI [of _ "[n]"])
  next
    case 2
    then show ?thesis unfolding addable_def by (intro disjI2 exI [of _ "n # r"]) auto
  qed
qed

definition grows :: "fs \<Rightarrow> path \<Rightarrow> path \<Rightarrow> bool \<Rightarrow> fs \<Rightarrow> fs \<Rightarrow> bool" where
  "grows f0 src dst exact f f' =
    (set f \<subseteq> set f' \<and> (\<forall>e \<in> set f'. e \<in> set f \<or> (addable f0 src dst exact e \<and> \<not> exists_path f (fst e))))"

lemma exists_mono: "set f \<subseteq> set f' \<Longrightarrow> exists_path f p \<Longrightarrow> exists_path f' p"
  by (auto simp: exists_path_def)

lemma grows_refl: "grows f0 src dst x f f"
  by (simp add: grows_def)

lemma grows_trans:
  "grows f0 src dst x f g \<Longrightarrow> grows f0 src dst y g h \<Longrightarrow> (y \<Longrightarrow> x) \<Longrightarrow> grows f0 src dst y f h"
  unfolding grows_def by (meson addable_weaken exists_mono subset_trans)

lemma grows_child:
  "grows f0 (src @ [n]) (dst @ [n]) x f g \<Longrightarrow> is_dir f0 (src @ [n]) \<Longrightarrow> grows f0 src dst x f g"
  unfolding grows_def by (meson addable_child)

lemma grows_make_dirs: "make_dirs dst f = Inr g \<Longrightarrow> grows f0 src dst x f g"
  unfolding grows_def addable_def by (auto simp: make_dirs_mem)

lemma grows_copy2:
  assumes "(src @ [n], File c) \<in> set f0" "\<not> exists_path (cs_fs st) (dst @ [n])" "copy2 io c (dst @ [n]) st = r"
  shows "grows f0 src dst (fault_free r) (cs_fs st) (fs_after r)"
proof -
  obtain k where k: "fs_after r = cs_fs st @ [(dst @ [n], File (take k c))]" "fault_free r \<Longrightarrow> take k c = c"
    using assms(3) unfolding copy2_def
    by (cases "io (dst @ [n])") (auto split: fault.splits intro: that [of "length c"])
  have "addable f0 src dst (fault_free r) (dst @ [n], File (take k c))"
    unfolding addable_def using assms(1) k(2) by (intro disjI2 exI [of _ "[n]"]) auto
  then show ?thesis using assms(2) unfolding grows_def k(1) by auto
qed

lemma copy_grows:
  shows "grows f0 src dst (fault_free (copy_tree io cancel_seen f0 src dst st)) (cs_fs st)
      (fs_after (copy_tree io cancel_seen f0 src dst st))"
    and "grows f0 src dst (fault_free (copy_entries io cancel_seen f0 src dst ns st)) (cs_fs st)
      (fs_after (copy_entries io cancel_seen f0 src dst ns st))"
proof (induction io cancel_seen f0 src dst st and io cancel_seen f0 src dst ns st
    rule: copy_tree_copy_entries.induct)
  case (1 io cancel_seen f0 src dst st)
  show ?case
  proof (cases "make_dirs dst (cs_fs st)")
    case (Inl m)
    then show ?thesis by (simp add: copy_tree.simps grows_refl)
  next
    case (Inr f)
    then show ?thesis
      using grows_trans [OF grows_make_dirs [OF Inr, where x = True] "1.IH" [OF Inr, simplified]]
      by (simp add: copy_tree.simps)
  qed
next
  case (2 io cancel_seen f0 src dst st)
  then show ?case by (simp add: grows_refl)
next
  case (3 io cancel_seen f0 src dst n ns st)
  show ?case
  proof (cases "is_dir f0 (src @ [n])")
    case True
    note sub = grows_child [OF "3.IH"(1) [OF True] True]
    show ?thesis
    proof (cases "copy_tree io cancel_seen f0 (src @ [n]) (dst @ [n]) st")
      case (Copied st')
      then show ?thesis using sub grows_trans [OF _ "3.IH"(2) [OF True Copied]] True by simp
    qed (use sub True in \<open>simp_all\<close>)
  next
    case False
    show ?thesis
    proof (cases "file_at f0 (src @ [n])")
      case None
      then show ?thesis using "3.IH"(3) [OF False None] False by simp
    next
      case (Some c)
      define r where "r = (if exists_path (cs_fs st) (dst @ [n]) then Copied st else copy2 io c (dst @ [n]) st)"
      have step: "grows f0 src dst (fault_free r) (cs_fs st) (fs_after r)"
        using grows_copy2 [OF file_atD [OF Some]] by (simp add: r_def grows_refl)
      show ?thesis
      proof (cases r)
        case (Copied st')
        show ?thesis
        proof (cases "on_progress cancel_seen (count_file (length c) st')")
          case r2: (Copied st'')
          then have "cs_fs st'' = cs_fs st'" by (auto simp: on_progress_def count_file_def Let_def split: if_splits)
          then show ?thesis
            using step grows_trans [OF _ "3.IH"(4) [OF False Some Copied [unfolded r_def] r2]] False Some Copied r2
            by (simp add: r_def [symmetric])
        next
          case r2: (Copy_cancelled st'')
          then have "cs_fs st'' = cs_fs st'" by (auto simp: on_progress_def count_file_def Let_def split: if_splits)
          then show ?thesis using step False Some Copied r2 by (simp add: r_def [symmetric])
        qed (auto simp: on_progress_def Let_def split: if_splits)
      qed (use step False Some in \<open>auto simp: r_def [symmetric]\<close>)
    qed
  qed
qed

lemma on_progress_fs [simp]: "fs_after (on_progress cancel_seen (count_file k st)) = cs_fs st"
  by (simp add: on_progress_def count_file_def Let_def)

lemma on_progress_cases:
  obtains st' where "on_progress cancel_seen st = Copied st'" "cs_fs st' = cs_fs st"
      "cs_files st' = cs_files st" "cs_bytes st' = cs_bytes st" "\<not> cancel_seen (cs_files st)"
  | "on_progress cancel_seen st = Copy_cancelled st" "cancel_seen (cs_files st)"
  by (cases "cancel_seen (cs_files st)") (auto simp: on_progress_def Let_def)

text \<open>A copy keeps the file system well formed, and a directory stays one.\<close>

lemma grows_is_dir: "grows f0 src dst x f g \<Longrightarrow> is_dir f p \<Longrightarrow> is_dir g p"
  by (auto simp: grows_def is_dir_def)

lemma fs_ok_new_file:
  assumes "fs_ok f" "\<not> exists_path f (p @ [n])" "is_dir f p \<or> p = []"
  shows "fs_ok (f @ [(p @ [n], File c)])"
  using assms unfolding fs_ok_def by (auto simp: exists_path_def is_dir_def)

lemma fs_ok_copy2:
  assumes "fs_ok (cs_fs st)" "\<not> exists_path (cs_fs st) (dst @ [n])" "is_dir (cs_fs st) dst \<or> dst = []"
  shows "fs_ok (fs_after (copy2 io c (dst @ [n]) st))"
  using fs_ok_new_file [OF assms] by (auto simp: copy2_def split: option.split fault.split)

lemma copy_fs_ok:
  shows "fs_ok (cs_fs st) \<Longrightarrow> fs_ok (fs_after (copy_tree io cancel_seen f0 src dst st))"
    and "fs_ok (cs_fs st) \<Longrightarrow> is_dir (cs_fs st) dst \<or> dst = [] \<Longrightarrow>
      fs_ok (fs_after (copy_entries io cancel_seen f0 src dst ns st))"
proof (induction io cancel_seen f0 src dst st and io cancel_seen f0 src dst ns st
    rule: copy_tree_copy_entries.induct)
  case (1 io cancel_seen f0 src dst st)
  show ?case
  proof (cases "make_dirs dst (cs_fs st)")
    case (Inr f)
    then have "is_dir f dst \<or> dst = []" using make_dirs_Inr(2) [OF Inr, of dst] by auto
    then show ?thesis
      using "1.IH" [OF Inr] fs_ok_make_dirs [OF "1.prems" Inr] by (simp add: copy_tree.simps Inr)
  qed (simp add: copy_tree.simps "1.prems")
next
  case (3 io cancel_seen f0 src dst n ns st)
  show ?case
  proof (cases "is_dir f0 (src @ [n])")
    case True
    note sub = "3.IH"(1) [OF True "3.prems"(1)] copy_grows(1) [of f0 "src @ [n]" "dst @ [n]" io cancel_seen st]
    show ?thesis
    proof (cases "copy_tree io cancel_seen f0 (src @ [n]) (dst @ [n]) st")
      case (Copied st')
      then show ?thesis
        using sub "3.IH"(2) [OF True Copied] "3.prems"(2) grows_is_dir True by simp blast
    qed (use sub True in \<open>simp_all\<close>)
  next
    case False
    show ?thesis
    proof (cases "file_at f0 (src @ [n])")
      case None
      then show ?thesis using "3.IH"(3) [OF False None] "3.prems" False by simp
    next
      case (Some c)
      define r where "r = (if exists_path (cs_fs st) (dst @ [n]) then Copied st else copy2 io c (dst @ [n]) st)"
      have ok: "fs_ok (fs_after r)" and dir: "is_dir (fs_after r) dst \<or> dst = []"
        using fs_ok_copy2 "3.prems"
        by (auto simp: r_def copy2_def is_dir_def split: option.split fault.split)
      show ?thesis
      proof (cases r)
        case (Copied st')
        show ?thesis
          using "3.IH"(4) [OF False Some Copied [unfolded r_def]] ok dir False Some Copied
          by (cases rule: on_progress_cases [of cancel_seen "count_file (length c) st'"])
            (auto simp: r_def [symmetric] count_file_def)
      qed (use ok False Some in \<open>auto simp: r_def [symmetric]\<close>)
    qed
  qed
qed simp

text \<open>A copy that returns normally has an entry for every file of the source.\<close>

lemma copy_covers:
  shows "fs_ok f0 \<Longrightarrow> copy_tree io cancel_seen f0 src dst st = Copied st' \<Longrightarrow>
      r \<noteq> [] \<Longrightarrow> (src @ r, File c) \<in> set f0 \<Longrightarrow> exists_path (cs_fs st') (dst @ r)"
    and "fs_ok f0 \<Longrightarrow> copy_entries io cancel_seen f0 src dst ns st = Copied st' \<Longrightarrow>
      r \<noteq> [] \<Longrightarrow> hd r \<in> set ns \<Longrightarrow> (src @ r, File c) \<in> set f0 \<Longrightarrow> exists_path (cs_fs st') (dst @ r)"
proof (induction io cancel_seen f0 src dst st and io cancel_seen f0 src dst ns st arbitrary: st' r c and st' r c
    rule: copy_tree_copy_entries.induct)
  case (1 io cancel_seen f0 src dst st)
  obtain n t where r: "r = n # t" using "1.prems"(3) by (cases r) auto
  have "exists_path f0 (src @ [n])"
  proof (cases t)
    case Nil
    then show ?thesis using "1.prems"(4) r by (auto intro: exists_pathI)
  next
    case Cons
    then show ?thesis using fs_ok_ancestor [OF "1.prems"(1), of "src @ [n]" t] "1.prems"(4) r
      by (auto intro: is_dir_exists)
  qed
  then have "hd r \<in> set (listdir src f0)" by (simp add: r listdir_iff)
  with "1.prems" "1.IH" show ?case by (auto simp: copy_tree.simps split: sum.splits)
next
  case (3 io cancel_seen f0 src dst n ns st)
  note later = copy_grows(2) [of f0 src dst io cancel_seen ns]
  show ?case
  proof (cases "is_dir f0 (src @ [n])")
    case True
    then obtain st1 where s1: "copy_tree io cancel_seen f0 (src @ [n]) (dst @ [n]) st = Copied st1"
      and s2: "copy_entries io cancel_seen f0 src dst ns st1 = Copied st'"
      using "3.prems"(2) by (auto split: copy_result.splits)
    show ?thesis
    proof (cases "hd r = n")
      case hd: True
      then obtain t where r: "r = n # t" using "3.prems"(3) by (cases r) auto
      have "t \<noteq> []"
        using fs_ok_unique [OF "3.prems"(1) "3.prems"(5), of Dir] True by (auto simp: r is_dir_def)
      then have "exists_path (cs_fs st1) (dst @ r)"
        using "3.IH"(1) [OF True "3.prems"(1) s1] "3.prems"(5) r by simp
      then show ?thesis using later [of st1] s2 by (auto simp: grows_def intro: exists_mono)
    next
      case False
      then show ?thesis using "3.IH"(2) [OF True s1 "3.prems"(1) s2] "3.prems" by simp
    qed
  next
    case False
    show ?thesis
    proof (cases "file_at f0 (src @ [n])")
      case None
      have "hd r \<noteq> n"
      proof
        assume "hd r = n"
        then obtain t where r: "r = n # t" using "3.prems"(3) by (cases r) auto
        then show False
          using "3.prems"(1,5) fs_ok_ancestor [OF "3.prems"(1), of "src @ [n]" t] False None
            file_at_iff [OF "3.prems"(1), of "src @ [n]" c]
          by (cases t) auto
      qed
      then show ?thesis using "3.IH"(3) [OF False None "3.prems"(1)] "3.prems" False None by simp
    next
      case (Some d)
      define q where "q = (if exists_path (cs_fs st) (dst @ [n]) then Copied st else copy2 io d (dst @ [n]) st)"
      from "3.prems"(2) obtain st1 where q1: "q = Copied st1"
        using False Some by (auto simp: q_def [symmetric] split: copy_result.splits)
      then obtain st2 where q2: "on_progress cancel_seen (count_file (length d) st1) = Copied st2"
        and s2: "copy_entries io cancel_seen f0 src dst ns st2 = Copied st'"
        using "3.prems"(2) False Some by (auto simp: q_def [symmetric] split: copy_result.splits)
      have "cs_fs st2 = cs_fs st1" using q2 on_progress_fs by (metis result_state.simps(1))
      moreover have "exists_path (cs_fs st1) (dst @ [n])"
        using q1 by (auto simp: q_def copy2_def exists_path_def split: if_splits option.splits fault.splits)
      ultimately have here: "exists_path (cs_fs st') (dst @ [n])"
        using later [of st2] s2 by (auto simp: grows_def intro: exists_mono)
      show ?thesis
      proof (cases "hd r = n")
        case True
        then obtain t where r: "r = n # t" using "3.prems"(3) by (cases r) auto
        have "t = []"
          using "3.prems"(1,5) fs_ok_ancestor [OF "3.prems"(1), of "src @ [n]" t] False r by (cases t) auto
        then show ?thesis using here r by simp
      next
        case hd: False
        then show ?thesis
          using "3.IH"(4) [OF False Some q1 [unfolded q_def] q2 "3.prems"(1) s2] "3.prems" by simp
      qed
    qed
  qed
qed simp

text \<open>The counter: a normal return has counted what \<open>prescan\<close> counts, and it never exceeds that.\<close>

definition scan_names :: "fs \<Rightarrow> path \<Rightarrow> str list \<Rightarrow> nat \<times> nat" where
  "scan_names f p ns = fold (\<lambda>n (file_count, total_bytes).
       if is_dir f (p @ [n]) then
         (let (sub_files, sub_bytes) = prescan f (p @ [n]) in (file_count + sub_files, total_bytes + sub_bytes))
       else (case file_at f (p @ [n]) of
           Some c \<Rightarrow> (file_count + 1, total_bytes + length c)
         | None \<Rightarrow> (file_count, total_bytes))) ns (0, 0)"

definition scan_one :: "fs \<Rightarrow> path \<Rightarrow> nat \<times> nat" where
  "scan_one f q = (if is_dir f q then prescan f q else (case file_at f q of Some c \<Rightarrow> (1, length c) | None \<Rightarrow> (0, 0)))"

lemma scan_fold:
  "fold (\<lambda>n (file_count, total_bytes).
       if is_dir f (p @ [n]) then
         (let (sub_files, sub_bytes) = prescan f (p @ [n]) in (file_count + sub_files, total_bytes + sub_bytes))
       else (case file_at f (p @ [n]) of
           Some c \<Rightarrow> (file_count + 1, total_bytes + length c)
         | None \<Rightarrow> (file_count, total_bytes))) ns (a, b)
    = (a + fst (scan_names f p ns), b + snd (scan_names f p ns))"
proof -
  have fun_eq: "(\<lambda>n (file_count, total_bytes).
       if is_dir f (p @ [n]) then
         (let (sub_files, sub_bytes) = prescan f (p @ [n]) in (file_count + sub_files, total_bytes + sub_bytes))
       else (case file_at f (p @ [n]) of
           Some c \<Rightarrow> (file_count + 1, total_bytes + length c)
         | None \<Rightarrow> (file_count, total_bytes)))
     = (\<lambda>n (a, b). (a + fst (scan_one f (p @ [n])), b + snd (scan_one f (p @ [n]))))"
    by (intro ext) (auto simp: scan_one_def split: option.split prod.split)
  show ?thesis unfolding scan_names_def fun_eq fold_pairs by simp
qed

lemma scan_names_Cons:
  "scan_names f p (n # ns) = (fst (scan_one f (p @ [n])) + fst (scan_names f p ns),
     snd (scan_one f (p @ [n])) + snd (scan_names f p ns))"
proof -
  have "scan_names f p (n # ns) = fold (\<lambda>n (file_count, total_bytes).
       if is_dir f (p @ [n]) then
         (let (sub_files, sub_bytes) = prescan f (p @ [n]) in (file_count + sub_files, total_bytes + sub_bytes))
       else (case file_at f (p @ [n]) of
           Some c \<Rightarrow> (file_count + 1, total_bytes + length c)
         | None \<Rightarrow> (file_count, total_bytes))) ns (fst (scan_one f (p @ [n])), snd (scan_one f (p @ [n])))"
    by (auto simp: scan_names_def scan_one_def split: option.split prod.split)
  then show ?thesis by (simp only: scan_fold)
qed

lemma scan_names_Nil: "scan_names f p [] = (0, 0)"
  by (simp add: scan_names_def)

lemma prescan_names: "prescan f p = scan_names f p (listdir p f)"
  by (subst prescan.simps) (simp add: scan_names_def)

definition counts_to :: "copy_state \<Rightarrow> nat \<times> nat \<Rightarrow> copy_result \<Rightarrow> bool" where
  "counts_to st k r =
    (cs_files (result_state r) \<le> cs_files st + fst k \<and> cs_bytes (result_state r) \<le> cs_bytes st + snd k
     \<and> (\<forall>st'. r = Copied st' \<longrightarrow> cs_files st' = cs_files st + fst k \<and> cs_bytes st' = cs_bytes st + snd k))"

lemma counts_to_stop:
  "counts_to st k r \<Longrightarrow> (\<And>st'. r \<noteq> Copied st') \<Longrightarrow> counts_to st (fst k + a, snd k + b) r"
  by (auto simp: counts_to_def)

lemma counts_to_next:
  "counts_to st k (Copied st1) \<Longrightarrow> counts_to st1 k' r \<Longrightarrow> counts_to st (fst k + fst k', snd k + snd k') r"
  by (auto simp: counts_to_def)

lemma copy_counts:
  shows "counts_to st (prescan f0 src) (copy_tree io cancel_seen f0 src dst st)"
    and "counts_to st (scan_names f0 src ns) (copy_entries io cancel_seen f0 src dst ns st)"
proof (induction io cancel_seen f0 src dst st and io cancel_seen f0 src dst ns st
    rule: copy_tree_copy_entries.induct)
  case (1 io cancel_seen f0 src dst st)
  then show ?case
    by (auto simp: copy_tree.simps prescan_names counts_to_def split: sum.splits)
next
  case (2 io cancel_seen f0 src dst st)
  then show ?case by (simp add: counts_to_def scan_names_Nil)
next
  case (3 io cancel_seen f0 src dst n ns st)
  show ?case
  proof (cases "is_dir f0 (src @ [n])")
    case True
    note sub = "3.IH"(1) [OF True]
    show ?thesis
    proof (cases "copy_tree io cancel_seen f0 (src @ [n]) (dst @ [n]) st")
      case (Copied st')
      then show ?thesis
        using counts_to_next [OF sub [unfolded Copied] "3.IH"(2) [OF True Copied]] True
        by (simp add: scan_names_Cons scan_one_def)
    qed (use counts_to_stop [OF sub] True in \<open>simp_all add: scan_names_Cons scan_one_def\<close>)
  next
    case False
    show ?thesis
    proof (cases "file_at f0 (src @ [n])")
      case None
      then show ?thesis using "3.IH"(3) [OF False None] False by (simp add: scan_names_Cons scan_one_def)
    next
      case (Some c)
      define r where "r = (if exists_path (cs_fs st) (dst @ [n]) then Copied st else copy2 io c (dst @ [n]) st)"
      have same: "cs_files (result_state r) = cs_files st" "cs_bytes (result_state r) = cs_bytes st"
        by (auto simp: r_def copy2_def split: option.split fault.split)
      have one: "scan_one f0 (src @ [n]) = (1, length c)" using False Some by (simp add: scan_one_def)
      show ?thesis
      proof (cases r)
        case (Copied st1)
        show ?thesis
        proof (cases rule: on_progress_cases [of cancel_seen "count_file (length c) st1"])
          case (1 st2)
          then have "counts_to st (1, length c) (Copied st2)"
            using same Copied by (auto simp: counts_to_def count_file_def)
          then show ?thesis
            using counts_to_next [of st "(1, length c)", OF _ "3.IH"(4) [OF False Some Copied [unfolded r_def] 1(1)]]
              False Some Copied 1(1) one
            by (simp add: r_def [symmetric] scan_names_Cons)
        next
          case 2
          then show ?thesis
            using False Some Copied one same
            by (simp add: r_def [symmetric] scan_names_Cons counts_to_def count_file_def)
        qed
      qed (use False Some one same in \<open>auto simp: r_def [symmetric] scan_names_Cons counts_to_def\<close>)
    qed
  qed
qed

text \<open>What was reported to the migration row is never more than what was counted.\<close>

definition reported_ok :: "copy_state \<Rightarrow> bool" where
  "reported_ok st = (fst (cs_reported st) \<le> cs_files st \<and> snd (cs_reported st) \<le> cs_bytes st
     \<and> fst (cs_committed st) \<le> fst (cs_reported st) \<and> snd (cs_committed st) \<le> snd (cs_reported st))"

lemma reported_ok_step:
  assumes "reported_ok st"
  shows "reported_ok (result_state (on_progress cancel_seen (count_file k st)))"
  using assms by (auto simp: reported_ok_def on_progress_def count_file_def Let_def)

lemma reported_ok_copy2: "reported_ok st \<Longrightarrow> reported_ok (result_state (copy2 io c q st))"
  by (auto simp: reported_ok_def copy2_def split: option.split fault.split)

lemma copy_reported:
  shows "reported_ok st \<Longrightarrow> reported_ok (result_state (copy_tree io cancel_seen f0 src dst st))"
    and "reported_ok st \<Longrightarrow> reported_ok (result_state (copy_entries io cancel_seen f0 src dst ns st))"
proof (induction io cancel_seen f0 src dst st and io cancel_seen f0 src dst ns st
    rule: copy_tree_copy_entries.induct)
  case (1 io cancel_seen f0 src dst st)
  then show ?case by (simp add: copy_tree.simps reported_ok_def split: sum.split)
next
  case (3 io cancel_seen f0 src dst n ns st)
  show ?case
  proof (cases "is_dir f0 (src @ [n])")
    case True
    with "3.IH"(1,2) [OF True] "3.prems" show ?thesis
      by (cases "copy_tree io cancel_seen f0 (src @ [n]) (dst @ [n]) st") auto
  next
    case False
    show ?thesis
    proof (cases "file_at f0 (src @ [n])")
      case None
      with "3.IH"(3) [OF False None] "3.prems" False show ?thesis by simp
    next
      case (Some c)
      define r where "r = (if exists_path (cs_fs st) (dst @ [n]) then Copied st else copy2 io c (dst @ [n]) st)"
      have ok: "reported_ok (result_state r)" using "3.prems" reported_ok_copy2 by (simp add: r_def)
      show ?thesis
      proof (cases r)
        case (Copied st1)
        note step = reported_ok_step [of st1 cancel_seen "length c"]
        show ?thesis
          using "3.IH"(4) [OF False Some Copied [unfolded r_def]] step ok Copied False Some
          by (cases "on_progress cancel_seen (count_file (length c) st1)") (simp_all add: r_def [symmetric])
      qed (use ok False Some in \<open>auto simp: r_def [symmetric]\<close>)
    qed
  qed
qed simp

text \<open>
  Where the destination can be merged with the source, a copy without faults that nobody cancels
  returns normally.
\<close>

definition mergeable :: "fs \<Rightarrow> path \<Rightarrow> path \<Rightarrow> fs \<Rightarrow> bool" where
  "mergeable f0 src dst f =
    ((\<forall>q. q \<noteq> [] \<longrightarrow> prefix q dst \<longrightarrow> exists_path f q \<longrightarrow> is_dir f q)
     \<and> (\<forall>r. r \<noteq> [] \<longrightarrow> is_dir f0 (src @ r) \<longrightarrow> exists_path f (dst @ r) \<longrightarrow> is_dir f (dst @ r)))"

lemma mergeable_make_dirs: "mergeable f0 src dst f \<Longrightarrow> \<exists>g. make_dirs dst f = Inr g"
proof -
  assume m: "mergeable f0 src dst f"
  have "is_dir f (take n dst)" if "n \<in> set [1..<length dst]" "exists_path f (take n dst)" for n
  proof -
    have "take n dst \<noteq> []" using that(1) by auto
    then show ?thesis using m that(2) take_is_prefix unfolding mergeable_def by blast
  qed
  moreover have "dst \<noteq> [] \<Longrightarrow> exists_path f dst \<Longrightarrow> is_dir f dst" using m unfolding mergeable_def by blast
  ultimately show "\<exists>g. make_dirs dst f = Inr g" unfolding make_dirs_def by auto
qed

lemma mergeable_fresh:
  assumes ok: "fs_ok f" and new: "\<not> exists_path f dst" "dst \<noteq> []" and mk: "make_dirs dst f = Inr g"
  shows "mergeable f0 src dst f"
  unfolding mergeable_def
proof (intro conjI allI impI)
  fix q assume q: "q \<noteq> []" "prefix q dst" "exists_path f q"
  then have "is_dir g q" using make_dirs_Inr(2) [OF mk] by blast
  then show "is_dir f q" using q(3) make_dirs_mem [OF mk] by (auto simp: is_dir_def)
next
  fix r assume "exists_path f (dst @ r)"
  then have "exists_path f dst"
    using fs_ok_ancestor [OF ok, of dst r] new(2) by (cases "r = []") (auto simp: exists_path_iff is_dir_def)
  then show "is_dir f (dst @ r)" using new(1) by simp
qed

lemma mergeable_child:
  assumes "mergeable f0 src dst f" "is_dir f0 (src @ [n])"
  shows "mergeable f0 (src @ [n]) (dst @ [n]) f"
  unfolding mergeable_def prefix_snoc
proof (intro conjI allI impI)
  fix q assume "q \<noteq> []" "q = dst @ [n] \<or> prefix q dst" "exists_path f q"
  then show "is_dir f q" using assms unfolding mergeable_def by blast
next
  fix r assume "r \<noteq> []" "is_dir f0 ((src @ [n]) @ r)" "exists_path f ((dst @ [n]) @ r)"
  then show "is_dir f ((dst @ [n]) @ r)"
    using assms(1) unfolding mergeable_def by (metis append.assoc append_is_Nil_conv)
qed

lemma mergeable_grows:
  assumes m: "mergeable f0 src dst f" and ok: "fs_ok f0" and g: "grows f0 src dst x f g"
  shows "mergeable f0 src dst g"
proof -
  have new: "is_dir g q"
    if "(q, d) \<in> set g" "exists_path f q \<Longrightarrow> is_dir f q" "\<And>r. q = dst @ r \<Longrightarrow> r \<noteq> [] \<Longrightarrow> is_dir f0 (src @ r)" for q d
  proof (cases "exists_path f q")
    case True
    then show ?thesis using that(2) grows_is_dir [OF g] by blast
  next
    case False
    then have "(q, d) \<notin> set f" by (auto intro: exists_pathI)
    with g that(1) have "addable f0 src dst x (q, d)" by (auto simp: grows_def)
    then have "d = Dir" using that(3) fs_ok_unique [OF ok] by (auto simp: addable_def is_dir_def)
    with that(1) show ?thesis by (simp add: is_dir_def)
  qed
  show ?thesis
    unfolding mergeable_def
  proof (intro conjI allI impI)
    fix q assume q: "q \<noteq> []" "prefix q dst" "exists_path g q"
    then obtain d where "(q, d) \<in> set g" by (auto simp: exists_path_iff)
    then show "is_dir g q" by (rule new) (use m q in \<open>auto simp: mergeable_def prefix_def\<close>)
  next
    fix r assume r: "r \<noteq> []" "is_dir f0 (src @ r)" "exists_path g (dst @ r)"
    then obtain d where "(dst @ r, d) \<in> set g" by (auto simp: exists_path_iff)
    then show "is_dir g (dst @ r)" by (rule new) (use m r in \<open>auto simp: mergeable_def\<close>)
  qed
qed

lemma copy_fault_free:
  shows "fs_ok f0 \<Longrightarrow> (\<And>q. io q = None) \<Longrightarrow> mergeable f0 src dst (cs_fs st) \<Longrightarrow>
      fault_free (copy_tree io cancel_seen f0 src dst st)"
    and "fs_ok f0 \<Longrightarrow> (\<And>q. io q = None) \<Longrightarrow> mergeable f0 src dst (cs_fs st) \<Longrightarrow>
      fault_free (copy_entries io cancel_seen f0 src dst ns st)"
proof (induction io cancel_seen f0 src dst st and io cancel_seen f0 src dst ns st
    rule: copy_tree_copy_entries.induct)
  case (1 io cancel_seen f0 src dst st)
  obtain g where g: "make_dirs dst (cs_fs st) = Inr g" using mergeable_make_dirs "1.prems"(3) by blast
  have "mergeable f0 src dst g"
    using mergeable_grows "1.prems"(1,3) grows_make_dirs [OF g] by blast
  then show ?case using "1.IH" [OF g] "1.prems" g by (simp add: copy_tree.simps)
next
  case (3 io cancel_seen f0 src dst n ns st)
  note env = "3.prems"(1,2)
  show ?case
  proof (cases "is_dir f0 (src @ [n])")
    case True
    note sub = "3.IH"(1) [OF True env mergeable_child [OF "3.prems"(3) True]]
    show ?thesis
    proof (cases "copy_tree io cancel_seen f0 (src @ [n]) (dst @ [n]) st")
      case (Copied st1)
      then have "mergeable f0 src dst (cs_fs st1)"
        using mergeable_grows [OF "3.prems"(3,1) grows_child [OF copy_grows(1) True]] by (metis result_state.simps(1))
      then show ?thesis using "3.IH"(2) [OF True Copied env] Copied True by simp
    qed (use sub True in simp_all)
  next
    case False
    show ?thesis
    proof (cases "file_at f0 (src @ [n])")
      case None
      with "3.IH"(3) [OF False None env "3.prems"(3)] False show ?thesis by simp
    next
      case (Some c)
      define q where "q = (if exists_path (cs_fs st) (dst @ [n]) then Copied st else copy2 io c (dst @ [n]) st)"
      have "q = Copied st \<or> q = Copied (st\<lparr>cs_fs := cs_fs st @ [(dst @ [n], File c)]\<rparr>)"
        using env(2) by (simp add: q_def copy2_def)
      then obtain st1 where q1: "q = Copied st1" by blast
      have "grows f0 src dst (fault_free q) (cs_fs st) (fs_after q)"
        using grows_copy2 [OF file_atD [OF Some]] by (simp add: q_def grows_refl)
      then have m: "mergeable f0 src dst (cs_fs st1)"
        using mergeable_grows "3.prems"(3,1) q1 by fastforce
      show ?thesis
      proof (cases rule: on_progress_cases [of cancel_seen "count_file (length c) st1"])
        case (1 st2)
        then have "mergeable f0 src dst (cs_fs st2)" using m by (simp add: count_file_def)
        then show ?thesis
          using "3.IH"(4) [OF False Some q1 [unfolded q_def] 1(1) env] q1 1(1) False Some
          by (simp add: q_def [symmetric])
      next
        case 2
        then show ?thesis using q1 False Some by (simp add: q_def [symmetric])
      qed
    qed
  qed
qed simp

lemma copy_cancel_seen:
  shows "copy_tree io cancel_seen f0 src dst st = Copy_cancelled st' \<Longrightarrow> cancel_seen (cs_files st')"
    and "copy_entries io cancel_seen f0 src dst ns st = Copy_cancelled st' \<Longrightarrow> cancel_seen (cs_files st')"
proof (induction io cancel_seen f0 src dst st and io cancel_seen f0 src dst ns st arbitrary: st' and st'
    rule: copy_tree_copy_entries.induct)
  case (1 io cancel_seen f0 src dst st)
  then show ?case by (auto simp: copy_tree.simps split: sum.splits)
next
  case (3 io cancel_seen f0 src dst n ns st)
  show ?case
  proof (cases "is_dir f0 (src @ [n])")
    case True
    with 3 show ?thesis by (auto split: copy_result.splits)
  next
    case False
    show ?thesis
    proof (cases "file_at f0 (src @ [n])")
      case (Some c)
      define q where "q = (if exists_path (cs_fs st) (dst @ [n]) then Copied st else copy2 io c (dst @ [n]) st)"
      then have "\<exists>st1. q = Copied st1"
        using "3.prems" False Some by (auto simp: copy2_def split: copy_result.splits option.splits fault.splits if_splits)
      then obtain st1 where q1: "q = Copied st1" by blast
      show ?thesis
        using "3.IH"(4) [OF False Some q1 [unfolded q_def]] "3.prems" False Some q1
        by (cases rule: on_progress_cases [of cancel_seen "count_file (length c) st1"])
          (auto simp: q_def [symmetric])
    qed (use 3 False in auto)
  qed
qed simp

text \<open>What a normal return reported last is the whole count.\<close>

definition all_reported :: "copy_state \<Rightarrow> bool" where
  "all_reported st = (cs_reported st = (cs_files st, cs_bytes st))"

lemma copy_reports_all:
  shows "all_reported st \<Longrightarrow> copy_tree io cancel_seen f0 src dst st = Copied st' \<Longrightarrow> all_reported st'"
    and "all_reported st \<Longrightarrow> copy_entries io cancel_seen f0 src dst ns st = Copied st' \<Longrightarrow> all_reported st'"
proof (induction io cancel_seen f0 src dst st and io cancel_seen f0 src dst ns st arbitrary: st' and st'
    rule: copy_tree_copy_entries.induct)
  case (1 io cancel_seen f0 src dst st)
  then show ?case by (auto simp: copy_tree.simps all_reported_def split: sum.splits)
next
  case (3 io cancel_seen f0 src dst n ns st)
  show ?case
  proof (cases "is_dir f0 (src @ [n])")
    case True
    then obtain st1 where s1: "copy_tree io cancel_seen f0 (src @ [n]) (dst @ [n]) st = Copied st1"
      and s2: "copy_entries io cancel_seen f0 src dst ns st1 = Copied st'"
      using "3.prems"(2) by (auto split: copy_result.splits)
    show ?thesis using "3.IH"(2) [OF True s1 _ s2] "3.IH"(1) [OF True "3.prems"(1) s1] by blast
  next
    case False
    show ?thesis
    proof (cases "file_at f0 (src @ [n])")
      case (Some c)
      define q where "q = (if exists_path (cs_fs st) (dst @ [n]) then Copied st else copy2 io c (dst @ [n]) st)"
      from "3.prems"(2) obtain st1 st2 where q1: "q = Copied st1"
        and q2: "on_progress cancel_seen (count_file (length c) st1) = Copied st2"
        and s2: "copy_entries io cancel_seen f0 src dst ns st2 = Copied st'"
        using False Some by (auto simp: q_def [symmetric] split: copy_result.splits)
      have "all_reported st2"
        using q2 by (auto simp: on_progress_def all_reported_def Let_def split: if_splits)
      then show ?thesis using "3.IH"(4) [OF False Some q1 [unfolded q_def] q2] s2 by blast
    next
      case None
      then show ?thesis using "3.IH"(3) [OF False None "3.prems"(1)] "3.prems"(2) False by simp
    qed
  qed
qed auto

text \<open>
  A copy between directories that lie apart, into a target that holds nothing but parts of the
  source: afterwards both hold the same files, and the scans agree.
\<close>

definition mail_at :: "fs \<Rightarrow> path \<Rightarrow> (path \<times> str) set" where
  "mail_at f p = {(r, c). (p @ r, File c) \<in> set f}"

definition only_copies :: "fs \<Rightarrow> path \<Rightarrow> path \<Rightarrow> bool" where
  "only_copies f source target = (\<forall>(p, n) \<in> set f. strict_prefix target p \<longrightarrow> (source @ drop (length target) p, n) \<in> set f)"

lemma only_copiesD: "only_copies f src dst \<Longrightarrow> (dst @ r, n) \<in> set f \<Longrightarrow> r \<noteq> [] \<Longrightarrow> (src @ r, n) \<in> set f"
  unfolding only_copies_def by (drule (1) bspec) (simp add: strict_prefix_def)

definition apart :: "path \<Rightarrow> path \<Rightarrow> bool" where
  "apart p q = (\<not> prefix p q \<and> \<not> prefix q p)"

lemma apart_below: "apart p q \<Longrightarrow> \<not> prefix p (q @ r)"
  unfolding apart_def by (metis prefix_append prefix_same_cases prefixI)

lemma copy_exact:
  assumes copy: "copy_tree io cancel_seen f src dst st = Copied st'" and st: "cs_fs st = f" and ok: "fs_ok f"
    and only: "only_copies f src dst" and r: "r \<noteq> []" and src_file: "(src @ r, File c) \<in> set f"
  shows "(dst @ r, File c) \<in> set (cs_fs st')"
proof -
  have "exists_path (cs_fs st') (dst @ r)" using copy_covers(1) [OF ok copy r src_file] .
  then obtain n where n: "(dst @ r, n) \<in> set (cs_fs st')" by (auto simp: exists_path_iff)
  have "grows f src dst True f (cs_fs st')"
    using copy_grows(1) [of f src dst io cancel_seen st] by (simp add: copy st)
  then consider "(dst @ r, n) \<in> set f" | "addable f src dst True (dst @ r, n)"
    using n unfolding grows_def by blast
  then have "n = File c"
  proof cases
    case 1
    then show ?thesis using only_copiesD [OF only 1 r] fs_ok_unique [OF ok src_file] by blast
  next
    case 2
    then show ?thesis using r fs_ok_unique [OF ok src_file] by (auto simp: addable_def is_dir_def prefix_def)
  qed
  with n show ?thesis by simp
qed

lemma grows_mail:
  assumes g: "grows f src dst True f f'" and only: "only_copies f src dst" and ap: "apart src dst"
  shows "r \<noteq> [] \<Longrightarrow> (dst @ r, File c) \<in> set f' \<Longrightarrow> (src @ r, File c) \<in> set f"
    and "(src @ r, n) \<in> set f' \<Longrightarrow> (src @ r, n) \<in> set f"
proof -
  assume "r \<noteq> []" "(dst @ r, File c) \<in> set f'"
  then show "(src @ r, File c) \<in> set f"
  proof -
    assume r: "r \<noteq> []" and in_f': "(dst @ r, File c) \<in> set f'"
    then consider "(dst @ r, File c) \<in> set f" | "addable f src dst True (dst @ r, File c)"
      using g unfolding grows_def by blast
    then show ?thesis
      by cases (use r only_copiesD [OF only] in \<open>auto simp: addable_def\<close>)
  qed
next
  assume in_f': "(src @ r, n) \<in> set f'"
  show "(src @ r, n) \<in> set f"
  proof (rule ccontr)
    assume "(src @ r, n) \<notin> set f"
    then have "addable f src dst True (src @ r, n)" using g in_f' unfolding grows_def by blast
    then have "prefix (src @ r) dst \<or> (\<exists>t. src @ r = dst @ t)" by (auto simp: addable_def)
    then show False
    proof
      assume "prefix (src @ r) dst"
      then show False using ap by (auto simp: apart_def prefix_def)
    next
      assume "\<exists>t. src @ r = dst @ t"
      then obtain t where "prefix src (dst @ t)" by (metis prefixI)
      then show False using apart_below [OF ap] by blast
    qed
  qed
qed

lemma card_files_under: "card (files_under f p) = card {(r, c). r \<noteq> [] \<and> (p @ r, File c) \<in> set f}"
proof -
  have "files_under f p = (\<lambda>(r, c). (p @ r, c)) ` {(r, c). r \<noteq> [] \<and> (p @ r, File c) \<in> set f}"
    by (auto simp: files_under_def strict_prefix_def prefix_def image_iff)
  moreover have "inj_on (\<lambda>(r, c). (p @ r, c)) {(r, c). r \<noteq> [] \<and> (p @ r, File c) \<in> set f}"
    by (auto simp: inj_on_def)
  ultimately show ?thesis by (simp add: card_image)
qed

lemma copy_verifies:
  assumes copy: "copy_tree io cancel_seen f src dst st = Copied st'" and st: "cs_fs st = f" and ok: "fs_ok f"
    and only: "only_copies f src dst" and ap: "apart src dst" and dir: "is_dir f src"
  shows "verify_copy (cs_fs st') src dst = Inr (True, ''OK'')"
proof -
  have g: "grows f src dst True f (cs_fs st')"
    using copy_grows(1) [of f src dst io cancel_seen st] by (simp add: copy st)
  have ok': "fs_ok (cs_fs st')" using copy_fs_ok(1) [of st io cancel_seen f src dst] by (simp add: copy st ok)
  obtain h where "make_dirs dst f = Inr h" "cs_fs st' = fs_after (copy_entries io cancel_seen f src dst (listdir src f) (st\<lparr>cs_fs := h\<rparr>))"
    using copy by (auto simp: copy_tree.simps st split: sum.splits)
  then have "is_dir (cs_fs st') dst"
    using make_dirs_Inr(2) [of dst f h dst] ap grows_is_dir [OF copy_grows(2)] by (fastforce simp: apart_def)
  moreover have "is_dir (cs_fs st') src" using dir grows_is_dir [OF g] by blast
  moreover have "{(r, c). r \<noteq> [] \<and> (src @ r, File c) \<in> set (cs_fs st')} = {(r, c). r \<noteq> [] \<and> (dst @ r, File c) \<in> set (cs_fs st')}"
    using grows_mail [OF g only ap] copy_exact [OF copy st ok only] g unfolding grows_def by blast
  ultimately show ?thesis
    by (simp add: verify_copy_def prescan_path_def prescan_counts [OF ok'] card_files_under)
qed

end
