(* ===== verification/Migration.thy ===== *)
theory Migration
  imports Files Access
begin

text \<open>
  Store migration: \<open>services/migration_service.py\<close> over the copy engine of \<open>Files\<close>, the cancel
  and progress routes of \<open>routers/ui_accounts.py\<close> and \<open>routers/ui_admin.py\<close>, and
  \<open>_resume_migrations\<close> of \<open>app.py\<close>.

  An operation takes the world together with the file system. What happens around a run is a
  record: \<open>me_io\<close> what the operating system does to the copy of each file, \<open>me_cancel\<close> the check
  of the cancel flag before which another thread adds the migration to \<open>_cancel_flags\<close> (the
  checks are numbered from one in the order the code makes them), \<open>me_dies\<close> whether the process is
  killed while it removes the old directory and which entries are still there then. A
  \<open>shutil.rmtree\<close> that is not interrupted is assumed to remove the tree it is given.
\<close>

type_synonym disk_world = "world \<times> fs"

record migration_env =
  me_io :: "path \<Rightarrow> fault option"
  me_cancel :: "nat option"
  me_dies :: "(path \<Rightarrow> bool) option"
  me_now :: datetime

definition calm :: "datetime \<Rightarrow> migration_env" where
  "calm now = \<lparr> me_io = (\<lambda>_. None), me_cancel = None, me_dies = None, me_now = now \<rparr>"

definition upd_migration :: "str \<Rightarrow> (StoreMigration \<Rightarrow> StoreMigration) \<Rightarrow> world \<Rightarrow> world" where
  "upd_migration k f w = w\<lparr>store_migrations := set_row mg_id k f (store_migrations w)\<rparr>"

definition upd_user :: "str \<Rightarrow> (User \<Rightarrow> User) \<Rightarrow> world \<Rightarrow> world" where
  "upd_user k f w = w\<lparr>users := set_row u_id k f (users w)\<rparr>"

abbreviation get_migration :: "world \<Rightarrow> str \<Rightarrow> StoreMigration option" where
  "get_migration w \<equiv> row mg_id (store_migrations w)"

abbreviation get_store :: "world \<Rightarrow> str \<Rightarrow> MailStore option" where
  "get_store w \<equiv> row st_id (mail_stores w)"

definition new_migration :: "str \<Rightarrow> datetime \<Rightarrow> str option \<Rightarrow> str option \<Rightarrow> str \<Rightarrow> str \<Rightarrow> StoreMigration" where
  "new_migration i now user_id account_id source target =
    \<lparr> mg_id = i, mg_user_id = user_id, mg_account_id = account_id, mg_source_store_id = source,
      mg_target_store_id = target, mg_status = M_pending, mg_total_files = 0, mg_copied_files = 0,
      mg_total_bytes = 0, mg_copied_bytes = 0, mg_error = None, mg_started_at = None,
      mg_completed_at = None, mg_last_resumed_at = None, mg_created_at = now \<rparr>"

definition request_migration_cancel :: "str \<Rightarrow> world \<Rightarrow> world" where
  "request_migration_cancel i w = w\<lparr>migration_cancel_flags := insert i (migration_cancel_flags w)\<rparr>"

section \<open>Starting a migration\<close>

definition initiate_account_migration ::
  "str \<Rightarrow> datetime \<Rightarrow> str \<Rightarrow> str \<Rightarrow> world \<Rightarrow> (str + StoreMigration) \<times> world"
where
  "initiate_account_migration i now account_id target_store_id w =
    (case get_account w account_id of
       None \<Rightarrow> (Inl ''Account not found'', w)
     | Some account \<Rightarrow>
        if get_store w target_store_id = None then (Inl ''Target store not found'', w)
        else if a_store_id account = target_store_id then (Inl ''Account is already on the target store'', w)
        else if a_migrating account then (Inl ''Account is already migrating'', w)
        else
          let m = new_migration i now None (Some account_id) (a_store_id account) target_store_id;
              w = upd_account account_id (\<lambda>a. a\<lparr>a_migrating := True\<rparr>) w
          in (Inr m, w\<lparr>store_migrations := store_migrations w @ [m]\<rparr>))"

definition initiate_home_migration ::
  "str \<Rightarrow> datetime \<Rightarrow> str \<Rightarrow> str \<Rightarrow> world \<Rightarrow> (str + StoreMigration) \<times> world"
where
  "initiate_home_migration i now user_id target_store_id w =
    (case get_user w user_id of
       None \<Rightarrow> (Inl ''User not found'', w)
     | Some user \<Rightarrow>
        if u_migrating user then (Inl ''User is already migrating'', w)
        else if get_store w target_store_id = None then (Inl ''Target store not found'', w)
        else if u_store_id user = target_store_id then (Inl ''User is already on the target store'', w)
        else
          let m = new_migration i now (Some user_id) None (u_store_id user) target_store_id;
              w = upd_user user_id (\<lambda>u. u\<lparr>u_migrating := True\<rparr>) w
          in (Inr m, w\<lparr>store_migrations := store_migrations w @ [m]\<rparr>))"

section \<open>Running a migration\<close>

text \<open>Whether the id is in \<open>_cancel_flags\<close> at the \<open>n\<close>-th check.\<close>

definition cancel_flag_seen :: "world \<Rightarrow> nat option \<Rightarrow> str \<Rightarrow> nat \<Rightarrow> bool" where
  "cancel_flag_seen w request i n =
    (i \<in> migration_cancel_flags w \<or> (case request of None \<Rightarrow> False | Some k \<Rightarrow> k \<le> n))"

definition start_copying :: "datetime \<Rightarrow> StoreMigration \<Rightarrow> StoreMigration" where
  "start_copying now m = m\<lparr>mg_status := M_copying, mg_started_at := Some now,
     mg_last_resumed_at := (case mg_last_resumed_at m of None \<Rightarrow> Some now | t \<Rightarrow> t)\<rparr>"

definition set_copied :: "nat \<times> nat \<Rightarrow> StoreMigration \<Rightarrow> StoreMigration" where
  "set_copied k m = m\<lparr>mg_copied_files := fst k, mg_copied_bytes := snd k\<rparr>"

text \<open>
  The part both kinds of migration share, from the prescan to the last look at the flag: how it
  ended (\<open>Ph_died\<close>: the process was killed), the migration row and the file system.
\<close>

datatype phase = Ph_done | Ph_failed str | Ph_cancelled | Ph_died

definition transfer ::
  "(path \<Rightarrow> fault option) \<Rightarrow> (nat \<Rightarrow> bool) \<Rightarrow> path \<Rightarrow> path \<Rightarrow> StoreMigration \<Rightarrow> fs \<Rightarrow> phase \<times> StoreMigration \<times> fs"
where
  "transfer io cancel_seen source target m f =
    (if exists_path f source then
       (case prescan_path f source of
          Inl e \<Rightarrow> (Ph_failed e, m, f)
        | Inr (total_files, total_bytes) \<Rightarrow>
           let m = m\<lparr>mg_total_files := total_files, mg_total_bytes := total_bytes\<rparr>;
               before = (mg_copied_files m, mg_copied_bytes m)
           in (case copy_tree io cancel_seen f source target
                 \<lparr> cs_fs = f, cs_files = 0, cs_bytes = 0, cs_reported = before, cs_committed = before \<rparr> of
              Copy_killed st \<Rightarrow> (Ph_died, set_copied (cs_committed st) m, cs_fs st)
            | Copy_cancelled st \<Rightarrow> (Ph_cancelled, set_copied (cs_reported st) m, cs_fs st)
            | Copy_raised e st \<Rightarrow> (Ph_failed e, set_copied (cs_reported st) m, cs_fs st)
            | Copied st \<Rightarrow>
               let m = (set_copied (cs_reported st) m)\<lparr>mg_status := M_verifying\<rparr>
               in if cancel_seen (cs_files st + 1) then (Ph_cancelled, m, cs_fs st)
                  else (case verify_copy (cs_fs st) source target of
                     Inl e \<Rightarrow> (Ph_failed e, m, cs_fs st)
                   | Inr (ok, detail) \<Rightarrow>
                       if \<not> ok then (Ph_failed detail, m, cs_fs st)
                       else if cancel_seen (cs_files st + 2) then (Ph_cancelled, m, cs_fs st)
                       else (Ph_done, m, cs_fs st))))
     else
       let m = m\<lparr>mg_total_files := 0, mg_total_bytes := 0\<rparr>
       in if cancel_seen 1 then (Ph_cancelled, m, f) else (Ph_done, m, f))"

text \<open>The end of the run: the row's verdict and, in the \<open>finally\<close>, the flag.\<close>

definition close_migration :: "str \<Rightarrow> StoreMigration \<Rightarrow> world \<Rightarrow> world" where
  "close_migration i m w =
    (upd_migration i (\<lambda>_. m) w)\<lparr>migration_cancel_flags := migration_cancel_flags w - {i}\<rparr>"

definition failed_with :: "str \<Rightarrow> StoreMigration \<Rightarrow> StoreMigration" where
  "failed_with e m = m\<lparr>mg_status := M_failed, mg_error := Some e\<rparr>"

text \<open>
  Once the new location is committed: the row that was moved (\<open>settle\<close>, which also clears
  \<open>migrating\<close> when the run ends), the old directory, and the last verdict unless the process dies.
\<close>

definition clean_up ::
  "migration_env \<Rightarrow> str \<Rightarrow> path \<Rightarrow> StoreMigration \<Rightarrow> (bool \<Rightarrow> world \<Rightarrow> world) \<Rightarrow> world \<Rightarrow> fs \<Rightarrow> disk_world"
where
  "clean_up env i source m settle w f =
    (case (me_dies env, exists_path f source) of
       (Some keep, True) \<Rightarrow>
         (upd_migration i (\<lambda>_. m\<lparr>mg_status := M_cleaning\<rparr>) (settle False w),
          filter (\<lambda>e. \<not> prefix source (fst e) \<or> keep (fst e)) f)
     | (_, there) \<Rightarrow>
         (close_migration i (m\<lparr>mg_status := M_completed, mg_completed_at := Some (me_now env)\<rparr>) (settle True w),
          if there then rmtree source f else f))"

definition execute_account_migration :: "migration_env \<Rightarrow> str \<Rightarrow> disk_world \<Rightarrow> disk_world"
where
  "execute_account_migration env i dw =
    (case dw of (w, f) \<Rightarrow>
      (case get_migration w i of
         None \<Rightarrow> (w, f)
       | Some m \<Rightarrow>
          (case (Option.bind (mg_account_id m) (get_account w), get_store w (mg_target_store_id m)) of
             (Some account, Some target_store) \<Rightarrow>
               let source_path = a_maildir_path account;
                   target_path = derive_maildir_path (st_path target_store) (a_id account);
                   (ph, m, f) = transfer (me_io env) (cancel_flag_seen w (me_cancel env) i)
                     (path_of source_path) (path_of target_path) (start_copying (me_now env) m) f
               in (case ph of
                  Ph_died \<Rightarrow> (upd_migration i (\<lambda>_. m) w, f)
                | Ph_failed e \<Rightarrow> (close_migration i (failed_with e m) w, f)
                | Ph_cancelled \<Rightarrow>
                    (close_migration i (failed_with ''Cancelled by admin'' m)
                       (upd_account (a_id account) (\<lambda>a. a\<lparr>a_migrating := False\<rparr>) w), f)
                | Ph_done \<Rightarrow>
                    clean_up env i (path_of source_path) m
                      (\<lambda>finished. upd_account (a_id account) (\<lambda>a. a\<lparr>a_maildir_path := target_path,
                         a_store_id := st_id target_store,
                         a_migrating := (if finished then False else a_migrating a)\<rparr>)) w f)
           | _ \<Rightarrow> (upd_migration i (failed_with ''Missing account or store record'') w, f))))"

definition home_path :: "MailStore \<Rightarrow> User \<Rightarrow> str" where
  "home_path store user = st_path store @ ''/.dovecot-home/'' @ u_username user"

definition execute_home_migration :: "migration_env \<Rightarrow> str \<Rightarrow> disk_world \<Rightarrow> disk_world"
where
  "execute_home_migration env i dw =
    (case dw of (w, f) \<Rightarrow>
      (case get_migration w i of
         None \<Rightarrow> (w, f)
       | Some m \<Rightarrow>
          (case (Option.bind (mg_user_id m) (get_user w), get_store w (mg_source_store_id m),
                 get_store w (mg_target_store_id m)) of
             (Some user, Some source_store, Some target_store) \<Rightarrow>
               let source_home = path_of (home_path source_store user);
                   (ph, m, f) = transfer (me_io env) (cancel_flag_seen w (me_cancel env) i) source_home
                     (path_of (home_path target_store user)) (start_copying (me_now env) m) f
               in (case ph of
                  Ph_died \<Rightarrow> (upd_migration i (\<lambda>_. m) w, f)
                | Ph_failed e \<Rightarrow> (close_migration i (failed_with e m) w, f)
                | Ph_cancelled \<Rightarrow>
                    (close_migration i (failed_with ''Cancelled by admin'' m)
                       (upd_user (u_id user) (\<lambda>u. u\<lparr>u_migrating := False\<rparr>) w), f)
                | Ph_done \<Rightarrow>
                    clean_up env i source_home m
                      (\<lambda>finished. upd_user (u_id user) (\<lambda>u. u\<lparr>u_store_id := st_id target_store,
                         u_migrating := (if finished then False else u_migrating u)\<rparr>)) w f)
           | _ \<Rightarrow> (upd_migration i (failed_with ''Missing user or store record'') w, f))))"

section \<open>Draining a store\<close>

fun initiate_each ::
  "(str \<Rightarrow> str \<Rightarrow> world \<Rightarrow> (str + StoreMigration) \<times> world) \<Rightarrow> (str \<times> str) list \<Rightarrow> StoreMigration list \<Rightarrow> world
   \<Rightarrow> (str + StoreMigration list) \<times> world"
where
  "initiate_each start [] acc w = (Inr acc, w)"
| "initiate_each start ((i, row_id) # rest) acc w =
    (case start i row_id w of
       (Inl e, w') \<Rightarrow> (Inl e, w')
     | (Inr m, w') \<Rightarrow> initiate_each start rest (acc @ [m]) w')"

text \<open>\<open>ids\<close> are the ids of the rows to come: one for each account, then one for each user.\<close>

definition initiate_store_drain ::
  "str list \<Rightarrow> datetime \<Rightarrow> str \<Rightarrow> str \<Rightarrow> world \<Rightarrow> (str + StoreMigration list) \<times> world"
where
  "initiate_store_drain ids now source target w =
    (if get_store w source = None \<or> get_store w target = None then (Inl ''Store not found'', w)
     else if source = target then (Inl ''Source and target store are the same'', w)
     else
       let accts = map a_id (filter (\<lambda>a. a_store_id a = source \<and> \<not> a_migrating a) (accounts w));
           people = map u_id (filter (\<lambda>u. u_store_id u = source \<and> \<not> u_migrating u) (users w))
       in (case initiate_each (\<lambda>i a. initiate_account_migration i now a target) (zip ids accts) [] w of
             (Inl e, w') \<Rightarrow> (Inl e, w')
           | (Inr ms, w') \<Rightarrow>
               initiate_each (\<lambda>i u. initiate_home_migration i now u target)
                 (zip (drop (length accts) ids) people) ms w'))"

definition execute_one :: "migration_env \<Rightarrow> str \<Rightarrow> disk_world \<Rightarrow> disk_world"
where
  "execute_one env i dw =
    (case get_migration (fst dw) i of
       None \<Rightarrow> dw
     | Some m \<Rightarrow>
         if truthy (mg_account_id m) then execute_account_migration env i dw
         else if truthy (mg_user_id m) then execute_home_migration env i dw
         else dw)"

definition execute_store_drain :: "migration_env \<Rightarrow> str list \<Rightarrow> disk_world \<Rightarrow> disk_world" where
  "execute_store_drain env ids dw = fold (execute_one env) ids dw"

record DrainStatus =
  dr_active :: nat
  dr_completed :: nat
  dr_failed :: nat
  dr_total_bytes :: nat
  dr_copied_bytes :: nat
  dr_items :: "(str \<times> MigrationStatus) list"
  dr_draining :: bool
  dr_just_finished :: bool

definition migration_label :: "world \<Rightarrow> StoreMigration \<Rightarrow> str" where
  "migration_label w m =
    (if truthy (mg_account_id m) then
       (case get_account w (the (mg_account_id m)) of
          Some a \<Rightarrow> a_name a @ '' ('' @ a_email_address a @ '')'' | None \<Rightarrow> the (mg_account_id m))
     else if truthy (mg_user_id m) then
       (case get_user w (the (mg_user_id m)) of
          Some u \<Rightarrow> ''Home: '' @ u_username u | None \<Rightarrow> the (mg_user_id m))
     else [])"

definition get_drain_status :: "datetime \<Rightarrow> str \<Rightarrow> world \<Rightarrow> DrainStatus" where
  "get_drain_status now store_id w =
    (let ms = filter (\<lambda>m. mg_source_store_id m = store_id) (store_migrations w);
         unfinished = filter (\<lambda>m. mg_status m \<notin> {M_completed, M_failed}) ms;
         done_n = length (filter (\<lambda>m. mg_status m = M_completed) ms);
         failed_n = length (filter (\<lambda>m. mg_status m = M_failed) ms)
     in \<lparr> dr_active = length unfinished, dr_completed = done_n, dr_failed = failed_n,
          dr_total_bytes = sum_list (map mg_total_bytes unfinished),
          dr_copied_bytes = sum_list (map mg_copied_bytes unfinished),
          dr_items = map (\<lambda>m. (migration_label w m, mg_status m)) unfinished,
          dr_draining = (unfinished \<noteq> []),
          dr_just_finished = (unfinished = [] \<and> (done_n > 0 \<or> failed_n > 0)
            \<and> (\<exists>m \<in> set ms. case mg_completed_at m of None \<Rightarrow> False | Some t \<Rightarrow> t \<ge> now - seconds 60)) \<rparr>)"

section \<open>Start-up, cancel and progress\<close>

definition INCOMPLETE :: "MigrationStatus set" where
  "INCOMPLETE = {M_pending, M_copying, M_verifying, M_cleaning}"

text \<open>
  \<open>_resume_migrations\<close>, in a fresh process (no flag is set): a thread per row; here they run one
  after the other.
\<close>

definition resume_one :: "migration_env \<Rightarrow> str \<Rightarrow> disk_world \<Rightarrow> disk_world" where
  "resume_one env i dw =
    (let w = upd_migration i (\<lambda>m. m\<lparr>mg_last_resumed_at := Some (me_now env)\<rparr>) (fst dw)
     in if (case get_migration w i of None \<Rightarrow> False | Some m \<Rightarrow> truthy (mg_account_id m))
        then execute_account_migration env i (w, snd dw)
        else execute_home_migration env i (w, snd dw))"

definition resume_migrations :: "migration_env \<Rightarrow> disk_world \<Rightarrow> disk_world" where
  "resume_migrations env dw =
    fold (resume_one env) (map mg_id (filter (\<lambda>m. mg_status m \<in> INCOMPLETE) (store_migrations (fst dw))))
      ((fst dw)\<lparr>migration_cancel_flags := {}\<rparr>, snd dw)"

definition cancellable :: "StoreMigration \<Rightarrow> bool" where
  "cancellable m = (mg_status m \<in> {M_pending, M_copying, M_verifying})"

definition account_cancel_migration :: "User option \<Rightarrow> str \<Rightarrow> world \<Rightarrow> world" where
  "account_cancel_migration user account_id w =
    (case user of
       None \<Rightarrow> w
     | Some u \<Rightarrow>
        if u_role u \<noteq> Role_admin then w
        else (case get_account w account_id of
           None \<Rightarrow> w
         | Some account \<Rightarrow>
            if \<not> a_migrating account then w
            else (case find (\<lambda>m. mg_account_id m = Some account_id \<and> cancellable m) (store_migrations w) of
               Some m \<Rightarrow> request_migration_cancel (mg_id m) w
             | None \<Rightarrow> upd_account account_id (\<lambda>a. a\<lparr>a_migrating := False\<rparr>) w)))"

definition admin_cancel_migration :: "User option \<Rightarrow> str \<Rightarrow> world \<Rightarrow> world" where
  "admin_cancel_migration user target_user_id w =
    (case user of
       None \<Rightarrow> w
     | Some u \<Rightarrow>
        if u_role u \<noteq> Role_admin then w
        else (case get_user w target_user_id of
           None \<Rightarrow> w
         | Some target \<Rightarrow>
            if \<not> u_migrating target then w
            else (case find (\<lambda>m. mg_user_id m = Some target_user_id \<and> cancellable m) (store_migrations w) of
               Some m \<Rightarrow> request_migration_cancel (mg_id m) w
             | None \<Rightarrow> upd_user target_user_id (\<lambda>u. u\<lparr>u_migrating := False\<rparr>) w)))"

text \<open>The percentage of the progress bar, \<open>int(copied * 100 / total)\<close>.\<close>

definition migration_pct :: "StoreMigration \<Rightarrow> nat" where
  "migration_pct m = (if mg_total_bytes m > 0 then mg_copied_bytes m * 100 div mg_total_bytes m else 0)"

section \<open>The transfer\<close>

lemma transfer_grows:
  assumes "transfer io cs src dst m f = (ph, m', f')"
  shows "grows f src dst (ph = Ph_done) f f'"
proof -
  define st0 where "st0 = (let k = (mg_copied_files m, mg_copied_bytes m) in
    \<lparr> cs_fs = f, cs_files = 0, cs_bytes = 0, cs_reported = k, cs_committed = k \<rparr>)"
  have f0: "cs_fs st0 = f" by (simp add: st0_def Let_def)
  define r where "r = copy_tree io cs f src dst st0"
  have g: "grows f src dst (fault_free r) f (fs_after r)"
    using copy_grows(1) [of f src dst io cs st0] by (simp add: r_def f0)
  consider "f' = f" | "f' = fs_after r" "ph = Ph_done \<longrightarrow> fault_free r"
    using assms unfolding transfer_def
    by (cases r) (auto simp: r_def st0_def Let_def split: if_splits sum.splits copy_result.splits prod.splits)
  then show ?thesis
  proof cases
    case 1
    then show ?thesis by (simp add: grows_refl)
  next
    case 2
    then show ?thesis using grows_trans [OF g grows_refl, of "ph = Ph_done"] by simp
  qed
qed

lemma transfer_fs_ok:
  assumes "transfer io cs src dst m f = (ph, m', f')" "fs_ok f"
  shows "fs_ok f'"
proof -
  define st0 where "st0 = \<lparr> cs_fs = f, cs_files = 0, cs_bytes = 0,
     cs_reported = (mg_copied_files m, mg_copied_bytes m), cs_committed = (mg_copied_files m, mg_copied_bytes m) \<rparr>"
  have ok: "fs_ok (fs_after (copy_tree io cs f src dst st0))"
    using copy_fs_ok(1) [of st0 io cs f src dst] assms(2) by (simp add: st0_def)
  have "f' = f \<or> f' = fs_after (copy_tree io cs f src dst st0)"
    using assms(1) unfolding transfer_def
    by (cases "copy_tree io cs f src dst st0")
      (auto simp: st0_def Let_def split: if_splits sum.splits prod.splits)
  then show ?thesis using ok assms(2) by auto
qed

lemma transfer_row:
  assumes "transfer io cs src dst m f = (ph, m', f')"
  shows "mg_id m' = mg_id m" "mg_account_id m' = mg_account_id m" "mg_user_id m' = mg_user_id m"
    "mg_target_store_id m' = mg_target_store_id m" "mg_source_store_id m' = mg_source_store_id m"
  using assms unfolding transfer_def
  by (auto simp: set_copied_def Let_def split: if_splits sum.splits copy_result.splits prod.splits)

lemma transfer_done:
  assumes "transfer io cs src dst m f = (Ph_done, m', f')" "exists_path f src"
  obtains st where "is_dir f src" "f' = cs_fs st"
    "copy_tree io cs f src dst \<lparr> cs_fs = f, cs_files = 0, cs_bytes = 0,
       cs_reported = (mg_copied_files m, mg_copied_bytes m), cs_committed = (mg_copied_files m, mg_copied_bytes m) \<rparr> = Copied st"
    "verify_copy f' src dst = Inr (True, ''OK'')"
  using assms unfolding transfer_def verify_copy_def
  by (auto simp: Let_def prescan_path_def split: if_splits sum.splits copy_result.splits prod.splits)

lemma transfer_covers:
  assumes t: "transfer io cs src dst m f = (Ph_done, m', f')" and ok: "fs_ok f" and ne: "src \<noteq> []"
    and src_file: "(src @ r, File c) \<in> set f" and only: "only_copies f src dst"
  shows "r \<noteq> [] \<and> (dst @ r, File c) \<in> set f'"
proof -
  have ex: "exists_path f src"
    using src_file ne fs_ok_ancestor [OF ok, of src r] by (cases "r = []") (auto intro: exists_pathI is_dir_exists)
  obtain st where dir: "is_dir f src" and f': "f' = cs_fs st"
    and copy: "copy_tree io cs f src dst \<lparr> cs_fs = f, cs_files = 0, cs_bytes = 0,
       cs_reported = (mg_copied_files m, mg_copied_bytes m), cs_committed = (mg_copied_files m, mg_copied_bytes m) \<rparr> = Copied st"
    using transfer_done [OF t ex] by blast
  have r: "r \<noteq> []" using dir src_file fs_ok_unique [OF ok, of src Dir "File c"] by (auto simp: is_dir_def)
  show ?thesis using copy_exact [OF copy _ ok only r src_file] r by (simp add: f')
qed

section \<open>Lookups after an update\<close>

lemma row_set_row_const:
  assumes "key x = k"
  shows "row key (set_row key k (\<lambda>_. x) t) k = map_option (\<lambda>_. x) (row key t k)"
  by (induction t) (auto simp: assms)

lemma migration_frames [simp]:
  "accounts (upd_migration i g w) = accounts w" "users (upd_migration i g w) = users w"
  "mail_stores (upd_migration i g w) = mail_stores w"
  "store_migrations (upd_migration i g w) = set_row mg_id i g (store_migrations w)"
  "migration_cancel_flags (upd_migration i g w) = migration_cancel_flags w"
  "accounts (close_migration i m w) = accounts w" "users (close_migration i m w) = users w"
  "mail_stores (close_migration i m w) = mail_stores w"
  "store_migrations (close_migration i m w) = set_row mg_id i (\<lambda>_. m) (store_migrations w)"
  "migration_cancel_flags (close_migration i m w) = migration_cancel_flags w - {i}"
  "accounts (upd_user k h w) = accounts w" "users (upd_user k h w) = set_row u_id k h (users w)"
  "mail_stores (upd_user k h w) = mail_stores w" "store_migrations (upd_user k h w) = store_migrations w"
  "migration_cancel_flags (upd_user k h w) = migration_cancel_flags w"
  by (simp_all add: upd_migration_def close_migration_def upd_user_def)

lemma start_copying_id [simp]:
  "mg_id (start_copying now m) = mg_id m" "mg_copied_files (start_copying now m) = mg_copied_files m"
  "mg_copied_bytes (start_copying now m) = mg_copied_bytes m"
  "mg_target_store_id (start_copying now m) = mg_target_store_id m"
  "mg_account_id (start_copying now m) = mg_account_id m" "mg_user_id (start_copying now m) = mg_user_id m"
  "mg_source_store_id (start_copying now m) = mg_source_store_id m"
  by (simp_all add: start_copying_def)

section \<open>No mail is lost\<close>

definition cleaned :: "migration_env \<Rightarrow> path \<Rightarrow> fs \<Rightarrow> fs" where
  "cleaned env src f = (if exists_path f src then
     (case me_dies env of None \<Rightarrow> rmtree src f | Some keep \<Rightarrow> filter (\<lambda>e. \<not> prefix src (fst e) \<or> keep (fst e)) f) else f)"

lemma clean_up_fs: "snd (clean_up env i src m settle w f) = cleaned env src f"
  by (simp add: clean_up_def cleaned_def split: option.split)

lemma cleaned_keeps: "e \<in> set f \<Longrightarrow> \<not> prefix src (fst e) \<Longrightarrow> e \<in> set (cleaned env src f)"
  by (simp add: cleaned_def rmtree_def split: option.split)

lemma account_run:
  assumes "get_migration w i = Some m" "mg_account_id m = Some k" "get_account w k = Some a"
    and "get_store w (mg_target_store_id m) = Some st"
  obtains ph m' f1 where
    "transfer (me_io env) (cancel_flag_seen w (me_cancel env) i) (path_of (a_maildir_path a))
       (path_of (derive_maildir_path (st_path st) k)) (start_copying (me_now env) m) f = (ph, m', f1)"
    "mg_id m' = i"
    "execute_account_migration env i (w, f) = (case ph of
        Ph_died \<Rightarrow> (upd_migration i (\<lambda>_. m') w, f1)
      | Ph_failed e \<Rightarrow> (close_migration i (failed_with e m') w, f1)
      | Ph_cancelled \<Rightarrow> (close_migration i (failed_with ''Cancelled by admin'' m')
           (upd_account k (\<lambda>a. a\<lparr>a_migrating := False\<rparr>) w), f1)
      | Ph_done \<Rightarrow> clean_up env i (path_of (a_maildir_path a)) m'
           (\<lambda>finished. upd_account k (\<lambda>b. b\<lparr>a_maildir_path := derive_maildir_path (st_path st) k,
              a_store_id := st_id st, a_migrating := (if finished then False else a_migrating b)\<rparr>)) w f1)"
proof -
  have k: "a_id a = k" using row_SomeD [OF assms(3)] by simp
  obtain ph m' f1 where t: "transfer (me_io env) (cancel_flag_seen w (me_cancel env) i) (path_of (a_maildir_path a))
       (path_of (derive_maildir_path (st_path st) k)) (start_copying (me_now env) m) f = (ph, m', f1)"
    by (metis prod_cases3)
  then have "mg_id m' = i" using transfer_row(1) row_SomeD [OF assms(1)] by fastforce
  then show ?thesis
    by (rule that [OF t]) (use assms k t in \<open>simp add: execute_account_migration_def Let_def cong: phase.case_cong\<close>)
qed

lemma account_after:
  assumes "get_account w k = Some a" "a_id a = k" "\<And>b. a_id (g b) = a_id b"
  shows "get_account (upd_account k g w) k = Some (g a)"
  using assms by (simp add: row_set_row)


lemma transfer_calm:
  assumes "fs_ok f" "is_dir f src" "mergeable f src dst f" "\<And>q. io q = None"
  obtains (copied) st where "copy_tree io cs f src dst \<lparr> cs_fs = f, cs_files = 0, cs_bytes = 0,
       cs_reported = (mg_copied_files m, mg_copied_bytes m), cs_committed = (mg_copied_files m, mg_copied_bytes m) \<rparr> = Copied st"
  | (seen) n m' f' where "cs n" "transfer io cs src dst m f = (Ph_cancelled, m', f')"
proof -
  let ?st = "\<lparr> cs_fs = f, cs_files = 0, cs_bytes = 0,
       cs_reported = (mg_copied_files m, mg_copied_bytes m), cs_committed = (mg_copied_files m, mg_copied_bytes m) \<rparr>"
  have free: "fault_free (copy_tree io cs f src dst ?st)"
    using copy_fault_free(1) [of f io src dst ?st cs] assms by simp
  show ?thesis
  proof (cases "copy_tree io cs f src dst ?st")
    case (Copied st)
    then show ?thesis by (rule copied)
  next
    case (Copy_cancelled st)
    have "cs (cs_files st)" using copy_cancel_seen(1) [OF Copy_cancelled] .
    moreover have "\<exists>m' f'. transfer io cs src dst m f = (Ph_cancelled, m', f')"
      using Copy_cancelled is_dir_exists [OF assms(2)] assms(2)
      by (simp add: transfer_def prescan_path_def Let_def split: prod.split)
    ultimately show ?thesis using seen by blast
  qed (use free in auto)
qed

lemma transfer_completes:
  assumes ok: "fs_ok f" and dir: "is_dir f src" and mergeable: "mergeable f src dst f"
    and io: "\<And>q. io q = None" and cs: "\<And>n. \<not> cs n" and only: "only_copies f src dst" and ap: "apart src dst"
    and m: "mg_copied_files m = 0" "mg_copied_bytes m = 0"
  obtains m' f' where "transfer io cs src dst m f = (Ph_done, m', f')"
    "mg_copied_files m' = mg_total_files m'" "mg_copied_bytes m' = mg_total_bytes m'"
    "mail_at f' dst = mail_at f src" "exists_path f' src" "is_dir f' dst"
proof -
  let ?st = "\<lparr> cs_fs = f, cs_files = 0, cs_bytes = 0, cs_reported = (0, 0), cs_committed = (0, 0) \<rparr>"
  obtain st where copy: "copy_tree io cs f src dst ?st = Copied st"
    by (rule transfer_calm [OF ok dir mergeable io, where cs = cs and m = m]) (use cs m in auto)
  have ver: "verify_copy (cs_fs st) src dst = Inr (True, ''OK'')"
    using copy_verifies [OF copy _ ok only ap dir] by simp
  have n: "cs_files st = fst (prescan f src)" "cs_bytes st = snd (prescan f src)"
    using copy_counts(1) [of ?st f src io cs dst] by (simp_all add: copy counts_to_def)
  have all: "cs_reported st = (cs_files st, cs_bytes st)"
    using copy_reports_all(1) [OF _ copy] by (simp add: all_reported_def)
  have g: "grows f src dst True f (cs_fs st)" using copy_grows(1) [of f src dst io cs ?st] by (simp add: copy)
  have "(r, c) \<in> mail_at (cs_fs st) dst \<longleftrightarrow> (r, c) \<in> mail_at f src" for r c
  proof (cases "r = []")
    case True
    have "(dst, File c) \<notin> set f"
    proof
      assume d: "(dst, File c) \<in> set f"
      have "dst \<noteq> []" using ap by (auto simp: apart_def)
      then have "is_dir f dst" using mergeable exists_pathI [OF d] by (simp add: mergeable_def)
      then show False using fs_ok_unique [OF ok d, of Dir] by (simp add: is_dir_def)
    qed
    then have "(dst, File c) \<notin> set (cs_fs st)" using g by (auto simp: grows_def addable_def)
    moreover have "(src, File c) \<notin> set f" using dir fs_ok_unique [OF ok, of src Dir "File c"] by (auto simp: is_dir_def)
    ultimately show ?thesis by (simp add: True mail_at_def)
  next
    case False
    then show ?thesis
      using grows_mail(1) [OF g only ap False] copy_exact [OF copy _ ok only False] by (auto simp: mail_at_def)
  qed
  then have mail: "mail_at (cs_fs st) dst = mail_at f src" by auto
  have there: "exists_path (cs_fs st) src" using dir grows_is_dir [OF g] by (blast intro: is_dir_exists)
  have new: "is_dir (cs_fs st) dst" using ver by (simp add: verify_copy_def prescan_path_def split: sum.splits if_splits)
  show ?thesis
    by (rule that [of "(set_copied (cs_reported st) (m\<lparr>mg_total_files := fst (prescan f src), mg_total_bytes := snd (prescan f src)\<rparr>))
          \<lparr>mg_status := M_verifying\<rparr>" "cs_fs st"])
      (use dir copy ver m cs n all mail there new is_dir_exists [OF dir] in
        \<open>simp_all add: transfer_def prescan_path_def set_copied_def Let_def case_prod_beta\<close>)
qed


text \<open>
  An administrator's cancel of a running migration is honoured: the run stops, its verdict
  names the administrator, the mailbox stays where it was with every message, is released for
  syncing, and the flag is consumed.
\<close>

lemma cancel_is_honoured:
  assumes admin: "u_role admin = Role_admin" and a: "get_account w k = Some a" "a_migrating a"
    and m: "find (\<lambda>m. mg_account_id m = Some k \<and> cancellable m) (store_migrations w) = Some m" "pk mg_id (store_migrations w)"
    and st: "get_store w (mg_target_store_id m) = Some st"
    and ok: "fs_ok f" "is_dir f (path_of (a_maildir_path a))"
    and target: "mergeable f (path_of (a_maildir_path a)) (path_of (derive_maildir_path (st_path st) k)) f"
  shows "let (w', f') = execute_account_migration (calm now) (mg_id m) (account_cancel_migration (Some admin) k w, f) in
    get_account w' k = Some (a\<lparr>a_migrating := False\<rparr>) \<and> set f \<subseteq> set f'
    \<and> (\<exists>m'. get_migration w' (mg_id m) = Some m' \<and> mg_status m' = M_failed \<and> mg_error m' = Some ''Cancelled by admin'')
    \<and> mg_id m \<notin> migration_cancel_flags w'"
proof -
  let ?src = "path_of (a_maildir_path a)" and ?dst = "path_of (derive_maildir_path (st_path st) k)"
  have k: "a_id a = k" using row_SomeD [OF a(1)] by simp
  from m(1) have ms: "m \<in> set (store_migrations w)" "mg_account_id m = Some k" by (auto simp: find_Some_iff)
  have row: "get_migration w (mg_id m) = Some m" using row_SomeI [OF m(2) ms(1)] .
  define w1 where "w1 = request_migration_cancel (mg_id m) w"
  have cancel: "account_cancel_migration (Some admin) k w = w1"
    using admin a m(1) by (simp add: account_cancel_migration_def w1_def)
  have w1: "accounts w1 = accounts w" "store_migrations w1 = store_migrations w" "mail_stores w1 = mail_stores w"
    "\<And>n. cancel_flag_seen w1 None (mg_id m) n"
    by (simp_all add: w1_def request_migration_cancel_def cancel_flag_seen_def)
  have "\<exists>m1 f1. transfer (\<lambda>_. None) (cancel_flag_seen w1 None (mg_id m)) ?src ?dst (start_copying now m) f = (Ph_cancelled, m1, f1)"
    (is "\<exists>m1 f1. ?t = (Ph_cancelled, m1, f1)")
    by (rule transfer_calm [OF ok target, where io = "\<lambda>_. None" and cs = "cancel_flag_seen w1 None (mg_id m)" and m = "start_copying now m"])
      (use w1(4) is_dir_exists [OF ok(2)] ok(2) in \<open>auto simp: transfer_def prescan_path_def Let_def split: prod.split\<close>)
  then obtain m1 f1 where t: "?t = (Ph_cancelled, m1, f1)" by blast
  have id1: "mg_id m1 = mg_id m" using transfer_row(1) [OF t] by simp
  have run: "execute_account_migration (calm now) (mg_id m) (w1, f) =
      (close_migration (mg_id m) (failed_with ''Cancelled by admin'' m1) (upd_account k (\<lambda>a. a\<lparr>a_migrating := False\<rparr>) w1), f1)"
    using row ms(2) a(1) st t k by (simp add: execute_account_migration_def calm_def Let_def w1)
  have "set f \<subseteq> set f1" using transfer_grows [OF t] by (simp add: grows_def)
  then show ?thesis
    unfolding cancel run using a(1) row id1
    by (simp add: row_set_row row_set_row_const failed_with_def w1)
qed

section \<open>Mail that is lost\<close>

lemma mergeable_itself: "fs_ok f \<Longrightarrow> is_dir f src \<Longrightarrow> mergeable f src src f"
  unfolding mergeable_def prefix_def
  by (metis append_Nil2 fs_ok_ancestor is_dir_def)

lemma transfer_onto_itself:
  assumes "fs_ok f" "is_dir f src" "\<And>q. io q = None" "\<And>n. \<not> cs n"
  obtains m' f' where "transfer io cs src src m f = (Ph_done, m', f')" "exists_path f' src"
proof -
  obtain st where copy: "copy_tree io cs f src src \<lparr> cs_fs = f, cs_files = 0, cs_bytes = 0,
       cs_reported = (mg_copied_files m, mg_copied_bytes m), cs_committed = (mg_copied_files m, mg_copied_bytes m) \<rparr> = Copied st"
    by (rule transfer_calm [OF assms(1,2) mergeable_itself [OF assms(1,2)] assms(3), where cs = cs and m = m])
      (use assms(4) in auto)
  have "is_dir (cs_fs st) src"
    using grows_is_dir [OF copy_grows(1)] assms(2) copy by (metis copy_state.select_convs(1) result_state.simps(1))
  then have "transfer io cs src src m f = (Ph_done, (set_copied (cs_reported st)
      (m\<lparr>mg_total_files := fst (prescan f src), mg_total_bytes := snd (prescan f src)\<rparr>))\<lparr>mg_status := M_verifying\<rparr>, cs_fs st)"
    using assms(2,4) copy is_dir_exists [OF assms(2)]
    by (simp add: transfer_def prescan_path_def verify_copy_def set_copied_def Let_def case_prod_beta)
  then show ?thesis using that is_dir_exists [OF \<open>is_dir (cs_fs st) src\<close>] by blast
qed

lemma in_place:
  assumes m: "get_migration w i = Some m" and acc: "mg_account_id m = Some k" "get_account w k = Some a"
    and st: "get_store w (mg_target_store_id m) = Some st" and flag: "i \<notin> migration_cancel_flags w"
    and ok: "fs_ok f" "is_dir f (path_of (a_maildir_path a))"
    and same: "path_of (derive_maildir_path (st_path st) k) = path_of (a_maildir_path a)"
  shows "\<exists>w' f' a' m'. execute_account_migration (calm now) i (w, f) = (w', f')
    \<and> get_account w' k = Some a' \<and> path_of (a_maildir_path a') = path_of (a_maildir_path a)
    \<and> get_migration w' i = Some m' \<and> mg_status m' = M_completed \<and> mail_at f' (path_of (a_maildir_path a)) = {}"
proof -
  let ?src = "path_of (a_maildir_path a)"
  have k: "a_id a = k" using row_SomeD [OF acc(2)] by simp
  have mi: "mg_id m = i" using row_SomeD [OF m] by simp
  obtain m1 f1 where t: "transfer (\<lambda>_. None) (cancel_flag_seen w None i) ?src ?src (start_copying now m) f = (Ph_done, m1, f1)"
    and there: "exists_path f1 ?src"
    by (rule transfer_onto_itself [OF ok, of "\<lambda>_. None" "cancel_flag_seen w None i" "start_copying now m"])
      (use flag in \<open>auto simp: cancel_flag_seen_def\<close>)
  have id1: "mg_id m1 = i" using transfer_row(1) [OF t] mi by simp
  have run: "execute_account_migration (calm now) i (w, f) =
      (close_migration i (m1\<lparr>mg_status := M_completed, mg_completed_at := Some now\<rparr>)
         (upd_account k (\<lambda>b. b\<lparr>a_maildir_path := derive_maildir_path (st_path st) k, a_store_id := st_id st,
            a_migrating := False\<rparr>) w), rmtree ?src f1)"
    using m acc st t there k same by (simp add: execute_account_migration_def calm_def Let_def clean_up_def)
  have "mail_at (rmtree ?src f1) ?src = {}" by (auto simp: mail_at_def rmtree_mem)
  then show ?thesis
    unfolding run using acc(2) m id1 same by (simp add: row_set_row row_set_row_const)
qed

text \<open>
  The target of a migration is compared with the source by store id, not by path. When both
  stores name one directory (the paths \<open>/mail\<close> and \<open>/mail/\<close> may be two stores), the migration
  copies nothing, finds the numbers of files equal, reports success and deletes the mail.
\<close>

lemma migration_in_place_deletes_mail:
  assumes m: "get_migration w i = Some m" and acc: "mg_account_id m = Some k" "get_account w k = Some a"
    and st: "get_store w (mg_target_store_id m) = Some st" and flag: "i \<notin> migration_cancel_flags w"
    and ok: "fs_ok f" "is_dir f (path_of (a_maildir_path a))"
    and same: "path_of (derive_maildir_path (st_path st) k) = path_of (a_maildir_path a)"
  shows "\<exists>w' f' a' m'. execute_account_migration (calm now) i (w, f) = (w', f')
    \<and> get_account w' k = Some a' \<and> get_migration w' i = Some m' \<and> mg_status m' = M_completed
    \<and> mail_at f' (path_of (a_maildir_path a')) = {}"
  using in_place [OF assms] by metis

text \<open>
  C30. A process killed while it removes the old directory leaves the row in \<open>cleaning\<close> with the
  account already at the new path. The restart runs the migration again, whose source is now the
  account's new path: the copy is deleted as if it were the old one, and the run reports success.
\<close>

theorem restart_in_cleaning_deletes_mail:
  assumes m: "get_migration w i = Some m" "mg_copied_files m = 0" "mg_copied_bytes m = 0" "store_migrations w = [m]"
    and acc: "mg_account_id m = Some k" "get_account w k = Some a" "k \<noteq> []"
    and st: "get_store w (mg_target_store_id m) = Some st" and flag: "i \<notin> migration_cancel_flags w"
    and ok: "fs_ok f" "is_dir f (path_of (a_maildir_path a))"
    and target: "mergeable f (path_of (a_maildir_path a)) (path_of (derive_maildir_path (st_path st) k)) f"
      "apart (path_of (a_maildir_path a)) (path_of (derive_maildir_path (st_path st) k))"
      "only_copies f (path_of (a_maildir_path a)) (path_of (derive_maildir_path (st_path st) k))"
    and closed: "\<And>p q. keep q \<Longrightarrow> prefix p q \<Longrightarrow> keep p"
  shows "let killed = execute_account_migration ((calm now)\<lparr>me_dies := Some keep\<rparr>) i (w, f);
      (w', f') = resume_migrations (calm later) killed
    in mail_at (snd killed) (path_of (derive_maildir_path (st_path st) k)) = mail_at f (path_of (a_maildir_path a))
      \<and> (\<exists>a' m'. get_account w' k = Some a' \<and> get_migration w' i = Some m' \<and> mg_status m' = M_completed
           \<and> mail_at f' (path_of (a_maildir_path a')) = {})"
proof -
  let ?src = "path_of (a_maildir_path a)" and ?dst = "path_of (derive_maildir_path (st_path st) k)"
  have k: "a_id a = k" using row_SomeD [OF acc(2)] by simp
  have mi: "mg_id m = i" using row_SomeD [OF m(1)] by simp
  obtain m1 f1 where t: "transfer (\<lambda>_. None) (cancel_flag_seen w None i) ?src ?dst (start_copying now m) f = (Ph_done, m1, f1)"
    and mail: "mail_at f1 ?dst = mail_at f ?src" and there: "exists_path f1 ?src" and dst: "is_dir f1 ?dst"
    by (rule transfer_completes [OF ok target(1) _ _ target(3,2), where io = "\<lambda>_. None" and cs = "cancel_flag_seen w None i" and m = "start_copying now m"])
      (use m flag in \<open>auto simp: cancel_flag_seen_def\<close>)
  note row1 = transfer_row [OF t]
  define g :: "Account \<Rightarrow> Account" where "g = (\<lambda>b. b\<lparr>a_maildir_path := derive_maildir_path (st_path st) k, a_store_id := st_id st\<rparr>)"
  define w1 where "w1 = upd_migration i (\<lambda>_. m1\<lparr>mg_status := M_cleaning\<rparr>) (upd_account k g w)"
  define f2 where "f2 = filter (\<lambda>e. \<not> prefix ?src (fst e) \<or> keep (fst e)) f1"
  have killed: "execute_account_migration ((calm now)\<lparr>me_dies := Some keep\<rparr>) i (w, f) = (w1, f2)"
    using m(1) acc st t there k
    by (simp add: execute_account_migration_def calm_def Let_def clean_up_def w1_def f2_def g_def)
  have ok1: "fs_ok f1" using transfer_fs_ok [OF t ok(1)] .
  have ok2: "fs_ok f2"
    unfolding fs_ok_def
  proof (intro conjI ballI impI)
    show "distinct (map fst f2)" using ok1 by (simp add: fs_ok_def f2_def distinct_map_filter)
    fix e assume e: "e \<in> set f2" "1 < length (fst e)"
    then have "is_dir f1 (butlast (fst e))" using ok1 by (auto simp: fs_ok_def f2_def)
    moreover have "\<not> prefix ?src (butlast (fst e)) \<or> keep (butlast (fst e))"
      using e(1) closed [OF _ prefixeq_butlast] prefix_order.trans [OF _ prefixeq_butlast] by (auto simp: f2_def)
    ultimately show "is_dir f2 (butlast (fst e))" by (simp add: is_dir_def f2_def)
  qed
  have dst2: "is_dir f2 ?dst" using dst apart_below [OF target(2), of "[]"] by (simp add: is_dir_def f2_def)
  have mail2: "mail_at f2 ?dst = mail_at f ?src"
    unfolding mail [symmetric] using apart_below [OF target(2)] by (simp add: mail_at_def f2_def)
  define w2 where "w2 = upd_migration i (\<lambda>m. m\<lparr>mg_last_resumed_at := Some later\<rparr>) (w1\<lparr>migration_cancel_flags := {}\<rparr>)"
  define m2 where "m2 = m1\<lparr>mg_status := M_cleaning, mg_last_resumed_at := Some later\<rparr>"
  have w1: "store_migrations w1 = [m1\<lparr>mg_status := M_cleaning\<rparr>]" "accounts w1 = set_row a_id k g (accounts w)"
    "mail_stores w1 = mail_stores w"
    using m(4) mi by (simp_all add: w1_def)
  have w2: "get_migration w2 i = Some m2" "get_account w2 k = Some (g a)" "get_store w2 (mg_target_store_id m2) = Some st"
    "mg_account_id m2 = Some k" "i \<notin> migration_cancel_flags w2"
    using w1 row1 mi acc st by (simp_all add: w2_def m2_def upd_migration_def row_set_row g_def)
  have resume: "resume_migrations (calm later) (w1, f2) = execute_account_migration (calm later) i (w2, f2)"
    using w1(1) row1(1) mi w2(1,4) acc(3)
    by (simp add: resume_migrations_def INCOMPLETE_def resume_one_def Let_def calm_def flip: w2_def)
  have ga: "path_of (a_maildir_path (g a)) = ?dst" by (simp add: g_def)
  have "\<exists>w' f' a' m'. execute_account_migration (calm later) i (w2, f2) = (w', f')
    \<and> get_account w' k = Some a' \<and> path_of (a_maildir_path a') = ?dst
    \<and> get_migration w' i = Some m' \<and> mg_status m' = M_completed \<and> mail_at f' ?dst = {}"
    using in_place [OF w2(1,4,2,3,5) ok2, of later] unfolding ga using dst2 by simp
  then obtain w' f' a' m' where fin: "execute_account_migration (calm later) i (w2, f2) = (w', f')"
    "get_account w' k = Some a'" "path_of (a_maildir_path a') = ?dst"
    "get_migration w' i = Some m'" "mg_status m' = M_completed" "mail_at f' ?dst = {}"
    by blast
  have "mail_at f' (path_of (a_maildir_path a')) = {}" using fin(3,6) by simp
  then show ?thesis using fin(2,4,5) by (simp add: killed resume fin(1) mail2)
qed

section \<open>Progress\<close>

lemma transfer_progress:
  assumes "transfer io cs src dst m f = (ph, m', f')" "mg_copied_files m = 0" "mg_copied_bytes m = 0"
  shows "mg_copied_files m' \<le> mg_total_files m'" "mg_copied_bytes m' \<le> mg_total_bytes m'"
proof -
  define st0 where "st0 = \<lparr> cs_fs = f, cs_files = 0, cs_bytes = 0, cs_reported = (0, 0), cs_committed = (0, 0) \<rparr>"
  define r where "r = copy_tree io cs f src dst st0"
  have "reported_ok (result_state r)"
    using copy_reported(1) [of st0 io cs f src dst] by (simp add: r_def st0_def reported_ok_def)
  moreover have "cs_files (result_state r) \<le> fst (prescan f src)" "cs_bytes (result_state r) \<le> snd (prescan f src)"
    using copy_counts(1) [of st0 f src io cs dst] by (simp_all add: r_def st0_def counts_to_def)
  ultimately have le: "fst (cs_reported (result_state r)) \<le> fst (prescan f src)" "snd (cs_reported (result_state r)) \<le> snd (prescan f src)"
    "fst (cs_committed (result_state r)) \<le> fst (prescan f src)" "snd (cs_committed (result_state r)) \<le> snd (prescan f src)"
    by (auto simp: reported_ok_def)
  have "mg_copied_files m' \<le> mg_total_files m' \<and> mg_copied_bytes m' \<le> mg_total_bytes m'"
  proof (cases "is_dir f src")
    case True
    with le assms is_dir_exists [OF True] show ?thesis
      unfolding transfer_def
      by (cases r) (auto simp: r_def st0_def prescan_path_def set_copied_def Let_def
        split: if_splits sum.splits prod.splits)
  next
    case False
    with assms show ?thesis
      unfolding transfer_def by (auto simp: prescan_path_def Let_def split: if_splits)
  qed
  then show "mg_copied_files m' \<le> mg_total_files m'" "mg_copied_bytes m' \<le> mg_total_bytes m'" by simp_all
qed

text \<open>
  However a first run ends, its row never shows more files or bytes copied than there were
  to copy, so the progress bar stays within a hundred percent.
\<close>

lemma migration_progress_bounded:
  assumes m: "get_migration w i = Some m" "mg_copied_files m = 0" "mg_copied_bytes m = 0"
    and acc: "mg_account_id m = Some k" "get_account w k = Some a"
    and st: "get_store w (mg_target_store_id m) = Some st"
  shows "\<exists>m'. get_migration (fst (execute_account_migration env i (w, f))) i = Some m'
    \<and> mg_copied_files m' \<le> mg_total_files m' \<and> mg_copied_bytes m' \<le> mg_total_bytes m' \<and> migration_pct m' \<le> 100"
proof -
  have pct: "migration_pct x \<le> 100" if "mg_copied_bytes x \<le> mg_total_bytes x" for x
  proof -
    have "mg_copied_bytes x * 100 div mg_total_bytes x \<le> mg_total_bytes x * 100 div mg_total_bytes x"
      using that by (intro div_le_mono) simp
    also have "\<dots> \<le> 100" by simp
    finally show ?thesis by (simp add: migration_pct_def)
  qed
  obtain ph m' f1 where t: "transfer (me_io env) (cancel_flag_seen w (me_cancel env) i) (path_of (a_maildir_path a))
       (path_of (derive_maildir_path (st_path st) k)) (start_copying (me_now env) m) f = (ph, m', f1)"
    and mi: "mg_id m' = i"
    and ex: "execute_account_migration env i (w, f) = (case ph of
        Ph_died \<Rightarrow> (upd_migration i (\<lambda>_. m') w, f1)
      | Ph_failed e \<Rightarrow> (close_migration i (failed_with e m') w, f1)
      | Ph_cancelled \<Rightarrow> (close_migration i (failed_with ''Cancelled by admin'' m')
           (upd_account k (\<lambda>a. a\<lparr>a_migrating := False\<rparr>) w), f1)
      | Ph_done \<Rightarrow> clean_up env i (path_of (a_maildir_path a)) m'
           (\<lambda>finished. upd_account k (\<lambda>b. b\<lparr>a_maildir_path := derive_maildir_path (st_path st) k,
              a_store_id := st_id st, a_migrating := (if finished then False else a_migrating b)\<rparr>)) w f1)"
    by (rule account_run [OF m(1) acc st, of env f])
  have le: "mg_copied_files m' \<le> mg_total_files m'" "mg_copied_bytes m' \<le> mg_total_bytes m'"
    using transfer_progress [OF t] m(2,3) by simp_all
  have row: "\<exists>m''. get_migration (fst (execute_account_migration env i (w, f))) i = Some m''
      \<and> mg_copied_files m'' = mg_copied_files m' \<and> mg_total_files m'' = mg_total_files m'
      \<and> mg_copied_bytes m'' = mg_copied_bytes m' \<and> mg_total_bytes m'' = mg_total_bytes m'"
    unfolding ex using m(1) mi
    by (cases ph; cases "me_dies env"; cases "exists_path f1 (path_of (a_maildir_path a))")
      (simp_all add: row_set_row_const failed_with_def clean_up_def)
  then show ?thesis using le pct by metis
qed

section \<open>Home migrations\<close>

text \<open>
  A home migration looks for the user's raw name, while Dovecot's home has the sanitised one.
  When they differ nothing is copied; the run reports success and points the user at the new store,
  so the home with its mail stays behind on the old one.
\<close>

lemma home_migration_leaves_sanitised_home:
  assumes m: "get_migration w i = Some m" and user: "mg_user_id m = Some k" "get_user w k = Some u"
    and st: "get_store w (mg_source_store_id m) = Some s" "get_store w (mg_target_store_id m) = Some t"
    and flag: "i \<notin> migration_cancel_flags w"
    and absent: "\<not> exists_path f (path_of (home_path s u))"
  shows "let (w', f') = execute_home_migration (calm now) i (w, f) in
    f' = f \<and> (\<exists>m'. get_migration w' i = Some m' \<and> mg_status m' = M_completed)
    \<and> get_user w' k = Some (u\<lparr>u_store_id := st_id t, u_migrating := False\<rparr>)"
proof -
  have k: "u_id u = k" using row_SomeD [OF user(2)] by simp
  have mi: "mg_id m = i" using row_SomeD [OF m] by simp
  show ?thesis
    using m user st flag absent k mi
    by (simp add: execute_home_migration_def transfer_def cancel_flag_seen_def calm_def Let_def clean_up_def
      row_set_row row_set_row_const)
qed

section \<open>A truncated copy\<close>

definition mig_world :: world where
  "mig_world = shared_world\<lparr>mail_stores :=
     [\<lparr> st_id = ''s1'', st_name = ''s'', st_path = ''/m'', st_enabled = True, st_is_default = True, st_created_at = 0 \<rparr>,
      \<lparr> st_id = ''s2'', st_name = ''t'', st_path = ''/n'', st_enabled = True, st_is_default = False, st_created_at = 0 \<rparr>],
     accounts := [box ''a1'']\<rparr>"

definition mig_fs :: fs where
  "mig_fs = [([''m''], Dir), ([''n''], Dir), ([''m'', ''a1''], Dir), ([''m'', ''a1'', ''cur''], Dir),
     ([''m'', ''a1'', ''cur'', ''1''], File ''hello'')]"

definition full_disk :: migration_env where
  "full_disk = (calm 0)\<lparr>me_io := (\<lambda>q. if last q = ''1'' then Some (Disk_error ''ENOSPC'' 2) else None)\<rparr>"

definition admin_user :: User where
  "admin_user = new_user ''u0'' ''root'' None Role_admin ''s1'' 0"


section \<open>Witnesses\<close>

definition started_row :: StoreMigration where
  "started_row = new_migration ''g'' 0 None (Some ''a1'') ''s1'' ''s2''"

definition started_account :: Account where
  "started_account = (box ''a1'')\<lparr>a_migrating := True\<rparr>"

definition started :: world where
  "started = mig_world\<lparr>accounts := [started_account], store_migrations := [started_row]\<rparr>"

definition target_store :: MailStore where
  "target_store = \<lparr> st_id = ''s2'', st_name = ''t'', st_path = ''/n'', st_enabled = True, st_is_default = False, st_created_at = 0 \<rparr>"

lemma started_facts:
  "get_migration started ''g'' = Some started_row" "store_migrations started = [started_row]"
  "get_account started ''a1'' = Some started_account" "a_migrating started_account"
  "get_store started (mg_target_store_id started_row) = Some target_store"
  "mg_account_id started_row = Some ''a1''" "mg_copied_files started_row = 0" "mg_copied_bytes started_row = 0"
  "''g'' \<notin> migration_cancel_flags started" "pk mg_id (store_migrations started)" "mg_id started_row = ''g''"
  "find (\<lambda>m. mg_account_id m = Some ''a1'' \<and> cancellable m) (store_migrations started) = Some started_row"
  by (simp_all add: started_def mig_world_def shared_defs started_row_def started_account_def target_store_def
    new_migration_def pk_def cancellable_def)

lemma started_paths:
  "path_of (a_maildir_path started_account) = [''m'', ''a1'']"
  "path_of (derive_maildir_path (st_path target_store) ''a1'') = [''n'', ''a1'']"
  by (simp add: started_account_def box_def new_account_def, code_simp) (simp add: target_store_def, code_simp)

lemma mig_fs_facts:
  "fs_ok mig_fs" "is_dir mig_fs [''m'', ''a1'']" "only_copies mig_fs [''m'', ''a1''] [''n'', ''a1'']"
  "apart [''m'', ''a1''] [''n'', ''a1'']" "mergeable mig_fs [''m'', ''a1''] [''n'', ''a1''] mig_fs"
  "([''cur'', ''1''], ''hello'') \<in> mail_at mig_fs [''m'', ''a1'']"
proof -
  show ok: "fs_ok mig_fs" by code_simp
  have "\<exists>g. make_dirs [''n'', ''a1''] mig_fs = Inr g"
    by (simp add: make_dirs_def exists_path_def is_dir_def mig_fs_def)
  moreover have "\<not> exists_path mig_fs [''n'', ''a1'']" by code_simp
  ultimately show "mergeable mig_fs [''m'', ''a1''] [''n'', ''a1''] mig_fs"
    using mergeable_fresh [OF ok] by blast
  show "is_dir mig_fs [''m'', ''a1'']" "apart [''m'', ''a1''] [''n'', ''a1'']"
    "only_copies mig_fs [''m'', ''a1''] [''n'', ''a1'']" by code_simp+
  show "([''cur'', ''1''], ''hello'') \<in> mail_at mig_fs [''m'', ''a1'']" by (simp add: mail_at_def mig_fs_def)
qed



text \<open>The second store is the same directory, written with a slash at the end.\<close>

definition twin_world :: world where
  "twin_world = started\<lparr>mail_stores := [target_store\<lparr>st_path := ''/m/''\<rparr>]\<rparr>"

theorem restart_in_cleaning_deletes_mail_witness:
  "let killed = execute_account_migration ((calm 5)\<lparr>me_dies := Some (\<lambda>_. True)\<rparr>) ''g'' (started, mig_fs);
      (w', f') = resume_migrations (calm 6) killed
    in mail_at (snd killed) [''n'', ''a1''] = mail_at mig_fs [''m'', ''a1'']
      \<and> (\<exists>a'. get_account w' ''a1'' = Some a' \<and> mail_at f' (path_of (a_maildir_path a')) = {})"
  using restart_in_cleaning_deletes_mail [OF started_facts(1,7,8,2,6,3) _ started_facts(5,9) mig_fs_facts(1), of "\<lambda>_. True" 5 6]
    mig_fs_facts
  by (auto simp: started_paths case_prod_beta Let_def)

definition home_world :: world where
  "home_world = mig_world\<lparr>users := [new_user ''u1'' ''a b'' None Role_user ''s1'' 0],
     store_migrations := [new_migration ''g'' 0 (Some ''u1'') None ''s1'' ''s2'']\<rparr>"

definition home_fs :: fs where
  "home_fs = [([''m''], Dir), ([''n''], Dir), ([''m'', ''.dovecot-home''], Dir), ([''m'', ''.dovecot-home'', ''a_b''], Dir),
     ([''m'', ''.dovecot-home'', ''a_b'', ''1''], File ''hello'')]"

end
