(* ===== verification/Stores.thy ===== *)
theory Stores
  imports Migration
begin

text \<open>
  Mail stores: \<open>services/store_service.py\<close>, the store forms of \<open>routers/ui_admin.py\<close> and
  \<open>_backfill_allowed_stores\<close> of \<open>app.py\<close>. Operations that look at the disk take the file
  system of \<open>Files\<close> next to the world. A row that a foreign key without an \<open>ON DELETE\<close> action
  still refers to cannot be deleted: the commit fails with an \<open>IntegrityError\<close>.
\<close>

definition sanitize_email :: "str \<Rightarrow> str" where
  "sanitize_email email = concat (map (\<lambda>c. let n = (of_char c :: nat) in
     if 128 \<le> n \<and> n < 192 then []
     else if (97 \<le> n \<and> n \<le> 122) \<or> (48 \<le> n \<and> n \<le> 57) then [c] else ''_'') (strip (lower email)))"

definition new_store :: "str \<Rightarrow> datetime \<Rightarrow> str \<Rightarrow> str \<Rightarrow> bool \<Rightarrow> MailStore" where
  "new_store i now name path is_default =
    \<lparr> st_id = i, st_name = name, st_path = path, st_enabled = True, st_is_default = is_default, st_created_at = now \<rparr>"

definition upd_store :: "str \<Rightarrow> (MailStore \<Rightarrow> MailStore) \<Rightarrow> world \<Rightarrow> world" where
  "upd_store k f w = w\<lparr>mail_stores := set_row st_id k f (mail_stores w)\<rparr>"

section \<open>The Dovecot home of a user\<close>

definition user_home :: "world \<Rightarrow> User \<Rightarrow> str option" where
  "user_home w u = map_option (\<lambda>s. dovecot_home_dir (st_path s) (u_username u)) (get_store w (u_store_id u))"

definition home_collides :: "world \<Rightarrow> User \<Rightarrow> bool" where
  "home_collides w user =
    (\<exists>u \<in> set (users w). u_id u \<noteq> u_id user \<and> u_store_id u = u_store_id user \<and> user_home w u = user_home w user)"

definition remove_dovecot_home :: "world \<Rightarrow> User \<Rightarrow> fs \<Rightarrow> bool \<times> fs" where
  "remove_dovecot_home w user f =
    (case user_home w user of
       None \<Rightarrow> (False, f)
     | Some home \<Rightarrow>
        if home_collides w user then (False, f)
        else if \<not> is_dir f (path_of home) then (False, f)
        else (let f = rmtree (path_of home) f in (\<not> is_dir f (path_of home), f)))"

section \<open>Stores\<close>

definition get_default_store :: "world \<Rightarrow> MailStore option" where
  "get_default_store w = find st_is_default (mail_stores w)"

text \<open>
  An unknown id leaves the cleared flags in the session without a commit; the route then commits
  the session with its entry of the audit log, so the flags are cleared for good.
\<close>

definition set_default_store :: "str \<Rightarrow> world \<Rightarrow> MailStore option \<times> world" where
  "set_default_store store_id w =
    (let w = w\<lparr>mail_stores := map (\<lambda>s. s\<lparr>st_is_default := False\<rparr>) (mail_stores w)\<rparr>
     in (case get_store w store_id of
           None \<Rightarrow> (None, w)
         | Some _ \<Rightarrow>
            let w = upd_store store_id (\<lambda>s. s\<lparr>st_is_default := True\<rparr>) w
            in (get_store w store_id, w)))"

definition ensure_default_store :: "str \<Rightarrow> str \<Rightarrow> datetime \<Rightarrow> world \<Rightarrow> (py_error + MailStore) \<times> world" where
  "ensure_default_store bootstrap_store_path i now w =
    (case get_default_store w of
       Some store \<Rightarrow> (Inr store, w)
     | None \<Rightarrow>
        let path = rstrip_slash bootstrap_store_path;
            squatter = (case find (\<lambda>s. st_path s = path) (mail_stores w) of
                Some s \<Rightarrow> Some s
              | None \<Rightarrow> find (\<lambda>s. st_path s = path @ ''/'') (mail_stores w))
        in (case squatter of
              Some s \<Rightarrow> (Inr (s\<lparr>st_is_default := True\<rparr>), upd_store (st_id s) (\<lambda>s. s\<lparr>st_is_default := True\<rparr>) w)
            | None \<Rightarrow>
                let s = new_store i now ''default'' path True
                in if path \<in> st_path ` set (mail_stores w) then (Inl IntegrityError, w)
                   else (Inr s, w\<lparr>mail_stores := mail_stores w @ [s]\<rparr>)))"

definition create_store :: "str \<Rightarrow> datetime \<Rightarrow> str \<Rightarrow> str \<Rightarrow> disk_world \<Rightarrow> (py_error + MailStore) \<times> disk_world" where
  "create_store i now name path dw =
    (case dw of (w, f) \<Rightarrow>
      let clean_path = rstrip_slash path;
          f = (case make_dirs (path_of clean_path) f of Inl e \<Rightarrow> f | Inr g \<Rightarrow> g);
          s = new_store i now name clean_path False
      in if clean_path \<in> st_path ` set (mail_stores w) then (Inl IntegrityError, w, f)
         else (Inr s, w\<lparr>mail_stores := mail_stores w @ [s]\<rparr>, f))"

datatype store_field = S_name str | S_path str | S_enabled bool | S_is_default bool | S_other str

fun set_store_field :: "store_field \<Rightarrow> MailStore \<Rightarrow> MailStore" where
  "set_store_field (S_name v) s = s\<lparr>st_name := v\<rparr>"
| "set_store_field (S_path v) s = s\<lparr>st_path := v\<rparr>"
| "set_store_field (S_enabled v) s = s\<lparr>st_enabled := v\<rparr>"
| "set_store_field (S_is_default v) s = s\<lparr>st_is_default := v\<rparr>"
| "set_store_field (S_other v) s = s"

definition update_store :: "str \<Rightarrow> store_field list \<Rightarrow> world \<Rightarrow> (py_error + MailStore option) \<times> world" where
  "update_store store_id kwargs w =
    (case get_store w store_id of
       None \<Rightarrow> (Inr None, w)
     | Some s \<Rightarrow>
        let s' = fold set_store_field kwargs s
        in if \<exists>t \<in> set (mail_stores w). st_id t \<noteq> store_id \<and> st_path t = st_path s' then (Inl IntegrityError, w)
           else (Inr (Some s'), upd_store store_id (fold set_store_field kwargs) w))"

record StoreContents =
  sc_accounts :: "(str \<times> str \<times> str) list"
  sc_users :: "(str \<times> str) list"

definition get_store_contents :: "str \<Rightarrow> world \<Rightarrow> StoreContents" where
  "get_store_contents store_id w =
    \<lparr> sc_accounts = map (\<lambda>a. (a_id a, a_name a, a_email_address a)) (filter (\<lambda>a. a_store_id a = store_id) (accounts w)),
      sc_users = map (\<lambda>u. (u_id u, u_username u)) (filter (\<lambda>u. u_store_id u = store_id) (users w)) \<rparr>"

text \<open>The foreign keys to \<open>mail_stores\<close>, those of accounts and users apart.\<close>

definition store_referenced :: "world \<Rightarrow> str \<Rightarrow> bool" where
  "store_referenced w store_id =
    (store_id \<in> snd ` set (user_allowed_stores w)
     \<or> (\<exists>m \<in> set (store_migrations w). mg_source_store_id m = store_id \<or> mg_target_store_id m = store_id))"

definition delete_store :: "str \<Rightarrow> world \<Rightarrow> (py_error + bool \<times> str option) \<times> world" where
  "delete_store store_id w =
    (case get_store w store_id of
       None \<Rightarrow> (Inr (False, Some ''Store not found''), w)
     | Some s \<Rightarrow>
        let contents = get_store_contents store_id w
        in if sc_accounts contents \<noteq> [] \<or> sc_users contents \<noteq> [] then
             (Inr (False, Some (''Store is not empty '' @ em_dash @ '' migrate all accounts and user homes before deleting'')), w)
           else if store_referenced w store_id then (Inl IntegrityError, w)
           else (Inr (True, None), w\<lparr>mail_stores := filter (\<lambda>s. st_id s \<noteq> store_id) (mail_stores w)\<rparr>))"

section \<open>The stores of a user\<close>

definition get_user_store :: "User \<Rightarrow> world \<Rightarrow> MailStore option" where
  "get_user_store user w = get_store w (u_store_id user)"

definition allowed_stores :: "world \<Rightarrow> str \<Rightarrow> MailStore list" where
  "allowed_stores w user_id = concat (map (\<lambda>p. filter (\<lambda>s. st_id s = snd p) (mail_stores w))
     (filter (\<lambda>p. fst p = user_id) (user_allowed_stores w)))"

definition get_allowed_stores :: "User \<Rightarrow> world \<Rightarrow> MailStore list" where
  "get_allowed_stores user w =
    (if u_role user = Role_admin then filter st_enabled (mail_stores w)
     else filter st_enabled (allowed_stores w (u_id user)))"

definition set_allowed_stores :: "str \<Rightarrow> str list \<Rightarrow> world \<Rightarrow> str option \<times> world" where
  "set_allowed_stores user_id store_ids w =
    (case get_user w user_id of
       None \<Rightarrow> (None, w)
     | Some user \<Rightarrow>
        if u_migrating user then (Some ''Cannot change stores while migration is in progress'', w)
        else
          let new_ids = map st_id (filter (\<lambda>s. st_id s \<in> set store_ids) (mail_stores w))
          in if u_store_id user \<noteq> [] \<and> u_store_id user \<notin> set new_ids then
               (Some (''Cannot remove the user'' @ [CHR 0x27] @ ''s current home store '' @ em_dash @ '' migrate the user first''), w)
             else (None, w\<lparr>user_allowed_stores := replace_pairs (\<lambda>p. fst p = user_id)
                (map (\<lambda>i. (user_id, i)) new_ids) (user_allowed_stores w)\<rparr>))"

definition get_selectable_stores :: "User \<Rightarrow> world \<Rightarrow> MailStore list option" where
  "get_selectable_stores user w = (let stores = get_allowed_stores user w in if length stores > 1 then Some stores else None)"

definition backfill_allowed_stores :: "world \<Rightarrow> world" where
  "backfill_allowed_stores w = fold (\<lambda>u w.
     if allowed_stores w (u_id u) = [] then snd (set_allowed_stores (u_id u) [u_store_id u] w) else w) (users w) w"

section \<open>Paths and orphans\<close>

definition path_conflict :: "str \<Rightarrow> str \<Rightarrow> str option" where
  "path_conflict candidate path =
    (let candidate_norm = rstrip_slash candidate @ ''/''; path_norm = rstrip_slash path @ ''/''
     in if candidate_norm = path_norm then Some (''Path already in use: '' @ path)
        else if prefix path_norm candidate_norm then Some (''Path is a subdirectory of existing: '' @ path)
        else if prefix candidate_norm path_norm then Some (''Path is a parent of existing: '' @ path)
        else None)"

definition is_path_available :: "str \<Rightarrow> world \<Rightarrow> bool \<times> str option" where
  "is_path_available candidate w =
    (case List.map_filter (path_conflict candidate) (map a_maildir_path (accounts w)) of
       [] \<Rightarrow> (True, None)
     | reason # _ \<Rightarrow> (False, Some reason))"

record Orphan =
  or_name :: str
  or_path :: path
  or_size :: nat

definition dir_size :: "path \<Rightarrow> fs \<Rightarrow> nat" where
  "dir_size p f = sum_list (map (\<lambda>n. case file_at f (p @ [n]) of Some c \<Rightarrow> length c | None \<Rightarrow> 0) (listdir p f))"

definition get_orphaned_dirs :: "str \<Rightarrow> disk_world \<Rightarrow> Orphan list" where
  "get_orphaned_dirs store_id dw =
    (case dw of (w, f) \<Rightarrow>
      (case get_store w store_id of
         None \<Rightarrow> []
       | Some store \<Rightarrow>
          let root = path_of (st_path store);
              account_ids = map a_id (filter (\<lambda>a. a_store_id a = store_id) (accounts w))
          in if \<not> is_dir f root then []
             else map (\<lambda>n. \<lparr> or_name = n, or_path = root @ [n], or_size = dir_size (root @ [n]) f \<rparr>)
               (filter (\<lambda>n. is_dir f (root @ [n]) \<and> \<not> prefix ''.'' n \<and> n \<notin> set account_ids) (listdir root f))))"

definition delete_orphaned_dirs :: "str \<Rightarrow> disk_world \<Rightarrow> nat \<times> disk_world" where
  "delete_orphaned_dirs store_id dw =
    (let orphans = get_orphaned_dirs store_id dw
     in (length orphans, fst dw, fold (\<lambda>x. rmtree (or_path x)) orphans (snd dw)))"

definition check_maildir_exists :: "str \<Rightarrow> fs \<Rightarrow> bool \<times> nat" where
  "check_maildir_exists path f =
    (let p = path_of (rstrip_slash path)
     in if \<not> is_dir f p then (False, 0) else (True, length (listdir p f)))"

section \<open>Homes\<close>

lemma remove_home_mem:
  "e \<in> set (snd (remove_dovecot_home w user f)) \<longleftrightarrow>
    e \<in> set f \<and> (\<forall>home. user_home w user = Some home \<longrightarrow> \<not> home_collides w user \<longrightarrow> is_dir f (path_of home)
      \<longrightarrow> \<not> prefix (path_of home) (fst e))"
  by (auto simp: remove_dovecot_home_def Let_def rmtree_mem split: option.split)

lemma split_on_snoc: "c \<notin> set t \<Longrightarrow> split_on c (s @ c # t) = split_on c s @ [t]"
proof (induction s)
  case Nil
  have "split_on c t = [t]" using Nil by (induction t) auto
  then show ?case by simp
next
  case (Cons x s)
  then show ?case by (cases "split_on c s") auto
qed

lemma path_of_snoc:
  assumes "CHR ''/'' \<notin> set t" "t \<noteq> []" "t \<noteq> ''.''" "t \<noteq> ''..''"
  shows "path_of (s @ CHR ''/'' # t) = path_of s @ [t]"
  using assms by (simp add: path_of_def split_on_snoc)

lemma path_of_dot: "path_of (s @ ''/.'') = path_of s" "path_of (s @ ''/..'') = butlast (path_of s)"
  using split_on_snoc [of "CHR ''/''" "''.''" s] split_on_snoc [of "CHR ''/''" "''..''" s]
  by (simp_all add: path_of_def)

lemma slash_not_in_sanitised: "CHR ''/'' \<notin> set (sanitize_path_component s)"
  by (auto simp: sanitize_path_component_def Let_def split: if_splits)

definition proper_name :: "str \<Rightarrow> bool" where
  "proper_name n = (sanitize_path_component n \<notin> {[], ''.'', ''..''})"

lemma path_of_home:
  assumes "proper_name n"
  shows "path_of (dovecot_home_dir p n) = path_of (rstrip_slash p) @ [''.dovecot-home'', sanitize_path_component n]"
proof -
  have "path_of (dovecot_home_dir p n)
      = path_of ((rstrip_slash p @ ''/.dovecot-home'') @ CHR ''/'' # sanitize_path_component n)"
    by (simp add: dovecot_home_dir_def rstrip_slash_def)
  also have "\<dots> = path_of (rstrip_slash p @ ''/.dovecot-home'') @ [sanitize_path_component n]"
    by (rule path_of_snoc) (use assms slash_not_in_sanitised in \<open>auto simp: proper_name_def\<close>)
  also have "path_of (rstrip_slash p @ ''/.dovecot-home'') = path_of (rstrip_slash p) @ [''.dovecot-home'']"
    using path_of_snoc [of "''.dovecot-home''" "rstrip_slash p"] by simp
  finally show ?thesis by simp
qed

lemma remove_home_spares:
  assumes u: "proper_name (u_username u)" and v: "v \<in> set (users w)" "u_id v \<noteq> u_id u" "u_store_id v = u_store_id u"
    and home: "user_home w v = Some home" and name: "proper_name (u_username v)"
  shows "mail_at (snd (remove_dovecot_home w u f)) (path_of home) = mail_at f (path_of home)"
proof -
  obtain s where s: "get_store w (u_store_id u) = Some s" "home = dovecot_home_dir (st_path s) (u_username v)"
    using home v(3) by (auto simp: user_home_def)
  have "\<not> prefix (path_of hu) (path_of home @ r)" if hu: "user_home w u = Some hu" "\<not> home_collides w u" for hu r
  proof -
    have hu': "hu = dovecot_home_dir (st_path s) (u_username u)" using hu(1) s(1) by (simp add: user_home_def)
    have "user_home w v \<noteq> user_home w u" using hu(2) v unfolding home_collides_def by blast
    then have "sanitize_path_component (u_username v) \<noteq> sanitize_path_component (u_username u)"
      using home hu(1) by (auto simp: s(2) hu' dovecot_home_dir_def)
    then show ?thesis using u name by (simp add: s(2) hu' path_of_home)
  qed
  then show ?thesis by (auto simp: mail_at_def remove_home_mem)
qed

section \<open>Orphans\<close>

lemma fold_rmtree_mem: "e \<in> set (fold (\<lambda>x. rmtree (or_path x)) xs f) \<longleftrightarrow> e \<in> set f \<and> (\<forall>x \<in> set xs. \<not> prefix (or_path x) (fst e))"
  by (induction xs arbitrary: f) (auto simp: rmtree_mem)

text \<open>
  C15. The orphan cleanup removes exactly the trees of the visible directories whose name is not
  the id of a mailbox of this store. So it keeps every mailbox of the store, the hidden directories
  (Dovecot homes, recoveries) and everything outside the store; but it also takes the directory
  that a running migration from another store is filling, because that mailbox still belongs to
  the old store.
\<close>

theorem orphan_cleanup_exact:
  assumes st: "get_store w i = Some s" and dir: "is_dir f (path_of (st_path s))" and pk: "pk a_id (accounts w)"
  shows "let f' = snd (snd (delete_orphaned_dirs i (w, f))); root = path_of (st_path s);
      kept = (\<lambda>n. prefix ''.'' n \<or> n \<in> a_id ` {a \<in> set (accounts w). a_store_id a = i} \<or> \<not> is_dir f (root @ [n])) in
    (\<forall>e. e \<in> set f' \<longleftrightarrow> e \<in> set f \<and> (\<forall>n. prefix (root @ [n]) (fst e) \<longrightarrow> kept n))
    \<and> (\<forall>n. kept n \<longrightarrow> mail_at f' (root @ [n]) = mail_at f (root @ [n]))
    \<and> (\<forall>a \<in> set (accounts w). a_store_id a \<noteq> i \<and> \<not> prefix ''.'' (a_id a) \<and> is_dir f (root @ [a_id a])
         \<longrightarrow> mail_at f' (root @ [a_id a]) = {})"
proof -
  define root where "root = path_of (st_path s)"
  define kept where "kept = (\<lambda>n. prefix ''.'' n \<or> n \<in> a_id ` {a \<in> set (accounts w). a_store_id a = i} \<or> \<not> is_dir f (root @ [n]))"
  define f' where "f' = snd (snd (delete_orphaned_dirs i (w, f)))"
  have "get_orphaned_dirs i (w, f) = map (\<lambda>n. \<lparr> or_name = n, or_path = root @ [n], or_size = dir_size (root @ [n]) f \<rparr>)
      (filter (\<lambda>n. \<not> kept n) (listdir root f))"
    using st dir by (auto simp: get_orphaned_dirs_def root_def kept_def Let_def intro!: arg_cong [of _ _ "map _"] filter_cong)
  then have f': "e \<in> set f' \<longleftrightarrow> e \<in> set f \<and> (\<forall>n \<in> set (listdir root f). \<not> kept n \<longrightarrow> \<not> prefix (root @ [n]) (fst e))" for e
    by (auto simp: f'_def delete_orphaned_dirs_def fold_rmtree_mem)
  have listed: "\<not> kept n \<Longrightarrow> n \<in> set (listdir root f)" for n
    by (auto simp: kept_def listdir_iff intro: is_dir_exists)
  have exact: "e \<in> set f' \<longleftrightarrow> e \<in> set f \<and> (\<forall>n. prefix (root @ [n]) (fst e) \<longrightarrow> kept n)" for e
    using f' listed by blast
  have spared: "mail_at f' (root @ [n]) = mail_at f (root @ [n])" if "kept n" for n
    using that by (auto simp: mail_at_def exact)
  have taken: "mail_at f' (root @ [a_id a]) = {}"
    if "a \<in> set (accounts w)" "a_store_id a \<noteq> i" "\<not> prefix ''.'' (a_id a)" "is_dir f (root @ [a_id a])" for a
  proof -
    have "\<not> kept (a_id a)" using that pk by (auto simp: kept_def pk_def dest: inj_onD [OF distinct_map [THEN iffD1, THEN conjunct2]])
    then show ?thesis by (auto simp: mail_at_def exact)
  qed
  have "(\<forall>e. e \<in> set f' \<longleftrightarrow> e \<in> set f \<and> (\<forall>n. prefix (root @ [n]) (fst e) \<longrightarrow> kept n))
    \<and> (\<forall>n. kept n \<longrightarrow> mail_at f' (root @ [n]) = mail_at f (root @ [n]))
    \<and> (\<forall>a \<in> set (accounts w). a_store_id a \<noteq> i \<and> \<not> prefix ''.'' (a_id a) \<and> is_dir f (root @ [a_id a])
         \<longrightarrow> mail_at f' (root @ [a_id a]) = {})"
    using exact spared taken by blast
  then show ?thesis unfolding Let_def kept_def f'_def root_def .
qed

section \<open>Deleting stores\<close>

lemma set_row_map: "(\<And>r. r \<in> set t \<Longrightarrow> key r = k \<Longrightarrow> g (h r) = g r) \<Longrightarrow> map g (set_row key k h t) = map g t"
  by (induction t) auto

lemma execute_keeps_sources:
  assumes "get_migration w i = Some m" "pk mg_id (store_migrations w)"
  shows "mg_source_store_id ` set (store_migrations (fst (execute_account_migration env i (w, f))))
    = mg_source_store_id ` set (store_migrations w)"
proof -
  have keep: "mg_source_store_id ` set (set_row mg_id i (\<lambda>_. x) (store_migrations w)) = mg_source_store_id ` set (store_migrations w)"
    if "mg_source_store_id x = mg_source_store_id m" for x
  proof -
    have "map mg_source_store_id (set_row mg_id i (\<lambda>_. x) (store_migrations w)) = map mg_source_store_id (store_migrations w)"
      by (rule set_row_map) (use that assms row_SomeI [OF assms(2)] in fastforce)
    then show ?thesis by (metis list.set_map)
  qed
  show ?thesis
  proof (cases "(Option.bind (mg_account_id m) (get_account w), get_store w (mg_target_store_id m))")
    case (Pair x y)
    show ?thesis
    proof (cases "x = None \<or> y = None")
      case True
      have "map mg_source_store_id (set_row mg_id i (failed_with e) (store_migrations w)) = map mg_source_store_id (store_migrations w)" for e
        by (rule set_row_map) (simp add: failed_with_def)
      then have "mg_source_store_id ` set (set_row mg_id i (failed_with e) (store_migrations w)) = mg_source_store_id ` set (store_migrations w)" for e
        by (metis list.set_map)
      then show ?thesis using True Pair assms(1)
        by (auto simp: execute_account_migration_def split: option.splits)
    next
      case False
      then obtain k a st where h: "mg_account_id m = Some k" "get_account w k = Some a" "get_store w (mg_target_store_id m) = Some st"
        using Pair by (cases "mg_account_id m") auto
      obtain ph m' f1 where t: "transfer (me_io env) (cancel_flag_seen w (me_cancel env) i) (path_of (a_maildir_path a))
           (path_of (derive_maildir_path (st_path st) k)) (start_copying (me_now env) m) f = (ph, m', f1)"
        and ex: "execute_account_migration env i (w, f) = (case ph of
            Ph_died \<Rightarrow> (upd_migration i (\<lambda>_. m') w, f1)
          | Ph_failed e \<Rightarrow> (close_migration i (failed_with e m') w, f1)
          | Ph_cancelled \<Rightarrow> (close_migration i (failed_with ''Cancelled by admin'' m')
               (upd_account k (\<lambda>a. a\<lparr>a_migrating := False\<rparr>) w), f1)
          | Ph_done \<Rightarrow> clean_up env i (path_of (a_maildir_path a)) m'
               (\<lambda>finished. upd_account k (\<lambda>b. b\<lparr>a_maildir_path := derive_maildir_path (st_path st) k,
                  a_store_id := st_id st, a_migrating := (if finished then False else a_migrating b)\<rparr>)) w f1)"
        by (rule account_run [OF assms(1) h, of env f])
      have "mg_source_store_id m' = mg_source_store_id m" using transfer_row(5) [OF t] by simp
      then show ?thesis
        unfolding ex by (cases ph; cases "me_dies env"; cases "exists_path f1 (path_of (a_maildir_path a))")
          (simp_all add: keep failed_with_def clean_up_def)
    qed
  qed
qed

text \<open>
  A store that a mailbox was once moved off can never be deleted, drained or not: the row of
  the migration keeps its reference to the store, whatever the run came to, and the deletion fails
  at the database.
\<close>

lemma drained_store_undeletable:
  assumes start: "initiate_account_migration i now k target w = (Inr m, w1)"
    and fresh: "i \<notin> mg_id ` set (store_migrations w)" "pk mg_id (store_migrations w)"
    and old: "get_account w k = Some a"
    and run: "execute_account_migration env i (w1, f) = (w2, f2)"
  shows "fst (delete_store (a_store_id a) w2) \<noteq> Inr (True, None)
    \<and> (get_store w2 (a_store_id a) \<noteq> None \<and> sc_accounts (get_store_contents (a_store_id a) w2) = []
        \<and> sc_users (get_store_contents (a_store_id a) w2) = []
       \<longrightarrow> delete_store (a_store_id a) w2 = (Inl IntegrityError, w2))"
proof -
  have m: "store_migrations w1 = store_migrations w @ [m]" "mg_id m = i" "mg_source_store_id m = a_store_id a"
    using start old by (auto simp: initiate_account_migration_def new_migration_def Let_def split: if_splits)
  have row: "get_migration w1 i = Some m"
    using m fresh(1) by (simp add: row_append row_None [THEN iffD2])
  have pk: "pk mg_id (store_migrations w1)" using m fresh by (auto simp: pk_append)
  have "a_store_id a \<in> mg_source_store_id ` set (store_migrations w2)"
    using execute_keeps_sources [OF row pk, of env f] m by (simp add: run)
  then have "store_referenced w2 (a_store_id a)" by (auto simp: store_referenced_def)
  then show ?thesis by (auto simp: delete_store_def Let_def split: option.split)
qed

section \<open>Defaults and allowed stores\<close>

lemma set_default_store_unique:
  assumes "pk st_id (mail_stores w)" "get_store w i \<noteq> None"
  shows "filter st_is_default (mail_stores (snd (set_default_store i w))) = [the (fst (set_default_store i w))]
    \<and> fst (set_default_store i w) \<noteq> None"
proof -
  obtain s where s: "get_store w i = Some s" using assms(2) by auto
  let ?t = "map (\<lambda>s. s\<lparr>st_is_default := False\<rparr>) (mail_stores w)"
  have row: "row st_id ?t i = Some (s\<lparr>st_is_default := False\<rparr>)"
  proof -
    have "row st_id (map (\<lambda>s. s\<lparr>st_is_default := False\<rparr>) t) i = map_option (\<lambda>s. s\<lparr>st_is_default := False\<rparr>) (row st_id t i)" for t :: "MailStore list"
      by (induction t) auto
    then show ?thesis using s by simp
  qed
  have f: "filter st_is_default (set_row st_id i (\<lambda>s. s\<lparr>st_is_default := True\<rparr>) (map (\<lambda>s. s\<lparr>st_is_default := False\<rparr>) t))
      = [s\<lparr>st_is_default := True\<rparr>]" if "pk st_id t" "row st_id t i = Some s" for t
    using that
  proof (induction t)
    case (Cons x t)
    have none: "filter st_is_default (set_row st_id i (\<lambda>s. s\<lparr>st_is_default := True\<rparr>) (map (\<lambda>s. s\<lparr>st_is_default := False\<rparr>) t)) = []"
      if "i \<notin> st_id ` set t" for t
      using that by (induction t) auto
    show ?case
    proof (cases "st_id x = i")
      case True
      then have "i \<notin> st_id ` set t" using Cons.prems(1) by (auto simp: pk_def)
      then show ?thesis using True Cons.prems(2) none by simp
    next
      case False
      then show ?thesis using Cons by (simp add: pk_def)
    qed
  qed simp
  show ?thesis
    using f [OF assms(1) s] row by (simp add: set_default_store_def Let_def upd_store_def row_set_row)
qed

lemma set_allowed_stores_ok:
  assumes "get_user w k = Some u" "fst (set_allowed_stores k ids w) = None" "u_store_id u \<noteq> []"
  shows "u_store_id u \<in> st_id ` set (allowed_stores (snd (set_allowed_stores k ids w)) k)"
proof -
  define new_ids where "new_ids = map st_id (filter (\<lambda>s. st_id s \<in> set ids) (mail_stores w))"
  have run: "set_allowed_stores k ids w = (if u_migrating u then (Some ''Cannot change stores while migration is in progress'', w)
      else if u_store_id u \<noteq> [] \<and> u_store_id u \<notin> set new_ids then
        (Some (''Cannot remove the user'' @ [CHR 0x27] @ ''s current home store '' @ em_dash @ '' migrate the user first''), w)
      else (None, w\<lparr>user_allowed_stores := replace_pairs (\<lambda>p. fst p = k) (map (\<lambda>i. (k, i)) new_ids) (user_allowed_stores w)\<rparr>))"
    unfolding set_allowed_stores_def assms(1) option.case Let_def new_ids_def [symmetric] ..
  have c: "\<not> u_migrating u" "u_store_id u \<in> set new_ids"
    using assms(2,3) unfolding run by (simp_all split: if_split_asm)
  have w': "snd (set_allowed_stores k ids w) = w\<lparr>user_allowed_stores := replace_pairs (\<lambda>p. fst p = k)
      (map (\<lambda>i. (k, i)) (map st_id (filter (\<lambda>s. st_id s \<in> set ids) (mail_stores w)))) (user_allowed_stores w)\<rparr>"
    unfolding run using c by (simp only: if_False not_False_eq_True simp_thms snd_conv new_ids_def)
  have mem: "u_store_id u \<in> st_id ` set (filter (\<lambda>s. st_id s \<in> set ids) (mail_stores w))"
    using c(2) by (simp add: new_ids_def)
  then obtain s where "s \<in> set (mail_stores w)" "st_id s \<in> set ids" "st_id s = u_store_id u" by auto
  let ?new = "map (\<lambda>i. (k, i)) (map st_id (filter (\<lambda>s. st_id s \<in> set ids) (mail_stores w)))"
  have "(k, st_id s) \<in> set ?new" using \<open>s \<in> set (mail_stores w)\<close> \<open>st_id s \<in> set ids\<close> by simp
  then have p: "(k, st_id s) \<in> set (replace_pairs (\<lambda>p. fst p = k) ?new (user_allowed_stores w))"
    by (simp add: replace_pairs_def del: map_map)
  have "s \<in> set (allowed_stores (snd (set_allowed_stores k ids w)) k)"
  proof -
    have "(k, st_id s) \<in> set (filter (\<lambda>p. fst p = k) (user_allowed_stores (snd (set_allowed_stores k ids w))))"
      unfolding w' using p by (simp del: map_map)
    moreover have "s \<in> set (filter (\<lambda>t. st_id t = snd (k, st_id s)) (mail_stores (snd (set_allowed_stores k ids w))))"
      unfolding w' using \<open>s \<in> set (mail_stores w)\<close> by simp
    ultimately show ?thesis unfolding allowed_stores_def set_concat set_map by blast
  qed
  then show ?thesis using \<open>st_id s = u_store_id u\<close> by (metis imageI)
qed

section \<open>Witnesses\<close>

text \<open>The mailbox \<open>a1\<close> is being copied to the second store when its orphans are removed.\<close>

definition half_copied :: fs where
  "half_copied = mig_fs @ [([''n'', ''a1''], Dir), ([''n'', ''a1'', ''1''], File ''hello'')]"

theorem orphan_cleanup_exact_witness:
  "mail_at (snd (snd (delete_orphaned_dirs ''s2'' (started, half_copied)))) [''n'', ''a1''] = {}
    \<and> ([''1''], ''hello'') \<in> mail_at half_copied [''n'', ''a1'']"
proof -
  have st: "get_store started ''s2'' = Some target_store" "path_of (st_path target_store) = [''n'']"
    using started_facts(5) by (simp_all add: started_row_def new_migration_def target_store_def, code_simp)
  have a: "accounts started = [started_account]" "a_id started_account = ''a1''" "a_store_id started_account = ''s1''"
    by (simp_all add: started_def started_account_def box_def new_account_def)
  have dir: "is_dir half_copied [''n'']" "is_dir half_copied [''n'', ''a1'']"
    by (simp_all add: half_copied_def mig_fs_def is_dir_def)
  have "pk a_id (accounts started)" by (simp add: a pk_def)
  from orphan_cleanup_exact [OF st(1) _ this, of half_copied] show ?thesis
    using dir by (simp add: st(2) a Let_def) (simp add: half_copied_def mail_at_def)
qed

end
