(* ===== verification/Preview.thy ===== *)
theory Preview
  imports Files Access
begin

text \<open>
  Where the bytes of an indexed message come from: the file names of \<open>services/index_service.py\<close>
  (\<open>maildir_filename_prefix\<close>, \<open>maildir_folder_bases\<close>) and the two sources of
  \<open>services/preview_service.py\<close>, the live maildir and the snapshots of restic. The child
  processes of restic are the functions of the record \<open>Restic\<close>; each may raise.
\<close>

section \<open>Names of files and folders\<close>

fun before_flags :: "str \<Rightarrow> str option" where
  "before_flags [] = None"
| "before_flags (c # s) = (if prefix '':2,'' (c # s) then Some [] else map_option (Cons c) (before_flags s))"

definition maildir_filename_prefix :: "str \<Rightarrow> str" where
  "maildir_filename_prefix filename =
    (case before_flags filename of Some p \<Rightarrow> p @ '':2,'' | None \<Rightarrow> filename)"

text \<open>\<open>os.path.join\<close> of two parts and \<open>os.path.basename\<close>.\<close>

definition path_join :: "str \<Rightarrow> str \<Rightarrow> str" where
  "path_join a b =
    (if prefix ''/'' b then b else if a = [] \<or> last a = CHR ''/'' then a @ b else a @ ''/'' @ b)"

definition basename :: "str \<Rightarrow> str" where
  "basename p = last (split_on CHR ''/'' p)"

definition maildir_folder_bases :: "str \<Rightarrow> str \<Rightarrow> str list" where
  "maildir_folder_bases maildir_path folder_path =
    (if folder_path = ''INBOX'' then [path_join maildir_path ''INBOX'', maildir_path]
     else [path_join maildir_path folder_path])"

definition message_dirs :: "str \<Rightarrow> str \<Rightarrow> str list" where
  "message_dirs maildir_path folder_path =
    concat (map (\<lambda>b. [path_join b ''cur'', path_join b ''new'']) (maildir_folder_bases maildir_path folder_path))"

section \<open>The live file\<close>

definition same_message :: "str \<Rightarrow> str \<Rightarrow> bool" where
  "same_message a b = (maildir_filename_prefix a = maildir_filename_prefix b)"

definition renamed_files :: "fs \<Rightarrow> str \<Rightarrow> path \<Rightarrow> path list" where
  "renamed_files f filename d =
    (if is_dir f d then map (\<lambda>n. d @ [n]) (filter (\<lambda>n. same_message n filename) (listdir d f)) else [])"

definition locate_live_file :: "fs \<Rightarrow> Account \<Rightarrow> MailIndexMessage \<Rightarrow> path option" where
  "locate_live_file f account r =
    (let dirs = map path_of (message_dirs (a_maildir_path account) (mi_folder_path r));
         exact = map (\<lambda>d. d @ [mi_maildir_filename r]) dirs
     in (case find (exists_path f) exact of
           Some p \<Rightarrow> Some p
         | None \<Rightarrow> (case concat (map (renamed_files f (mi_maildir_filename r)) dirs) of
              [] \<Rightarrow> None | p # _ \<Rightarrow> Some p)))"

section \<open>The snapshots\<close>

record Snapshot =
  snap_short_id :: "str option"
  snap_id :: str

record Restic =
  rc_snapshots :: "str \<Rightarrow> str \<Rightarrow> str + Snapshot list"
  rc_ls :: "str \<Rightarrow> str \<Rightarrow> str \<Rightarrow> str + str list"
  rc_dump :: "str \<Rightarrow> str \<Rightarrow> str \<Rightarrow> str \<Rightarrow> nat \<Rightarrow> str + str option"

definition DUMP_MAX_BYTES :: nat where
  "DUMP_MAX_BYTES = 26214400"

definition MAX_SNAPSHOT_ATTEMPTS :: nat where
  "MAX_SNAPSHOT_ATTEMPTS = 3"

definition snapshot_key :: "Snapshot \<Rightarrow> str" where
  "snapshot_key s = (case snap_short_id s of Some (c # cs) \<Rightarrow> c # cs | _ \<Rightarrow> take 8 (snap_id s))"

text \<open>The first dump with a byte in it; a dump that raises ends the search.\<close>

fun first_dump :: "(str \<Rightarrow> str \<Rightarrow> str + str option) \<Rightarrow> (str \<times> str) list \<Rightarrow> str + (str \<times> str) option" where
  "first_dump dump [] = Inr None"
| "first_dump dump ((sid, p) # rest) =
    (case dump sid p of
       Inl e \<Rightarrow> Inl e
     | Inr (Some (c # raw)) \<Rightarrow> Inr (Some (c # raw, sid))
     | Inr _ \<Rightarrow> first_dump dump rest)"

definition snapshot_ids :: "world \<Rightarrow> str \<Rightarrow> MailIndexMessage \<Rightarrow> str list" where
  "snapshot_ids w account_id r =
    map sn_snapshot_id (filter (\<lambda>s. sn_account_id s = account_id \<and> sn_message_id_hash s = mi_message_id_hash r)
      (snapshot_messages w))"

definition exact_names :: "Account \<Rightarrow> MailIndexMessage \<Rightarrow> str list" where
  "exact_names account r =
    map (\<lambda>d. path_join d (mi_maildir_filename r)) (message_dirs (a_maildir_path account) (mi_folder_path r))"

definition in_mail_dir :: "str \<Rightarrow> bool" where
  "in_mail_dir p = (sublist ''/cur/'' p \<or> sublist ''/new/'' p)"

definition snapshot_bytes :: "Restic \<Rightarrow> nat \<Rightarrow> world \<Rightarrow> Account \<Rightarrow> MailIndexMessage \<Rightarrow> (str \<times> str) option" where
  "snapshot_bytes rc max_bytes w account r =
    (case find (\<lambda>p. bp_account_id p = a_id account) (backup_policies w) of
       None \<Rightarrow> None
     | Some policy \<Rightarrow>
        let snap_ids = snapshot_ids w (a_id account) r;
            dest = bp_destination_id policy;
            dump = (\<lambda>sid p. rc_dump rc dest (a_id account) sid p max_bytes)
        in if snap_ids = [] then None
           else (case rc_snapshots rc dest (a_id account) of
              Inl e \<Rightarrow> None
            | Inr snaps \<Rightarrow>
               let matching = filter (\<lambda>sid. sid \<in> set snap_ids) (map snapshot_key snaps);
                   exact = concat (map (\<lambda>sid. map (Pair sid) (exact_names account r)) (take MAX_SNAPSHOT_ATTEMPTS matching))
               in (case first_dump dump exact of
                  Inl e \<Rightarrow> None
                | Inr (Some found) \<Rightarrow> Some found
                | Inr None \<Rightarrow>
                   (case matching of
                      [] \<Rightarrow> None
                    | sid # _ \<Rightarrow>
                       (case rc_ls rc dest (a_id account) sid of
                          Inl e \<Rightarrow> None
                        | Inr paths \<Rightarrow>
                           (case first_dump dump (map (Pair sid)
                               (filter (\<lambda>p. in_mail_dir p \<and> same_message (basename p) (mi_maildir_filename r)) paths)) of
                              Inl e \<Rightarrow> None | Inr found \<Rightarrow> found))))))"

text \<open>The source of a preview: the live file unless the row is deleted, else the snapshots.\<close>

definition preview_source ::
  "Restic \<Rightarrow> (path \<Rightarrow> bool) \<Rightarrow> world \<Rightarrow> fs \<Rightarrow> Account \<Rightarrow> MailIndexMessage \<Rightarrow> (str \<times> str) option"
where
  "preview_source rc unreadable w f account r =
    (let live = (if mi_deleted_at r \<noteq> None then None
           else Option.bind (locate_live_file f account r) (\<lambda>p. if unreadable p then None else file_at f p))
     in (case live of
           Some raw \<Rightarrow> Some (take DUMP_MAX_BYTES raw, ''live'')
         | None \<Rightarrow> map_option (\<lambda>(raw, sid). (raw, ''snapshot:'' @ sid)) (snapshot_bytes rc DUMP_MAX_BYTES w account r)))"

section \<open>The message that was asked for\<close>

lemma maildir_filename_prefix_idem [simp]:
  "maildir_filename_prefix (maildir_filename_prefix s) = maildir_filename_prefix s"
proof -
  have "before_flags (p @ '':2,'') = Some p" if "before_flags s = Some p" for p
    using that
  proof (induction s arbitrary: p)
    case (Cons c s)
    show ?case
    proof (cases "prefix '':2,'' (c # s)")
      case False
      then obtain q where q: "p = c # q" "before_flags s = Some q" using Cons.prems by auto
      have "\<not> prefix '':2,'' (c # q @ '':2,'')"
      proof
        assume a: "prefix '':2,'' (c # q @ '':2,'')"
        then have c: "c = CHR '':''" by simp
        with a have "prefix ''2,'' (q @ '':2,'')" by simp
        then obtain u where "q = CHR ''2'' # CHR '','' # u" by (cases q; cases "tl q") auto
        moreover have "prefix q s"
          using q(2) by (induction s arbitrary: q) (auto split: if_splits)
        ultimately show False using False c(1) by (auto simp: prefix_def)
      qed
      then show ?thesis using q Cons.IH [OF q(2)] by simp
    qed (use Cons.prems in simp)
  qed simp
  then show ?thesis by (auto simp: maildir_filename_prefix_def split: option.split)
qed

lemma same_message_sym: "same_message a b \<Longrightarrow> same_message b a"
  by (simp add: same_message_def)

lemma same_message_refl [simp]: "same_message a a"
  by (simp add: same_message_def)

definition message_files :: "fs \<Rightarrow> Account \<Rightarrow> MailIndexMessage \<Rightarrow> path set" where
  "message_files f account r =
    {d @ [n] | d n. d \<in> path_of ` set (message_dirs (a_maildir_path account) (mi_folder_path r))
       \<and> exists_path f (d @ [n]) \<and> same_message n (mi_maildir_filename r)}"

lemma locate_sound: "locate_live_file f account r = Some p \<Longrightarrow> p \<in> message_files f account r"
  unfolding locate_live_file_def Let_def
proof (split option.split_asm, goal_cases)
  case 2
  then show ?case by (fastforce simp: find_Some_iff message_files_def)
next
  case 1
  then obtain rest where "concat (map (renamed_files f (mi_maildir_filename r))
      (map path_of (message_dirs (a_maildir_path account) (mi_folder_path r)))) = p # rest"
    by (auto split: list.split_asm)
  then have "p \<in> set (concat (map (renamed_files f (mi_maildir_filename r))
      (map path_of (message_dirs (a_maildir_path account) (mi_folder_path r)))))" by simp
  then obtain d n where "d \<in> path_of ` set (message_dirs (a_maildir_path account) (mi_folder_path r))"
    "p = d @ [n]" "n \<in> set (listdir d f)" "same_message n (mi_maildir_filename r)"
    by (auto simp: renamed_files_def split: if_splits)
  then show ?case by (auto simp: message_files_def listdir_iff)
qed

lemma locate_complete:
  assumes "fs_ok f" "p \<in> message_files f account r" "length p > 1"
  shows "locate_live_file f account r \<noteq> None"
proof -
  obtain d n where p: "p = d @ [n]" "d \<in> path_of ` set (message_dirs (a_maildir_path account) (mi_folder_path r))"
    "exists_path f p" "same_message n (mi_maildir_filename r)"
    using assms(2) by (auto simp: message_files_def)
  obtain m where "(p, m) \<in> set f" using p(3) by (auto simp: exists_path_def)
  then have "is_dir f d" using fs_ok_parent [OF assms(1) _ assms(3)] p(1) by fastforce
  then have "p \<in> set (renamed_files f (mi_maildir_filename r) d)"
    using p by (auto simp: renamed_files_def listdir_iff)
  then have "concat (map (renamed_files f (mi_maildir_filename r))
      (map path_of (message_dirs (a_maildir_path account) (mi_folder_path r)))) \<noteq> []"
    using p(2) by force
  then show ?thesis by (auto simp: locate_live_file_def Let_def split: option.split list.split)
qed

lemma first_dump_sound:
  "first_dump dump qs = Inr (Some (raw, sid)) \<Longrightarrow>
    \<exists>p. (sid, p) \<in> set qs \<and> dump sid p = Inr (Some raw) \<and> raw \<noteq> []"
  by (induction dump qs rule: first_dump.induct) (auto split: sum.split_asm option.split_asm list.split_asm)

text \<open>A dump that shows message \<open>r\<close>: from a snapshot the index links to it, under its name or a renamed one.\<close>

definition dump_of :: "Restic \<Rightarrow> nat \<Rightarrow> world \<Rightarrow> Account \<Rightarrow> MailIndexMessage \<Rightarrow> str \<Rightarrow> str \<Rightarrow> bool" where
  "dump_of rc max_bytes w account r raw sid =
    (raw \<noteq> [] \<and> sid \<in> set (snapshot_ids w (a_id account) r)
     \<and> (\<exists>policy \<in> set (backup_policies w). \<exists>p. bp_account_id policy = a_id account
         \<and> rc_dump rc (bp_destination_id policy) (a_id account) sid p max_bytes = Inr (Some raw)
         \<and> (p \<in> set (exact_names account r) \<or> in_mail_dir p \<and> same_message (basename p) (mi_maildir_filename r))))"

lemma snapshot_bytes_sound:
  assumes "snapshot_bytes rc n w account r = Some (raw, sid)"
  shows "dump_of rc n w account r raw sid"
proof -
  from assms obtain policy snaps where pol: "find (\<lambda>p. bp_account_id p = a_id account) (backup_policies w) = Some policy"
    and snaps: "rc_snapshots rc (bp_destination_id policy) (a_id account) = Inr snaps"
    by (auto simp: snapshot_bytes_def Let_def split: option.split_asm if_split_asm sum.split_asm)
  have pol': "policy \<in> set (backup_policies w)" "bp_account_id policy = a_id account"
    using pol by (auto simp: find_Some_iff)
  define dump where "dump = (\<lambda>sid p. rc_dump rc (bp_destination_id policy) (a_id account) sid p n)"
  define matching where "matching = filter (\<lambda>sid. sid \<in> set (snapshot_ids w (a_id account) r)) (map snapshot_key snaps)"
  define exact where "exact = concat (map (\<lambda>sid. map (Pair sid) (exact_names account r)) (take MAX_SNAPSHOT_ATTEMPTS matching))"
  note parts = assms [unfolded snapshot_bytes_def Let_def pol snaps option.case sum.case, folded matching_def dump_def, folded exact_def]
  have done_by: "dump_of rc n w account r raw sid"
    if "first_dump dump qs = Inr (Some (raw, sid))"
      "\<And>s p. (s, p) \<in> set qs \<Longrightarrow> s \<in> set matching
        \<and> (p \<in> set (exact_names account r) \<or> in_mail_dir p \<and> same_message (basename p) (mi_maildir_filename r))" for qs
    using first_dump_sound [OF that(1)] that(2) pol' by (fastforce simp: dump_of_def dump_def matching_def)
  show ?thesis
  proof (cases "first_dump dump exact = Inr (Some (raw, sid))")
    case True
    then show ?thesis by (rule done_by) (auto simp: exact_def dest: in_set_takeD)
  next
    case False
    with parts obtain s rest paths where m: "matching = s # rest"
      and found: "first_dump dump (map (Pair s) (filter (\<lambda>p. in_mail_dir p
        \<and> same_message (basename p) (mi_maildir_filename r)) paths)) = Inr (Some (raw, sid))"
      by (auto split: if_split_asm sum.split_asm option.split_asm list.split_asm)
    show ?thesis using found by (rule done_by) (auto simp: m)
  qed
qed

text \<open>
  A preview shows the message that was asked for: the bytes are those of a file in the
  folder the index names, under the indexed name or one that differs in its flags only, while the
  row is alive; otherwise of such a file in a snapshot that the index links to this message.
\<close>

lemma preview_shows_the_message:
  assumes "preview_source rc unreadable w f account r = Some (raw, source)"
  shows "(source = ''live'' \<and> mi_deleted_at r = None
      \<and> (\<exists>p \<in> message_files f account r. map_option (take DUMP_MAX_BYTES) (file_at f p) = Some raw))
    \<or> (\<exists>sid. source = ''snapshot:'' @ sid \<and> dump_of rc DUMP_MAX_BYTES w account r raw sid)"
proof (cases "\<exists>p c. mi_deleted_at r = None \<and> locate_live_file f account r = Some p \<and> \<not> unreadable p \<and> file_at f p = Some c")
  case True
  then obtain p c where "mi_deleted_at r = None" "locate_live_file f account r = Some p" "\<not> unreadable p" "file_at f p = Some c"
    by blast
  then show ?thesis using assms locate_sound by (fastforce simp: preview_source_def)
next
  case False
  then have "(if mi_deleted_at r \<noteq> None then None
      else Option.bind (locate_live_file f account r) (\<lambda>p. if unreadable p then None else file_at f p)) = None"
    by (cases "locate_live_file f account r") auto
  then have "map_option (\<lambda>(raw, sid). (raw, ''snapshot:'' @ sid)) (snapshot_bytes rc DUMP_MAX_BYTES w account r) = Some (raw, source)"
    using assms by (simp add: preview_source_def)
  then show ?thesis using snapshot_bytes_sound by fastforce
qed

section \<open>Witness\<close>

definition indexed :: MailIndexMessage where
  "indexed = \<lparr> mi_account_id = ''a1'', mi_message_id_hash = ''h'', mi_message_id = ''m'', mi_date_sent = None,
     mi_from_addr = None, mi_from_name = None, mi_subject = None, mi_to_addrs = [], mi_cc_addrs = [], mi_bcc_addrs = [],
     mi_folder_path = ''INBOX'', mi_maildir_filename = ''1.M5.host:2,S'', mi_size_bytes = None, mi_first_seen_at = 0,
     mi_last_seen_at = 0, mi_deleted_at = None, mi_has_attachments = False, mi_attachments_indexed_at = None,
     mi_recipients_indexed_at = None \<rparr>"

definition mail_fs :: fs where
  "mail_fs = [([''m''], Dir), ([''m'', ''a1''], Dir), ([''m'', ''a1'', ''cur''], Dir),
     ([''m'', ''a1'', ''cur'', ''1.M5.host:2,RS''], File ''hello'')]"

definition no_restic :: Restic where
  "no_restic = \<lparr> rc_snapshots = \<lambda>_ _. Inl [], rc_ls = \<lambda>_ _ _. Inl [], rc_dump = \<lambda>_ _ _ _ _. Inl [] \<rparr>"

end
