(* ===== verification/Restore_Jobs.thy ===== *)
theory Restore_Jobs
  imports Sync_Jobs Access
begin

text \<open>
  Restore jobs: \<open>services/restore_service.py\<close>, the cancel flags and the queue of
  \<open>services/restore_worker.py\<close>, and the cancel endpoint of \<open>routers/restore.py\<close>. A job is refused
  while another one for the same pair of mailboxes is live, and also when a mailbox cannot take
  part; so the table is a \<open>guarded_table\<close> and no \<open>dedup_queue\<close>.
\<close>

definition new_restore_job ::
  "str \<Rightarrow> datetime \<Rightarrow> str \<Rightarrow> str \<Rightarrow> RestoreMode \<Rightarrow> str \<Rightarrow> str \<Rightarrow> bool \<Rightarrow> str list option
   \<Rightarrow> (str \<times> str list) list option \<Rightarrow> RestoreJob"
where
  "new_restore_job i now source target mode user folder_mapping skip_duplicates folders uids =
    \<lparr> rj_id = i, rj_source_account_id = source, rj_target_account_id = target, rj_status = pending,
      rj_restore_mode = mode, rj_folder_mapping = folder_mapping, rj_skip_duplicates = skip_duplicates,
      rj_selected_folders = folders, rj_selected_uids = uids, rj_total_messages = 0,
      rj_restored_messages = 0, rj_skipped_messages = 0, rj_failed_messages = 0, rj_error = None,
      rj_requested_by = user, rj_requested_at = now, rj_started_at = None, rj_completed_at = None \<rparr>"

lemma new_restore_job_simps [simp]:
  "rj_id (new_restore_job i t s g m u fm sd fs us) = i"
  "rj_source_account_id (new_restore_job i t s g m u fm sd fs us) = s"
  "rj_target_account_id (new_restore_job i t s g m u fm sd fs us) = g"
  "rj_status (new_restore_job i t s g m u fm sd fs us) = pending"
  "rj_restore_mode (new_restore_job i t s g m u fm sd fs us) = m"
  "rj_selected_uids (new_restore_job i t s g m u fm sd fs us) = us"
  "rj_skip_duplicates (new_restore_job i t s g m u fm sd fs us) = sd"
  "rj_requested_by (new_restore_job i t s g m u fm sd fs us) = u"
  by (simp_all add: new_restore_job_def)

abbreviation get_restore_job :: "world \<Rightarrow> str \<Rightarrow> RestoreJob option" where
  "get_restore_job w \<equiv> row rj_id (restore_jobs w)"

definition upd_restore_job :: "str \<Rightarrow> (RestoreJob \<Rightarrow> RestoreJob) \<Rightarrow> world \<Rightarrow> world" where
  "upd_restore_job k f w = w\<lparr>restore_jobs := set_row rj_id k f (restore_jobs w)\<rparr>"

definition job_pair :: "RestoreJob \<Rightarrow> str \<times> str" where
  "job_pair j = (rj_source_account_id j, rj_target_account_id j)"

section \<open>Creation and lookup\<close>

definition create_restore_job :: "RestoreJob \<Rightarrow> world \<Rightarrow> RestoreJob option \<times> world" where
  "create_restore_job job w =
    (case (get_account w (rj_source_account_id job), get_account w (rj_target_account_id job)) of
       (Some source, Some target) \<Rightarrow>
         if a_suspended source \<or> a_migrating source then (None, w)
         else if a_suspended target \<or> a_migrating target then (None, w)
         else if \<not> truthy (a_credentials target) then (None, w)
         else (case find (\<lambda>j. job_pair j = job_pair job \<and> active (rj_status j)) (restore_jobs w) of
             Some existing \<Rightarrow> (None, w)
           | None \<Rightarrow> (Some job, w\<lparr>restore_jobs := restore_jobs w @ [job]\<rparr>))
     | _ \<Rightarrow> (None, w))"

definition list_restore_jobs :: "world \<Rightarrow> str \<Rightarrow> nat \<Rightarrow> RestoreJob list" where
  "list_restore_jobs w account_id limit =
    take limit (newest_first rj_requested_at
      (filter (\<lambda>j. rj_source_account_id j = account_id \<or> rj_target_account_id j = account_id) (restore_jobs w)))"

definition list_restore_jobs_for_user :: "world \<Rightarrow> str \<Rightarrow> nat \<Rightarrow> RestoreJob list" where
  "list_restore_jobs_for_user w user_id limit =
    take limit (newest_first rj_requested_at (filter (\<lambda>j. rj_requested_by j = user_id) (restore_jobs w)))"

definition list_all_restore_jobs :: "world \<Rightarrow> nat \<Rightarrow> RestoreJob list" where
  "list_all_restore_jobs w limit = take limit (newest_first rj_requested_at (restore_jobs w))"

section \<open>Cancellation\<close>

definition cancel_restore_job :: "str \<Rightarrow> world \<Rightarrow> bool \<times> world" where
  "cancel_restore_job job_id w =
    (case get_restore_job w job_id of
       None \<Rightarrow> (False, w)
     | Some job \<Rightarrow>
        if \<not> active (rj_status job) then (False, w)
        else (True, upd_restore_job job_id
          (\<lambda>j. j\<lparr>rj_status := cancelled, rj_error := Some ''Cancelled by user''\<rparr>) w))"

definition request_cancel :: "str \<Rightarrow> world \<Rightarrow> world" where
  "request_cancel job_id w = w\<lparr>restore_cancel_flags := insert job_id (restore_cancel_flags w)\<rparr>"

text \<open>The endpoint: the requester, an administrator, or whoever sees the source mailbox.\<close>

definition cancel_restore :: "User \<Rightarrow> str \<Rightarrow> world \<Rightarrow> (http_error + str) \<times> world" where
  "cancel_restore user job_id w =
    (let not_found = Inl (HTTPException 404 ''Restore job not found'')
     in (case get_restore_job w job_id of
           None \<Rightarrow> (not_found, w)
         | Some job \<Rightarrow>
            if rj_requested_by job \<noteq> u_id user \<and> u_role user \<noteq> Role_admin
               \<and> get_account_for w (rj_source_account_id job) user = None
            then (not_found, w)
            else (let (ok, w) = cancel_restore_job job_id (request_cancel job_id w)
                  in (if ok then Inr job_id else Inl (HTTPException 409 ''Job cannot be cancelled''), w))))"

definition submit_restore_job :: "str \<Rightarrow> world \<Rightarrow> world" where
  "submit_restore_job job_id w = w\<lparr>restore_queue := restore_queue w @ [job_id]\<rparr>"

section \<open>One live job per pair\<close>

interpretation restore_q: guarded_table restore_jobs job_pair "\<lambda>j. active (rj_status j)" "\<lambda>j. j" create_restore_job
  by standard (auto simp: create_restore_job_def find_None_iff split: option.split)

lemma create_restore_job_cases:
  "create_restore_job job w = (None, w)
   \<or> (create_restore_job job w = (Some job, w\<lparr>restore_jobs := restore_jobs w @ [job]\<rparr>)
      \<and> (\<exists>s t. get_account w (rj_source_account_id job) = Some s \<and> get_account w (rj_target_account_id job) = Some t
          \<and> \<not> a_suspended s \<and> \<not> a_suspended t \<and> \<not> a_migrating s \<and> \<not> a_migrating t \<and> truthy (a_credentials t))
      \<and> (\<forall>j \<in> set (restore_jobs w). \<not> (job_pair j = job_pair job \<and> active (rj_status j))))"
  by (auto simp: create_restore_job_def find_None_iff split: option.split)

lemma cancel_restore_job_frame [simp]:
  "accounts (snd (cancel_restore_job k w)) = accounts w"
  "users (snd (cancel_restore_job k w)) = users w"
  by (simp_all add: cancel_restore_job_def upd_restore_job_def split: option.split)

end
