(* ===== verification/Staging.thy ===== *)
theory Staging
  imports Stores Preview Restore_Jobs
begin

text \<open>
  \<open>services/staging_service.py\<close>: the staging mailbox of a user, its rows, quota and expiry. Files
  are in the file system of \<open>Files\<close>, rows in the world. Tokens and ids are functions of the
  position in the batch; the errors of the operating system are arguments. Two requests that race
  for the first area of a user (the unique constraint and its recovery) are not modelled.
\<close>

definition STAGING_MAILBOX :: str where
  "STAGING_MAILBOX = ''MFB-Staging''"

definition STAGING_DUMP_MAX_BYTES :: nat where
  "STAGING_DUMP_MAX_BYTES = 104857600"

datatype staging_error = Not_accessible str | Quota_exceeded str | Value_error str | Os_error str

record staging_env =
  se_now :: datetime
  se_ttl_minutes :: int
  se_max_bytes :: nat
  se_rename_error :: "str option"
  se_write_error :: "str \<Rightarrow> bool"
  se_unreadable :: "path \<Rightarrow> bool"
  se_restic :: Restic
  se_token :: "nat \<Rightarrow> str"
  se_row_id :: "nat \<Rightarrow> str"
  se_area_id :: str
  se_hash_hex :: "str \<Rightarrow> str"

section \<open>The staging mailbox on disk\<close>

text \<open>\<open>user.store\<close> exists: \<open>users.store_id\<close> is a foreign key.\<close>

definition home_root :: "world \<Rightarrow> User \<Rightarrow> str" where
  "home_root w user = (case user_home w user of Some h \<Rightarrow> h | None \<Rightarrow> [])"

definition staging_dir :: "str \<Rightarrow> str" where
  "staging_dir home = home @ ''/root-inbox/'' @ STAGING_MAILBOX"

definition pre_rename_staging_dir :: "str \<Rightarrow> str" where
  "pre_rename_staging_dir home = home @ ''/root-inbox/Staging''"

definition legacy_staging_dir :: "str \<Rightarrow> str" where
  "legacy_staging_dir home = home @ ''/staging''"

definition adopt_pre_rename :: "str option \<Rightarrow> str \<Rightarrow> fs \<Rightarrow> str + fs" where
  "adopt_pre_rename err home f =
    (let current = path_of (staging_dir home); previous = path_of (pre_rename_staging_dir home);
         refuse = (\<lambda>e. Inl (''Could not adopt '' @ pre_rename_staging_dir home @ '' -> '' @ staging_dir home @ '': '' @ e))
     in if is_dir f current \<or> \<not> is_dir f previous then Inr f
        else (case err of
           Some e \<Rightarrow> refuse e
         | None \<Rightarrow> if exists_path f current then refuse ''NotADirectoryError'' else Inr (move previous current f)))"

fun ensure_dirs :: "path list \<Rightarrow> fs \<Rightarrow> str option \<times> fs" where
  "ensure_dirs [] f = (None, f)"
| "ensure_dirs (p # ps) f = (case make_dirs p f of Inl e \<Rightarrow> (Some e, f) | Inr g \<Rightarrow> ensure_dirs ps g)"

definition mail_subs :: "path \<Rightarrow> path list" where
  "mail_subs p = [p @ [''cur''], p @ [''new''], p @ [''tmp'']]"

definition ensure_staging_dir :: "str option \<Rightarrow> str \<Rightarrow> fs \<Rightarrow> str option \<times> fs" where
  "ensure_staging_dir err home f =
    (case adopt_pre_rename err home f of
       Inl e \<Rightarrow> (Some e, f)
     | Inr g \<Rightarrow> ensure_dirs (mail_subs (path_of (staging_dir home))) g)"

definition remove_staging_dir :: "str \<Rightarrow> fs \<Rightarrow> fs" where
  "remove_staging_dir home f =
    fold (\<lambda>d f. if is_dir f d then rmtree d f else f)
      (map path_of [staging_dir home, pre_rename_staging_dir home, legacy_staging_dir home]) f"

text \<open>The dictionary of the files on disk by their stable name; the last one of a name wins.\<close>

definition on_disk :: "str \<Rightarrow> fs \<Rightarrow> str \<Rightarrow> str option" where
  "on_disk home f =
    (let sdir = path_of (staging_dir home)
     in map_of (rev (map (\<lambda>n. (maildir_filename_prefix n, n))
          (concat (map (\<lambda>d. if is_dir f d then listdir d f else []) [sdir @ [''cur''], sdir @ [''new'']])))))"

section \<open>Areas and rows\<close>

definition get_area :: "world \<Rightarrow> User \<Rightarrow> StagingArea option" where
  "get_area w user = find (\<lambda>a. sa_user_id a = u_id user) (staging_areas w)"

definition is_expired :: "datetime \<Rightarrow> StagingArea \<Rightarrow> bool" where
  "is_expired now area = (sa_expires_at area \<le> now)"

definition live_area :: "datetime \<Rightarrow> world \<Rightarrow> User \<Rightarrow> StagingArea option" where
  "live_area now w user = (case get_area w user of
     Some a \<Rightarrow> if is_expired now a then None else Some a | None \<Rightarrow> None)"

definition area_rows :: "world \<Rightarrow> str \<Rightarrow> StagingMessage list" where
  "area_rows w area_id = filter (\<lambda>m. sg_staging_id m = area_id) (staging_messages w)"

definition drop_area :: "str \<Rightarrow> world \<Rightarrow> world" where
  "drop_area area_id w =
    w\<lparr>staging_areas := filter (\<lambda>a. sa_id a \<noteq> area_id) (staging_areas w),
      staging_messages := filter (\<lambda>m. sg_staging_id m \<noteq> area_id) (staging_messages w)\<rparr>"

definition set_bytes_used :: "str \<Rightarrow> (nat \<Rightarrow> nat) \<Rightarrow> world \<Rightarrow> world" where
  "set_bytes_used area_id g w =
    w\<lparr>staging_areas := set_row sa_id area_id (\<lambda>a. a\<lparr>sa_bytes_used := g (sa_bytes_used a)\<rparr>) (staging_areas w)\<rparr>"

definition found_file :: "(str \<Rightarrow> str option) \<Rightarrow> StagingMessage \<Rightarrow> str option" where
  "found_file disk m = disk (maildir_filename_prefix (sg_staged_filename m))"

definition reconcile_row :: "(str \<Rightarrow> str option) \<Rightarrow> str \<Rightarrow> StagingMessage \<Rightarrow> StagingMessage list" where
  "reconcile_row disk area_id m =
    (if sg_staging_id m \<noteq> area_id then [m]
     else (case found_file disk m of None \<Rightarrow> [] | Some actual \<Rightarrow> [m\<lparr>sg_staged_filename := actual\<rparr>]))"

definition reconcile :: "str option \<Rightarrow> User \<Rightarrow> StagingArea \<Rightarrow> disk_world \<Rightarrow> nat \<times> disk_world" where
  "reconcile err user area dw =
    (case dw of (w, f) \<Rightarrow>
      (case adopt_pre_rename err (home_root w user) f of
         Inl e \<Rightarrow> (0, w, f)
       | Inr g \<Rightarrow>
          let disk = on_disk (home_root w user) g;
              mine = area_rows w (sa_id area);
              kept = filter (\<lambda>m. found_file disk m \<noteq> None) mine;
              w = w\<lparr>staging_messages := concat (map (reconcile_row disk (sa_id area)) (staging_messages w))\<rparr>
          in (length mine - length kept, set_bytes_used (sa_id area) (\<lambda>_. sum_list (map sg_size_bytes kept)) w, g)))"

record StagingStatus =
  sts_exists :: bool
  sts_count :: nat
  sts_bytes_used :: nat
  sts_expires_at :: "datetime option"
  sts_max_bytes :: nat

definition get_status :: "staging_env \<Rightarrow> User \<Rightarrow> disk_world \<Rightarrow> StagingStatus \<times> disk_world" where
  "get_status env user dw =
    (case live_area (se_now env) (fst dw) user of
       None \<Rightarrow> (\<lparr> sts_exists = False, sts_count = 0, sts_bytes_used = 0, sts_expires_at = None,
                  sts_max_bytes = se_max_bytes env \<rparr>, dw)
     | Some area \<Rightarrow>
        let (dropped, w, f) = reconcile (se_rename_error env) user area dw;
            used = (case row sa_id (staging_areas w) (sa_id area) of Some a \<Rightarrow> sa_bytes_used a | None \<Rightarrow> 0)
        in (\<lparr> sts_exists = True, sts_count = length (area_rows w (sa_id area)), sts_bytes_used = used,
              sts_expires_at = Some (sa_expires_at area), sts_max_bytes = sa_max_bytes area \<rparr>, w, f))"

definition get_or_create_area :: "staging_env \<Rightarrow> User \<Rightarrow> disk_world \<Rightarrow> StagingArea \<times> disk_world" where
  "get_or_create_area env user dw =
    (case dw of (w, f) \<Rightarrow>
      (case live_area (se_now env) w user of
         Some area \<Rightarrow> (area, w, f)
       | None \<Rightarrow>
          let (w, f) = (case get_area w user of
                None \<Rightarrow> (w, f)
              | Some dead \<Rightarrow> (drop_area (sa_id dead) w, remove_staging_dir (home_root w user) f));
              area = \<lparr> sa_id = se_area_id env, sa_user_id = u_id user, sa_created_at = se_now env,
                sa_expires_at = se_now env + minutes (se_ttl_minutes env), sa_max_bytes = se_max_bytes env, sa_bytes_used = 0 \<rparr>
          in (area, w\<lparr>staging_areas := staging_areas w @ [area]\<rparr>, f)))"

section \<open>Adding messages\<close>

definition message_bytes :: "staging_env \<Rightarrow> disk_world \<Rightarrow> Account \<Rightarrow> MailIndexMessage \<Rightarrow> str option" where
  "message_bytes env dw account r =
    (let live = (if mi_deleted_at r \<noteq> None then None
           else Option.bind (locate_live_file (snd dw) account r)
             (\<lambda>p. if se_unreadable env p then None else file_at (snd dw) p))
     in (case live of
           Some raw \<Rightarrow> Some raw
         | None \<Rightarrow> (case snapshot_bytes (se_restic env) STAGING_DUMP_MAX_BYTES (fst dw) account r of
              None \<Rightarrow> None
            | Some (raw, sid) \<Rightarrow> if STAGING_DUMP_MAX_BYTES \<le> length raw then None else Some raw)))"

type_synonym to_stage = "(Account \<times> MailIndexMessage \<times> str) list"

definition get_indexed :: "world \<Rightarrow> str \<Rightarrow> str \<Rightarrow> MailIndexMessage option" where
  "get_indexed w account_id h =
    find (\<lambda>r. mi_account_id r = account_id \<and> mi_message_id_hash r = h) (index_messages w)"

fun resolve_items ::
  "(str \<Rightarrow> bool) \<Rightarrow> (Account \<Rightarrow> MailIndexMessage \<Rightarrow> str option) \<Rightarrow> world \<Rightarrow> (str \<times> str) list \<Rightarrow> (str \<times> str) list
   \<Rightarrow> staging_error + nat \<times> to_stage"
where
  "resolve_items allowed bytes w existing [] = Inr (0, [])"
| "resolve_items allowed bytes w existing ((account_id, h) # items) =
    (if \<not> allowed account_id then Inl (Not_accessible (''Account '' @ account_id @ '' not accessible''))
     else if (account_id, h) \<in> set existing then resolve_items allowed bytes w existing items
     else (case (get_account w account_id, get_indexed w account_id h) of
        (Some account, Some r) \<Rightarrow>
          (case bytes account r of
             None \<Rightarrow> map_sum id (map_prod Suc id) (resolve_items allowed bytes w existing items)
           | Some raw \<Rightarrow> map_sum id (map_prod id (Cons (account, r, raw)))
               (resolve_items allowed bytes w ((account_id, h) # existing) items))
      | _ \<Rightarrow> map_sum id (map_prod Suc id) (resolve_items allowed bytes w existing items)))"

definition staged_name :: "staging_env \<Rightarrow> nat \<Rightarrow> MailIndexMessage \<Rightarrow> str" where
  "staged_name env n r =
    show_int (se_now env div seconds 1) @ ''.'' @ se_token env n @ ''.''
    @ take 12 (se_hash_hex env (mi_message_id_hash r)) @ '':2,''"

definition put_file :: "path \<Rightarrow> str \<Rightarrow> fs \<Rightarrow> fs" where
  "put_file p c f = remove_file p f @ [(p, File c)]"

definition new_staging_message :: "staging_env \<Rightarrow> str \<Rightarrow> nat \<Rightarrow> Account \<Rightarrow> MailIndexMessage \<Rightarrow> str \<Rightarrow> StagingMessage" where
  "new_staging_message env area_id n account r raw =
    \<lparr> sg_id = se_row_id env n, sg_staging_id = area_id, sg_source_account_id = a_id account,
      sg_message_id_hash = mi_message_id_hash r, sg_original_folder = original_folder_name (mi_folder_path r),
      sg_staged_filename = staged_name env n r, sg_size_bytes = length raw, sg_staged_at = se_now env \<rparr>"

text \<open>The copies: what was staged and what failed, rows and bytes following the files.\<close>

fun stage_files :: "staging_env \<Rightarrow> str \<Rightarrow> path \<Rightarrow> nat \<Rightarrow> to_stage \<Rightarrow> disk_world \<Rightarrow> nat \<times> nat \<times> disk_world" where
  "stage_files env area_id sdir n [] dw = (0, 0, dw)"
| "stage_files env area_id sdir n ((account, r, raw) # rest) (w, f) =
    (let fname = staged_name env n r
     in if se_write_error env fname then
          (let (staged, errors, dw) = stage_files env area_id sdir (Suc n) rest (w, f) in (staged, Suc errors, dw))
        else
          (let f = put_file (sdir @ [''cur'', fname]) raw f;
               w = set_bytes_used area_id (\<lambda>b. b + length raw)
                 (w\<lparr>staging_messages := staging_messages w @ [new_staging_message env area_id n account r raw]\<rparr>);
               (staged, errors, dw) = stage_files env area_id sdir (Suc n) rest (w, f)
           in (Suc staged, errors, dw)))"

definition message_key :: "StagingMessage \<Rightarrow> str \<times> str" where
  "message_key m = (sg_source_account_id m, sg_message_id_hash m)"

definition add_messages ::
  "staging_env \<Rightarrow> bool \<Rightarrow> User \<Rightarrow> (str \<times> str) list \<Rightarrow> disk_world
   \<Rightarrow> (staging_error + nat \<times> nat \<times> nat) \<times> disk_world"
where
  "add_messages env include_all user items dw =
    (let visible = accessible_account_ids (fst dw) user;
         allowed = (\<lambda>a. a \<in> set visible \<or> (include_all \<and> u_role user = Role_admin));
         area = live_area (se_now env) (fst dw) user;
         (w, f) = (case area of None \<Rightarrow> dw | Some a \<Rightarrow> snd (reconcile (se_rename_error env) user a dw));
         existing = (case area of None \<Rightarrow> [] | Some a \<Rightarrow> map message_key (area_rows w (sa_id a)))
     in (case resolve_items allowed (message_bytes env (w, f)) w existing items of
           Inl e \<Rightarrow> (Inl e, w, f)
         | Inr (unresolved, staging) \<Rightarrow>
            let incoming = sum_list (map (\<lambda>(a, r, raw). length raw) staging);
                used = (case Option.bind area (\<lambda>a. row sa_id (staging_areas w) (sa_id a)) of
                  Some a \<Rightarrow> sa_bytes_used a | None \<Rightarrow> 0);
                limit = (case area of Some a \<Rightarrow> sa_max_bytes a | None \<Rightarrow> se_max_bytes env)
            in if limit \<noteq> 0 \<and> limit < used + incoming
               then (Inl (Quota_exceeded (''Staging quota exceeded: '' @ show_nat (used + incoming) @ '' > ''
                  @ show_nat limit @ '' bytes'')), w, f)
               else if staging = [] then (Inr (0, length items - unresolved, unresolved), w, f)
               else
                 let (area, w1, f1) = get_or_create_area env user (w, f);
                     home = home_root w user
                 in (case ensure_staging_dir (se_rename_error env) home f1 of
                       (Some e, f2) \<Rightarrow> (Inl (Os_error e), w, f2)
                     | (None, f2) \<Rightarrow>
                        let (staged, errors, dw) = stage_files env (sa_id area) (path_of (staging_dir home)) 0 staging (w1, f2)
                        in (Inr (staged, length items - staged - (unresolved + errors), unresolved + errors), dw))))"

section \<open>Pushing, emptying, expiry\<close>

text \<open>\<open>d.setdefault(k, z)\<close> followed by an update of that entry, on a dictionary in insertion order.\<close>

definition update_at :: "'k \<Rightarrow> 'v \<Rightarrow> ('v \<Rightarrow> 'v) \<Rightarrow> ('k \<times> 'v) list \<Rightarrow> ('k \<times> 'v) list" where
  "update_at k z g d =
    (if k \<in> fst ` set d then map (\<lambda>(k', v). (k', if k' = k then g v else v)) d else d @ [(k, g z)])"

definition push_folder :: "datetime \<Rightarrow> str \<Rightarrow> str option \<Rightarrow> StagingMessage \<Rightarrow> str" where
  "push_folder now folder_mode custom_folder m =
    (if folder_mode = ''original'' then sg_original_folder m
     else if folder_mode = ''custom'' then (case custom_folder of Some c \<Rightarrow> c | None \<Rightarrow> [])
     else ''Restored/'' @ date_text now)"

definition push_target :: "str \<Rightarrow> StagingMessage \<Rightarrow> str" where
  "push_target destination m = (if destination = ''origin'' then sg_source_account_id m else destination)"

definition by_target ::
  "(StagingMessage \<Rightarrow> str) \<Rightarrow> (StagingMessage \<Rightarrow> str) \<Rightarrow> StagingMessage list \<Rightarrow> (str \<times> (str \<times> str list) list) list"
where
  "by_target target folder rows =
    fold (\<lambda>m. update_at (target m) [] (update_at (folder m) [] (\<lambda>l. l @ [sg_staged_filename m]))) rows []"

fun push_each ::
  "(nat \<Rightarrow> str) \<Rightarrow> datetime \<Rightarrow> User \<Rightarrow> nat \<Rightarrow> (str \<times> (str \<times> str list) list) list \<Rightarrow> world
   \<Rightarrow> str list \<times> str list \<times> world"
where
  "push_each ids now user n [] w = ([], [], w)"
| "push_each ids now user n ((target_id, manifest) # rest) w =
    (case create_restore_job (new_restore_job (ids n) now target_id target_id RM_staging_push (u_id user)
         ''original'' True None (Some manifest)) w of
       (None, w) \<Rightarrow> (let (jobs, skipped, w) = push_each ids now user (Suc n) rest w in (jobs, target_id # skipped, w))
     | (Some job, w) \<Rightarrow>
        let (jobs, skipped, w) = push_each ids now user (Suc n) rest (submit_restore_job (rj_id job) w)
        in (rj_id job # jobs, skipped, w))"

definition push ::
  "staging_env \<Rightarrow> (nat \<Rightarrow> str) \<Rightarrow> User \<Rightarrow> str \<Rightarrow> str \<Rightarrow> str option \<Rightarrow> disk_world
   \<Rightarrow> (staging_error + str list \<times> str list) \<times> disk_world"
where
  "push env ids user destination folder_mode custom_folder dw =
    (if folder_mode = ''custom'' \<and> (custom_folder = None \<or> strip (the custom_folder) = [])
     then (Inl (Value_error ''custom folder_mode requires a custom_folder''), dw)
     else (case live_area (se_now env) (fst dw) user of
        None \<Rightarrow> (Inr ([], []), dw)
      | Some area \<Rightarrow>
         let (dropped, w, f) = reconcile (se_rename_error env) user area dw;
             rows = area_rows w (sa_id area)
         in if rows = [] then (Inr ([], []), w, f)
            else let (jobs, skipped, w) = push_each ids (se_now env) user 0
                  (by_target (push_target destination) (push_folder (se_now env) folder_mode custom_folder) rows) w
              in (Inr (jobs, skipped), w, f)))"

definition empty_staging :: "User \<Rightarrow> disk_world \<Rightarrow> disk_world" where
  "empty_staging user dw =
    ((case get_area (fst dw) user of None \<Rightarrow> fst dw | Some area \<Rightarrow> drop_area (sa_id area) (fst dw)),
     remove_staging_dir (home_root (fst dw) user) (snd dw))"

definition purge_area :: "StagingArea \<Rightarrow> disk_world \<Rightarrow> disk_world" where
  "purge_area area dw =
    (drop_area (sa_id area) (fst dw),
     (case get_user (fst dw) (sa_user_id area) of
        None \<Rightarrow> snd dw | Some user \<Rightarrow> remove_staging_dir (home_root (fst dw) user) (snd dw)))"

definition cleanup_expired :: "datetime \<Rightarrow> disk_world \<Rightarrow> nat \<times> disk_world" where
  "cleanup_expired now dw =
    (let expired = filter (is_expired now) (staging_areas (fst dw))
     in (length expired, fold purge_area expired dw))"

section \<open>What reconciling does\<close>

lemma reconcile_row_other: "sg_staging_id m \<noteq> k \<Longrightarrow> reconcile_row disk k m = [m]"
  by (simp add: reconcile_row_def)

lemma reconcile_row_own:
  "sg_staging_id m = k \<Longrightarrow> reconcile_row disk k m
    = (case found_file disk m of None \<Rightarrow> [] | Some actual \<Rightarrow> [m\<lparr>sg_staged_filename := actual\<rparr>])"
  by (simp add: reconcile_row_def)

lemma filter_one_row:
  "filter (\<lambda>m. sg_staging_id m = k') (reconcile_row disk k m)
    = (if k' = k \<or> sg_staging_id m \<noteq> k then (if sg_staging_id m = k' then reconcile_row disk k m else []) else [])"
  by (auto simp: reconcile_row_def split: option.split)

lemma reconcile_rows_map:
  assumes g: "\<And>m n. g (m\<lparr>sg_staged_filename := n\<rparr>) = g m" and ms: "\<forall>m \<in> set ms. sg_staging_id m = k"
  shows "map g (concat (map (reconcile_row disk k) ms)) = map g (filter (\<lambda>m. found_file disk m \<noteq> None) ms)"
proof -
  have "map g (reconcile_row disk k m) = (if found_file disk m \<noteq> None then [g m] else [])" if "sg_staging_id m = k" for m
    using that g by (cases "found_file disk m") (simp_all add: reconcile_row_own)
  then show ?thesis using ms by (induction ms) simp_all
qed

lemma filter_reconcile_row:
  "filter (\<lambda>m. sg_staging_id m = k') (concat (map (reconcile_row disk k) ms))
    = (if k' = k then concat (map (reconcile_row disk k) (filter (\<lambda>m. sg_staging_id m = k) ms))
       else filter (\<lambda>m. sg_staging_id m = k') ms)"
  by (induction ms) (simp_all add: filter_one_row reconcile_row_other)

definition kept_rows :: "(str \<Rightarrow> str option) \<Rightarrow> world \<Rightarrow> str \<Rightarrow> StagingMessage list" where
  "kept_rows disk w k = filter (\<lambda>m. found_file disk m \<noteq> None) (area_rows w k)"

lemma area_rows_in: "m \<in> set (area_rows w k) \<Longrightarrow> sg_staging_id m = k"
  by (simp add: area_rows_def)

text \<open>The outcomes of \<open>reconcile\<close>: nothing, or the rows whose file is there, with their sizes booked.\<close>

lemma reconcile_cases:
  assumes "reconcile err user area (w, f) = (n, w', f')"
  obtains (refused) e where "adopt_pre_rename err (home_root w user) f = Inl e" "n = 0" "w' = w" "f' = f"
  | (booked) disk where "adopt_pre_rename err (home_root w user) f = Inr f'" "disk = on_disk (home_root w user) f'"
      "n + length (kept_rows disk w (sa_id area)) = length (area_rows w (sa_id area))"
      "w' = set_bytes_used (sa_id area) (\<lambda>_. sum_list (map sg_size_bytes (kept_rows disk w (sa_id area))))
        (w\<lparr>staging_messages := concat (map (reconcile_row disk (sa_id area)) (staging_messages w))\<rparr>)"
proof (cases "adopt_pre_rename err (home_root w user) f")
  case (Inl e)
  show ?thesis
    using assms Inl by (intro refused [OF Inl]) (simp_all add: reconcile_def)
next
  case (Inr g)
  define disk where "disk = on_disk (home_root w user) g"
  have "length (kept_rows disk w (sa_id area)) \<le> length (area_rows w (sa_id area))"
    by (simp add: kept_rows_def)
  moreover have "(n, w', f') = (length (area_rows w (sa_id area)) - length (kept_rows disk w (sa_id area)),
      set_bytes_used (sa_id area) (\<lambda>_. sum_list (map sg_size_bytes (kept_rows disk w (sa_id area))))
        (w\<lparr>staging_messages := concat (map (reconcile_row disk (sa_id area)) (staging_messages w))\<rparr>), g)"
    unfolding assms [symmetric] by (simp only: reconcile_def Let_def prod.case Inr sum.case disk_def kept_rows_def)
  ultimately show ?thesis using Inr by (intro booked [of disk]) (simp_all add: disk_def)
qed

lemma set_bytes_used_ids [simp]: "map sa_id (staging_areas (set_bytes_used k g w)) = map sa_id (staging_areas w)"
  by (simp add: set_bytes_used_def map_set_row)

lemma set_bytes_used_tables [simp]:
  "staging_messages (set_bytes_used k g w) = staging_messages w"
  "users (set_bytes_used k g w) = users w" "accounts (set_bytes_used k g w) = accounts w"
  "mail_stores (set_bytes_used k g w) = mail_stores w" "restore_jobs (set_bytes_used k g w) = restore_jobs w"
  "pk sa_id (staging_areas (set_bytes_used k g w)) = pk sa_id (staging_areas w)"
  "area_rows (set_bytes_used k g w) i = area_rows w i"
  unfolding pk_def set_bytes_used_ids by (simp_all add: set_bytes_used_def area_rows_def)

lemma set_bytes_used_id_set [simp]:
  "sa_id ` set (staging_areas (set_bytes_used k g w)) = sa_id ` set (staging_areas w)"
  by (metis set_bytes_used_ids set_map)

lemma area_rows_update:
  "area_rows (w\<lparr>staging_messages := ms\<rparr>) k = filter (\<lambda>m. sg_staging_id m = k) ms"
  by (simp add: area_rows_def)

section \<open>The books of the staging areas\<close>

text \<open>
  The rows of an area never count more bytes than are booked, the books stay within the quota,
  and a message is staged once. (Deleting a mailbox drops rows without booking them out, so the
  books may say more than there is until the next reconcile.)
\<close>

definition area_ok :: "world \<Rightarrow> StagingArea \<Rightarrow> bool" where
  "area_ok w a =
    (sum_list (map sg_size_bytes (area_rows w (sa_id a))) \<le> sa_bytes_used a
     \<and> (sa_max_bytes a \<noteq> 0 \<longrightarrow> sa_bytes_used a \<le> sa_max_bytes a)
     \<and> distinct (map message_key (area_rows w (sa_id a))))"

definition staging_ok :: "world \<Rightarrow> bool" where
  "staging_ok w =
    (pk sa_id (staging_areas w) \<and> sg_staging_id ` set (staging_messages w) \<subseteq> sa_id ` set (staging_areas w)
     \<and> (\<forall>a \<in> set (staging_areas w). area_ok w a))"

lemma staging_okD:
  assumes "staging_ok w"
  shows "pk sa_id (staging_areas w)" "a \<in> set (staging_areas w) \<Longrightarrow> area_ok w a"
    "k \<notin> sa_id ` set (staging_areas w) \<Longrightarrow> area_rows w k = []"
  using assms by (auto simp: staging_ok_def area_rows_def filter_empty_conv image_subset_iff)

lemma staging_ok_cong:
  "staging_areas w' = staging_areas w \<Longrightarrow> staging_messages w' = staging_messages w \<Longrightarrow> staging_ok w' = staging_ok w"
  by (simp add: staging_ok_def area_ok_def area_rows_def)

lemma staging_ok_set_bytes:
  assumes "pk sa_id (staging_areas w)" "sg_staging_id ` set (staging_messages w) \<subseteq> sa_id ` set (staging_areas w)"
    and "\<And>a. a \<in> set (staging_areas w) \<Longrightarrow> area_ok w (if sa_id a = k then a\<lparr>sa_bytes_used := g (sa_bytes_used a)\<rparr> else a)"
  shows "staging_ok (set_bytes_used k g w)"
proof -
  have "area_ok (set_bytes_used k g w) b" if b: "b \<in> set (staging_areas (set_bytes_used k g w))" for b
  proof -
    obtain a where "a \<in> set (staging_areas w)" "b = (if sa_id a = k then a\<lparr>sa_bytes_used := g (sa_bytes_used a)\<rparr> else a)"
      using b by (auto simp: set_bytes_used_def set_row_def)
    then have "area_ok w b" using assms(3) by simp
    then show ?thesis by (simp add: area_ok_def)
  qed
  then show ?thesis using assms(1,2) by (simp add: staging_ok_def)
qed

lemma reconcile_ok:
  assumes "staging_ok w" "reconcile err user area (w, f) = (n, w', f')"
  shows "staging_ok w'"
  using assms(2)
proof (cases rule: reconcile_cases)
  case (booked disk)
  let ?k = "sa_id area"
  define v where "v = w\<lparr>staging_messages := concat (map (reconcile_row disk ?k) (staging_messages w))\<rparr>"
  have rows: "area_rows v i = (if i = ?k then concat (map (reconcile_row disk ?k) (area_rows w ?k)) else area_rows w i)" for i
    by (simp add: v_def area_rows_def filter_reconcile_row)
  have sizes: "map sg_size_bytes (area_rows v ?k) = map sg_size_bytes (kept_rows disk w ?k)"
    "map message_key (area_rows v ?k) = map message_key (kept_rows disk w ?k)"
    using reconcile_rows_map [of sg_size_bytes "area_rows w ?k" ?k disk] reconcile_rows_map [of message_key "area_rows w ?k" ?k disk]
    by (simp_all add: rows kept_rows_def message_key_def area_rows_in)
  have less: "sum_list (map sg_size_bytes (kept_rows disk w ?k)) \<le> sum_list (map sg_size_bytes (area_rows w ?k))"
    unfolding kept_rows_def by (induction "area_rows w ?k") (auto simp: kept_rows_def intro: sum_list_filter_le_nat)
  have "staging_ok (set_bytes_used ?k (\<lambda>_. sum_list (map sg_size_bytes (kept_rows disk w ?k))) v)"
  proof (rule staging_ok_set_bytes)
    show "pk sa_id (staging_areas v)" using staging_okD(1) [OF assms(1)] by (simp add: v_def)
    show "sg_staging_id ` set (staging_messages v) \<subseteq> sa_id ` set (staging_areas v)"
    proof -
      have "sg_staging_id m' = sg_staging_id m" if "m' \<in> set (reconcile_row disk ?k m)" for m m'
        using that by (auto simp: reconcile_row_def split: if_splits option.splits)
      then have "sg_staging_id ` set (staging_messages v) \<subseteq> sg_staging_id ` set (staging_messages w)"
        by (force simp: v_def)
      also have "\<dots> \<subseteq> sa_id ` set (staging_areas w)" using assms(1) by (simp add: staging_ok_def)
      finally show ?thesis by (simp add: v_def)
    qed
    fix a assume a: "a \<in> set (staging_areas v)"
    then have "area_ok w a" using staging_okD(2) [OF assms(1)] by (simp add: v_def)
    then show "area_ok v (if sa_id a = ?k then a\<lparr>sa_bytes_used := sum_list (map sg_size_bytes (kept_rows disk w ?k))\<rparr> else a)"
      using less sizes by (auto simp: area_ok_def rows kept_rows_def distinct_map_filter)
  qed
  then show ?thesis by (simp add: booked(4) v_def)
qed (use assms(1) in simp)

lemma drop_area_ok:
  assumes "staging_ok w"
  shows "staging_ok (drop_area k w)"
proof -
  have "area_rows (drop_area k w) i = (if i = k then [] else area_rows w i)" for i
    by (auto simp: drop_area_def area_rows_def filter_empty_conv intro: filter_cong)
  then show ?thesis
    using assms by (auto simp: staging_ok_def drop_area_def pk_filter area_ok_def image_subset_iff)
qed

lemma new_area_ok:
  assumes ok: "staging_ok w" and fresh: "sa_id a \<notin> sa_id ` set (staging_areas w)" and empty: "sa_bytes_used a = 0"
  shows "staging_ok (w\<lparr>staging_areas := staging_areas w @ [a]\<rparr>)"
proof -
  have "area_rows (w\<lparr>staging_areas := staging_areas w @ [a]\<rparr>) i = area_rows w i" for i
    by (simp add: area_rows_def)
  moreover have "area_rows w (sa_id a) = []" using staging_okD(3) [OF ok fresh] .
  ultimately show ?thesis
    using ok fresh empty by (auto simp: staging_ok_def pk_append area_ok_def)
qed

lemma live_area_Some: "live_area now w user = Some a \<longleftrightarrow> get_area w user = Some a \<and> \<not> is_expired now a"
  by (auto simp: live_area_def split: option.split)

lemma get_area_in: "get_area w user = Some a \<Longrightarrow> a \<in> set (staging_areas w) \<and> sa_user_id a = u_id user"
  by (auto simp: get_area_def find_Some_iff)

lemma drop_area_ids: "sa_id ` set (staging_areas (drop_area k w)) \<subseteq> sa_id ` set (staging_areas w)"
  by (auto simp: drop_area_def)

text \<open>The area that messages are added to: the live one, or a new empty one with the quota of the settings.\<close>

lemma get_or_create_ok:
  assumes ok: "staging_ok w" and fresh: "se_area_id env \<notin> sa_id ` set (staging_areas w)"
    and run: "get_or_create_area env user (w, f) = (a, w', f')"
  shows "staging_ok w' \<and> a \<in> set (staging_areas w')
    \<and> (case live_area (se_now env) w user of
         Some b \<Rightarrow> a = b \<and> w' = w
       | None \<Rightarrow> sa_bytes_used a = 0 \<and> sa_max_bytes a = se_max_bytes env \<and> area_rows w' (sa_id a) = [])"
proof (cases "live_area (se_now env) w user")
  case (Some b)
  then have "get_area w user = Some b" by (simp add: live_area_Some)
  then show ?thesis
    using run ok Some get_area_in [of w user b] by (simp add: get_or_create_area_def)
next
  case None
  define v where "v = (case get_area w user of None \<Rightarrow> w | Some dead \<Rightarrow> drop_area (sa_id dead) w)"
  have v: "staging_ok v" "sa_id ` set (staging_areas v) \<subseteq> sa_id ` set (staging_areas w)"
    using ok drop_area_ids by (auto simp: v_def drop_area_ok split: option.split)
  have a: "sa_id a = se_area_id env" "sa_bytes_used a = 0" "sa_max_bytes a = se_max_bytes env"
    "w' = v\<lparr>staging_areas := staging_areas v @ [a]\<rparr>"
    using run None by (auto simp: get_or_create_area_def v_def Let_def split: option.splits)
  have new: "sa_id a \<notin> sa_id ` set (staging_areas v)" using fresh v(2) a(1) by auto
  then have "area_rows w' (sa_id a) = []"
    using staging_okD(3) [OF v(1) new] by (simp add: a(4) area_rows_def)
  then show ?thesis using new_area_ok [OF v(1) new a(2)] a None by simp
qed

section \<open>Adding stays within the quota\<close>

abbreviation item_key :: "Account \<times> MailIndexMessage \<times> str \<Rightarrow> str \<times> str" where
  "item_key \<equiv> \<lambda>(a, r, raw). (a_id a, mi_message_id_hash r)"

lemma resolve_items_keys:
  "resolve_items allowed bytes w existing items = Inr (n, staging) \<Longrightarrow>
    distinct (map item_key staging) \<and> item_key ` set staging \<inter> set existing = {} \<and> n + length staging \<le> length items
    \<and> (\<forall>(a, r, raw) \<in> set staging. allowed (a_id a) \<and> get_account w (a_id a) = Some a \<and> bytes a r = Some raw
        \<and> r \<in> set (index_messages w) \<and> mi_account_id r = a_id a)"
proof (induction items arbitrary: existing n staging)
  case (Cons item items)
  obtain account_id h where item: "item = (account_id, h)" by fastforce
  have allowed: "allowed account_id" using Cons.prems by (simp add: item split: if_splits)
  show ?case
  proof (cases "(account_id, h) \<in> set existing")
    case True
    then show ?thesis using Cons.IH [of existing n staging] Cons.prems allowed by (simp add: item)
  next
    case False
    consider (missing) "get_account w account_id = None \<or> get_indexed w account_id h = None"
      | (unreadable) a r where "get_account w account_id = Some a" "get_indexed w account_id h = Some r" "bytes a r = None"
      | (found) a r raw where "get_account w account_id = Some a" "get_indexed w account_id h = Some r" "bytes a r = Some raw"
      by (cases "get_account w account_id"; cases "get_indexed w account_id h") (auto, meson option.exhaust)
    then show ?thesis
    proof cases
      case missing
      then obtain k where "resolve_items allowed bytes w existing items = Inr (k, staging)" "n = Suc k"
        using Cons.prems allowed False by (auto simp: item map_sum_def split: option.splits sum.splits)
      then show ?thesis using Cons.IH [of existing k staging] by simp
    next
      case unreadable
      then obtain k where "resolve_items allowed bytes w existing items = Inr (k, staging)" "n = Suc k"
        using Cons.prems allowed False by (auto simp: item map_sum_def split: sum.splits)
      then show ?thesis using Cons.IH [of existing k staging] by simp
    next
      case found
      then obtain rest where rest: "resolve_items allowed bytes w ((account_id, h) # existing) items = Inr (n, rest)"
        "staging = (a, r, raw) # rest"
        using Cons.prems allowed False by (auto simp: item map_sum_def split: sum.splits)
      have key: "a_id a = account_id" "mi_message_id_hash r = h" "mi_account_id r = account_id" "r \<in> set (index_messages w)"
        using row_SomeD [OF found(1)] found(2) by (auto simp: get_indexed_def find_Some_iff)
      show ?thesis using Cons.IH [OF rest(1)] found key allowed False rest(2) by (auto simp: item)
    qed
  qed
qed simp

lemma staging_ok_add_row:
  assumes ok: "staging_ok w" and a: "a \<in> set (staging_areas w)" and m: "sg_staging_id m = sa_id a"
    and new: "message_key m \<notin> message_key ` set (area_rows w (sa_id a))"
    and room: "sa_max_bytes a \<noteq> 0 \<longrightarrow> sa_bytes_used a + sg_size_bytes m \<le> sa_max_bytes a"
  shows "staging_ok (set_bytes_used (sa_id a) (\<lambda>b. b + sg_size_bytes m) (w\<lparr>staging_messages := staging_messages w @ [m]\<rparr>))"
proof (rule staging_ok_set_bytes)
  let ?v = "w\<lparr>staging_messages := staging_messages w @ [m]\<rparr>"
  have rows: "area_rows ?v i = area_rows w i @ (if i = sa_id a then [m] else [])" for i
    using m by (simp add: area_rows_def)
  show "pk sa_id (staging_areas ?v)" using staging_okD(1) [OF ok] by simp
  show "sg_staging_id ` set (staging_messages ?v) \<subseteq> sa_id ` set (staging_areas ?v)"
    using ok a m by (auto simp: staging_ok_def)
  fix b assume "b \<in> set (staging_areas ?v)"
  then have b: "b \<in> set (staging_areas w)" by simp
  have same: "b = a" if "sa_id b = sa_id a"
    using staging_okD(1) [OF ok] b a that by (auto simp: pk_def distinct_map inj_on_def)
  show "area_ok ?v (if sa_id b = sa_id a then b\<lparr>sa_bytes_used := sa_bytes_used b + sg_size_bytes m\<rparr> else b)"
    using staging_okD(2) [OF ok b] same new room by (auto simp: area_ok_def rows)
qed

lemma stage_files_ok:
  assumes "staging_ok w" "a \<in> set (staging_areas w)" "distinct (map item_key staging)"
    "item_key ` set staging \<inter> message_key ` set (area_rows w (sa_id a)) = {}"
    "sa_max_bytes a \<noteq> 0 \<longrightarrow> sa_bytes_used a + sum_list (map (\<lambda>(a, r, raw). length raw) staging) \<le> sa_max_bytes a"
    "stage_files env (sa_id a) sdir n staging (w, f) = (staged, errors, w', f')"
  shows "staging_ok w' \<and> staged + errors = length staging"
  using assms
proof (induction staging arbitrary: n w f a staged errors)
  case (Cons item staging)
  obtain acc r raw where item: "item = (acc, r, raw)" by (cases item)
  let ?m = "new_staging_message env (sa_id a) n acc r raw"
  have m: "sg_staging_id ?m = sa_id a" "sg_size_bytes ?m = length raw" "message_key ?m = item_key item"
    by (simp_all add: new_staging_message_def message_key_def item)
  show ?case
  proof (cases "se_write_error env (staged_name env n r)")
    case True
    then obtain e where rest: "stage_files env (sa_id a) sdir (Suc n) staging (w, f) = (staged, e, w', f')" "errors = Suc e"
      using Cons.prems(6) by (auto simp: item Let_def split: prod.splits)
    have "staging_ok w' \<and> staged + e = length staging"
      by (rule Cons.IH [OF Cons.prems(1,2) _ _ _ rest(1)]) (use Cons.prems(3-5) in \<open>auto simp: item\<close>)
    then show ?thesis using rest(2) by simp
  next
    case False
    define w1 where "w1 = set_bytes_used (sa_id a) (\<lambda>b. b + length raw)
      (w\<lparr>staging_messages := staging_messages w @ [?m]\<rparr>)"
    obtain s g where rest: "stage_files env (sa_id a) sdir (Suc n) staging (w1, g) = (s, errors, w', f')" "staged = Suc s"
      using Cons.prems(6) False by (auto simp: item Let_def w1_def split: prod.splits)
    have room: "sa_max_bytes a \<noteq> 0 \<longrightarrow> sa_bytes_used a + sg_size_bytes ?m \<le> sa_max_bytes a"
      using Cons.prems(5) by (auto simp: item m)
    have new: "message_key ?m \<notin> message_key ` set (area_rows w (sa_id a))"
      using Cons.prems(4) m by auto
    have ok1: "staging_ok w1"
      using staging_ok_add_row [OF Cons.prems(1,2) m(1) new room] by (simp add: w1_def m)
    let ?a1 = "a\<lparr>sa_bytes_used := sa_bytes_used a + length raw\<rparr>"
    have a1: "?a1 \<in> set (staging_areas w1)"
      using Cons.prems(2) by (auto simp: w1_def set_bytes_used_def set_row_def intro: rev_image_eqI)
    have rows: "area_rows w1 (sa_id a) = area_rows w (sa_id a) @ [?m]"
      using m(1) by (simp add: w1_def area_rows_update area_rows_def)
    have "staging_ok w' \<and> s + errors = length staging"
    proof (rule Cons.IH [OF ok1 a1])
      show "distinct (map item_key staging)" using Cons.prems(3) by simp
      show "item_key ` set staging \<inter> message_key ` set (area_rows w1 (sa_id ?a1)) = {}"
        using Cons.prems(3,4) m(3) by (auto simp: rows)
      show "sa_max_bytes ?a1 \<noteq> 0 \<longrightarrow>
          sa_bytes_used ?a1 + sum_list (map (\<lambda>(a, r, raw). length raw) staging) \<le> sa_max_bytes ?a1"
        using Cons.prems(5) by (simp add: item add.assoc)
      show "stage_files env (sa_id ?a1) sdir (Suc n) staging (w1, g) = (s, errors, w', f')" using rest(1) by simp
    qed
    then show ?thesis using rest(2) by simp
  qed
qed simp

lemma reconcile_row_kept:
  assumes "staging_ok w" "a \<in> set (staging_areas w)" "reconcile err user a (w, f) = (n, w', f')"
  shows "\<exists>b. row sa_id (staging_areas w') (sa_id a) = Some b \<and> b \<in> set (staging_areas w')
    \<and> sa_id b = sa_id a \<and> sa_user_id b = sa_user_id a \<and> sa_max_bytes b = sa_max_bytes a \<and> sa_expires_at b = sa_expires_at a"
  using assms(3)
proof (cases rule: reconcile_cases)
  case refused
  then show ?thesis using row_SomeI [OF staging_okD(1) [OF assms(1)] assms(2)] assms(2) by auto
next
  case (booked disk)
  have "row sa_id (staging_areas w') (sa_id a)
      = map_option (\<lambda>a. a\<lparr>sa_bytes_used := sum_list (map sg_size_bytes (kept_rows disk w (sa_id a)))\<rparr>) (row sa_id (staging_areas w) (sa_id a))"
    using row_SomeI [OF staging_okD(1) [OF assms(1)] assms(2)] by (simp add: booked(4) set_bytes_used_def row_set_row)
  then have r: "row sa_id (staging_areas w') (sa_id a) = Some (a\<lparr>sa_bytes_used := sum_list (map sg_size_bytes (kept_rows disk w (sa_id a)))\<rparr>)"
    using row_SomeI [OF staging_okD(1) [OF assms(1)] assms(2)] by simp
  then show ?thesis using row_SomeD [OF r] by auto
qed

lemma reconcile_ids:
  assumes "reconcile err user a (w, f) = (n, w', f')"
  shows "map sa_id (staging_areas w') = map sa_id (staging_areas w) \<and> map sa_user_id (staging_areas w') = map sa_user_id (staging_areas w)
    \<and> map sa_expires_at (staging_areas w') = map sa_expires_at (staging_areas w)"
  using assms by (cases rule: reconcile_cases) (simp_all add: set_bytes_used_def map_set_row)

lemma get_area_row:
  assumes "pk sa_id (staging_areas w)" "pk sa_user_id (staging_areas w)" "b \<in> set (staging_areas w)" "sa_user_id b = u_id user"
  shows "get_area w user = Some b"
  using row_SomeI [OF assms(2,3)] assms(4) by (simp add: get_area_def row_def)

text \<open>
  Adding to a live area or to none: after the reconcile the area is the row of the user, and what
  is booked in it is what the quota check sees.
\<close>

lemma add_messages_ok:
  assumes ok: "staging_ok w" and one: "pk sa_user_id (staging_areas w)"
    and fresh: "se_area_id env \<notin> sa_id ` set (staging_areas w)"
    and run: "add_messages env include_all user items (w, f) = (r, w', f')"
  shows "staging_ok w'"
proof -
  define area where "area = live_area (se_now env) w user"
  obtain w1 f1 where rec: "(case area of None \<Rightarrow> (w, f) | Some a \<Rightarrow> snd (reconcile (se_rename_error env) user a (w, f))) = (w1, f1)"
    by fastforce
  have ok1: "staging_ok w1 \<and> map sa_id (staging_areas w1) = map sa_id (staging_areas w)
      \<and> map sa_user_id (staging_areas w1) = map sa_user_id (staging_areas w)"
  proof (cases area)
    case (Some a)
    then obtain n where "reconcile (se_rename_error env) user a (w, f) = (n, w1, f1)"
      using rec by (cases "reconcile (se_rename_error env) user a (w, f)") simp
    then show ?thesis using reconcile_ok [OF ok] reconcile_ids by blast
  qed (use rec ok in auto)
  have fresh1: "se_area_id env \<notin> sa_id ` set (staging_areas w1)" using fresh ok1 by (metis set_map)
  have pks: "pk sa_id (staging_areas w1)" "pk sa_user_id (staging_areas w1)"
    using staging_okD(1) [OF ok] ok1 one by (simp_all add: pk_def)
  define existing where "existing = (case area of None \<Rightarrow> [] | Some a \<Rightarrow> map message_key (area_rows w1 (sa_id a)))"
  note parts = run [unfolded add_messages_def Let_def fst_conv, folded area_def, unfolded rec prod.case, folded existing_def]
  show ?thesis
  proof (cases "w' = w1")
    case False
    then obtain unresolved staging a w2 f2 f3 s e where
      res: "resolve_items (\<lambda>a. a \<in> set (accessible_account_ids w user) \<or> include_all \<and> u_role user = Role_admin)
          (message_bytes env (w1, f1)) w1 existing items = Inr (unresolved, staging)"
      and room: "\<not> ((case area of Some a \<Rightarrow> sa_max_bytes a | None \<Rightarrow> se_max_bytes env) \<noteq> 0
          \<and> (case area of Some a \<Rightarrow> sa_max_bytes a | None \<Rightarrow> se_max_bytes env)
            < (case Option.bind area (\<lambda>a. row sa_id (staging_areas w1) (sa_id a)) of Some a \<Rightarrow> sa_bytes_used a | None \<Rightarrow> 0)
              + sum_list (map (\<lambda>(a, r, raw). length raw) staging))"
      and area': "get_or_create_area env user (w1, f1) = (a, w2, f2)"
      and files: "stage_files env (sa_id a) (path_of (staging_dir (home_root w1 user))) 0 staging (w2, f3) = (s, e, w', f')"
      using parts by (auto split: sum.split_asm prod.split_asm if_split_asm option.split_asm)
    note keys = resolve_items_keys [OF res]
    note made = get_or_create_ok [OF conjunct1 [OF ok1] fresh1 area']
    show ?thesis
    proof (cases area)
      case None
      have "live_area (se_now env) w1 user = None"
        using None rec by (simp add: area_def)
      then have "staging_ok w' \<and> s + e = length staging"
        using made room None keys by (intro stage_files_ok [OF _ _ _ _ _ files]) auto
      then show ?thesis ..
    next
      case (Some b)
      have b: "b \<in> set (staging_areas w)" "get_area w user = Some b" "\<not> is_expired (se_now env) b" "sa_user_id b = u_id user"
        using Some get_area_in [of w user b] by (auto simp: area_def live_area_Some)
      obtain n where n: "reconcile (se_rename_error env) user b (w, f) = (n, w1, f1)"
        using rec Some by (cases "reconcile (se_rename_error env) user b (w, f)") simp
      obtain c where c: "row sa_id (staging_areas w1) (sa_id b) = Some c" "c \<in> set (staging_areas w1)"
        "sa_id c = sa_id b" "sa_user_id c = sa_user_id b" "sa_max_bytes c = sa_max_bytes b" "sa_expires_at c = sa_expires_at b"
        using reconcile_row_kept [OF ok b(1) n] by blast
      have "get_area w1 user = Some c"
        using c(2,4) b(4) by (intro get_area_row pks) auto
      then have "live_area (se_now env) w1 user = Some c"
        using b(3) c(6) by (simp add: live_area_Some is_expired_def)
      then have "a = c" "w2 = w1" using made by simp_all
      then have "staging_ok w' \<and> s + e = length staging"
        using keys room c Some ok1 by (intro stage_files_ok [OF _ _ _ _ _ files]) (auto simp: existing_def)
      then show ?thesis ..
    qed
  qed (use ok1 in simp)
qed

section \<open>Every operation keeps the books\<close>

definition staging_inv :: "world \<Rightarrow> bool" where
  "staging_inv w = (staging_ok w \<and> pk sa_user_id (staging_areas w))"

lemma staging_inv_cong:
  "staging_areas w' = staging_areas w \<Longrightarrow> staging_messages w' = staging_messages w \<Longrightarrow> staging_inv w' = staging_inv w"
  using staging_ok_cong [of w' w] by (simp add: staging_inv_def)

lemma reconcile_inv:
  assumes "staging_inv w" "reconcile err user area (w, f) = (n, w', f')"
  shows "staging_inv w'"
proof -
  have "staging_ok w'" by (rule reconcile_ok [OF _ assms(2)]) (use assms(1) in \<open>simp add: staging_inv_def\<close>)
  then show ?thesis using reconcile_ids [OF assms(2)] assms(1) by (simp add: staging_inv_def pk_def)
qed

lemma drop_area_inv: "staging_inv w \<Longrightarrow> staging_inv (drop_area k w)"
  using drop_area_ok by (auto simp: staging_inv_def drop_area_def pk_filter)

lemma get_or_create_users:
  assumes "pk sa_id (staging_areas w)" "pk sa_user_id (staging_areas w)" "get_or_create_area env user (w, f) = (a, w', f')"
  shows "pk sa_user_id (staging_areas w')"
proof (cases "live_area (se_now env) w user")
  case None
  define v where "v = (case get_area w user of None \<Rightarrow> w | Some dead \<Rightarrow> drop_area (sa_id dead) w)"
  have w': "staging_areas w' = staging_areas v @ [a]" "sa_user_id a = u_id user"
    using assms(3) None by (auto simp: get_or_create_area_def v_def Let_def split: option.splits)
  have "u_id user \<notin> sa_user_id ` set (staging_areas v)"
  proof
    assume "u_id user \<in> sa_user_id ` set (staging_areas v)"
    then obtain b where b: "b \<in> set (staging_areas v)" and u: "sa_user_id b = u_id user" by auto
    have "b \<in> set (staging_areas w)" using b by (auto simp: v_def drop_area_def split: option.splits)
    then have "get_area w user = Some b" using get_area_row [OF assms(1,2)] u by blast
    then show False using b by (simp add: v_def drop_area_def)
  qed
  moreover have "pk sa_user_id (staging_areas v)"
    using assms(2) by (auto simp: v_def drop_area_def pk_filter split: option.split)
  ultimately show ?thesis by (simp add: w' pk_append)
qed (use assms in \<open>simp add: get_or_create_area_def\<close>)

lemma stage_files_users:
  "stage_files env k sdir n staging (w, f) = (s, e, w', f') \<Longrightarrow>
    map sa_user_id (staging_areas w') = map sa_user_id (staging_areas w)"
proof (induction staging arbitrary: n w f s e)
  case (Cons item staging)
  obtain acc r raw where item: "item = (acc, r, raw)" by (cases item)
  have same: "map sa_user_id (staging_areas (set_bytes_used k g (w\<lparr>staging_messages := ms\<rparr>))) = map sa_user_id (staging_areas w)" for g ms
    by (simp add: set_bytes_used_def map_set_row)
  show ?case
  proof (cases "se_write_error env (staged_name env n r)")
    case True
    then show ?thesis using Cons by (auto simp: item Let_def split: prod.splits)
  next
    case False
    then show ?thesis using Cons.prems Cons.IH same by (auto simp: item Let_def split: prod.splits)
  qed
qed simp

lemma add_messages_inv:
  assumes inv: "staging_inv w" and fresh: "se_area_id env \<notin> sa_id ` set (staging_areas w)"
    and run: "add_messages env include_all user items (w, f) = (r, w', f')"
  shows "staging_inv w'"
proof -
  define area where "area = live_area (se_now env) w user"
  obtain w1 f1 where rec: "(case area of None \<Rightarrow> (w, f) | Some a \<Rightarrow> snd (reconcile (se_rename_error env) user a (w, f))) = (w1, f1)"
    by fastforce
  have inv1: "staging_inv w1"
  proof (cases area)
    case (Some a)
    then obtain n where "reconcile (se_rename_error env) user a (w, f) = (n, w1, f1)"
      using rec by (cases "reconcile (se_rename_error env) user a (w, f)") simp
    then show ?thesis using reconcile_inv [OF inv] by blast
  qed (use rec inv in auto)
  note parts = run [unfolded add_messages_def Let_def fst_conv, folded area_def, unfolded rec prod.case]
  have "pk sa_user_id (staging_areas w')"
  proof (cases "w' = w1")
    case False
    then obtain a w2 f2 f3 s e staging where "get_or_create_area env user (w1, f1) = (a, w2, f2)"
      "stage_files env (sa_id a) (path_of (staging_dir (home_root w1 user))) 0 staging (w2, f3) = (s, e, w', f')"
      using parts by (auto split: sum.split_asm prod.split_asm if_split_asm option.split_asm)
    then show ?thesis
      using inv1 get_or_create_users stage_files_users by (metis pk_def staging_inv_def staging_okD(1))
  qed (use inv1 staging_inv_def in simp)
  then show ?thesis
    using add_messages_ok [OF _ _ fresh run] inv by (simp add: staging_inv_def)
qed

lemma get_status_inv: "staging_inv w \<Longrightarrow> get_status env user (w, f) = (s, w', f') \<Longrightarrow> staging_inv w'"
  using reconcile_inv by (auto simp: get_status_def Let_def split: option.splits prod.splits)

lemma push_each_tables:
  "push_each ids now user n targets w = (jobs, skipped, w') \<Longrightarrow>
    staging_areas w' = staging_areas w \<and> staging_messages w' = staging_messages w"
proof (induction targets arbitrary: n w jobs skipped)
  case (Cons t targets)
  obtain target manifest where t: "t = (target, manifest)" by fastforce
  define job where "job = new_restore_job (ids n) now target target RM_staging_push (u_id user) ''original'' True None (Some manifest)"
  show ?case
    using create_restore_job_cases [of job w] Cons.prems Cons.IH
    by (elim disjE) (fastforce simp: t job_def [symmetric] submit_restore_job_def Let_def split: prod.splits)+
qed simp

lemma push_inv:
  assumes "staging_inv w" "push env ids user destination folder_mode custom_folder (w, f) = (r, w', f')"
  shows "staging_inv w'"
proof (cases "live_area (se_now env) w user")
  case (Some area)
  obtain n w1 f1 where rec: "reconcile (se_rename_error env) user area (w, f) = (n, w1, f1)" by (cases "reconcile (se_rename_error env) user area (w, f)")
  have inv1: "staging_inv w1" using reconcile_inv [OF assms(1) rec] .
  from assms(2) Some rec consider "w' = w" | "w' = w1"
    | jobs skipped targets where "push_each ids (se_now env) user 0 targets w1 = (jobs, skipped, w')"
    by (auto simp: push_def Let_def split: if_split_asm prod.split_asm)
  then show ?thesis
  proof cases
    case 3
    then show ?thesis using push_each_tables inv1 staging_inv_cong by metis
  qed (use assms(1) inv1 in simp_all)
qed (use assms in \<open>auto simp: push_def split: if_splits\<close>)

lemma empty_staging_inv: "staging_inv w \<Longrightarrow> staging_inv (fst (empty_staging user (w, f)))"
  by (auto simp: empty_staging_def drop_area_inv split: option.split)

lemma cleanup_expired_inv: "staging_inv w \<Longrightarrow> staging_inv (fst (snd (cleanup_expired now (w, f))))"
proof -
  have "staging_inv (fst (fold purge_area areas (v, g)))" if "staging_inv v" for areas v g
    using that by (induction areas arbitrary: v g) (simp_all add: purge_area_def drop_area_inv)
  then show "staging_inv w \<Longrightarrow> ?thesis" by (simp add: cleanup_expired_def Let_def)
qed

section \<open>Pushing ships every staged message\<close>

lemma update_at_iff:
  "(k', v') \<in> set (update_at k z g d) \<longleftrightarrow>
    (if k' = k then (\<exists>v. (k, v) \<in> set d \<and> v' = g v) \<or> (k \<notin> fst ` set d \<and> v' = g z) else (k', v') \<in> set d)"
  by (force simp: update_at_def)

definition in_manifest :: "(str \<times> (str \<times> str list) list) list \<Rightarrow> str \<Rightarrow> str \<Rightarrow> str \<Rightarrow> bool" where
  "in_manifest d target folder filename =
    (\<exists>manifest files. (target, manifest) \<in> set d \<and> (folder, files) \<in> set manifest \<and> filename \<in> set files)"

lemma manifest_update:
  "(\<exists>files. (fo', files) \<in> set (update_at fo [] (\<lambda>l. l @ [fn]) man) \<and> fn' \<in> set files)
    \<longleftrightarrow> (\<exists>files. (fo', files) \<in> set man \<and> fn' \<in> set files) \<or> (fo' = fo \<and> fn' = fn)"
proof (cases "fo' = fo")
  case True
  show ?thesis
  proof (cases "fo \<in> fst ` set man")
    case T: True
    then obtain fs0 where "(fo, fs0) \<in> set man" by force
    then show ?thesis using True T by (auto simp: update_at_iff)
  next
    case False
    then have "(fo, files) \<notin> set man" for files by force
    then show ?thesis using True False by (auto simp: update_at_iff)
  qed
qed (auto simp: update_at_iff)

lemma in_manifest_update:
  "in_manifest (update_at t [] (update_at fo [] (\<lambda>l. l @ [fn])) d) t' fo' fn'
    \<longleftrightarrow> in_manifest d t' fo' fn' \<or> (t' = t \<and> fo' = fo \<and> fn' = fn)"
proof (cases "t' = t")
  case True
  show ?thesis
  proof (cases "t \<in> fst ` set d")
    case T: True
    then obtain man where "(t, man) \<in> set d" by force
    have "in_manifest (update_at t [] (update_at fo [] (\<lambda>l. l @ [fn])) d) t' fo' fn'
        \<longleftrightarrow> (\<exists>v. (t, v) \<in> set d \<and> (\<exists>files. (fo', files) \<in> set (update_at fo [] (\<lambda>l. l @ [fn]) v) \<and> fn' \<in> set files))"
      unfolding in_manifest_def update_at_iff [of _ _ t] using True T by auto
    also have "\<dots> \<longleftrightarrow> in_manifest d t fo' fn' \<or> (fo' = fo \<and> fn' = fn)"
      unfolding manifest_update in_manifest_def using \<open>(t, man) \<in> set d\<close> by auto
    finally show ?thesis using True by simp
  next
    case False
    then have "(t, man) \<notin> set d" for man by force
    then show ?thesis
      unfolding in_manifest_def update_at_iff [of _ _ t] using True False manifest_update [of fo' fo fn "[]" fn'] by auto
  qed
qed (simp add: in_manifest_def update_at_iff)

lemma by_target_iff:
  "in_manifest (by_target target folder rows) t fo fn
    \<longleftrightarrow> (\<exists>m \<in> set rows. target m = t \<and> folder m = fo \<and> sg_staged_filename m = fn)"
proof -
  have "in_manifest (fold (\<lambda>m. update_at (target m) [] (update_at (folder m) [] (\<lambda>l. l @ [sg_staged_filename m]))) rows d) t fo fn
      \<longleftrightarrow> in_manifest d t fo fn \<or> (\<exists>m \<in> set rows. target m = t \<and> folder m = fo \<and> sg_staged_filename m = fn)" for d
    by (induction rows arbitrary: d) (auto simp: in_manifest_update)
  then show ?thesis by (simp add: by_target_def in_manifest_def)
qed

lemma push_each_jobs:
  "push_each ids now user n targets w = (jobs, skipped, w') \<Longrightarrow>
    set (restore_jobs w) \<subseteq> set (restore_jobs w') \<and> set (restore_queue w) \<subseteq> set (restore_queue w')
    \<and> (\<forall>(t, manifest) \<in> set targets. t \<in> set skipped
       \<or> (\<exists>j \<in> set (restore_jobs w'). rj_id j \<in> set jobs \<inter> set (restore_queue w') \<and> rj_status j = pending
            \<and> rj_restore_mode j = RM_staging_push \<and> rj_target_account_id j = t \<and> rj_requested_by j = u_id user
            \<and> rj_selected_uids j = Some manifest))"
proof (induction targets arbitrary: n w jobs skipped)
  case (Cons t targets)
  obtain target manifest where t: "t = (target, manifest)" by fastforce
  define job where "job = new_restore_job (ids n) now target target RM_staging_push (u_id user) ''original'' True None (Some manifest)"
  from create_restore_job_cases [of job w] show ?case
  proof
    assume none: "create_restore_job job w = (None, w)"
    then obtain rest where rest: "push_each ids now user (Suc n) targets w = (jobs, rest, w')" "skipped = target # rest"
      using Cons.prems by (auto simp: t job_def [symmetric] Let_def split: prod.splits)
    show ?thesis using Cons.IH [OF rest(1)] rest(2) by (auto simp: t)
  next
    assume "create_restore_job job w = (Some job, w\<lparr>restore_jobs := restore_jobs w @ [job]\<rparr>)
      \<and> (\<exists>s t. get_account w (rj_source_account_id job) = Some s \<and> get_account w (rj_target_account_id job) = Some t
          \<and> \<not> a_suspended s \<and> \<not> a_suspended t \<and> \<not> a_migrating s \<and> \<not> a_migrating t \<and> truthy (a_credentials t))
      \<and> (\<forall>j \<in> set (restore_jobs w). \<not> (job_pair j = job_pair job \<and> active (rj_status j)))"
    then have some: "create_restore_job job w = (Some job, w\<lparr>restore_jobs := restore_jobs w @ [job]\<rparr>)" ..
    define v where "v = submit_restore_job (rj_id job) (w\<lparr>restore_jobs := restore_jobs w @ [job]\<rparr>)"
    obtain rest where rest: "push_each ids now user (Suc n) targets v = (rest, skipped, w')" "jobs = rj_id job # rest"
      using Cons.prems some by (auto simp: t job_def [symmetric] v_def Let_def split: prod.splits)
    have v: "restore_jobs v = restore_jobs w @ [job]" "restore_queue v = restore_queue w @ [rj_id job]"
      by (simp_all add: v_def submit_restore_job_def)
    have "rj_status job = pending" "rj_restore_mode job = RM_staging_push" "rj_target_account_id job = target"
      "rj_requested_by job = u_id user" "rj_selected_uids job = Some manifest"
      by (simp_all add: job_def)
    then show ?thesis using Cons.IH [OF rest(1)] rest(2) v by (fastforce simp: t)
  qed
qed simp

text \<open>
  A push reaches every staged message: when it returns, each message that the user has not
  deleted meanwhile is in the manifest of a pending, queued job for its target, under the folder
  the chosen mode gives it, unless its target is reported as skipped. Rows stay staged as they are.
\<close>

lemma push_ships_every_row:
  assumes run: "push env ids user destination folder_mode custom_folder (w, f) = (Inr (jobs, skipped), w', f')"
    and live: "live_area (se_now env) w user = Some area"
    and m: "m \<in> set (area_rows w' (sa_id area))"
  shows "push_target destination m \<in> set skipped
    \<or> (\<exists>j \<in> set (restore_jobs w'). rj_id j \<in> set jobs \<inter> set (restore_queue w') \<and> rj_status j = pending
         \<and> rj_target_account_id j = push_target destination m \<and> rj_requested_by j = u_id user
         \<and> (\<exists>manifest files. rj_selected_uids j = Some manifest \<and> (push_folder (se_now env) folder_mode custom_folder m, files) \<in> set manifest
              \<and> sg_staged_filename m \<in> set files))"
proof -
  obtain n w1 f1 where rec: "reconcile (se_rename_error env) user area (w, f) = (n, w1, f1)"
    by (cases "reconcile (se_rename_error env) user area (w, f)")
  define targets where "targets = by_target (push_target destination) (push_folder (se_now env) folder_mode custom_folder) (area_rows w1 (sa_id area))"
  have split: "w' = w1 \<and> area_rows w1 (sa_id area) = [] \<or> push_each ids (se_now env) user 0 targets w1 = (jobs, skipped, w')"
    using run live rec by (auto simp: push_def Let_def targets_def split: if_split_asm prod.split_asm)
  then have each: "push_each ids (se_now env) user 0 targets w1 = (jobs, skipped, w')" using m by auto
  have "m \<in> set (area_rows w1 (sa_id area))"
    using m push_each_tables [OF each] by (simp add: area_rows_def)
  then have "in_manifest targets (push_target destination m) (push_folder (se_now env) folder_mode custom_folder m) (sg_staged_filename m)"
    by (auto simp: targets_def by_target_iff)
  then obtain manifest files where man: "(push_target destination m, manifest) \<in> set targets"
    "(push_folder (se_now env) folder_mode custom_folder m, files) \<in> set manifest" "sg_staged_filename m \<in> set files"
    by (auto simp: in_manifest_def)
  show ?thesis using push_each_jobs [OF each] man by fastforce
qed

section \<open>Witness\<close>

definition stage_env :: staging_env where
  "stage_env = \<lparr> se_now = 0, se_ttl_minutes = 10080, se_max_bytes = 100, se_rename_error = None, se_write_error = (\<lambda>_. False),
     se_unreadable = (\<lambda>_. False), se_restic = no_restic, se_token = show_nat, se_row_id = show_nat, se_area_id = ''g2'', se_hash_hex = id \<rparr>"

definition staged_area :: StagingArea where
  "staged_area = \<lparr> sa_id = ''g1'', sa_user_id = ''u1'', sa_created_at = 0, sa_expires_at = 9, sa_max_bytes = 100, sa_bytes_used = 5 \<rparr>"

definition staged_row :: StagingMessage where
  "staged_row = \<lparr> sg_id = ''r1'', sg_staging_id = ''g1'', sg_source_account_id = ''a1'', sg_message_id_hash = ''h'',
     sg_original_folder = ''INBOX'', sg_staged_filename = ''1.x:2,'', sg_size_bytes = 5, sg_staged_at = 0 \<rparr>"

definition staged_world :: world where
  "staged_world = mig_world\<lparr>users := [ann], accounts := [(box ''a1'')\<lparr>a_credentials := Some ''c''\<rparr>],
     staging_areas := [staged_area], staging_messages := [staged_row]\<rparr>"

definition staged_fs :: fs where
  "staged_fs = (let home = [''m'', ''.dovecot-home'', ''ann'']; sdir = home @ [''root-inbox'', ''MFB-Staging''] in
     map (\<lambda>p. (p, Dir)) [[''m''], [''m'', ''.dovecot-home''], home, home @ [''root-inbox''], sdir, sdir @ [''cur'']]
     @ [(sdir @ [''cur'', ''1.x:2,S''], File ''hello'')])"

lemma staged_push:
  "map_sum (\<lambda>_. ()) id (fst (push stage_env (\<lambda>_. ''j'') ann ''origin'' ''original'' None (staged_world, staged_fs))) = Inr ([''j''], [])"
  "area_rows (fst (snd (push stage_env (\<lambda>_. ''j'') ann ''origin'' ''original'' None (staged_world, staged_fs)))) ''g1''
    = [staged_row\<lparr>sg_staged_filename := ''1.x:2,S''\<rparr>]"
  by code_simp+

end
