(* ===== verification/Users.thy ===== *)
theory Users
  imports Stores
begin

text \<open>
  The users of the application: \<open>services/user_service.py\<close>, the temporary restore users of
  \<open>services/dovecot_auth.py\<close>, and the user forms of \<open>routers/ui_admin.py\<close>.

  \<open>hp\<close> and \<open>vp\<close> are bcrypt's hash and check; ids, tokens, the clock, the host name and the text
  of the welcome message are arguments.
\<close>

definition TEMP_USER_PREFIX :: str where
  "TEMP_USER_PREFIX = ''_restore_''"

definition MIN_PASSWORD_LENGTH :: nat where
  "MIN_PASSWORD_LENGTH = 8"

section \<open>Accounts of people\<close>

definition authenticate_user :: "(str \<Rightarrow> str \<Rightarrow> bool) \<Rightarrow> str \<Rightarrow> str \<Rightarrow> world \<Rightarrow> User option" where
  "authenticate_user vp username password w =
    (case row u_username (users w) username of
       None \<Rightarrow> None
     | Some user \<Rightarrow>
        if \<not> truthy (u_password_hash user) then None
        else if \<not> u_enabled user then None
        else if \<not> vp password (the (u_password_hash user)) then None
        else Some user)"

text \<open>
  \<open>create_welcome_email\<close>: the Maildir of the root inbox and one message in it. Any error is
  logged by the caller and leaves what was made so far.
\<close>

fun make_all :: "path list \<Rightarrow> fs \<Rightarrow> bool \<times> fs" where
  "make_all [] f = (True, f)"
| "make_all (p # ps) f = (case make_dirs p f of Inl e \<Rightarrow> (False, f) | Inr g \<Rightarrow> make_all ps g)"

definition create_welcome_email :: "int \<Rightarrow> str \<Rightarrow> str \<Rightarrow> str \<Rightarrow> str \<Rightarrow> fs \<Rightarrow> fs" where
  "create_welcome_email timestamp hostname msg store_path username f =
    (let inbox = path_of store_path @ path_of (''.dovecot-home/'' @ sanitize_path_component username @ ''/root-inbox'');
         filename = show_int timestamp @ ''.welcome.'' @ hostname @ '':2,'';
         (ok, f) = make_all [inbox @ [''new''], inbox @ [''cur''], inbox @ [''tmp'']] f
     in if \<not> ok \<or> exists_path f (inbox @ [''new'', filename]) then f
        else f @ [(inbox @ [''new'', filename], File msg)])"

definition create_user ::
  "(str \<Rightarrow> str) \<Rightarrow> str \<Rightarrow> datetime \<Rightarrow> str \<Rightarrow> str \<Rightarrow> str \<Rightarrow> str \<Rightarrow> UserRole \<Rightarrow> str \<Rightarrow> disk_world
   \<Rightarrow> (py_error + User) \<times> disk_world"
where
  "create_user hp i now hostname msg username password role store_id dw =
    (case dw of (w, f) \<Rightarrow>
      if prefix TEMP_USER_PREFIX username then
        (Inl (ValueError (''Username prefix '' @ [CHR 0x27] @ TEMP_USER_PREFIX @ [CHR 0x27] @ '' is reserved for internal use'')), w, f)
      else if username \<in> u_username ` set (users w) then (Inl IntegrityError, w, f)
      else (case get_store w store_id of
         None \<Rightarrow> (Inl IntegrityError, w, f)
       | Some store \<Rightarrow>
          let u = new_user i username (Some (hp password)) role store_id now
          in (Inr u, w\<lparr>users := users w @ [u]\<rparr>,
              create_welcome_email (now div 1000000) hostname msg (st_path store) username f)))"

definition change_password :: "(str \<Rightarrow> str) \<Rightarrow> str \<Rightarrow> str \<Rightarrow> world \<Rightarrow> (py_error + bool) \<times> world" where
  "change_password hp user_id new_password w =
    (if length new_password < MIN_PASSWORD_LENGTH then (Inl (ValueError ''Password must be at least 8 characters''), w)
     else (case get_user w user_id of
        None \<Rightarrow> (Inr False, w)
      | Some u \<Rightarrow> (Inr True, upd_user user_id (\<lambda>u. u\<lparr>u_password_hash := Some (hp new_password)\<rparr>) w)))"

datatype user_field = U_username str | U_role UserRole | U_enabled bool | U_store_id str | U_other str

fun set_user_field :: "user_field \<Rightarrow> User \<Rightarrow> User" where
  "set_user_field (U_username v) u = u\<lparr>u_username := v\<rparr>"
| "set_user_field (U_role v) u = u\<lparr>u_role := v\<rparr>"
| "set_user_field (U_enabled v) u = u\<lparr>u_enabled := v\<rparr>"
| "set_user_field (U_store_id v) u = u\<lparr>u_store_id := v\<rparr>"
| "set_user_field (U_other v) u = u"

fun is_store_id :: "user_field \<Rightarrow> bool" where
  "is_store_id (U_store_id v) = True"
| "is_store_id f = False"

definition update_user :: "str \<Rightarrow> user_field list \<Rightarrow> world \<Rightarrow> (py_error + User option) \<times> world" where
  "update_user user_id kwargs w =
    (case get_user w user_id of
       None \<Rightarrow> (Inr None, w)
     | Some user \<Rightarrow>
        let kwargs = (if u_migrating user then filter (\<lambda>k. \<not> is_store_id k) kwargs else kwargs);
            u = fold set_user_field kwargs user
        in if (\<exists>v \<in> set (users w). u_id v \<noteq> user_id \<and> u_username v = u_username u) \<or> get_store w (u_store_id u) = None
           then (Inl IntegrityError, w)
           else (Inr (Some u), upd_user user_id (fold set_user_field kwargs) w))"

text \<open>
  \<open>db.delete(user)\<close>: the association rows and the tables with \<open>ON DELETE CASCADE\<close> lose the
  user's rows, a background task forgets who asked for it; a group the user owns, a restore job he
  requested and a migration of his home refer to him without an \<open>ON DELETE\<close> action.
\<close>

definition user_in_use :: "world \<Rightarrow> str \<Rightarrow> bool" where
  "user_in_use w k =
    ((\<exists>g \<in> set (groups w). g_owner_id g = k) \<or> (\<exists>j \<in> set (restore_jobs w). rj_requested_by j = k)
     \<or> (\<exists>m \<in> set (store_migrations w). mg_user_id m = Some k))"

definition drop_user :: "str \<Rightarrow> world \<Rightarrow> world" where
  "drop_user k w =
    (let areas = map sa_id (filter (\<lambda>s. sa_user_id s = k) (staging_areas w)) in
     w\<lparr>users := filter (\<lambda>u. u_id u \<noteq> k) (users w),
       account_owners := filter (\<lambda>p. snd p \<noteq> k) (account_owners w),
       group_members := filter (\<lambda>p. snd p \<noteq> k) (group_members w),
       user_allowed_stores := filter (\<lambda>p. fst p \<noteq> k) (user_allowed_stores w),
       user_allowed_repositories := filter (\<lambda>p. fst p \<noteq> k) (user_allowed_repositories w),
       channels := filter (\<lambda>c. ch_user_id c \<noteq> k) (channels w),
       app_credentials := filter (\<lambda>c. c_user_id c \<noteq> k) (app_credentials w),
       staging_areas := filter (\<lambda>s. sa_user_id s \<noteq> k) (staging_areas w),
       staging_messages := filter (\<lambda>m. sg_staging_id m \<notin> set areas) (staging_messages w),
       background_tasks := map (\<lambda>t. if t_requested_by t = Some k then t\<lparr>t_requested_by := None\<rparr> else t) (background_tasks w)\<rparr>)"

definition delete_user :: "str \<Rightarrow> disk_world \<Rightarrow> (py_error + bool) \<times> disk_world" where
  "delete_user user_id dw =
    (case dw of (w, f) \<Rightarrow>
      (case get_user w user_id of
         None \<Rightarrow> (Inr False, w, f)
       | Some user \<Rightarrow>
          let f = snd (remove_dovecot_home w user f)
          in if user_in_use w user_id then (Inl IntegrityError, w, f)
             else (Inr True, drop_user user_id w, f)))"

definition set_allowed_repositories :: "str \<Rightarrow> str list \<Rightarrow> world \<Rightarrow> str option \<times> world" where
  "set_allowed_repositories user_id repository_ids w =
    (case get_user w user_id of
       None \<Rightarrow> (Some ''User not found'', w)
     | Some user \<Rightarrow>
        (None, w\<lparr>user_allowed_repositories := replace_pairs (\<lambda>p. fst p = user_id)
           (map (\<lambda>r. (user_id, rp_id r)) (filter (\<lambda>r. rp_id r \<in> set repository_ids) (repositories w)))
           (user_allowed_repositories w)\<rparr>))"

definition ensure_admin_exists ::
  "(str \<Rightarrow> str) \<Rightarrow> str \<Rightarrow> datetime \<Rightarrow> str \<Rightarrow> str \<Rightarrow> str \<Rightarrow> disk_world \<Rightarrow> (py_error + unit) \<times> disk_world"
where
  "ensure_admin_exists hp i now hostname msg default_store_id dw =
    (if \<exists>u \<in> set (users (fst dw)). u_role u = Role_admin then (Inr (), dw)
     else (case create_user hp i now hostname msg ''admin'' ''changeme1234!'' Role_admin default_store_id dw of
        (Inl e, dw') \<Rightarrow> (Inl e, dw')
      | (Inr u, dw') \<Rightarrow> (Inr (), dw')))"

section \<open>Temporary restore users\<close>

definition is_temp :: "User \<Rightarrow> bool" where
  "is_temp u = prefix TEMP_USER_PREFIX (u_username u)"

text \<open>\<open>uuid4().hex[:8]\<close> is the argument \<open>token\<close>, the password the argument \<open>password\<close>.\<close>

definition create_temp_imap_user ::
  "(str \<Rightarrow> str) \<Rightarrow> str \<Rightarrow> datetime \<Rightarrow> str \<Rightarrow> str \<Rightarrow> str list \<Rightarrow> world \<Rightarrow> (py_error + str \<times> str) \<times> world"
where
  "create_temp_imap_user hp i now token password account_ids w =
    (let username = TEMP_USER_PREFIX @ token;
         store = (case get_default_store w of Some s \<Rightarrow> Some s
            | None \<Rightarrow> (case mail_stores w of [] \<Rightarrow> None | s # _ \<Rightarrow> Some s))
     in (case store of
           None \<Rightarrow> (Inl (ValueError ''AttributeError''), w)
         | Some s \<Rightarrow>
            if username \<in> u_username ` set (users w) \<or> \<not> set account_ids \<subseteq> a_id ` set (accounts w) \<or> \<not> distinct account_ids
            then (Inl IntegrityError, w)
            else (Inr (username, password),
                  w\<lparr>users := users w @ [new_user i username (Some (hp password)) Role_user (st_id s) now],
                    account_owners := account_owners w @ map (\<lambda>a. (a, i)) account_ids\<rparr>)))"

definition retire_user :: "User \<Rightarrow> disk_world \<Rightarrow> disk_world" where
  "retire_user user dw =
    (drop_user (u_id user) (fst dw), snd (remove_dovecot_home (fst dw) user (snd dw)))"

definition delete_temp_imap_user :: "str \<Rightarrow> disk_world \<Rightarrow> (py_error + unit) \<times> disk_world" where
  "delete_temp_imap_user username dw =
    (if \<not> prefix TEMP_USER_PREFIX username then (Inr (), dw)
     else (case row u_username (users (fst dw)) username of
        None \<Rightarrow> (Inr (), dw)
      | Some user \<Rightarrow>
          if user_in_use (fst dw) (u_id user) then (Inl IntegrityError, fst dw, snd (retire_user user dw))
          else (Inr (), retire_user user dw)))"

text \<open>The one commit at the end fails for all of them when one row is still referred to.\<close>

definition expired_temp_users :: "datetime \<Rightarrow> world \<Rightarrow> User list" where
  "expired_temp_users now w = filter (\<lambda>u. is_temp u \<and> u_created_at u < now - hours 1) (users w)"

definition cleanup_temp_imap_users :: "datetime \<Rightarrow> disk_world \<Rightarrow> (py_error + nat) \<times> disk_world" where
  "cleanup_temp_imap_users now dw =
    (let temp_users = expired_temp_users now (fst dw);
         done_dw = fold retire_user temp_users dw
     in if temp_users = [] then (Inr 0, dw)
        else if \<exists>u \<in> set temp_users. user_in_use (fst dw) (u_id u) then (Inl IntegrityError, fst dw, snd done_dw)
        else (Inr (length temp_users), done_dw))"

definition orphaned_restore_homes :: "world \<Rightarrow> fs \<Rightarrow> MailStore \<Rightarrow> path list" where
  "orphaned_restore_homes w f store =
    (let live = map (sanitize_path_component \<circ> u_username) (filter is_temp (users w));
         root = path_of (rstrip_slash (st_path store) @ ''/.dovecot-home'')
     in if \<not> is_dir f root then []
        else map (\<lambda>n. root @ [n])
          (filter (\<lambda>n. is_dir f (root @ [n]) \<and> prefix TEMP_USER_PREFIX n \<and> n \<notin> set live) (listdir root f)))"

definition sweep_orphaned_restore_homes :: "disk_world \<Rightarrow> nat \<times> fs" where
  "sweep_orphaned_restore_homes dw =
    fold (\<lambda>store (removed, f).
      let found = orphaned_restore_homes (fst dw) f store
      in (removed + length found, fold rmtree found f)) (mail_stores (fst dw)) (0, snd dw)"

definition cleanup_temp_restore_users :: "datetime \<Rightarrow> disk_world \<Rightarrow> (py_error + unit) \<times> disk_world" where
  "cleanup_temp_restore_users now dw =
    (case cleanup_temp_imap_users now dw of
       (Inl e, dw') \<Rightarrow> (Inl e, dw')
     | (Inr n, dw') \<Rightarrow> (Inr (), fst dw', snd (sweep_orphaned_restore_homes dw')))"

section \<open>The forms of the administrator\<close>

text \<open>
  \<open>_get_session_user\<close> is an argument; \<open>Some\<close> of the flash message is what the next page shows.
  The cooldown of the administrator's password is the time of its last check in the session.
\<close>

definition is_admin :: "User option \<Rightarrow> bool" where
  "is_admin user = (case user of None \<Rightarrow> False | Some u \<Rightarrow> u_role u = Role_admin)"

definition get_session_user :: "str option \<Rightarrow> world \<Rightarrow> User option" where
  "get_session_user user_id w =
    (if \<not> truthy user_id then None
     else (case get_user w (the user_id) of None \<Rightarrow> None | Some u \<Rightarrow> if u_enabled u then Some u else None))"

definition admin_pw_verified :: "datetime \<Rightarrow> datetime option \<Rightarrow> bool" where
  "admin_pw_verified now verified_at = (case verified_at of None \<Rightarrow> False | Some t \<Rightarrow> now - t < seconds 60)"

definition admin_change_user_password ::
  "(str \<Rightarrow> str) \<Rightarrow> (str \<Rightarrow> str \<Rightarrow> bool) \<Rightarrow> datetime \<Rightarrow> User option \<Rightarrow> datetime option \<Rightarrow> str \<Rightarrow> str \<Rightarrow> str option \<Rightarrow> world
   \<Rightarrow> str option \<times> datetime option \<times> world"
where
  "admin_change_user_password hp vp now user verified_at target new_password admin_password w =
    (if \<not> is_admin user then (None, verified_at, w)
     else if length new_password < MIN_PASSWORD_LENGTH then (Some ''Password must be at least 8 chars'', verified_at, w)
     else
       let admin = the user;
           ask = truthy (u_password_hash admin) \<and> \<not> admin_pw_verified now verified_at
       in if ask \<and> (\<not> truthy admin_password \<or> \<not> vp (the admin_password) (the (u_password_hash admin)))
          then (Some ''Admin password is incorrect'', verified_at, w)
          else
            let verified_at = (if ask then Some now else verified_at)
            in (case change_password hp target new_password w of
                  (Inl (ValueError e), w') \<Rightarrow> (Some e, verified_at, w')
                | (_, w') \<Rightarrow> (None, verified_at, w')))"

definition admin_edit_user :: "User option \<Rightarrow> str \<Rightarrow> str \<Rightarrow> str option \<Rightarrow> world \<Rightarrow> (py_error + unit) \<times> world" where
  "admin_edit_user user target username role w =
    (if \<not> is_admin user then (Inr (), w)
     else
       let updates = (if strip username \<noteq> [] then [U_username (strip username)] else [])
             @ (if role = Some ''admin'' then [U_role Role_admin] else if role = Some ''user'' then [U_role Role_user] else [])
       in if updates = [] then (Inr (), w)
          else (case update_user target updates w of (Inl e, w') \<Rightarrow> (Inl e, w') | (Inr u, w') \<Rightarrow> (Inr (), w')))"

definition admin_toggle_user :: "User option \<Rightarrow> str \<Rightarrow> world \<Rightarrow> world" where
  "admin_toggle_user user target w =
    (if \<not> is_admin user \<or> target = u_id (the user) then w
     else (case get_user w target of
        None \<Rightarrow> w
      | Some t \<Rightarrow> snd (update_user target [U_enabled (\<not> u_enabled t)] w)))"

definition admin_delete_user :: "User option \<Rightarrow> str \<Rightarrow> disk_world \<Rightarrow> (py_error + bool) \<times> disk_world" where
  "admin_delete_user user target dw =
    (if \<not> is_admin user \<or> target = u_id (the user) then (Inr False, dw) else delete_user target dw)"

definition admin_create_user ::
  "(str \<Rightarrow> str) \<Rightarrow> str \<Rightarrow> datetime \<Rightarrow> str \<Rightarrow> str \<Rightarrow> str \<Rightarrow> User option \<Rightarrow> str \<Rightarrow> str \<Rightarrow> str \<Rightarrow> str option \<Rightarrow> disk_world
   \<Rightarrow> (py_error + str option) \<times> disk_world"
where
  "admin_create_user hp i now hostname msg bootstrap user role password username store_form dw =
    (if \<not> is_admin user then (Inr None, dw)
     else if role \<notin> {''admin'', ''user''} then (Inr (Some ''Invalid role''), dw)
     else if length password < MIN_PASSWORD_LENGTH then (Inr (Some ''Password must be at least 8 chars''), dw)
     else (case (if truthy store_form then (Inr (the store_form), fst dw)
                 else (case ensure_default_store bootstrap i now (fst dw) of
                         (Inl e, w) \<Rightarrow> (Inl e, w) | (Inr s, w) \<Rightarrow> (Inr (st_id s), w))) of
        (Inl e, w) \<Rightarrow> (Inl e, w, snd dw)
      | (Inr store_id, w) \<Rightarrow>
         (case create_user hp i now hostname msg username password
                 (if role = ''admin'' then Role_admin else Role_user) store_id (w, snd dw) of
            (Inl (ValueError e), dw') \<Rightarrow> (Inr (Some e), dw')
          | (Inl e, dw') \<Rightarrow> (Inl e, dw')
          | (Inr u, w, f) \<Rightarrow> (Inr None, snd (set_allowed_stores (u_id u) [store_id] w), f))))"

section \<open>Temporary users\<close>

lemma sanitise_prefix: "prefix (sanitize_path_component p) (sanitize_path_component (p @ s))"
  by (simp add: sanitize_path_component_def)

lemma temp_proper:
  assumes "is_temp u"
  shows "proper_name (u_username u)"
proof -
  obtain t where "u_username u = ''_restore_'' @ t" using assms by (auto simp: is_temp_def TEMP_USER_PREFIX_def prefix_def)
  moreover have "sanitize_path_component ''_restore_'' = ''_restore_''" by code_simp
  ultimately have "prefix ''_restore_'' (sanitize_path_component (u_username u))" using sanitise_prefix by metis
  then show ?thesis by (auto simp: proper_name_def)
qed

text \<open>Different stores lie in different directories.\<close>

definition stores_apart :: "world \<Rightarrow> bool" where
  "stores_apart w = (\<forall>s \<in> set (mail_stores w). \<forall>t \<in> set (mail_stores w).
     st_id s \<noteq> st_id t \<longrightarrow> apart (path_of (rstrip_slash (st_path s))) (path_of (rstrip_slash (st_path t))))"

lemma remove_home_spares_all:
  assumes u: "proper_name (u_username u)" and v: "v \<in> set (users w)" "u_id v \<noteq> u_id u" "proper_name (u_username v)"
    and home: "user_home w v = Some home" and ap: "stores_apart w"
  shows "mail_at (snd (remove_dovecot_home w u f)) (path_of home) = mail_at f (path_of home)"
proof (cases "u_store_id v = u_store_id u")
  case True
  then show ?thesis using remove_home_spares [OF u v(1,2) _ home v(3)] by blast
next
  case False
  obtain t where t: "get_store w (u_store_id v) = Some t" "home = dovecot_home_dir (st_path t) (u_username v)"
    using home by (auto simp: user_home_def)
  have "\<not> prefix (path_of hu) (path_of home @ r)" if hu: "user_home w u = Some hu" for hu r
  proof -
    obtain s where s: "get_store w (u_store_id u) = Some s" "hu = dovecot_home_dir (st_path s) (u_username u)"
      using hu by (auto simp: user_home_def)
    have "apart (path_of (rstrip_slash (st_path s))) (path_of (rstrip_slash (st_path t)))"
      using ap s(1) t(1) False row_SomeD [OF s(1)] row_SomeD [OF t(1)] unfolding stores_apart_def by metis
    then have "\<not> prefix (path_of (rstrip_slash (st_path s))) (path_of (rstrip_slash (st_path t)) @ q)" for q
      by (rule apart_below)
    then show ?thesis
      unfolding s(2) t(2) path_of_home [OF u] path_of_home [OF v(3)] by (metis append.assoc append_prefixD)
  qed
  then show ?thesis by (auto simp: mail_at_def remove_home_mem)
qed

lemma drop_user_rows [simp]:
  "users (drop_user k w) = filter (\<lambda>u. u_id u \<noteq> k) (users w)" "mail_stores (drop_user k w) = mail_stores w"
  "account_owners (drop_user k w) = filter (\<lambda>p. snd p \<noteq> k) (account_owners w)" "accounts (drop_user k w) = accounts w"
  "groups (drop_user k w) = groups w"
  by (simp_all add: drop_user_def Let_def)

lemma retire_pair: "retire_user u (w, f) = (drop_user (u_id u) w, snd (remove_dovecot_home w u f))"
  by (simp add: retire_user_def)

lemma retire_fold:
  assumes "\<And>u. u \<in> set us \<Longrightarrow> is_temp u \<and> u_id u \<noteq> u_id v" and "v \<in> set (users w)" "proper_name (u_username v)"
    and "user_home w v = Some home" "stores_apart w"
  shows "v \<in> set (users (fst (fold retire_user us (w, f))))
    \<and> (\<forall>a. (a, u_id v) \<in> set (account_owners w) \<longrightarrow> (a, u_id v) \<in> set (account_owners (fst (fold retire_user us (w, f)))))
    \<and> mail_at (snd (fold retire_user us (w, f))) (path_of home) = mail_at f (path_of home)"
  using assms
proof (induction us arbitrary: w f)
  case (Cons u us)
  let ?w = "drop_user (u_id u) w" and ?f = "snd (remove_dovecot_home w u f)"
  have u: "is_temp u" "u_id u \<noteq> u_id v" using Cons.prems(1) by auto
  have "user_home ?w v = Some home" using Cons.prems(4) by (simp add: user_home_def)
  moreover have "stores_apart ?w" using Cons.prems(5) by (simp add: stores_apart_def)
  moreover have "v \<in> set (users ?w)" using Cons.prems(2) u(2) by simp
  ultimately have IH: "v \<in> set (users (fst (fold retire_user us (?w, ?f))))
    \<and> (\<forall>a. (a, u_id v) \<in> set (account_owners ?w) \<longrightarrow> (a, u_id v) \<in> set (account_owners (fst (fold retire_user us (?w, ?f)))))
    \<and> mail_at (snd (fold retire_user us (?w, ?f))) (path_of home) = mail_at ?f (path_of home)"
    using Cons.IH [of ?w ?f] Cons.prems(1,3) by auto
  have "mail_at ?f (path_of home) = mail_at f (path_of home)"
    using remove_home_spares_all [OF temp_proper [OF u(1)] Cons.prems(2) _ Cons.prems(3,4,5)] u(2) by metis
  then show ?case using IH u(2) by (simp add: retire_pair)
qed simp

text \<open>
  C16. The hourly cleanup of restore users never touches a person: whoever has no reserved name,
  or a younger restore user, keeps his row, his mailboxes and every file of his Dovecot home,
  whatever the cleanup came to.
\<close>

theorem temp_cleanup_spares_people:
  assumes v: "v \<in> set (users w)" "\<not> is_temp v \<or> now - hours 1 \<le> u_created_at v" and pk: "pk u_id (users w)"
    and home: "user_home w v = Some home" "proper_name (u_username v)" "stores_apart w"
    and run: "cleanup_temp_imap_users now (w, f) = (r, w', f')"
  shows "v \<in> set (users w') \<and> (\<forall>a. (a, u_id v) \<in> set (account_owners w) \<longrightarrow> (a, u_id v) \<in> set (account_owners w'))
    \<and> mail_at f' (path_of home) = mail_at f (path_of home)"
proof -
  have us: "is_temp u \<and> u_id u \<noteq> u_id v" if "u \<in> set (expired_temp_users now w)" for u
  proof -
    have u: "u \<in> set (users w)" "is_temp u" "u_created_at u < now - hours 1" using that by (auto simp: expired_temp_users_def)
    then have "u \<noteq> v" using v(2) by auto
    then show ?thesis using u(1,2) v(1) pk row_SomeI [OF pk] by (metis option.inject)
  qed
  note kept = retire_fold [OF us v(1) home(2,1,3), of "expired_temp_users now w" f]
  show ?thesis
    using run kept v(1) by (auto simp: cleanup_temp_imap_users_def Let_def split: if_splits)
qed

section \<open>Deleting a user\<close>

text \<open>
  Deleting a user who owns a group, requested a restore or was ever migrated fails at the
  database, but only after his Dovecot home is gone: he stays, his staged and inbox mail does not.
\<close>

lemma failed_user_deletion_removes_home:
  assumes user: "get_user w k = Some u" and used: "user_in_use w k"
    and home: "user_home w u = Some home" "\<not> home_collides w u" "is_dir f (path_of home)"
  shows "\<exists>f'. delete_user k (w, f) = (Inl IntegrityError, w, f') \<and> mail_at f' (path_of home) = {}"
proof -
  have "snd (remove_dovecot_home w u f) = rmtree (path_of home) f"
    using home by (simp add: remove_dovecot_home_def Let_def)
  then show ?thesis using user used by (simp add: delete_user_def Let_def mail_at_def rmtree_mem)
qed

text \<open>
  The name \<open>..\<close> passes the sanitiser unchanged, so the Dovecot home of such a user is the
  directory of the store itself: deleting him deletes every mailbox of the store.
\<close>

lemma dotdot_user_deletion_empties_store:
  assumes user: "get_user w k = Some u" "u_username u = ''..''" and free: "\<not> user_in_use w k"
    and st: "get_store w (u_store_id u) = Some s" and alone: "\<not> home_collides w u"
    and dir: "is_dir f (path_of (rstrip_slash (st_path s)))"
  shows "\<exists>w' f'. delete_user k (w, f) = (Inr True, w', f') \<and> mail_at f' (path_of (rstrip_slash (st_path s))) = {}"
proof -
  have san: "sanitize_path_component ''..'' = ''..''" by code_simp
  have "dovecot_home_dir (st_path s) ''..'' = (rstrip_slash (st_path s) @ ''/.dovecot-home'') @ ''/..''"
    by (simp add: dovecot_home_dir_def rstrip_slash_def san)
  then have "path_of (dovecot_home_dir (st_path s) ''..'') = butlast (path_of (rstrip_slash (st_path s) @ ''/.dovecot-home''))"
    by (simp only: path_of_dot)
  also have "path_of (rstrip_slash (st_path s) @ ''/.dovecot-home'') = path_of (rstrip_slash (st_path s)) @ [''.dovecot-home'']"
    using path_of_snoc [of "''.dovecot-home''" "rstrip_slash (st_path s)"] by simp
  finally have home: "user_home w u = Some (dovecot_home_dir (st_path s) ''..'')"
      "path_of (dovecot_home_dir (st_path s) ''..'') = path_of (rstrip_slash (st_path s))"
    using st user(2) by (simp_all add: user_home_def)
  then have "snd (remove_dovecot_home w u f) = rmtree (path_of (rstrip_slash (st_path s))) f"
    using alone dir by (simp add: remove_dovecot_home_def Let_def)
  then show ?thesis using user free by (simp add: delete_user_def Let_def mail_at_def rmtree_mem)
qed

section \<open>Administrators\<close>

text \<open>
  The last administrator can take his own role away. When his name is \<open>admin\<close>, the next
  start finds no administrator, tries to create one of that name, and fails: the application does
  not start any more.
\<close>

lemma last_admin_demoted_blocks_start:
  assumes a: "get_user w k = Some a" "u_role a = Role_admin" "u_username a = ''admin''"
    and only: "\<And>u. u \<in> set (users w) \<Longrightarrow> u_role u = Role_admin \<Longrightarrow> u_id u = k" and pk: "pk u_id (users w)"
    and names: "pk u_username (users w)" and st: "get_store w (u_store_id a) \<noteq> None"
  shows "\<exists>w'. admin_edit_user (Some a) k [] (Some ''user'') w = (Inr (), w')
    \<and> ensure_admin_exists hp i now host msg store (w', f) = (Inl IntegrityError, w', f)"
proof -
  let ?w = "upd_user k (\<lambda>u. u\<lparr>u_role := Role_user\<rparr>) w"
  have k: "u_id a = k" and mem: "a \<in> set (users w)" using row_SomeD [OF a(1)] by auto
  have uniq: "\<not> (\<exists>v \<in> set (users w). u_id v \<noteq> k \<and> u_username v = u_username a)"
    using names mem k row_SomeI [OF names] by (metis option.inject)
  have field: "set_user_field (U_role Role_user) = (\<lambda>u. u\<lparr>u_role := Role_user\<rparr>)" by (rule ext) simp
  have edit: "admin_edit_user (Some a) k [] (Some ''user'') w = (Inr (), ?w)"
    using a(1,2) uniq st by (simp add: admin_edit_user_def is_admin_def update_user_def strip_def field Let_def)
  have "u_role u \<noteq> Role_admin" if "u \<in> set (users ?w)" for u
    using that only by (auto simp: set_row_def)
  moreover have "''admin'' \<in> u_username ` set (users ?w)"
  proof -
    have "a\<lparr>u_role := Role_user\<rparr> \<in> set (users ?w)" using mem k by (force simp: set_row_def)
    then show ?thesis using a(3) by force
  qed
  ultimately have "ensure_admin_exists hp i now host msg store (?w, f) = (Inl IntegrityError, ?w, f)"
    by (auto simp: ensure_admin_exists_def create_user_def TEMP_USER_PREFIX_def)
  with edit show ?thesis by blast
qed

text \<open>
  A password reset through the administration pages happens only for an administrator who
  has no password of his own, has proved it within the last minute, or proves it now; a wrong or
  missing password changes nothing.
\<close>

lemma password_reset_guarded:
  assumes "admin_change_user_password hp vp now user verified_at k new pw w = (flash, verified', w')" "w' \<noteq> w"
  shows "\<exists>admin. user = Some admin \<and> u_role admin = Role_admin \<and> length new \<ge> 8
    \<and> w' = upd_user k (\<lambda>u. u\<lparr>u_password_hash := Some (hp new)\<rparr>) w
    \<and> (\<not> truthy (u_password_hash admin) \<or> (\<exists>t. verified_at = Some t \<and> now - t < seconds 60)
       \<or> (\<exists>p. pw = Some p \<and> vp p (the (u_password_hash admin)) \<and> verified' = Some now))"
proof -
  obtain admin where user: "user = Some admin" "u_role admin = Role_admin"
    using assms by (cases user) (auto simp: admin_change_user_password_def is_admin_def split: if_splits)
  have len: "length new \<ge> 8"
    using assms by (auto simp: admin_change_user_password_def MIN_PASSWORD_LENGTH_def is_admin_def user split: if_splits)
  let ?ask = "truthy (u_password_hash admin) \<and> \<not> admin_pw_verified now verified_at"
  have pw: "\<not> ?ask \<or> (truthy pw \<and> vp (the pw) (the (u_password_hash admin)))"
    using assms len by (auto simp: admin_change_user_password_def MIN_PASSWORD_LENGTH_def is_admin_def user Let_def split: if_splits)
  have "w' = snd (change_password hp k new w) \<and> verified' = (if ?ask then Some now else verified_at)"
    using assms(1) pw len user
    by (auto simp: admin_change_user_password_def MIN_PASSWORD_LENGTH_def is_admin_def Let_def
        split: if_splits sum.splits prod.splits py_error.splits)
  moreover have "snd (change_password hp k new w) \<in> {w, upd_user k (\<lambda>u. u\<lparr>u_password_hash := Some (hp new)\<rparr>) w}"
    by (simp add: change_password_def split: option.split)
  ultimately have w': "w' = upd_user k (\<lambda>u. u\<lparr>u_password_hash := Some (hp new)\<rparr>) w"
    and v: "verified' = (if ?ask then Some now else verified_at)" using assms(2) by auto
  show ?thesis
    using user len w' v pw by (cases pw; cases verified_at) (auto simp: admin_pw_verified_def)
qed

lemma admin_edit_owners: "account_owners (snd (admin_edit_user user k name role w)) = account_owners w"
proof -
  have owners: "account_owners (snd (update_user k kw w)) = account_owners w" for kw
    by (simp add: update_user_def upd_user_def Let_def split: option.split)
  then have "account_owners (snd (case update_user k kw w of (Inl e, w') \<Rightarrow> (Inl e, w') | (Inr u, w') \<Rightarrow> (Inr (), w'))) = account_owners w" for kw
  proof -
    obtain r w' where u: "update_user k kw w = (r, w')" by fastforce
    have "account_owners w' = account_owners w"
      using owners [of kw] by (simp add: u)
    then show ?thesis by (cases r) (simp_all add: u)
  qed
  then show ?thesis unfolding admin_edit_user_def Let_def by simp
qed

lemma fold_retire_rows:
  "users (fst (fold retire_user us dw)) = filter (\<lambda>u. u_id u \<notin> u_id ` set us) (users (fst dw))
   \<and> account_owners (fst (fold retire_user us dw)) = filter (\<lambda>p. snd p \<notin> u_id ` set us) (account_owners (fst dw))"
  by (induction us arbitrary: dw) (auto simp: retire_user_def intro!: filter_cong)

text \<open>
  The reserved prefix is refused when a user is created but not when he is renamed. A person
  whom an administrator renames into it is deleted by the next cleanup, together with the
  ownership of all his mailboxes.
\<close>

lemma renamed_person_is_reaped:
  assumes admin: "u_role admin = Role_admin" and user: "get_user w k = Some u" "u_created_at u < now - hours 1"
    and name: "name = TEMP_USER_PREFIX @ t" "strip name = name" "name \<notin> u_username ` set (users w)"
    and st: "get_store w (u_store_id u) \<noteq> None" and free: "\<And>v. \<not> user_in_use w v"
  shows "\<exists>w1 n w2 f2. admin_edit_user (Some admin) k name None w = (Inr (), w1)
    \<and> cleanup_temp_imap_users now (w1, f) = (Inr n, w2, f2)
    \<and> get_user w2 k = None \<and> (\<forall>a. (a, k) \<notin> set (account_owners w2))"
proof -
  have field: "set_user_field (U_username name) = (\<lambda>u. u\<lparr>u_username := name\<rparr>)" by (rule ext) simp
  define w1 where "w1 = upd_user k (\<lambda>u. u\<lparr>u_username := name\<rparr>) w"
  have k: "u_id u = k" "u \<in> set (users w)" using row_SomeD [OF user(1)] by auto
  have ne: "strip name \<noteq> []" using name(1,2) by (simp add: TEMP_USER_PREFIX_def)
  have edit: "admin_edit_user (Some admin) k name None w = (Inr (), w1)"
    unfolding w1_def using admin user(1) ne name(2,3) st
    by (auto simp: admin_edit_user_def is_admin_def update_user_def field Let_def)
  have "u\<lparr>u_username := name\<rparr> \<in> set (users w1)" using k by (force simp: w1_def set_row_def)
  then have old: "u\<lparr>u_username := name\<rparr> \<in> set (expired_temp_users now w1)"
    using user(2) name(1) by (simp add: expired_temp_users_def is_temp_def)
  have free1: "\<not> user_in_use w1 v" for v
    using free [of v] by (simp add: user_in_use_def w1_def upd_user_def)
  have k_old: "k \<in> u_id ` set (expired_temp_users now w1)" using imageI [OF old, of u_id] k(1) by simp
  obtain n w2 f2 where run: "cleanup_temp_imap_users now (w1, f) = (Inr n, w2, f2)"
    and w2: "w2 = fst (fold retire_user (expired_temp_users now w1) (w1, f))"
  proof -
    have "expired_temp_users now w1 \<noteq> []" using old by auto
    then have "cleanup_temp_imap_users now (w1, f)
        = (Inr (length (expired_temp_users now w1)), fold retire_user (expired_temp_users now w1) (w1, f))"
      using free1 by (simp add: cleanup_temp_imap_users_def Let_def)
    then show ?thesis using that by (metis prod.collapse)
  qed
  define gone where "gone = u_id ` set (expired_temp_users now w1)"
  have rows: "users w2 = filter (\<lambda>u. u_id u \<notin> gone) (users w1)" "account_owners w2 = filter (\<lambda>p. snd p \<notin> gone) (account_owners w1)"
    using fold_retire_rows [of "expired_temp_users now w1" "(w1, f)"] by (simp_all add: w2 gone_def)
  have "k \<in> gone" using k_old by (simp add: gone_def)
  then have "get_user w2 k = None" "\<forall>a. (a, k) \<notin> set (account_owners w2)"
    unfolding row_None rows by auto
  with edit run show ?thesis by blast
qed

section \<open>Witnesses\<close>

definition house_fs :: fs where
  "house_fs = [([''m''], Dir), ([''m'', ''a1''], Dir), ([''m'', ''a1'', ''1''], File ''hello''),
     ([''m'', ''.dovecot-home''], Dir), ([''m'', ''.dovecot-home'', ''ann''], Dir),
     ([''m'', ''.dovecot-home'', ''ann'', ''1''], File ''draft'')]"

definition house :: "User list \<Rightarrow> world" where
  "house us = mig_world\<lparr>users := us\<rparr>"

lemma house_facts:
  "users (house us) = us" "groups (house us) = groups shared_world" "restore_jobs (house us) = []"
  "store_migrations (house us) = []" "account_owners (house us) = account_owners shared_world"
  "get_store (house us) ''s1'' = Some \<lparr> st_id = ''s1'', st_name = ''s'', st_path = ''/m'', st_enabled = True, st_is_default = True, st_created_at = 0 \<rparr>"
  by (simp_all add: house_def mig_world_def shared_defs)

lemma house_homes:
  "path_of (dovecot_home_dir ''/m'' ''ann'') = [''m'', ''.dovecot-home'', ''ann'']" "proper_name ''ann''"
  "path_of (rstrip_slash ''/m'') = [''m'']"
  by code_simp+

lemma house_apart: "stores_apart (house us)"
proof -
  have "mail_stores (house us) = mail_stores mig_world" by (simp add: house_def)
  moreover have "stores_apart mig_world" by code_simp
  ultimately show ?thesis by (simp add: stores_apart_def)
qed

definition old_temp :: User where
  "old_temp = new_user ''u9'' ''_restore_ab12'' None Role_user ''s1'' 0"

lemma house_home: "user_home (house us) ann = Some (dovecot_home_dir ''/m'' ''ann'')"
  using house_facts(6) [of us] by (simp add: user_home_def ann_def new_user_def)

theorem temp_cleanup_spares_people_witness:
  "let (r, w', f') = cleanup_temp_imap_users (hours 2) (house [ann, old_temp], house_fs) in
    ann \<in> set (users w') \<and> mail_at f' [''m'', ''.dovecot-home'', ''ann''] = mail_at house_fs [''m'', ''.dovecot-home'', ''ann'']"
proof -
  obtain r w' f' where run: "cleanup_temp_imap_users (hours 2) (house [ann, old_temp], house_fs) = (r, w', f')"
    by (metis prod_cases3)
  have v: "ann \<in> set (users (house [ann, old_temp]))" "\<not> is_temp ann" "pk u_id (users (house [ann, old_temp]))"
    "proper_name (u_username ann)"
    using house_homes(2) by (simp_all add: house_facts is_temp_def TEMP_USER_PREFIX_def pk_def ann_def old_temp_def new_user_def)
  show ?thesis
    using temp_cleanup_spares_people [OF v(1) _ v(3) house_home v(4) house_apart run] v(2) by (simp add: run house_homes)
qed

definition group_house :: world where
  "group_house = (house [ann])"

definition dots :: User where "dots = new_user ''u7'' ''..'' None Role_user ''s1'' 0"

end
