(* ===== verification/Restore_Folders.thy ===== *)
theory Restore_Folders
  imports Scheduler Access_Tokens
begin

text \<open>
  The pure part of \<open>services/restore_worker.py\<close>: names of mailboxes between the two servers (the
  hierarchy separator, the mapping to a destination, the wire encoding), and what is read out of
  IMAP responses. Strings are UTF-8 bytes; \<open>utf8_points\<close> gives the code points of a valid one.
\<close>

section \<open>Reading responses\<close>

text \<open>\<open>re.search('"(.)"', line)\<close> on the answer to \<open>LIST "" ""\<close>; anything else gives the slash.\<close>

fun quoted_char :: "str \<Rightarrow> char option" where
  "quoted_char (a # b # c # s) =
    (if a = CHR 0x22 \<and> c = CHR 0x22 \<and> b \<noteq> CHR 0x0A then Some b else quoted_char (b # c # s))"
| "quoted_char _ = None"

definition get_hierarchy_separator :: "str option \<Rightarrow> char" where
  "get_hierarchy_separator answer =
    (case Option.bind answer quoted_char of Some c \<Rightarrow> c | None \<Rightarrow> CHR ''/'')"

text \<open>\<open>s.rsplit(sep, 1)\<close>: the two parts around the last occurrence, if there is one.\<close>

definition rsplit_once :: "str \<Rightarrow> str \<Rightarrow> (str \<times> str) option" where
  "rsplit_once sep s =
    (let ks = filter (\<lambda>k. prefix sep (drop k s)) [0..<length s]
     in if ks = [] then None else Some (take (last ks) s, drop (last ks + length sep) s))"

definition removeprefix :: "str \<Rightarrow> str \<Rightarrow> str" where
  "removeprefix p s = (if prefix p s then drop (length p) s else s)"

definition rstrip_quote :: "str \<Rightarrow> str" where
  "rstrip_quote s = rev (dropWhile (\<lambda>c. c = CHR 0x22) (rev s))"

definition listed_folder :: "str \<Rightarrow> str \<Rightarrow> (str \<times> str) list" where
  "listed_folder namespace_prefix item =
    (case rsplit_once [CHR 0x22, CHR '' '', CHR 0x22] item of
       None \<Rightarrow> []
     | Some (_, right) \<Rightarrow> (let folder = rstrip_quote right in [(folder, removeprefix namespace_prefix folder)]))"

text \<open>The folders of a job, each with its full name at the source and its short one.\<close>

definition resolve_folders :: "str list option \<Rightarrow> str \<Rightarrow> RestoreJob \<Rightarrow> (str \<times> str) list" where
  "resolve_folders listing namespace_prefix job =
    (case rj_selected_uids job of
       Some (u # us) \<Rightarrow> map (\<lambda>(folder, uids). (folder, folder)) (u # us)
     | _ \<Rightarrow>
        (case listing of
           None \<Rightarrow> []
         | Some items \<Rightarrow>
            let all_folders = concat (map (listed_folder namespace_prefix) (filter (\<lambda>i. i \<noteq> []) items))
            in (case rj_selected_folders job of
                 Some (s # ss) \<Rightarrow> filter (\<lambda>(full, short). short \<in> set (s # ss)) all_folders
               | _ \<Rightarrow> all_folders)))"

text \<open>\<open>str.splitlines\<close> with the line boundaries of ASCII, and the Message-ID lines of the headers.\<close>

definition line_end :: "char \<Rightarrow> bool" where
  "line_end c = (c \<in> set [CHR 0x0A, CHR 0x0B, CHR 0x0C, CHR 0x0D, CHR 0x1C, CHR 0x1D, CHR 0x1E])"

fun splitlines :: "str \<Rightarrow> str list" where
  "splitlines [] = []"
| "splitlines (c # s) =
    (if c = CHR 0x0D \<and> s \<noteq> [] \<and> hd s = CHR 0x0A then [] # splitlines (tl s)
     else if line_end c then [] # splitlines s
     else (case splitlines s of [] \<Rightarrow> [[c]] | l # ls \<Rightarrow> (c # l) # ls))"

definition message_ids_of :: "str \<Rightarrow> str list" where
  "message_ids_of header =
    map (\<lambda>l. strip (snd (str_partition CHR '':'' l)))
      (filter (\<lambda>l. prefix ''message-id:'' (lower l)) (splitlines header))"

text \<open>The flags of a FETCH answer, without \<open>\Recent\<close>, as they are given to APPEND.\<close>

fun find_after :: "str \<Rightarrow> str \<Rightarrow> str option" where
  "find_after pat [] = (if pat = [] then Some [] else None)"
| "find_after pat (c # s) = (if prefix pat (c # s) then Some (drop (length pat) (c # s)) else find_after pat s)"

definition flags_of :: "str \<Rightarrow> str" where
  "flags_of meta =
    (case find_after ''FLAGS ('' meta of
       None \<Rightarrow> []
     | Some rest \<Rightarrow>
        if CHR '')'' \<notin> set rest then []
        else join '' '' (filter (\<lambda>f. lower f \<noteq> CHR 0x5C # ''recent'') (words (takeWhile (\<lambda>c. c \<noteq> CHR '')'') rest))))"

section \<open>Names at the destination\<close>

definition replace_char :: "char \<Rightarrow> char \<Rightarrow> str \<Rightarrow> str" where
  "replace_char a b s = map (\<lambda>c. if c = a then b else c) s"

definition escape_separator :: "char \<Rightarrow> str \<Rightarrow> str" where
  "escape_separator sep s = (if sep \<noteq> CHR ''/'' then replace_char sep CHR ''_'' s else s)"

definition native_name :: "str \<Rightarrow> str \<Rightarrow> str" where
  "native_name src_prefix name =
    (let name = (if src_prefix \<noteq> [] then removeprefix src_prefix name else name)
     in if prefix ''Recovery - '' name \<and> CHR ''/'' \<in> set name then snd (str_partition CHR ''/'' name) else name)"

definition map_folder :: "str \<Rightarrow> str \<Rightarrow> char \<Rightarrow> str \<Rightarrow> str" where
  "map_folder folder_name folder_mapping sep src_prefix =
    (let converted = replace_char CHR ''/'' sep (escape_separator sep (native_name src_prefix folder_name))
     in if folder_mapping = ''original'' then converted
        else replace_char CHR ''/'' sep (escape_separator sep folder_mapping) @ [sep] @ converted)"

section \<open>Modified UTF-7\<close>

fun utf8_points :: "nat list \<Rightarrow> nat list" where
  "utf8_points [] = []"
| "utf8_points (a # s) =
    (if a < 128 then a # utf8_points s
     else if a < 224 then (case s of b # t \<Rightarrow> ((a - 192) * 64 + (b - 128)) # utf8_points (drop 1 s) | [] \<Rightarrow> [])
     else if a < 240 then
       (case s of b # c # t \<Rightarrow> ((a - 224) * 4096 + (b - 128) * 64 + (c - 128)) # utf8_points (drop 2 s) | _ \<Rightarrow> [])
     else (case s of b # c # d # t \<Rightarrow>
         ((a - 240) * 262144 + (b - 128) * 4096 + (c - 128) * 64 + (d - 128)) # utf8_points (drop 3 s) | _ \<Rightarrow> []))"

definition utf16be :: "nat \<Rightarrow> nat list" where
  "utf16be p =
    (let unit = (\<lambda>u. [u div 256, u mod 256])
     in if p < 65536 then unit p
        else unit (55296 + (p - 65536) div 1024) @ unit (56320 + (p - 65536) mod 1024))"

fun base64_digits :: "nat list \<Rightarrow> nat list" where
  "base64_digits (a # b # c # s) =
    [a div 4, a mod 4 * 16 + b div 16, b mod 16 * 4 + c div 64, c mod 64] @ base64_digits s"
| "base64_digits [a, b] = [a div 4, a mod 4 * 16 + b div 16, b mod 16 * 4]"
| "base64_digits [a] = [a div 4, a mod 4 * 16]"
| "base64_digits [] = []"

definition base64_char :: "nat \<Rightarrow> char" where
  "base64_char n = char_of
    (if n < 26 then 65 + n else if n < 52 then 71 + n else if n < 62 then n - 4 else if n = 62 then 43 else 44)"

definition shift_run :: "nat list \<Rightarrow> str" where
  "shift_run run =
    (if run = [] then [] else ''&'' @ map base64_char (base64_digits (concat (map utf16be run))) @ ''-'')"

fun utf7_points :: "nat list \<Rightarrow> nat list \<Rightarrow> str" where
  "utf7_points run [] = shift_run run"
| "utf7_points run (p # ps) =
    (if 32 \<le> p \<and> p \<le> 126
     then shift_run run @ (if p = 38 then ''&-'' else [char_of p]) @ utf7_points [] ps
     else utf7_points (run @ [p]) ps)"

definition is_ascii :: "str \<Rightarrow> bool" where
  "is_ascii s = list_all (\<lambda>c. (of_char c :: nat) < 128) s"

definition imap_utf7_encode :: "str \<Rightarrow> str" where
  "imap_utf7_encode name =
    (if is_ascii name then name else utf7_points [] (utf8_points (map of_char name)))"

section \<open>The hierarchy is kept\<close>

lemma split_on_map:
  "\<forall>x \<in> set s. g x = c \<longleftrightarrow> x = d \<Longrightarrow> split_on c (map g s) = map (map g) (split_on d s)"
  by (induction s) (auto split: list.split)

lemma split_on_join_two: "split_on c (s @ c # t) = split_on c s @ split_on c t"
  by (induction s) (auto split: list.split simp: split_on_nonempty)

lemma split_on_free: "x \<in> set (split_on c s) \<Longrightarrow> c \<notin> set x"
  by (induction s arbitrary: x) (auto split: if_splits list.splits)

lemma split_converted:
  assumes "sep \<noteq> CHR ''_''"
  shows "split_on sep (replace_char CHR ''/'' sep (escape_separator sep s)) = map (escape_separator sep) (split_on CHR ''/'' s)"
proof (cases "sep = CHR ''/''")
  case True
  then show ?thesis by (simp add: escape_separator_def replace_char_def map_idI split_on_map)
next
  case False
  let ?g = "\<lambda>c. if c = sep then CHR ''_'' else if c = CHR ''/'' then sep else c"
  let ?e = "\<lambda>c. if c = sep then CHR ''_'' else c"
  have "replace_char CHR ''/'' sep (escape_separator sep s) = map ?g s"
    using False by (simp add: escape_separator_def replace_char_def)
  moreover have "split_on sep (map ?g s) = map (map ?g) (split_on CHR ''/'' s)"
    using False assms by (intro split_on_map) auto
  moreover have "map (map ?g) (split_on CHR ''/'' s) = map (escape_separator sep) (split_on CHR ''/'' s)"
  proof (rule map_cong [OF refl])
    fix x assume "x \<in> set (split_on CHR ''/'' s)"
    then have "CHR ''/'' \<notin> set x" by (rule split_on_free)
    then show "map ?g x = escape_separator sep x"
      using False by (auto simp: escape_separator_def replace_char_def)
  qed
  ultimately show ?thesis by simp
qed



section \<open>Modified UTF-7 can be read back\<close>

text \<open>A decoder after RFC 3501, section 5.1.3, as the specification of the encoder.\<close>

fun base64_bytes :: "nat list \<Rightarrow> nat list" where
  "base64_bytes (a # b # c # d # s) =
    [a * 4 + b div 16, b mod 16 * 16 + c div 4, c mod 4 * 64 + d] @ base64_bytes s"
| "base64_bytes [a, b, c] = [a * 4 + b div 16, b mod 16 * 16 + c div 4]"
| "base64_bytes [a, b] = [a * 4 + b div 16]"
| "base64_bytes _ = []"

definition base64_value :: "char \<Rightarrow> nat" where
  "base64_value c =
    (let n = of_char c in if n = 43 then 62 else if n = 44 then 63 else if n < 58 then n + 4 else if n < 91 then n - 65 else n - 71)"

fun utf16_points :: "nat list \<Rightarrow> nat list" where
  "utf16_points (h # l # s) =
    (let u = h * 256 + l
     in if 55296 \<le> u \<and> u < 56320 \<and> length s \<ge> 2
        then (65536 + (u - 55296) * 1024 + (s ! 0 * 256 + s ! 1 - 56320)) # utf16_points (drop 2 s)
        else u # utf16_points s)"
| "utf16_points _ = []"

function utf7_decode :: "str \<Rightarrow> nat list" where
  "utf7_decode [] = []"
| "utf7_decode (c # s) =
    (if c \<noteq> CHR ''&'' then of_char c # utf7_decode s
     else (let run = takeWhile (\<lambda>x. x \<noteq> CHR ''-'') s; rest = drop (Suc (length run)) s
           in (if run = [] then [38] else utf16_points (base64_bytes (map base64_value run))) @ utf7_decode rest))"
  by pat_completeness auto
termination by (relation "measure length") auto

definition is_point :: "nat \<Rightarrow> bool" where
  "is_point p = (p < 1114112 \<and> \<not> (55296 \<le> p \<and> p < 57344))"

lemma digit_pair:
  fixes n :: nat
  assumes "n < m * k" "k > 0"
  shows "(x * m + n div k) div m = x" "(x * m + n div k) mod m = n div k"
proof -
  have "n div k < m" using assms by (simp add: less_mult_imp_div_less)
  then show "(x * m + n div k) div m = x" "(x * m + n div k) mod m = n div k" by simp_all
qed

lemma base64_round_trip: "list_all (\<lambda>b. b < 256) bs \<Longrightarrow> base64_bytes (base64_digits bs) = bs"
proof (induction bs rule: base64_digits.induct)
  case (1 a b c s)
  then have "b < 16 * 16" "c < 4 * 64" by auto
  then show ?case using 1 digit_pair [of b 16 16 "a mod 4"] digit_pair [of c 4 64 "b mod 16"] by simp
next
  case (2 a b)
  then have "b < 16 * 16" by auto
  then show ?case using digit_pair [of b 16 16 "a mod 4"] by simp
qed simp_all

lemma base64_char_facts:
  assumes "n < 64"
  shows "base64_value (base64_char n) = n" "base64_char n \<noteq> CHR ''-''" "(of_char (base64_char n) :: nat) < 128"
proof -
  define v where "v = (if n < 26 then 65 + n else if n < 52 then 71 + n else if n < 62 then n - 4 else if n = 62 then 43 else 44)"
  have v: "v < 128" "v \<noteq> 45" using assms by (auto simp: v_def)
  have code: "(of_char (base64_char n) :: nat) = v" using v(1) by (simp add: base64_char_def v_def)
  then show "(of_char (base64_char n) :: nat) < 128" using v(1) by simp
  show "base64_char n \<noteq> CHR ''-''" using code v(2) by auto
  show "base64_value (base64_char n) = n" unfolding base64_value_def Let_def code using assms by (auto simp: v_def)
qed

lemma base64_digits_small: "list_all (\<lambda>b. b < 256) bs \<Longrightarrow> list_all (\<lambda>d. d < 64) (base64_digits bs)"
proof (induction bs rule: base64_digits.induct)
  case (1 a b c s)
  then have "a div 4 < 64" "b div 16 < 16" "c div 64 < 4" "a mod 4 < 4" "b mod 16 < 16" "c mod 64 < 64" by auto
  then have "a div 4 < 64" "a mod 4 * 16 + b div 16 < 64" "b mod 16 * 4 + c div 64 < 64" "c mod 64 < 64" by linarith+
  then show ?case using 1 by simp
next
  case (2 a b)
  then have "a div 4 < 64" "b div 16 < 16" "a mod 4 < 4" "b mod 16 < 16" by auto
  then have "a div 4 < 64" "a mod 4 * 16 + b div 16 < 64" "b mod 16 * 4 < 64" by linarith+
  then show ?case by simp
next
  case (3 a)
  then have "a div 4 < 64" "a mod 4 < 4" by auto
  then have "a div 4 < 64" "a mod 4 * 16 < 64" by linarith+
  then show ?case by simp
qed simp

lemma utf16_bytes: "is_point p \<Longrightarrow> list_all (\<lambda>b. b < 256) (utf16be p)"
  by (auto simp: is_point_def utf16be_def Let_def)

lemma utf16_first:
  assumes "is_point p"
  shows "utf16_points (utf16be p @ s) = p # utf16_points s"
proof (cases "p < 65536")
  case True
  then have "utf16be p = [p div 256, p mod 256]" by (simp add: utf16be_def)
  moreover have "\<not> (55296 \<le> p \<and> p < 56320)" using assms by (auto simp: is_point_def)
  ultimately show ?thesis by auto
next
  case False
  define q where "q = p - 65536"
  have q: "q < 1048576" "p = 65536 + q" using assms False by (auto simp: is_point_def q_def)
  define h where "h = 55296 + q div 1024"
  define l where "l = 56320 + q mod 1024"
  have h: "55296 \<le> h" "h < 56320" using q(1) by (auto simp: h_def)
  have "utf16be p = [h div 256, h mod 256, l div 256, l mod 256]"
    using False by (simp add: utf16be_def Let_def h_def l_def q_def)
  then have "utf16_points (utf16be p @ s) = (65536 + (h - 55296) * 1024 + (l - 56320)) # utf16_points s"
    using h by simp
  then show ?thesis by (simp add: h_def l_def q(2))
qed

lemma utf16_round_trip: "list_all is_point ps \<Longrightarrow> utf16_points (concat (map utf16be ps)) = ps"
  by (induction ps) (simp_all add: utf16_first)

lemma decode_shift_run:
  assumes "list_all is_point run"
  shows "utf7_decode (shift_run run @ t) = run @ utf7_decode t"
proof (cases "run = []")
  case False
  define bs where "bs = concat (map utf16be run)"
  define ds where "ds = base64_digits bs"
  have bytes: "list_all (\<lambda>b. b < 256) bs" using assms unfolding bs_def by (induction run) (simp_all add: utf16_bytes)
  have small: "list_all (\<lambda>d. d < 64) ds" unfolding ds_def by (rule base64_digits_small [OF bytes])
  have "bs \<noteq> []" using False by (cases run) (auto simp: bs_def utf16be_def Let_def)
  then have ds: "ds \<noteq> []" unfolding ds_def by (cases bs rule: base64_digits.cases) auto
  have vals: "map base64_value (map base64_char ds) = ds"
    using small base64_char_facts(1) by (simp add: map_idI list_all_iff)
  have run: "takeWhile (\<lambda>x. x \<noteq> CHR ''-'') (map base64_char ds @ ''-'' @ t) = map base64_char ds"
    using small base64_char_facts(2) by (subst takeWhile_append2) (auto simp: list_all_iff)
  have "shift_run run @ t = CHR ''&'' # map base64_char ds @ ''-'' @ t"
    using False by (simp add: shift_run_def ds_def bs_def)
  then have "utf7_decode (shift_run run @ t) = utf16_points (base64_bytes ds) @ utf7_decode t"
    using ds vals run by (simp add: Let_def)
  also have "base64_bytes ds = bs" unfolding ds_def by (rule base64_round_trip [OF bytes])
  also have "utf16_points bs = run" unfolding bs_def by (rule utf16_round_trip [OF assms])
  finally show ?thesis .
qed (simp add: shift_run_def)

lemma utf7_points_round_trip:
  "list_all is_point run \<Longrightarrow> list_all is_point ps \<Longrightarrow> utf7_decode (utf7_points run ps) = run @ ps"
proof (induction run ps rule: utf7_points.induct)
  case (1 run)
  then show ?case using decode_shift_run [of run "[]"] by simp
next
  case (2 run p ps)
  show ?case
  proof (cases "32 \<le> p \<and> p \<le> 126")
    case True
    have "utf7_decode ((if p = 38 then ''&-'' else [char_of p]) @ t) = p # utf7_decode t" for t
    proof (cases "p = 38")
      case False
      have "char_of p \<noteq> CHR ''&''"
      proof
        assume "char_of p = CHR ''&''"
        then have "of_char (char_of p :: char) = (of_char CHR ''&'' :: nat)" by simp
        then show False using True False by simp
      qed
      then show ?thesis using True False by simp
    qed (simp add: Let_def)
    then show ?thesis using 2 True by (simp add: decode_shift_run)
  next
    case False
    then show ?thesis using 2 by auto
  qed
qed

lemma ascii_append [simp]: "is_ascii (s @ t) = (is_ascii s \<and> is_ascii t)"
  by (simp add: is_ascii_def)

lemma ascii_shift_run: "list_all is_point run \<Longrightarrow> is_ascii (shift_run run)"
proof -
  assume run: "list_all is_point run"
  have "list_all (\<lambda>b. b < 256) (concat (map utf16be run))" using run by (induction run) (simp_all add: utf16_bytes)
  then have "list_all (\<lambda>d. d < 64) (base64_digits (concat (map utf16be run)))" by (rule base64_digits_small)
  then have "is_ascii (map base64_char (base64_digits (concat (map utf16be run))))"
    using base64_char_facts(3) by (simp add: is_ascii_def list_all_iff)
  then show ?thesis by (simp add: shift_run_def) (simp add: is_ascii_def)
qed

lemma ascii_utf7_points: "list_all is_point run \<Longrightarrow> list_all is_point ps \<Longrightarrow> is_ascii (utf7_points run ps)"
proof (induction run ps rule: utf7_points.induct)
  case (2 run p ps)
  show ?case
  proof (cases "32 \<le> p \<and> p \<le> 126")
    case True
    then have "is_ascii (if p = 38 then ''&-'' else [char_of p])" by (auto simp: is_ascii_def)
    then show ?thesis using 2 True ascii_shift_run by simp
  qed (use 2 in auto)
qed (simp add: ascii_shift_run)

text \<open>
  C40. A mailbox name that is ASCII goes to the server untouched; any other one goes as ASCII
  from which a reader of RFC 3501 gets back exactly its code points.
\<close>

theorem utf7_round_trip:
  assumes "list_all is_point (utf8_points (map of_char name))"
  shows "if is_ascii name then imap_utf7_encode name = name
    else is_ascii (imap_utf7_encode name) \<and> utf7_decode (imap_utf7_encode name) = utf8_points (map of_char name)"
  using utf7_points_round_trip [of "[]"] ascii_utf7_points [of "[]"] assms by (simp add: imap_utf7_encode_def)

theorem utf7_round_trip_witness:
  "utf7_decode (imap_utf7_encode (map char_of [65, 38, 195, 169, 240, 159, 147, 167 :: nat])) = [65, 38, 233, 128231]"
proof -
  have points: "utf8_points (map of_char (map char_of [65, 38, 195, 169, 240, 159, 147, 167 :: nat] :: str)) = [65, 38, 233, 128231]"
    by simp
  moreover have "\<not> is_ascii (map char_of [65, 38, 195, 169, 240, 159, 147, 167 :: nat])" by (simp add: is_ascii_def)
  ultimately show ?thesis
    using utf7_round_trip [of "map char_of [65, 38, 195, 169, 240, 159, 147, 167 :: nat]"] by (simp add: is_point_def)
qed

end
