(* ===== verification/Restore_Worker.thy ===== *)
theory Restore_Worker
  imports Staging Users Restore_Folders Regex Mbsync_Config "HOL-Library.AList"
begin

text \<open>
  The run of a restore job: \<open>services/restore_worker.py\<close> over the names of \<open>Restore_Folders\<close>. The two
  IMAP servers, the decryption and the parser of messages are the functions of \<open>restore_env\<close>. A
  cancel by another thread is seen through its flag: \<open>re_cancel n\<close> says whether it is set at the
  \<open>n\<close>-th look. \<open>rr_sent\<close> lists what the target accepted: folder, flags and message.
\<close>

datatype restore_exc = Imap_error str | Other_error str

fun exc_message :: "restore_exc \<Rightarrow> str" where
  "exc_message (Imap_error e) = ''IMAP error: '' @ e"
| "exc_message (Other_error e) = e"

datatype fetched = F_message str str | F_bad | F_lost | F_error

record restore_env =
  re_now :: datetime
  re_end :: datetime
  re_decrypt :: "str \<Rightarrow> str option"
  re_loads :: "str \<Rightarrow> (str \<times> str) list option"
  re_refresh :: "str \<Rightarrow> str \<Rightarrow> str + str"
  re_encrypt :: "(str \<times> str) list \<Rightarrow> str"
  re_temp :: "(str \<Rightarrow> str) \<times> str \<times> str \<times> str"
  re_cancel :: "nat \<Rightarrow> bool"
  re_connect_source :: "restore_exc option"
  re_connect_target :: "restore_exc option"
  re_separator :: "str option"
  re_list :: "restore_exc + str list option"
  re_select :: "str \<Rightarrow> restore_exc + nat option"
  re_search :: "bool \<Rightarrow> str \<Rightarrow> restore_exc + str list"
  re_fetch :: "str \<Rightarrow> str \<Rightarrow> nat \<Rightarrow> fetched"
  re_reconnect :: "str \<Rightarrow> str \<Rightarrow> bool"
  re_existing :: "str \<Rightarrow> restore_exc + str list"
  re_message_id :: "str \<Rightarrow> str"
  re_append :: "str \<Rightarrow> str \<Rightarrow> nat \<Rightarrow> nat \<Rightarrow> str + bool"
  re_rename_error :: "str option"
  re_unreadable :: "path \<Rightarrow> bool"

record restore_run =
  rr_job :: RestoreJob
  rr_looks :: nat
  rr_sent :: "(str \<times> str \<times> str) list"

definition upd_run :: "(RestoreJob \<Rightarrow> RestoreJob) \<Rightarrow> restore_run \<Rightarrow> restore_run" where
  "upd_run g r = r\<lparr>rr_job := g (rr_job r)\<rparr>"

definition failed1 :: "restore_run \<Rightarrow> restore_run" where
  "failed1 = upd_run (\<lambda>j. j\<lparr>rj_failed_messages := Suc (rj_failed_messages j)\<rparr>)"

definition skipped1 :: "restore_run \<Rightarrow> restore_run" where
  "skipped1 = upd_run (\<lambda>j. j\<lparr>rj_skipped_messages := Suc (rj_skipped_messages j)\<rparr>)"

definition restored1 :: "str \<Rightarrow> str \<Rightarrow> str \<Rightarrow> restore_run \<Rightarrow> restore_run" where
  "restored1 folder flags raw r =
    (upd_run (\<lambda>j. j\<lparr>rj_restored_messages := Suc (rj_restored_messages j)\<rparr>) r)\<lparr>rr_sent := rr_sent r @ [(folder, flags, raw)]\<rparr>"

datatype restored = R_done restore_run | R_cancelled restore_run | R_raised restore_exc restore_run

section \<open>One message\<close>

definition RETRY_DELAYS :: "nat list" where
  "RETRY_DELAYS = [1, 3, 10]"

text \<open>The delays themselves are only waited for; the last error is the caller's.\<close>

fun retry_imap :: "(nat \<Rightarrow> 'e + 'a) \<Rightarrow> nat \<Rightarrow> nat list \<Rightarrow> 'e + 'a" where
  "retry_imap g k (d # d' # ds) = (case g k of Inr x \<Rightarrow> Inr x | Inl e \<Rightarrow> retry_imap g (Suc k) (d' # ds))"
| "retry_imap g k _ = g k"

definition is_duplicate :: "restore_env \<Rightarrow> str \<Rightarrow> str list \<Rightarrow> bool" where
  "is_duplicate env raw existing = (re_message_id env raw \<noteq> [] \<and> re_message_id env raw \<in> set existing)"

definition accepted :: "restore_env \<Rightarrow> str \<Rightarrow> str \<Rightarrow> nat \<Rightarrow> restore_run \<Rightarrow> bool" where
  "accepted env folder raw first r = (retry_imap (re_append env folder raw (rr_looks r)) first RETRY_DELAYS = Inr True)"

definition append_message :: "restore_env \<Rightarrow> str \<Rightarrow> str \<Rightarrow> str \<Rightarrow> nat \<Rightarrow> restore_run \<Rightarrow> restore_run" where
  "append_message env folder flags raw first r =
    (if accepted env folder raw first r then restored1 folder flags raw r else failed1 r)"

datatype single = Single_done restore_run | Single_lost | Single_error

definition restore_single_message ::
  "restore_env \<Rightarrow> str \<Rightarrow> str \<Rightarrow> str \<Rightarrow> str list \<Rightarrow> nat \<Rightarrow> restore_run \<Rightarrow> single"
where
  "restore_single_message env full_folder uid target_folder existing attempt r =
    (case re_fetch env full_folder uid attempt of
       F_lost \<Rightarrow> Single_lost
     | F_error \<Rightarrow> Single_error
     | F_bad \<Rightarrow> Single_done (failed1 r)
     | F_message meta raw \<Rightarrow>
         Single_done (if rj_skip_duplicates (rr_job r) \<and> is_duplicate env raw existing then skipped1 r
           else append_message env target_folder (flags_of meta) raw (attempt * length RETRY_DELAYS) r))"

definition restore_one :: "restore_env \<Rightarrow> str \<Rightarrow> str \<Rightarrow> str \<Rightarrow> str list \<Rightarrow> restore_run \<Rightarrow> restore_run" where
  "restore_one env full_folder uid target_folder existing r =
    (case restore_single_message env full_folder uid target_folder existing 0 r of
       Single_done r \<Rightarrow> r
     | Single_error \<Rightarrow> failed1 r
     | Single_lost \<Rightarrow>
         if \<not> re_reconnect env full_folder uid then failed1 r
         else (case restore_single_message env full_folder uid target_folder existing 1 r of
            Single_done r \<Rightarrow> r | _ \<Rightarrow> failed1 r))"

section \<open>The folders\<close>

definition fail_restore :: "datetime \<Rightarrow> str \<Rightarrow> RestoreJob \<Rightarrow> RestoreJob" where
  "fail_restore now msg j = j\<lparr>rj_status := failed, rj_error := Some msg, rj_completed_at := Some now\<rparr>"

definition cancel_run :: "datetime \<Rightarrow> RestoreJob \<Rightarrow> RestoreJob" where
  "cancel_run now j = j\<lparr>rj_status := cancelled, rj_error := Some ''Cancelled by user'', rj_completed_at := Some now\<rparr>"

text \<open>A look at the flag: set before the run, or by another thread since.\<close>

definition look :: "restore_env \<Rightarrow> bool \<Rightarrow> restore_run \<Rightarrow> bool \<times> restore_run" where
  "look env flagged r = (flagged \<or> re_cancel env (rr_looks r), r\<lparr>rr_looks := Suc (rr_looks r)\<rparr>)"

text \<open>\<open>{int(u) for u in uids}\<close>; an empty set counts as no filter.\<close>

definition uid_number :: "str \<Rightarrow> int option" where
  "uid_number u = (if u \<noteq> [] \<and> list_all is_digit u then Some (int_of_digits u) else None)"

definition uid_filter :: "RestoreJob \<Rightarrow> str \<Rightarrow> restore_exc + int set" where
  "uid_filter job short_folder =
    (case Option.bind (rj_selected_uids job) (\<lambda>sel. map_of sel short_folder) of
       None \<Rightarrow> Inr {}
     | Some uids \<Rightarrow>
        if \<exists>u \<in> set uids. uid_number u = None then Inl (Other_error ''invalid literal for int() with base 10'')
        else Inr (set (map (the \<circ> uid_number) uids)))"

definition passes :: "int set \<Rightarrow> str \<Rightarrow> bool" where
  "passes flt uid = (flt = {} \<or> uid_number uid \<in> Some ` flt)"

fun restore_uids ::
  "restore_env \<Rightarrow> bool \<Rightarrow> int set \<Rightarrow> str \<Rightarrow> str \<Rightarrow> str list \<Rightarrow> str list \<Rightarrow> restore_run \<Rightarrow> restored"
where
  "restore_uids env flagged flt full_folder target_folder existing [] r = R_done r"
| "restore_uids env flagged flt full_folder target_folder existing (uid # uids) r =
    (let (seen, r) = look env flagged r
     in if seen then R_cancelled (upd_run (cancel_run (re_end env)) r)
        else restore_uids env flagged flt full_folder target_folder existing uids
          (if passes flt uid then restore_one env full_folder uid target_folder existing r else r))"

definition existing_ids :: "restore_env \<Rightarrow> str \<Rightarrow> restore_exc + str list" where
  "existing_ids env folder = map_sum id (\<lambda>headers. concat (map message_ids_of headers)) (re_existing env folder)"

definition restore_folder ::
  "restore_env \<Rightarrow> bool \<Rightarrow> char \<Rightarrow> str \<Rightarrow> str \<times> str \<Rightarrow> restore_run \<Rightarrow> restored"
where
  "restore_folder env flagged sep src_prefix folder r =
    (case folder of (full_folder, short_folder) \<Rightarrow>
     (let (seen, r) = look env flagged r; job = rr_job r
      in if seen then R_cancelled (upd_run (cancel_run (re_end env)) r)
         else (case re_select env full_folder of
            Inl e \<Rightarrow> R_raised e r
          | Inr None \<Rightarrow> R_done r
          | Inr (Some n) \<Rightarrow>
             (case uid_filter job short_folder of
                Inl e \<Rightarrow> R_raised e r
              | Inr flt \<Rightarrow>
                 (case re_search env (rj_selected_uids job \<noteq> None \<and> rj_selected_uids job \<noteq> Some []) full_folder of
                    Inl e \<Rightarrow> R_raised e r
                  | Inr uids \<Rightarrow>
                     if uids = [] then R_done r
                     else
                       let target_folder = imap_utf7_encode (map_folder short_folder (rj_folder_mapping job) sep src_prefix)
                       in (case (if rj_skip_duplicates job then existing_ids env target_folder else Inr []) of
                             Inl e \<Rightarrow> R_raised e r
                           | Inr existing \<Rightarrow>
                              restore_uids env flagged flt full_folder target_folder existing uids r))))))"

fun restore_folders ::
  "restore_env \<Rightarrow> bool \<Rightarrow> char \<Rightarrow> str \<Rightarrow> (str \<times> str) list \<Rightarrow> restore_run \<Rightarrow> restored"
where
  "restore_folders env flagged sep src_prefix [] r = R_done r"
| "restore_folders env flagged sep src_prefix (folder # folders) r =
    (case restore_folder env flagged sep src_prefix folder r of
       R_done r \<Rightarrow> restore_folders env flagged sep src_prefix folders r
     | stopped \<Rightarrow> stopped)"

text \<open>The number of messages in the folders that can be selected.\<close>

fun count_folders :: "restore_env \<Rightarrow> (str \<times> str) list \<Rightarrow> restore_exc + nat" where
  "count_folders env [] = Inr 0"
| "count_folders env ((full_folder, short_folder) # folders) =
    (case re_select env full_folder of
       Inl e \<Rightarrow> Inl e
     | Inr n \<Rightarrow> map_sum id (\<lambda>m. (case n of None \<Rightarrow> 0 | Some k \<Rightarrow> k) + m) (count_folders env folders))"

definition execute_restore ::
  "restore_env \<Rightarrow> bool \<Rightarrow> char \<Rightarrow> str \<Rightarrow> (str \<times> str) list \<Rightarrow> restore_run \<Rightarrow> restored"
where
  "execute_restore env flagged sep src_prefix folders r =
    (case count_folders env folders of
       Inl e \<Rightarrow> R_raised e r
     | Inr n \<Rightarrow>
        let wanted = (case rj_selected_uids (rr_job r) of
              Some (s # ss) \<Rightarrow> sum_list (map (\<lambda>(folder, uids). length uids) (s # ss)) | _ \<Rightarrow> n)
        in restore_folders env flagged sep src_prefix folders (upd_run (\<lambda>j. j\<lparr>rj_total_messages := wanted\<rparr>) r))"

section \<open>Pushing the staging mailbox\<close>

text \<open>\<open>os.path.join(d, name)\<close> for a name without a slash.\<close>

definition child :: "path \<Rightarrow> str \<Rightarrow> path" where
  "child d n = (if n = [] \<or> n = ''.'' then d else if n = ''..'' then butlast d else d @ [n])"

definition locate_staged_file :: "path \<Rightarrow> fs \<Rightarrow> str \<Rightarrow> path option" where
  "locate_staged_file sdir f filename =
    (let name = basename filename; dirs = [sdir @ [''cur''], sdir @ [''new'']]
     in (case find (exists_path f) (map (\<lambda>d. child d name) dirs) of
           Some p \<Rightarrow> Some p
         | None \<Rightarrow> (case concat (map (renamed_files f name) dirs) of [] \<Rightarrow> None | p # _ \<Rightarrow> Some p)))"

type_synonym pushed = "(str \<times> path) list"

definition push_file ::
  "restore_env \<Rightarrow> path \<Rightarrow> fs \<Rightarrow> str \<Rightarrow> str list \<Rightarrow> str \<Rightarrow> restore_run \<times> pushed \<Rightarrow> restore_run \<times> pushed"
where
  "push_file env sdir f folder existing filename st =
    (case st of (r, pushed) \<Rightarrow>
      (case locate_staged_file sdir f filename of
         None \<Rightarrow> (skipped1 r, pushed)
       | Some p \<Rightarrow>
          (case (if re_unreadable env p then None else file_at f p) of
             None \<Rightarrow> (failed1 r, pushed)
           | Some raw \<Rightarrow>
              if is_duplicate env raw existing then (skipped1 r, AList.update filename p pushed)
              else if accepted env folder raw 0 r then (restored1 folder [] raw r, AList.update filename p pushed)
              else (failed1 r, pushed))))"

fun push_files ::
  "restore_env \<Rightarrow> bool \<Rightarrow> path \<Rightarrow> fs \<Rightarrow> str \<Rightarrow> str list \<Rightarrow> str list \<Rightarrow> restore_run \<times> pushed \<Rightarrow> restored \<times> pushed"
where
  "push_files env flagged sdir f folder existing [] (r, pushed) = (R_done r, pushed)"
| "push_files env flagged sdir f folder existing (filename # filenames) (r, pushed) =
    (let (seen, r) = look env flagged r
     in if seen then (R_cancelled (upd_run (cancel_run (re_end env)) r), pushed)
        else push_files env flagged sdir f folder existing filenames (push_file env sdir f folder existing filename (r, pushed)))"

definition push_folder_name :: "char \<Rightarrow> str \<Rightarrow> str" where
  "push_folder_name sep folder = imap_utf7_encode (if sep \<noteq> CHR ''/'' then replace_char CHR ''/'' sep folder else folder)"

fun push_manifest ::
  "restore_env \<Rightarrow> bool \<Rightarrow> path \<Rightarrow> fs \<Rightarrow> char \<Rightarrow> (str \<times> str list) list \<Rightarrow> restore_run \<times> pushed \<Rightarrow> restored \<times> pushed"
where
  "push_manifest env flagged sdir f sep [] (r, pushed) = (R_done r, pushed)"
| "push_manifest env flagged sdir f sep ((folder, filenames) # rest) (r, pushed) =
    (case (if rj_skip_duplicates (rr_job r) then existing_ids env (push_folder_name sep folder) else Inr []) of
       Inl e \<Rightarrow> (R_raised e r, pushed)
     | Inr existing \<Rightarrow>
        (case push_files env flagged sdir f (push_folder_name sep folder) existing filenames (r, pushed) of
           (R_done r, pushed) \<Rightarrow> push_manifest env flagged sdir f sep rest (r, pushed)
         | stopped \<Rightarrow> stopped))"

definition staged_files_remain :: "path \<Rightarrow> fs \<Rightarrow> bool" where
  "staged_files_remain sdir f = (\<exists>d \<in> set [sdir @ [''cur''], sdir @ [''new'']]. is_dir f d \<and> listdir d f \<noteq> [])"

definition pushed_path :: "pushed \<Rightarrow> StagingMessage \<Rightarrow> path option" where
  "pushed_path pushed m =
    map_of (rev (map (\<lambda>(fn, p). (maildir_filename_prefix fn, p)) pushed)) (maildir_filename_prefix (sg_staged_filename m))"

definition cleanup_pushed :: "User \<Rightarrow> path \<Rightarrow> pushed \<Rightarrow> disk_world \<Rightarrow> disk_world" where
  "cleanup_pushed user sdir pushed dw =
    (case dw of (w, f) \<Rightarrow>
      (case get_area w user of
         None \<Rightarrow> (w, f)
       | Some area \<Rightarrow>
          let gone = filter (\<lambda>m. pushed_path pushed m \<noteq> None) (area_rows w (sa_id area));
              f = fold (\<lambda>m. remove_file (the (pushed_path pushed m))) gone f;
              w = set_bytes_used (sa_id area) (\<lambda>b. b - sum_list (map sg_size_bytes gone))
                (w\<lparr>staging_messages := filter (\<lambda>m. \<not> (sg_staging_id m = sa_id area \<and> pushed_path pushed m \<noteq> None)) (staging_messages w)\<rparr>)
          in if area_rows w (sa_id area) = [] \<and> \<not> staged_files_remain sdir f
             then (drop_area (sa_id area) w, remove_staging_dir (home_root w user) f)
             else (w, f)))"

definition execute_staging_push :: "restore_env \<Rightarrow> bool \<Rightarrow> restore_run \<Rightarrow> disk_world \<Rightarrow> restored \<times> disk_world" where
  "execute_staging_push env flagged r dw =
    (case dw of (w, f) \<Rightarrow>
      (case get_user w (rj_requested_by (rr_job r)) of
         None \<Rightarrow> (R_done (upd_run (fail_restore (re_end env) ''Requesting user no longer exists'') r), w, f)
       | Some requester \<Rightarrow>
          let home = home_root w requester; sdir = path_of (staging_dir home)
          in (case adopt_pre_rename (re_rename_error env) home f of
                Inl e \<Rightarrow> (R_raised (Other_error e) r, w, f)
              | Inr f \<Rightarrow>
                 (case ensure_dirs (mail_subs sdir) f of
                    (Some e, f) \<Rightarrow> (R_raised (Imap_error e) r, w, f)
                  | (None, f) \<Rightarrow>
                     let manifest = (case rj_selected_uids (rr_job r) of Some m \<Rightarrow> m | None \<Rightarrow> []);
                         r = upd_run (\<lambda>j. j\<lparr>rj_total_messages := sum_list (map (\<lambda>(folder, files). length files) manifest)\<rparr>) r
                     in (case re_connect_target env of
                           Some e \<Rightarrow> (R_raised e r, w, f)
                         | None \<Rightarrow>
                            (case push_manifest env flagged sdir f (get_hierarchy_separator (re_separator env)) manifest (r, []) of
                               (R_raised e r, pushed) \<Rightarrow> (R_raised e r, w, f)
                             | (stopped, pushed) \<Rightarrow> (stopped, cleanup_pushed requester sdir pushed (w, f))))))))"

section \<open>The whole job\<close>

definition refresh_target_token :: "restore_env \<Rightarrow> str \<Rightarrow> str \<Rightarrow> world \<Rightarrow> str option \<times> world" where
  "refresh_target_token env creds_json account_id w =
    (case re_loads env creds_json of
       None \<Rightarrow> (None, w)
     | Some token_data \<Rightarrow>
        let refresh_token = dict_get token_data ''refresh_token'' [];
            provider = dict_get token_data ''provider'' ''google''
        in if refresh_token = [] then (None, w)
           else (case re_refresh env (if provider = ''microsoft'' then ''microsoft'' else ''google'') refresh_token of
              Inl e \<Rightarrow> (None, w)
            | Inr access_token \<Rightarrow>
               (Some access_token, upd_account account_id (\<lambda>a. a\<lparr>a_credentials :=
                  Some (re_encrypt env (AList.update ''access_token'' access_token token_data))\<rparr>) w)))"

definition finalize_running_job :: "bool \<Rightarrow> RestoreJob \<Rightarrow> RestoreJob" where
  "finalize_running_job was_cancelled job =
    (if was_cancelled then job\<lparr>rj_status := cancelled\<rparr>
     else if rj_restored_messages job = 0 \<and> rj_failed_messages job > 0
     then job\<lparr>rj_status := failed, rj_error := Some (''All '' @ show_nat (rj_failed_messages job) @ '' messages failed'')\<rparr>
     else job\<lparr>rj_status := completed,
       rj_error := (if rj_failed_messages job > 0 then Some (show_nat (rj_failed_messages job) @ '' messages failed'') else rj_error job)\<rparr>)"

fun py_error_text :: "py_error \<Rightarrow> str" where
  "py_error_text (ValueError e) = e"
| "py_error_text OverflowError = ''OverflowError''"
| "py_error_text IntegrityError = ''IntegrityError''"

text \<open>Between the temporary user and the last message of a restore from Dovecot.\<close>

definition restore_from_dovecot :: "restore_env \<Rightarrow> bool \<Rightarrow> Account \<Rightarrow> restore_run \<Rightarrow> restored" where
  "restore_from_dovecot env flagged source r =
    (case (re_connect_source env, re_connect_target env) of
       (Some e, _) \<Rightarrow> R_raised e r
     | (None, Some e) \<Rightarrow> R_raised e r
     | (None, None) \<Rightarrow>
        let ns = account_namespace_prefix source; job = rr_job r;
            listing = (case rj_selected_uids job of Some (u # us) \<Rightarrow> Inr None | _ \<Rightarrow> re_list env)
        in (case listing of
              Inl e \<Rightarrow> R_raised e r
            | Inr items \<Rightarrow>
               let folders = resolve_folders items ns job
               in if folders = [] then R_done (upd_run (fail_restore (re_end env) ''No folders found to restore'') r)
                  else execute_restore env flagged (get_hierarchy_separator (re_separator env)) ns folders r))"

definition run_restore ::
  "restore_env \<Rightarrow> bool \<Rightarrow> Account \<Rightarrow> Account \<Rightarrow> str \<Rightarrow> restore_run \<Rightarrow> disk_world \<Rightarrow> restored \<times> str option \<times> disk_world"
where
  "run_restore env flagged source target target_creds r dw =
    (case dw of (w, f) \<Rightarrow>
      (let (password, w) = (if a_auth_type target = oauth2 then refresh_target_token env target_creds (a_id target) w
             else (Some target_creds, w))
       in if \<not> truthy password then
            (R_done (upd_run (fail_restore (re_end env) ''Failed to refresh OAuth2 token for target'') r), None, w, f)
          else if rj_restore_mode (rr_job r) = RM_staging_push then
            (let (res, dw) = execute_staging_push env flagged r (w, f) in (res, None, dw))
          else
            (case re_temp env of (hp, i, token, temp_password) \<Rightarrow>
              (case create_temp_imap_user hp i (re_now env) token temp_password [a_id source] w of
                 (Inl e, w) \<Rightarrow> (R_raised (Other_error (py_error_text e)) r, None, w, f)
               | (Inr (temp_username, _), w) \<Rightarrow> (restore_from_dovecot env flagged source r, Some temp_username, w, f)))))"

text \<open>The \<open>except\<close> and \<open>finally\<close> clauses and the notification; audit entries are not modelled.\<close>

fun run_of :: "restore_env \<Rightarrow> restored \<Rightarrow> restore_run" where
  "run_of env (R_done r) = r"
| "run_of env (R_cancelled r) = r"
| "run_of env (R_raised e r) = upd_run (fail_restore (re_end env) (exc_message e)) r"

definition close_restore :: "restore_env \<Rightarrow> bool \<Rightarrow> restore_run \<Rightarrow> RestoreJob" where
  "close_restore env flagged r =
    (let job = rr_job r
     in if rj_status job = running
        then (finalize_running_job (flagged \<or> re_cancel env (rr_looks r)) job)\<lparr>rj_completed_at := Some (re_end env)\<rparr>
        else job)"

definition notify_restored :: "Account \<Rightarrow> RestoreJob \<Rightarrow> world \<Rightarrow> world" where
  "notify_restored target job w =
    (if rj_status job \<noteq> completed then w
     else notify_account_event (a_id target) ''restore_completed'' (a_name target @ '': restore complete'')
       (show_nat (rj_restored_messages job) @ ''/'' @ show_nat (rj_total_messages job) @ '' messages restored'')
       (Some [(''restored'', J_int (int (rj_restored_messages job))), (''skipped'', J_int (int (rj_skipped_messages job))),
          (''failed'', J_int (int (rj_failed_messages job))), (''total'', J_int (int (rj_total_messages job))),
          (''duration_seconds'', (case (rj_started_at job, rj_completed_at job) of
             (Some s, Some e) \<Rightarrow> J_duration (e - s) | _ \<Rightarrow> J_null))]) w)"

definition finish_restore ::
  "restore_env \<Rightarrow> bool \<Rightarrow> Account \<Rightarrow> restored \<times> str option \<times> disk_world \<Rightarrow> (str \<times> str \<times> str) list \<times> disk_world"
where
  "finish_restore env flagged target res =
    (case res of (outcome, temp_username, w, f) \<Rightarrow>
      (let r = run_of env outcome;
           job = close_restore env flagged r;
           w = w\<lparr>restore_cancel_flags := restore_cancel_flags w - {rj_id job}\<rparr>;
           (w, f) = (case temp_username of None \<Rightarrow> (w, f) | Some u \<Rightarrow> snd (delete_temp_imap_user u (w, f)))
       in (rr_sent r, notify_restored target job (upd_restore_job (rj_id job) (\<lambda>_. job) w), f)))"

definition fail_early :: "restore_env \<Rightarrow> str \<Rightarrow> str \<Rightarrow> disk_world \<Rightarrow> (str \<times> str \<times> str) list \<times> disk_world" where
  "fail_early env job_id msg dw = ([], upd_restore_job job_id (fail_restore (re_end env) msg) (fst dw), snd dw)"

definition execute_restore_job :: "restore_env \<Rightarrow> str \<Rightarrow> disk_world \<Rightarrow> (str \<times> str \<times> str) list \<times> disk_world" where
  "execute_restore_job env job_id dw =
    (let w = fst dw
     in (case get_restore_job w job_id of
           None \<Rightarrow> ([], dw)
         | Some job \<Rightarrow>
            (case (get_account w (rj_source_account_id job), get_account w (rj_target_account_id job)) of
               (Some source, Some target) \<Rightarrow>
                 if a_suspended source \<or> a_suspended target then fail_early env job_id ''Account is suspended'' dw
                 else if \<not> truthy (a_credentials target) then fail_early env job_id ''Target account has no credentials'' dw
                 else (case re_decrypt env (the (a_credentials target)) of
                    None \<Rightarrow> ([], dw)
                  | Some target_creds \<Rightarrow>
                     if target_creds = [] then fail_early env job_id ''Target account has no credentials'' dw
                     else
                       let started = job\<lparr>rj_status := running, rj_started_at := Some (re_now env)\<rparr>;
                           w = upd_restore_job job_id (\<lambda>_. started) w;
                           flagged = (job_id \<in> restore_cancel_flags w)
                       in finish_restore env flagged target
                            (run_restore env flagged source target target_creds
                               \<lparr> rr_job = started, rr_looks = 0, rr_sent = [] \<rparr> (w, snd dw)))
             | _ \<Rightarrow> fail_early env job_id ''Source or target account not found'' dw)))"

end
