(* ===== verification/Restore_Props.thy ===== *)
theory Restore_Props
  imports Restore_Worker
begin

text \<open>
  What the run of a restore job guarantees: it always ends with a verdict, what it counts is what
  the target accepted, and a push removes from the staging mailbox only what arrived.
\<close>

section \<open>Progress of a run\<close>

definition job_core :: "RestoreJob \<Rightarrow> str \<times> str \<times> str \<times> (str \<times> str list) list option \<times> bool" where
  "job_core j = (rj_id j, rj_folder_mapping j, rj_requested_by j, rj_selected_uids j, rj_skip_duplicates j)"

text \<open>Between two points of a run only the counters moved, and what was counted as restored was sent.\<close>

definition advances :: "restore_run \<Rightarrow> restore_run \<Rightarrow> bool" where
  "advances r r' =
    (job_core (rr_job r') = job_core (rr_job r) \<and> rj_status (rr_job r') = rj_status (rr_job r)
     \<and> rj_total_messages (rr_job r') = rj_total_messages (rr_job r)
     \<and> rj_restored_messages (rr_job r') + length (rr_sent r) = rj_restored_messages (rr_job r) + length (rr_sent r')
     \<and> prefix (rr_sent r) (rr_sent r'))"

definition seen_messages :: "restore_run \<Rightarrow> nat" where
  "seen_messages r =
    rj_restored_messages (rr_job r) + rj_skipped_messages (rr_job r) + rj_failed_messages (rr_job r)"

lemma advances_refl [simp]: "advances r r"
  by (simp add: advances_def)

lemma advances_trans [trans]: "advances r s \<Longrightarrow> advances s t \<Longrightarrow> advances r t"
  by (auto simp: advances_def)

lemma advances_steps [simp]:
  "advances r (failed1 r)" "advances r (skipped1 r)" "advances r (restored1 folder flags raw r)"
  "advances r (append_message env folder flags raw n r)" "advances r (snd (look env flagged r))"
  by (simp_all add: advances_def job_core_def failed1_def skipped1_def restored1_def upd_run_def append_message_def look_def)

lemma seen_steps [simp]:
  "seen_messages (failed1 r) = Suc (seen_messages r)" "seen_messages (skipped1 r) = Suc (seen_messages r)"
  "seen_messages (restored1 folder flags raw r) = Suc (seen_messages r)"
  "seen_messages (append_message env folder flags raw n r) = Suc (seen_messages r)"
  "seen_messages (snd (look env flagged r)) = seen_messages r"
  by (simp_all add: seen_messages_def failed1_def skipped1_def restored1_def upd_run_def append_message_def look_def)

text \<open>Every message that is tried is counted once.\<close>

lemma restore_one_counts:
  "advances r (restore_one env full uid target existing r) \<and> seen_messages (restore_one env full uid target existing r) = Suc (seen_messages r)"
  by (auto simp: restore_one_def restore_single_message_def split: fetched.splits single.splits)

definition outcome_ok :: "restore_run \<Rightarrow> restored \<Rightarrow> bool" where
  "outcome_ok r res =
    (case res of
       R_done r' \<Rightarrow> advances r r'
     | R_raised e r' \<Rightarrow> advances r r'
     | R_cancelled r' \<Rightarrow> (\<exists>s now. advances r s \<and> r' = upd_run (cancel_run now) s))"

lemma outcome_ok_trans: "advances r s \<Longrightarrow> outcome_ok s res \<Longrightarrow> outcome_ok r res"
  using advances_trans by (auto simp: outcome_ok_def split: restored.splits)

lemma restore_uids_ok: "outcome_ok r (restore_uids env flagged flt full target existing uids r)"
proof (induction uids arbitrary: r)
  case (Cons uid uids)
  obtain seen s where look: "look env flagged r = (seen, s)" by fastforce
  have s: "advances r s" using advances_steps(5) [of r env flagged] by (simp add: look)
  define t where "t = (if passes flt uid then restore_one env full uid target existing s else s)"
  have "advances s t" using restore_one_counts by (simp add: t_def)
  then have t: "advances r t" using s advances_trans by blast
  show ?case
  proof (cases seen)
    case True
    then show ?thesis using s by (auto simp: look outcome_ok_def)
  next
    case False
    then show ?thesis using outcome_ok_trans [OF t Cons.IH [of t]] by (simp add: look t_def)
  qed
qed (simp add: outcome_ok_def)

lemma restore_folder_ok: "outcome_ok r (restore_folder env flagged sep ns folder r)"
proof -
  obtain full short where folder: "folder = (full, short)" by fastforce
  obtain seen s where look: "look env flagged r = (seen, s)" by fastforce
  have s: "advances r s" using advances_steps(5) [of r env flagged] by (simp add: look)
  have stop: "outcome_ok r (R_done s)" "outcome_ok r (R_raised e s)" "outcome_ok r (R_cancelled (upd_run (cancel_run t) s))" for e t
    using s by (auto simp: outcome_ok_def)
  show ?thesis
    using stop outcome_ok_trans [OF s restore_uids_ok]
    by (simp add: restore_folder_def folder look Let_def split: sum.split option.split)
qed

lemma restore_folders_ok: "outcome_ok r (restore_folders env flagged sep ns folders r)"
proof (induction folders arbitrary: r)
  case (Cons folder folders)
  have one: "outcome_ok r (restore_folder env flagged sep ns folder r)" by (rule restore_folder_ok)
  show ?case
  proof (cases "restore_folder env flagged sep ns folder r")
    case (R_done s)
    then have "advances r s" using one by (simp add: outcome_ok_def)
    then show ?thesis using outcome_ok_trans [OF _ Cons.IH [of s]] R_done by simp
  qed (use one in simp_all)
qed (simp add: outcome_ok_def)

text \<open>The job that comes out of a run: the same one, with a verdict or still running.\<close>

definition run_ok :: "RestoreJob \<Rightarrow> restore_run \<Rightarrow> bool" where
  "run_ok job r =
    (job_core (rr_job r) = job_core job \<and> rj_status (rr_job r) \<in> {running, failed, cancelled}
     \<and> (rj_status (rr_job r) \<noteq> running \<longrightarrow> rj_completed_at (rr_job r) \<noteq> None)
     \<and> rj_id (rr_job r) = rj_id job
     \<and> rj_restored_messages (rr_job r) = rj_restored_messages job + length (rr_sent r))"

lemma run_of_ok:
  assumes "outcome_ok r res" "rj_status (rr_job r) = running" "rr_sent r = []" "job_core (rr_job r) = job_core job"
    "rj_restored_messages (rr_job r) = rj_restored_messages job"
  shows "run_ok job (run_of env res)"
  using assms by (auto simp: outcome_ok_def run_ok_def advances_def upd_run_def fail_restore_def cancel_run_def job_core_def split: restored.splits)

section \<open>What a push removes\<close>

text \<open>The message in a file reached the target: it was accepted there, or one with its Message-ID was there.\<close>

definition arrived :: "restore_env \<Rightarrow> (str \<times> str \<times> str) list \<Rightarrow> str \<Rightarrow> bool" where
  "arrived env sent raw =
    ((\<exists>folder flags. (folder, flags, raw) \<in> set sent)
     \<or> (\<exists>folder existing. existing_ids env folder = Inr existing \<and> is_duplicate env raw existing))"

definition pushed_ok :: "restore_env \<Rightarrow> fs \<Rightarrow> restore_run \<Rightarrow> pushed \<Rightarrow> bool" where
  "pushed_ok env f r pushed =
    (\<forall>p \<in> snd ` set pushed. \<exists>raw. file_at f p = Some raw \<and> arrived env (rr_sent r) raw)"

lemma snd_update: "snd ` set (AList.update k v al) \<subseteq> insert v (snd ` set al)"
  by (induction al) auto

lemma arrived_mono: "arrived env sent raw \<Longrightarrow> prefix sent sent' \<Longrightarrow> arrived env sent' raw"
  unfolding arrived_def by (meson set_mono_prefix subsetD)

lemma pushed_ok_mono: "pushed_ok env f r pushed \<Longrightarrow> advances r r' \<Longrightarrow> pushed_ok env f r' pushed"
  unfolding pushed_ok_def advances_def using arrived_mono by blast

lemma pushed_ok_update:
  assumes "pushed_ok env f r pushed" "file_at f p = Some raw" "arrived env (rr_sent r) raw"
  shows "pushed_ok env f r (AList.update fn p pushed)"
  unfolding pushed_ok_def
proof
  fix q assume "q \<in> snd ` set (AList.update fn p pushed)"
  then have "q = p \<or> q \<in> snd ` set pushed" by (rule subsetD [OF snd_update, simplified insert_iff])
  then show "\<exists>raw. file_at f q = Some raw \<and> arrived env (rr_sent r) raw"
    using assms unfolding pushed_ok_def by blast
qed

lemma push_file_ok:
  assumes "pushed_ok env f r pushed" "existing = [] \<or> (\<exists>folder. existing_ids env folder = Inr existing)"
    "push_file env sdir f folder existing fn (r, pushed) = (r', pushed')"
  shows "advances r r' \<and> seen_messages r' = Suc (seen_messages r) \<and> pushed_ok env f r' pushed'"
proof (cases "locate_staged_file sdir f fn")
  case None
  then show ?thesis using assms pushed_ok_mono [OF assms(1)] by (auto simp: push_file_def)
next
  case (Some p)
  show ?thesis
  proof (cases "re_unreadable env p \<or> file_at f p = None")
    case True
    then have "(if re_unreadable env p then None else file_at f p) = None" by auto
    then have "r' = failed1 r" "pushed' = pushed" using assms(3) Some by (simp_all add: push_file_def)
    then show ?thesis using pushed_ok_mono [OF assms(1)] by simp
  next
    case False
    then obtain raw where raw: "\<not> re_unreadable env p" "file_at f p = Some raw" by auto
    note push = assms(3) [unfolded push_file_def prod.case Some option.case]
    consider (duplicate) "is_duplicate env raw existing" "r' = skipped1 r" "pushed' = AList.update fn p pushed"
      | (sent) "r' = restored1 folder [] raw r" "pushed' = AList.update fn p pushed"
      | (refused) "r' = failed1 r" "pushed' = pushed"
      using push raw by (auto split: if_split_asm)
    then show ?thesis
    proof cases
      case duplicate
      then have "existing \<noteq> []" by (auto simp: is_duplicate_def)
      then have "arrived env (rr_sent r') raw" using duplicate(1) assms(2) by (auto simp: arrived_def)
      then show ?thesis using pushed_ok_update [OF pushed_ok_mono [OF assms(1)] raw(2)] duplicate by auto
    next
      case sent
      have "arrived env (rr_sent r') raw" by (auto simp: sent(1) restored1_def arrived_def)
      then show ?thesis using pushed_ok_update [OF pushed_ok_mono [OF assms(1)] raw(2)] sent by auto
    next
      case refused
      then show ?thesis using pushed_ok_mono [OF assms(1)] by auto
    qed
  qed
qed

definition push_outcome :: "restore_env \<Rightarrow> fs \<Rightarrow> restore_run \<Rightarrow> restored \<times> pushed \<Rightarrow> bool" where
  "push_outcome env f r res =
    (outcome_ok r (fst res) \<and> pushed_ok env f (case fst res of R_done s \<Rightarrow> s | R_cancelled s \<Rightarrow> s | R_raised e s \<Rightarrow> s) (snd res))"

lemma push_outcome_trans: "advances r s \<Longrightarrow> push_outcome env f s res \<Longrightarrow> push_outcome env f r res"
  by (auto simp: push_outcome_def intro: outcome_ok_trans)

lemma pushed_ok_job [simp]: "pushed_ok env f (upd_run g r) pushed = pushed_ok env f r pushed"
  by (simp add: pushed_ok_def upd_run_def)

lemma push_files_ok:
  assumes "pushed_ok env f r pushed" "existing = [] \<or> (\<exists>folder. existing_ids env folder = Inr existing)"
  shows "push_outcome env f r (push_files env flagged sdir f folder existing files (r, pushed))"
  using assms(1)
proof (induction files arbitrary: r pushed)
  case (Cons fn files)
  obtain seen s where look: "look env flagged r = (seen, s)" by fastforce
  have s: "advances r s" using advances_steps(5) [of r env flagged] by (simp add: look)
  have ok: "pushed_ok env f s pushed" using pushed_ok_mono [OF Cons.prems s] .
  show ?case
  proof (cases seen)
    case True
    then show ?thesis using s ok by (auto simp: look push_outcome_def outcome_ok_def)
  next
    case False
    obtain t p' where t: "push_file env sdir f folder existing fn (s, pushed) = (t, p')" by fastforce
    have "advances r t" "pushed_ok env f t p'"
      using push_file_ok [OF ok assms(2) t] s advances_trans by blast+
    then show ?thesis using push_outcome_trans [OF _ Cons.IH] False by (simp add: look t)
  qed
qed (simp add: push_outcome_def outcome_ok_def)

lemma push_manifest_ok:
  "pushed_ok env f r pushed \<Longrightarrow> push_outcome env f r (push_manifest env flagged sdir f sep manifest (r, pushed))"
proof (induction manifest arbitrary: r pushed)
  case (Cons m manifest)
  obtain folder files where m: "m = (folder, files)" by fastforce
  show ?case
  proof (cases "if rj_skip_duplicates (rr_job r) then existing_ids env (push_folder_name sep folder) else Inr []")
    case (Inl e)
    then show ?thesis using Cons.prems by (simp add: m push_outcome_def outcome_ok_def)
  next
    case (Inr existing)
    then have ex: "existing = [] \<or> (\<exists>folder. existing_ids env folder = Inr existing)" by (auto split: if_splits)
    obtain res p' where run: "push_files env flagged sdir f (push_folder_name sep folder) existing files (r, pushed) = (res, p')"
      by fastforce
    have one: "push_outcome env f r (res, p')" using push_files_ok [OF Cons.prems ex] run by metis
    show ?thesis
    proof (cases res)
      case (R_done s)
      then have "advances r s" "pushed_ok env f s p'" using one by (simp_all add: push_outcome_def outcome_ok_def)
      then show ?thesis using push_outcome_trans [OF _ Cons.IH] Inr run R_done by (simp add: m)
    qed (use one Inr run in \<open>simp_all add: m\<close>)
  qed
qed (simp add: push_outcome_def outcome_ok_def)

section \<open>Every job ends\<close>

lemma cleanup_pushed_frame:
  "cleanup_pushed user sdir pushed (w, f) = (w', f') \<Longrightarrow>
    restore_jobs w' = restore_jobs w \<and> restore_cancel_flags w' = restore_cancel_flags w"
  by (auto simp: cleanup_pushed_def Let_def set_bytes_used_def drop_area_def split: option.splits if_splits)

lemma execute_staging_push_frame:
  assumes "execute_staging_push env flagged r (w, f) = (res, w', f')"
  shows "restore_jobs w' = restore_jobs w \<and> restore_cancel_flags w' = restore_cancel_flags w"
  using assms unfolding execute_staging_push_def prod.case Let_def
  by (auto split: option.splits sum.splits prod.splits restored.splits dest: cleanup_pushed_frame sym [of "cleanup_pushed _ _ _ _"])

lemma refresh_target_token_frame:
  "refresh_target_token env c k w = (p, w') \<Longrightarrow> restore_jobs w' = restore_jobs w \<and> restore_cancel_flags w' = restore_cancel_flags w"
  by (auto simp: refresh_target_token_def Let_def split: option.splits if_splits sum.splits)

lemma temp_user_frame:
  "create_temp_imap_user hp i now t p ids w = (res, w') \<Longrightarrow>
    restore_jobs w' = restore_jobs w \<and> restore_cancel_flags w' = restore_cancel_flags w"
  "delete_temp_imap_user u (w, f) = (gone, v, g) \<Longrightarrow>
    restore_jobs v = restore_jobs w \<and> restore_cancel_flags v = restore_cancel_flags w"
  by (auto simp: create_temp_imap_user_def delete_temp_imap_user_def retire_user_def drop_user_def Let_def split: option.splits if_splits)

lemma run_restore_frame:
  assumes "run_restore env flagged source target c r (w, f) = (res, temp, w', f')"
  shows "restore_jobs w' = restore_jobs w \<and> restore_cancel_flags w' = restore_cancel_flags w"
proof -
  obtain password v where token: "(if a_auth_type target = oauth2 then refresh_target_token env c (a_id target) w
      else (Some c, w)) = (password, v)" by fastforce
  then have v: "restore_jobs v = restore_jobs w" "restore_cancel_flags v = restore_cancel_flags w"
    using refresh_target_token_frame by (auto split: if_splits)
  show ?thesis
    using assms v unfolding run_restore_def prod.case token Let_def
    by (auto split: if_splits prod.splits sum.splits dest: execute_staging_push_frame temp_user_frame)
qed


lemma run_of_fail: "rj_status (rr_job r) = running \<Longrightarrow> rr_sent r = [] \<Longrightarrow> job_core (rr_job r) = job_core job
    \<Longrightarrow> rj_restored_messages (rr_job r) = rj_restored_messages job
    \<Longrightarrow> run_ok job (run_of env (R_done (upd_run (fail_restore t msg) r)))"
  by (simp add: run_ok_def upd_run_def fail_restore_def job_core_def)

text \<open>The job a run starts from.\<close>

definition fresh_run :: "RestoreJob \<Rightarrow> restore_run \<Rightarrow> bool" where
  "fresh_run job r =
    (rj_status (rr_job r) = running \<and> rr_sent r = [] \<and> job_core (rr_job r) = job_core job
     \<and> rj_restored_messages (rr_job r) = rj_restored_messages job)"

lemma fresh_run_ok:
  "fresh_run job r \<Longrightarrow> outcome_ok r res \<Longrightarrow> run_ok job (run_of env res)"
  "fresh_run job r \<Longrightarrow> run_ok job (run_of env (R_done (upd_run (fail_restore t msg) r)))"
  "fresh_run job r \<Longrightarrow> run_ok job (run_of env (R_raised e r))"
  "fresh_run job r \<Longrightarrow> fresh_run job (upd_run (\<lambda>j. j\<lparr>rj_total_messages := n\<rparr>) r)"
  unfolding fresh_run_def using run_of_ok run_of_fail outcome_ok_def
  by (blast, blast, simp add: run_ok_def upd_run_def fail_restore_def job_core_def, simp add: upd_run_def job_core_def)

lemma execute_restore_ok:
  "fresh_run job r \<Longrightarrow> run_ok job (run_of env (execute_restore env flagged sep ns folders r))"
  unfolding execute_restore_def Let_def
  by (cases "count_folders env folders") (auto simp del: run_of.simps intro: fresh_run_ok restore_folders_ok)

lemma restore_from_dovecot_ok:
  "fresh_run job r \<Longrightarrow> run_ok job (run_of env (restore_from_dovecot env flagged source r))"
  unfolding restore_from_dovecot_def Let_def
  by (auto simp del: run_of.simps intro: fresh_run_ok execute_restore_ok split: option.split sum.split)

lemma push_outcome_fresh:
  assumes "fresh_run job r" "push_manifest env flagged sdir f sep manifest (r, []) = (res, pushed)"
  shows "run_ok job (run_of env res)"
proof -
  have "push_outcome env f r (res, pushed)"
    using push_manifest_ok [of env f r "[]" flagged sdir sep manifest] assms(2) by (simp add: pushed_ok_def)
  then show ?thesis using fresh_run_ok(1) [OF assms(1)] by (simp add: push_outcome_def)
qed

lemma execute_staging_push_ok:
  assumes "fresh_run job r" "execute_staging_push env flagged r (w, f) = (res, w', f')"
  shows "run_ok job (run_of env res)"
proof -
  note fresh = fresh_run_ok(2,3) [OF assms(1)] push_outcome_fresh [OF fresh_run_ok(4) [OF assms(1)]]
    fresh_run_ok(3) [OF fresh_run_ok(4) [OF assms(1)]]
  have nothing: "run_ok job (run_of env (R_done (upd_run (\<lambda>j. j\<lparr>rj_total_messages := n\<rparr>) r)))" for n
    by (rule fresh_run_ok(1) [OF fresh_run_ok(4) [OF assms(1), of n]]) (simp add: outcome_ok_def)
  show ?thesis
    using assms(2) fresh nothing unfolding execute_staging_push_def prod.case Let_def
    by (auto simp only: option.case sum.case prod.case restored.case prod.inject simp_thms split: option.splits sum.splits prod.splits restored.splits)
qed

lemma run_restore_ok:
  assumes "fresh_run job r" "run_restore env flagged source target c r (w, f) = (res, temp, w', f')"
  shows "run_ok job (run_of env res)"
proof -
  obtain password v where token: "(if a_auth_type target = oauth2 then refresh_target_token env c (a_id target) w
      else (Some c, w)) = (password, v)" by fastforce
  show ?thesis
    using assms(2) fresh_run_ok(2,3) [OF assms(1)] execute_staging_push_ok [OF assms(1)] restore_from_dovecot_ok [OF assms(1)]
    unfolding run_restore_def prod.case token Let_def
    by (auto simp del: run_of.simps split: if_splits prod.splits sum.splits)
qed

lemma close_restore_ok:
  assumes "run_ok job r"
  shows "job_core (close_restore env flagged r) = job_core job \<and> \<not> active (rj_status (close_restore env flagged r))
    \<and> rj_completed_at (close_restore env flagged r) \<noteq> None
    \<and> rj_restored_messages (close_restore env flagged r) = rj_restored_messages job + length (rr_sent r)
    \<and> (flagged \<longrightarrow> rj_status (close_restore env flagged r) \<noteq> completed)"
  using assms by (auto simp: run_ok_def close_restore_def Let_def finalize_running_job_def job_core_def active_def)


lemma notify_restored_frame [simp]: "restore_jobs (notify_restored target job w) = restore_jobs w"
  "restore_cancel_flags (notify_restored target job w) = restore_cancel_flags w"
  by (simp_all add: notify_restored_def notify_account_event_def send_to_users_def Let_def split: option.split)

lemma row_put: "key r = k \<Longrightarrow> row key (set_row key k (\<lambda>_. r) t) k = map_option (\<lambda>_. r) (row key t k)"
  by (induction t) auto

lemma others_set_row: "(\<And>r. key r = k \<Longrightarrow> key (g r) = k) \<Longrightarrow> filter (\<lambda>r. key r \<noteq> k) (set_row key k g t) = filter (\<lambda>r. key r \<noteq> k) t"
  by (induction t) auto

lemma finish_restore_table:
  assumes run: "run_restore env flagged source target c r (w, f) = (res, temp, v, g)"
    and finish: "finish_restore env flagged target (res, temp, v, g) = (sent, w', f')"
    and id: "rj_id (close_restore env flagged (run_of env res)) = k"
  shows "sent = rr_sent (run_of env res)
    \<and> restore_jobs w' = set_row rj_id k (\<lambda>_. close_restore env flagged (run_of env res)) (restore_jobs w)
    \<and> restore_cancel_flags w' = restore_cancel_flags w - {k}"
proof -
  let ?v = "v\<lparr>restore_cancel_flags := restore_cancel_flags v - {k}\<rparr>"
  obtain v2 g2 where temp: "(case temp of None \<Rightarrow> (?v, g) | Some u \<Rightarrow> snd (delete_temp_imap_user u (?v, g))) = (v2, g2)"
    by (meson surj_pair)
  have "restore_jobs v2 = restore_jobs w \<and> restore_cancel_flags v2 = restore_cancel_flags w - {k}"
  proof (cases temp)
    case None
    then have "v2 = ?v" using temp by simp
    then show ?thesis using run_restore_frame [OF run] by simp
  next
    case (Some u)
    obtain gone where "delete_temp_imap_user u (?v, g) = (gone, v2, g2)"
      using temp Some by (cases "delete_temp_imap_user u (?v, g)") (simp only: option.case snd_conv)
    from temp_user_frame(2) [OF this] show ?thesis using run_restore_frame [OF run] by simp
  qed
  moreover have "sent = rr_sent (run_of env res)"
    "w' = notify_restored target (close_restore env flagged (run_of env res))
      (upd_restore_job k (\<lambda>_. close_restore env flagged (run_of env res)) v2)"
    using finish unfolding finish_restore_def prod.case Let_def id temp by simp_all
  ultimately show ?thesis by (simp add: upd_restore_job_def)
qed




section \<open>Nothing is lost in a push\<close>

lemma file_at_filter: "file_at (filter (\<lambda>e. Q (fst e)) f) p = (if Q p then file_at f p else None)"
proof -
  have "map_of (filter (\<lambda>e. Q (fst e)) f) p = (if Q p then map_of f p else None)"
    by (induction f) auto
  then show ?thesis by (simp add: file_at_def)
qed

lemma remove_files: "fold (\<lambda>m. remove_file (loc m)) ms f = filter (\<lambda>e. fst e \<notin> loc ` set ms) f"
  by (induction ms arbitrary: f) (auto simp: remove_file_def case_prod_beta' intro: filter_cong)

lemma file_at_remove_files: "file_at (fold (\<lambda>m. remove_file (loc m)) ms f) p = (if p \<in> loc ` set ms then None else file_at f p)"
  using file_at_filter [of "\<lambda>q. q \<notin> loc ` set ms" f p] by (simp add: remove_files)

lemma file_at_make_dirs:
  assumes "fs_ok f" "make_dirs d f = Inr g" "file_at f p = Some raw"
  shows "file_at g p = Some raw"
  using assms file_at_iff [OF fs_ok_make_dirs [OF assms(1,2)]] make_dirs_mem [OF assms(2)] file_at_iff [OF assms(1)] by simp

lemma ensure_dirs_files:
  "fs_ok f \<Longrightarrow> ensure_dirs ds f = (e, g) \<Longrightarrow> fs_ok g \<and> (\<forall>p raw. file_at f p = Some raw \<longrightarrow> file_at g p = Some raw)
    \<and> (\<forall>p. is_dir f p \<longrightarrow> is_dir g p) \<and> (e = None \<longrightarrow> (\<forall>d \<in> set ds. d \<noteq> [] \<longrightarrow> is_dir g d))"
proof (induction ds arbitrary: f)
  case (Cons d ds)
  show ?case
  proof (cases "make_dirs d f")
    case (Inr h)
    have h: "fs_ok h" using fs_ok_make_dirs [OF Cons.prems(1) Inr] .
    have "is_dir f p \<Longrightarrow> is_dir h p" for p using make_dirs_mem [OF Inr] by (simp add: is_dir_def)
    then show ?thesis
      using Cons.IH [OF h] Cons.prems(2) file_at_make_dirs [OF Cons.prems(1) Inr] make_dirs_Inr(2) [OF Inr, of d] by (auto simp: Inr)
  qed (use Cons.prems in auto)
qed simp

lemma pushed_path_in: "pushed_path pushed m = Some p \<Longrightarrow> p \<in> snd ` set pushed"
  by (force simp: pushed_path_def dest: map_of_SomeD)

lemma cleanup_pushed_files:
  assumes clean: "cleanup_pushed user sdir pushed (w, f) = (w', f')"
    and d: "d \<in> set [sdir @ [''cur''], sdir @ [''new'']]" "is_dir f d" and fs: "fs_ok f"
    and pushed: "pushed_ok env f r pushed" and p: "file_at f (d @ [n]) = Some raw"
  shows "file_at f' (d @ [n]) = Some raw \<or> arrived env (rr_sent r) raw"
proof (cases "get_area w user")
  case None
  then show ?thesis using clean p by (simp add: cleanup_pushed_def)
next
  case (Some area)
  define gone where "gone = filter (\<lambda>m. pushed_path pushed m \<noteq> None) (area_rows w (sa_id area))"
  define g where "g = fold (\<lambda>m. remove_file (the (pushed_path pushed m))) gone f"
  have at: "the (pushed_path pushed m) \<in> snd ` set pushed" if "m \<in> set gone" for m
    using that pushed_path_in by (auto simp: gone_def)
  have sub: "(\<lambda>m. the (pushed_path pushed m)) ` set gone \<subseteq> snd ` set pushed"
    by (rule image_subsetI) (rule at)
  show ?thesis
  proof (cases "d @ [n] \<in> (\<lambda>m. the (pushed_path pushed m)) ` set gone")
    case True
    then have "d @ [n] \<in> snd ` set pushed" by (rule subsetD [OF sub])
    then show ?thesis using pushed p unfolding pushed_ok_def by (metis option.inject)
  next
    case False
    then have kept: "file_at g (d @ [n]) = Some raw" using p unfolding g_def file_at_remove_files by simp
    have "d \<notin> (\<lambda>m. the (pushed_path pushed m)) ` set gone"
    proof
      assume "d \<in> (\<lambda>m. the (pushed_path pushed m)) ` set gone"
      then have "d \<in> snd ` set pushed" by (rule subsetD [OF sub])
      then obtain c where "file_at f d = Some c" using pushed unfolding pushed_ok_def by blast
      then show False using d(2) fs by (auto simp: file_at_iff is_dir_def fs_ok_def dest: eq_key_imp_eq_value)
    qed
    then have "is_dir g d" using d(2) by (simp add: g_def remove_files is_dir_def)
    moreover have "n \<in> set (listdir d g)"
      unfolding listdir_iff by (rule exists_pathI [OF file_atD [OF kept]])
    ultimately have "staged_files_remain sdir g" unfolding staged_files_remain_def using d(1) by force
    then have "f' = g" using clean unfolding cleanup_pushed_def prod.case Some option.case Let_def gone_def [symmetric] g_def [symmetric] by simp
    then show ?thesis using kept by simp
  qed
qed


text \<open>
  C34. A push removes a message from the staging mailbox only when it arrived: whatever happens
  (refusals, lost connections, unreadable files, a cancel half-way), a file in \<open>cur\<close> or \<open>new\<close> is still
  there afterwards, unless the target accepted these bytes in this run or already holds a message
  with this Message-ID.
\<close>

theorem staged_mail_only_leaves_delivered:
  assumes requester: "get_user w (rj_requested_by (rr_job r)) = Some user"
    and adopted: "adopt_pre_rename (re_rename_error env) (home_root w user) f = Inr g" "fs_ok g"
    and run: "execute_staging_push env flagged r (w, f) = (res, w', f')"
    and d: "d \<in> set [path_of (staging_dir (home_root w user)) @ [''cur''], path_of (staging_dir (home_root w user)) @ [''new'']]"
    and staged: "file_at g (d @ [n]) = Some raw"
  shows "file_at f' (d @ [n]) = Some raw \<or> arrived env (rr_sent (run_of env res)) raw"
proof -
  define sdir where "sdir = path_of (staging_dir (home_root w user))"
  obtain err h where h: "ensure_dirs (mail_subs sdir) g = (err, h)" by fastforce
  note files = ensure_dirs_files [OF adopted(2) h]
  have kept: "file_at h (d @ [n]) = Some raw" using files staged by blast
  note run' = run [unfolded execute_staging_push_def prod.case requester option.case Let_def sdir_def [symmetric] adopted(1) sum.case h]
  show ?thesis
  proof (cases "err = None \<and> re_connect_target env = None")
    case False
    then have "f' = h" using run' by (auto split: option.splits)
    then show ?thesis using kept staged by simp
  next
    case True
    let ?r = "upd_run (\<lambda>j. j\<lparr>rj_total_messages := sum_list (map (\<lambda>(folder, files). length files)
      (case rj_selected_uids (rr_job r) of Some m \<Rightarrow> m | None \<Rightarrow> []))\<rparr>) r"
    obtain out pushed where push: "push_manifest env flagged sdir h (get_hierarchy_separator (re_separator env))
        (case rj_selected_uids (rr_job r) of Some m \<Rightarrow> m | None \<Rightarrow> []) (?r, []) = (out, pushed)" by fastforce
    have ok: "push_outcome env h ?r (out, pushed)"
      using push_manifest_ok [of env h ?r "[]" flagged sdir] push by (metis pushed_ok_def empty_iff empty_set image_empty)
    have dir: "is_dir h d" using files True d by (auto simp: mail_subs_def sdir_def)
    have clean: "file_at f' (d @ [n]) = Some raw \<or> arrived env (rr_sent s) raw"
      if "pushed_ok env h s pushed" "cleanup_pushed user sdir pushed (w, h) = (w', f')" for s
      using cleanup_pushed_files [OF that(2) _ dir _ that(1) kept] d files by (simp add: sdir_def)
    show ?thesis
    proof (cases out)
      case (R_done s)
      then have "res = R_done s" "cleanup_pushed user sdir pushed (w, h) = (w', f')" using run' True push by auto
      then show ?thesis using clean [of s] ok R_done by (simp add: push_outcome_def)
    next
      case (R_cancelled s)
      then have "res = R_cancelled s" "cleanup_pushed user sdir pushed (w, h) = (w', f')" using run' True push by auto
      then show ?thesis using clean [of s] ok R_cancelled by (simp add: push_outcome_def)
    next
      case (R_raised e s)
      then have "f' = h" using run' True push by auto
      then show ?thesis using kept by simp
    qed
  qed
qed


section \<open>A push that delivers\<close>

definition push_env :: restore_env where
  "push_env = \<lparr> re_now = 0, re_end = 1, re_decrypt = Some, re_loads = (\<lambda>_. None), re_refresh = (\<lambda>_ _. Inl ''refused''),
     re_encrypt = (\<lambda>_. []), re_temp = (id, ''i'', ''t'', ''p''), re_cancel = (\<lambda>_. False), re_connect_source = None,
     re_connect_target = None, re_separator = None, re_list = Inr None, re_select = (\<lambda>_. Inr (Some 2)),
     re_search = (\<lambda>_ _. Inr [''1'', ''2'']), re_fetch = (\<lambda>_ uid _. F_message ''FLAGS ()'' uid), re_reconnect = (\<lambda>_ _. True),
     re_existing = (\<lambda>_. Inr []), re_message_id = (\<lambda>_. []), re_append = (\<lambda>_ _ _ _. Inr True), re_rename_error = None,
     re_unreadable = (\<lambda>_. False) \<rparr>"

definition push_job :: RestoreJob where
  "push_job = new_restore_job ''j'' 0 ''a1'' ''a1'' RM_staging_push ''u1'' ''original'' True None
     (Some [(''INBOX'', [''1.x:2,''])])"

definition push_world :: world where
  "push_world = staged_world\<lparr>restore_jobs := [push_job]\<rparr>"

lemma push_world_simps: "get_restore_job push_world ''j'' = Some push_job"
  "get_user push_world ''u1'' = Some ann" "home_root push_world ann = ''/m/.dovecot-home/ann''"
  by code_simp+


lemma push_delivers:
  "fst (execute_restore_job push_env ''j'' (push_world, staged_fs)) = [(''INBOX'', [], ''hello'')]"
  "file_at (snd (snd (execute_restore_job push_env ''j'' (push_world, staged_fs))))
     (path_of ''/m/.dovecot-home/ann/root-inbox/MFB-Staging'' @ [''cur'', ''1.x:2,S'']) = None"
  by code_simp+


theorem staged_mail_only_leaves_delivered_witness:
  "arrived push_env (rr_sent (run_of push_env (fst (execute_staging_push push_env False
     \<lparr> rr_job = push_job, rr_looks = 0, rr_sent = [] \<rparr> (push_world, staged_fs))))) ''hello''"
proof -
  let ?r = "\<lparr> rr_job = push_job, rr_looks = 0, rr_sent = [] \<rparr>"
  let ?d = "path_of (staging_dir (home_root push_world ann)) @ [''cur'']"
  obtain res w' f' where run: "execute_staging_push push_env False ?r (push_world, staged_fs) = (res, w', f')"
    by (rule prod_cases3)
  have user: "get_user push_world (rj_requested_by (rr_job ?r)) = Some ann"
    using push_world_simps(2) by (simp add: push_job_def)
  have adopted: "adopt_pre_rename (re_rename_error push_env) (home_root push_world ann) staged_fs = Inr staged_fs" "fs_ok staged_fs"
    by code_simp+
  have staged: "file_at staged_fs (?d @ [''1.x:2,S'']) = Some ''hello''" by code_simp
  have "file_at (snd (snd (execute_staging_push push_env False ?r (push_world, staged_fs)))) (?d @ [''1.x:2,S'']) = None"
    by code_simp
  then have "file_at f' (?d @ [''1.x:2,S'']) = None" by (simp add: run)
  then show ?thesis
    using staged_mail_only_leaves_delivered [OF user adopted run _ staged] by (simp add: run)
qed

end
