(* ===== verification/Restore_Routes.thy ===== *)
theory Restore_Routes
  imports Restore_Worker
begin

text \<open>
  The restore endpoints of \<open>routers/restore.py\<close>: the names a user may give to a destination, the
  staging mailbox, creating and reading restore jobs, and the account lookup of the workspace. A
  request body is the list of its fields; audit entries are left out.
\<close>

section \<open>Names that go to a server\<close>

text \<open>What breaks out of a quoted string of IMAP: quotes, backslashes and control characters.\<close>

definition unsafe_char :: "char \<Rightarrow> bool" where
  "unsafe_char c = (c = CHR 0x22 \<or> c = CHR 0x5C \<or> (of_char c :: nat) < 32)"

definition sanitize_imap_string :: "str \<Rightarrow> str" where
  "sanitize_imap_string value = filter (\<lambda>c. \<not> unsafe_char c) value"

definition CUSTOM_FOLDER_MAX_LEN :: nat where
  "CUSTOM_FOLDER_MAX_LEN = 200"

text \<open>\<open>[\x7f-\x9f]\<close> and \<open>len\<close> are on code points.\<close>

definition code_points :: "str \<Rightarrow> nat list" where
  "code_points s = utf8_points (map of_char s)"

definition ctrl_gap :: "str \<Rightarrow> bool" where
  "ctrl_gap s = (\<exists>p \<in> set (code_points s). 0x7f \<le> p \<and> p \<le> 0x9f)"

definition bad_segment :: "str \<Rightarrow> bool" where
  "bad_segment seg = (strip seg = [] \<or> seg = ''.'' \<or> seg = ''..'')"

definition validate_custom_folder :: "str option \<Rightarrow> str \<Rightarrow> http_error + str" where
  "validate_custom_folder v field =
    (let folder = strip (str_or v []) in
     if folder = [] then Inl (HTTPException 400 (field @ '' must not be empty''))
     else if length (code_points folder) > CUSTOM_FOLDER_MAX_LEN then
       Inl (HTTPException 400 (field @ '' too long (max '' @ show_nat CUSTOM_FOLDER_MAX_LEN @ '' characters)''))
     else if sanitize_imap_string folder \<noteq> folder \<or> ctrl_gap folder then
       Inl (HTTPException 400 (field @ '' contains quotes, backslashes or control characters''))
     else if list_ex bad_segment (split_on CHR ''/'' folder) then
       Inl (HTTPException 400 (field @ '' has empty or relative path segments''))
     else Inr folder)"

text \<open>\<open>bytes.fromhex\<close>: pairs of digits, with white space between pairs.\<close>

definition hex_val :: "char \<Rightarrow> nat option" where
  "hex_val c = (let n = of_char c in
     if 48 \<le> n \<and> n \<le> 57 then Some (n - 48)
     else if 97 \<le> n \<and> n \<le> 102 then Some (n - 87)
     else if 65 \<le> n \<and> n \<le> 70 then Some (n - 55)
     else None)"

fun from_hex :: "str \<Rightarrow> str option" where
  "from_hex [] = Some []"
| "from_hex [c] = (if c \<in> set [CHR '' '', CHR 0x09, CHR 0x0A, CHR 0x0B, CHR 0x0C, CHR 0x0D] then Some [] else None)"
| "from_hex (c # d # s) =
    (if c \<in> set [CHR '' '', CHR 0x09, CHR 0x0A, CHR 0x0B, CHR 0x0C, CHR 0x0D] then from_hex (d # s)
     else (case (hex_val c, hex_val d) of
       (Some a, Some b) \<Rightarrow> map_option (Cons (char_of (16 * a + b))) (from_hex s)
     | _ \<Rightarrow> None))"

section \<open>The staging mailbox\<close>

definition STAGING_ADD_MAX_ITEMS :: nat where
  "STAGING_ADD_MAX_ITEMS = 200"

definition api_staging_status :: "staging_env \<Rightarrow> User \<Rightarrow> disk_world \<Rightarrow> StagingStatus \<times> disk_world" where
  "api_staging_status env user dw = get_status env user dw"

fun staging_item :: "str \<times> str \<Rightarrow> (str \<times> str) option" where
  "staging_item (account_id, h) = map_option (Pair account_id) (from_hex h)"

fun staging_http :: "staging_error \<Rightarrow> http_error" where
  "staging_http (Quota_exceeded e) = HTTPException 413 e"
| "staging_http (Not_accessible e) = HTTPException 403 e"
| "staging_http (Value_error e) = HTTPException 403 e"
| "staging_http (Os_error e) = HTTPException 500 ''Internal Server Error''"

definition api_staging_add ::
  "staging_env \<Rightarrow> bool \<Rightarrow> User \<Rightarrow> (str \<times> str) list \<Rightarrow> disk_world \<Rightarrow> (http_error + nat \<times> nat \<times> nat) \<times> disk_world"
where
  "api_staging_add env include_all user items dw =
    (case those (map staging_item (take STAGING_ADD_MAX_ITEMS items)) of
       None \<Rightarrow> (Inl (HTTPException 400 ''Invalid items''), dw)
     | Some items \<Rightarrow>
        (case add_messages env include_all user items dw of
           (Inl e, dw) \<Rightarrow> (Inl (staging_http e), dw)
         | (Inr result, dw) \<Rightarrow> (Inr result, dw)))"

definition api_staging_empty :: "User \<Rightarrow> disk_world \<Rightarrow> disk_world" where
  "api_staging_empty user dw = empty_staging user dw"

definition api_staging_push ::
  "staging_env \<Rightarrow> (nat \<Rightarrow> str) \<Rightarrow> User \<Rightarrow> str \<Rightarrow> str \<Rightarrow> str option \<Rightarrow> disk_world
   \<Rightarrow> (http_error + str list \<times> str list) \<times> disk_world"
where
  "api_staging_push env ids user destination folder_mode custom_folder dw =
    (if folder_mode \<notin> set [''original'', ''restored'', ''custom''] then (Inl (HTTPException 400 ''Invalid folder_mode''), dw)
     else (case (if folder_mode = ''custom'' then map_sum id Some (validate_custom_folder custom_folder ''custom_folder'')
                 else Inr None) of
        Inl e \<Rightarrow> (Inl e, dw)
      | Inr custom_folder \<Rightarrow>
         if destination \<noteq> ''origin'' \<and> get_account_for (fst dw) destination user = None
         then (Inl (HTTPException 404 ''Destination account not found''), dw)
         else (case push env ids user destination folder_mode custom_folder dw of
            (Inl e, dw) \<Rightarrow> (Inl (HTTPException 500 ''Internal Server Error''), dw)
          | (Inr result, dw) \<Rightarrow> (Inr result, dw))))"

section \<open>Restore jobs\<close>

definition restore_mode_of :: "str \<Rightarrow> RestoreMode option" where
  "restore_mode_of mode =
    (if mode = ''full'' then Some RM_full else if mode = ''folder'' then Some RM_folder
     else if mode = ''selection'' then Some RM_selection
     else if mode = ''staging_push'' then Some RM_staging_push else None)"

text \<open>
  An unknown mode raises where the row is built, that is after every refusal; \<open>submit_restore_job\<close>
  only enqueues.
\<close>

record RestoreCreate =
  rq_source_account_id :: str
  rq_target_account_id :: str
  rq_restore_mode :: str
  rq_folder_mapping :: str
  rq_skip_duplicates :: bool
  rq_selected_folders :: "str list option"
  rq_selected_uids :: "(str \<times> str list) list option"

definition create_restore ::
  "str \<Rightarrow> datetime \<Rightarrow> User \<Rightarrow> RestoreCreate \<Rightarrow> world \<Rightarrow> (http_error + RestoreJob) \<times> world"
where
  "create_restore job_id now user body w =
    (if rq_restore_mode body = ''staging_push'' then (Inl (HTTPException 400 ''Use /api/restore/staging/push''), w)
     else (case (if rq_folder_mapping body \<noteq> ''original'' then validate_custom_folder (Some (rq_folder_mapping body)) ''folder_mapping''
                 else Inr ''original'') of
        Inl e \<Rightarrow> (Inl e, w)
      | Inr folder_mapping \<Rightarrow>
         if get_account_for w (rq_source_account_id body) user = None then (Inl (HTTPException 404 ''Source account not found''), w)
         else if get_account_for w (rq_target_account_id body) user = None then (Inl (HTTPException 404 ''Target account not found''), w)
         else
           let mode = restore_mode_of (rq_restore_mode body);
               job = new_restore_job job_id now (rq_source_account_id body) (rq_target_account_id body)
                 (case mode of None \<Rightarrow> RM_full | Some m \<Rightarrow> m) (u_id user) folder_mapping (rq_skip_duplicates body)
                 (rq_selected_folders body) (rq_selected_uids body)
           in (case create_restore_job job w of
                 (None, w') \<Rightarrow> (Inl (HTTPException 409 ''Cannot create restore job''), w')
               | (Some job, w') \<Rightarrow>
                   if mode = None then (Inl (HTTPException 500 ''Internal Server Error''), w)
                   else (Inr job, submit_restore_job (rj_id job) w'))))"

definition get_restore :: "User \<Rightarrow> str \<Rightarrow> world \<Rightarrow> http_error + RestoreJob" where
  "get_restore user job_id w =
    (case get_restore_job w job_id of
       None \<Rightarrow> Inl (HTTPException 404 ''Restore job not found'')
     | Some job \<Rightarrow>
        if rj_requested_by job \<noteq> u_id user \<and> u_role user \<noteq> Role_admin
           \<and> get_account_for w (rj_source_account_id job) user = None
        then Inl (HTTPException 404 ''Restore job not found'') else Inr job)"

section \<open>The account of a workspace request\<close>

text \<open>No implicit access for administrators: the second component says whether the bypass was used.\<close>

definition workspace_account_for_user :: "world \<Rightarrow> User \<Rightarrow> str \<Rightarrow> bool \<Rightarrow> Account option \<times> bool" where
  "workspace_account_for_user w user account_id include_all =
    (case get_account w account_id of
       None \<Rightarrow> (None, False)
     | Some account \<Rightarrow>
        if account_id \<in> set (accessible_account_ids w user) then (Some account, False)
        else if include_all \<and> u_role user = Role_admin then (Some account, True)
        else (None, False))"

section \<open>A typed name stays inside its quotes\<close>

text \<open>What a quoted string of RFC 3501 may hold without an escape.\<close>

definition quotable :: "str \<Rightarrow> bool" where
  "quotable s = (\<forall>c \<in> set s. \<not> unsafe_char c \<and> (of_char c :: nat) < 127)"

fun utf8_ok :: "nat list \<Rightarrow> bool" where
  "utf8_ok [] = True"
| "utf8_ok (a # s) =
    (if a < 128 then utf8_ok s
     else if a < 224 then (case s of b # t \<Rightarrow> 194 \<le> a \<and> 128 \<le> b \<and> b < 192 \<and> utf8_ok (drop 1 s) | [] \<Rightarrow> False)
     else if a < 240 then
       (case s of b # c # t \<Rightarrow> 128 \<le> b \<and> b < 192 \<and> 128 \<le> c \<and> c < 192 \<and> (224 < a \<or> 160 \<le> b) \<and> utf8_ok (drop 2 s) | _ \<Rightarrow> False)
     else (case s of b # c # d # t \<Rightarrow>
         128 \<le> b \<and> b < 192 \<and> 128 \<le> c \<and> c < 192 \<and> 128 \<le> d \<and> d < 192 \<and> (240 < a \<or> 144 \<le> b) \<and> utf8_ok (drop 3 s)
       | _ \<Rightarrow> False))"

definition valid_utf8 :: "str \<Rightarrow> bool" where
  "valid_utf8 s = utf8_ok (map of_char s)"

lemma utf8_low: "utf8_ok bs \<Longrightarrow> p < 128 \<Longrightarrow> p \<in> set (utf8_points bs) \<longleftrightarrow> p \<in> set bs"
proof (induction bs rule: utf8_ok.induct)
  case (2 a s)
  consider "a < 128" | "\<not> a < 128" "a < 224" | "\<not> a < 224" "a < 240" | "\<not> a < 240" by linarith
  then show ?case
  proof cases
    case 2
    then obtain b t where s: "s = b # t" "194 \<le> a" "128 \<le> b" "b < 192" "utf8_ok t"
      using "2.prems"(1) by (cases s) auto
    have "128 \<le> (a - 192) * 64 + (b - 128)" using s(2) by (simp add: nat_le_iff_add [of 194 a] algebra_simps) presburger
    then show ?thesis using "2.IH"(2) "2.prems"(2) 2 s by auto
  next
    case 3
    then obtain b c t where s: "s = b # c # t" "128 \<le> b" "b < 192" "128 \<le> c" "c < 192" "224 < a \<or> 160 \<le> b" "utf8_ok t"
      using "2.prems"(1) by (cases s; cases "tl s") auto
    have "128 \<le> (a - 224) * 4096 + (b - 128) * 64 + (c - 128)" using s(6) by (cases "224 < a") linarith+
    then show ?thesis using "2.IH"(3) "2.prems"(2) 3 s by auto
  next
    case 4
    then obtain b c d t where s: "s = b # c # d # t" "128 \<le> b" "b < 192" "128 \<le> c" "c < 192" "128 \<le> d" "d < 192"
        "240 < a \<or> 144 \<le> b" "utf8_ok t"
      using "2.prems"(1) by (cases s; cases "tl s"; cases "tl (tl s)") auto
    have "128 \<le> (a - 240) * 262144 + (b - 128) * 4096 + (c - 128) * 64 + (d - 128)" using s(8) by (cases "240 < a") linarith+
    then show ?thesis using "2.IH"(4) "2.prems"(2) 4 s by auto
  qed (use "2.IH"(1) "2.prems" in auto)
qed simp

lemma char_code: "c = CHR 0x22 \<longleftrightarrow> (of_char c :: nat) = 34" "c = CHR 0x5C \<longleftrightarrow> (of_char c :: nat) = 92"
  "c = CHR 0x7F \<longleftrightarrow> (of_char c :: nat) = 127"
proof -
  have codes: "(of_char CHR 0x22 :: nat) = 34" "(of_char CHR 0x5C :: nat) = 92" "(of_char CHR 0x7F :: nat) = 127" by simp_all
  show "c = CHR 0x22 \<longleftrightarrow> (of_char c :: nat) = 34" "c = CHR 0x5C \<longleftrightarrow> (of_char c :: nat) = 92"
    "c = CHR 0x7F \<longleftrightarrow> (of_char c :: nat) = 127"
    unfolding codes [symmetric] by (simp_all only: of_char_eq_iff)
qed

lemma base64_char_quotable: "quotable [base64_char n]"
proof -
  define v where "v = (if n < 26 then 65 + n else if n < 52 then 71 + n else if n < 62 then n - 4 else if n = 62 then 43 else 44)"
  have v: "35 \<le> v" "v < 127" "v \<noteq> 92" by (auto simp: v_def)
  have code: "(of_char (base64_char n) :: nat) = v" using v(2) by (simp add: base64_char_def v_def)
  have "base64_char n \<noteq> CHR 0x22" "base64_char n \<noteq> CHR 0x5C" using code v by auto
  then show ?thesis using v code by (simp add: quotable_def unsafe_char_def)
qed

lemma quotable_append [simp]: "quotable (s @ t) = (quotable s \<and> quotable t)"
  by (auto simp: quotable_def)

lemma quotable_shift_run: "quotable (shift_run run)"
  using base64_char_quotable by (auto simp: shift_run_def quotable_def unsafe_char_def)

lemma quotable_utf7_points: "\<forall>p \<in> set ps. p \<noteq> 34 \<and> p \<noteq> 92 \<Longrightarrow> quotable (utf7_points run ps)"
proof (induction run ps rule: utf7_points.induct)
  case (2 run p ps)
  have "quotable (if p = 38 then ''&-'' else [char_of p])" if "32 \<le> p" "p \<le> 126"
  proof -
    have "(of_char (char_of p :: char) :: nat) = p" using that by simp
    then show ?thesis using that 2 by (simp add: quotable_def unsafe_char_def char_code)
  qed
  then show ?case using 2 by (simp add: quotable_shift_run)
qed (simp add: quotable_shift_run)

definition plain_text :: "str \<Rightarrow> bool" where
  "plain_text s = (valid_utf8 s \<and> (\<forall>c \<in> set s. \<not> unsafe_char c \<and> c \<noteq> CHR 0x7F))"

lemma quotable_encode:
  assumes "plain_text s"
  shows "quotable (imap_utf7_encode s)"
proof (cases "is_ascii s")
  case True
  have "(of_char c :: nat) < 127" if "c \<in> set s" for c
  proof -
    have "(of_char c :: nat) < 128" using True that by (simp add: is_ascii_def list_all_iff)
    moreover have "(of_char c :: nat) \<noteq> 127" using assms that by (auto simp: plain_text_def char_code)
    ultimately show ?thesis by simp
  qed
  then show ?thesis using True assms by (simp add: imap_utf7_encode_def quotable_def plain_text_def)
next
  case False
  have no: "p \<notin> of_char ` set s" if "p \<in> {34, 92}" for p :: nat
  proof
    assume "p \<in> of_char ` set s"
    then obtain c where c: "c \<in> set s" "p = of_char c" by blast
    then have "c = CHR 0x22 \<or> c = CHR 0x5C" using that by (simp add: char_code)
    then have "unsafe_char c" unfolding unsafe_char_def by blast
    then show False using assms c(1) by (simp add: plain_text_def)
  qed
  have "p \<noteq> 34 \<and> p \<noteq> 92" if "p \<in> set (utf8_points (map of_char s))" for p
    using utf8_low [of "map of_char s" 34] utf8_low [of "map of_char s" 92] assms no [of 34] no [of 92] that
    unfolding plain_text_def valid_utf8_def set_map by fastforce
  then show ?thesis using False quotable_utf7_points by (simp add: imap_utf7_encode_def)
qed


lemma plain_text_replace:
  assumes "plain_text s" "plain_text [a]" "plain_text [b]"
  shows "plain_text (replace_char a b s)"
proof -
  have ascii: "(of_char a :: nat) < 128" "(of_char b :: nat) < 128"
    using assms(2,3) by (auto simp: plain_text_def valid_utf8_def split: if_splits)
  have "utf8_ok bs \<Longrightarrow> utf8_ok (map (\<lambda>p. if p = of_char a then of_char b else p) bs)" for bs
  proof (induction bs rule: utf8_ok.induct)
    case (2 p s)
    consider "p < 128" | "\<not> p < 128" "p < 224" | "\<not> p < 224" "p < 240" | "\<not> p < 240" by linarith
    then show ?case
    proof cases
      case 1
      then show ?thesis using 2 ascii by auto
    next
      case 2
      then obtain x t where "s = x # t" "194 \<le> p" "128 \<le> x" "x < 192" "utf8_ok t"
        using "2.prems" by (cases s) auto
      then show ?thesis using "2.IH"(2) 2 ascii by auto
    next
      case 3
      then obtain x y t where "s = x # y # t" "128 \<le> x" "x < 192" "128 \<le> y" "y < 192" "224 < p \<or> 160 \<le> x" "utf8_ok t"
        using "2.prems" by (cases s; cases "tl s") auto
      then show ?thesis using "2.IH"(3) 3 ascii by auto
    next
      case 4
      then obtain x y z t where "s = x # y # z # t" "128 \<le> x" "x < 192" "128 \<le> y" "y < 192" "128 \<le> z" "z < 192"
          "240 < p \<or> 144 \<le> x" "utf8_ok t"
        using "2.prems" by (cases s; cases "tl s"; cases "tl (tl s)") auto
      then show ?thesis using "2.IH"(4) 4 ascii by auto
    qed
  qed simp
  from this [of "map of_char s"] have "valid_utf8 (replace_char a b s)"
    using assms(1) by (simp add: plain_text_def valid_utf8_def replace_char_def comp_def if_distrib)
  then show ?thesis using assms by (auto simp: plain_text_def replace_char_def)
qed

lemma utf8_ok_append: "utf8_ok bs \<Longrightarrow> utf8_ok (bs @ cs) = utf8_ok cs"
  by (induction bs rule: utf8_ok.induct) (auto split: if_splits list.splits)

lemma plain_text_append: "plain_text s \<Longrightarrow> plain_text t \<Longrightarrow> plain_text (s @ t)"
  by (auto simp: plain_text_def valid_utf8_def utf8_ok_append)

lemma plain_text_ascii: "plain_text ''/''" "plain_text ''_''"
  by (simp_all add: plain_text_def valid_utf8_def unsafe_char_def)

lemma plain_text_escape: "plain_text [sep] \<Longrightarrow> plain_text s \<Longrightarrow> plain_text (escape_separator sep s)"
  by (simp add: escape_separator_def plain_text_replace plain_text_ascii)

lemma validated_plain:
  assumes "validate_custom_folder v field = Inr folder" "valid_utf8 folder"
  shows "plain_text folder \<and> folder \<noteq> [] \<and> length (code_points folder) \<le> 200
    \<and> (\<forall>seg \<in> set (split_on CHR ''/'' folder). \<not> bad_segment seg)"
proof -
  have folder: "sanitize_imap_string folder = folder" "\<not> ctrl_gap folder" "folder \<noteq> []" "length (code_points folder) \<le> 200"
    "\<not> list_ex bad_segment (split_on CHR ''/'' folder)"
    using assms(1) by (auto simp: validate_custom_folder_def Let_def CUSTOM_FOLDER_MAX_LEN_def split: if_splits)
  have "\<not> unsafe_char c" if "c \<in> set folder" for c
    using folder(1) that unfolding sanitize_imap_string_def by (metis filter_id_conv)
  moreover have "CHR 0x7F \<notin> set folder"
  proof
    assume "CHR 0x7F \<in> set folder"
    then have "127 \<in> set (map of_char folder :: nat list)" by (force simp: char_code)
    then have "127 \<in> set (code_points folder)"
      using utf8_low [of "map of_char folder" 127] assms(2) unfolding code_points_def valid_utf8_def by simp
    then show False using folder(2) by (auto simp: ctrl_gap_def)
  qed
  ultimately show ?thesis using folder assms(2) by (auto simp: plain_text_def list_ex_iff)
qed



text \<open>
  The folders of a selection are not looked at: with one accepted request, the same request
  is accepted for any folder name whatsoever, the restore selects this name as it is, and a name
  in ASCII reaches the target server as it is, quotes included.
\<close>

lemma selected_folder_is_raw:
  assumes req: "create_restore i now user body w = (Inr job, w')" "rq_folder_mapping body = ''original''"
    and name: "is_ascii name" "\<not> prefix src_prefix name" "\<not> prefix ''Recovery - '' name"
  shows "\<exists>job w'. create_restore i now user (body\<lparr>rq_selected_uids := Some [(name, uids)]\<rparr>) w = (Inr job, w')
    \<and> resolve_folders listing src_prefix job = [(name, name)]
    \<and> imap_utf7_encode (map_folder name (rj_folder_mapping job) CHR ''/'' src_prefix) = name"
proof -
  obtain mode where mode: "restore_mode_of (rq_restore_mode body) = Some mode"
    using req(1) by (auto simp: create_restore_def Let_def split: if_splits sum.splits option.splits prod.splits)
  define mk where "mk = (\<lambda>uids. new_restore_job i now (rq_source_account_id body) (rq_target_account_id body) mode
    (u_id user) ''original'' (rq_skip_duplicates body) (rq_selected_folders body) uids)"
  have ok: "fst (create_restore_job (mk (rq_selected_uids body)) w) \<noteq> None"
    using req mode by (auto simp: create_restore_def Let_def mk_def split: if_splits sum.splits option.splits prod.splits)
  then have new: "create_restore_job (mk us) w = (Some (mk us), w\<lparr>restore_jobs := restore_jobs w @ [mk us]\<rparr>)" for us
    by (auto simp: create_restore_job_def mk_def job_pair_def split: option.splits if_splits)
  have "create_restore i now user (body\<lparr>rq_selected_uids := Some [(name, uids)]\<rparr>) w
    = (Inr (mk (Some [(name, uids)])), submit_restore_job i (w\<lparr>restore_jobs := restore_jobs w @ [mk (Some [(name, uids)])]\<rparr>))"
    using req mode new [of "Some [(name, uids)]"]
    by (auto simp: create_restore_def Let_def mk_def split: if_splits option.splits)
  moreover have "resolve_folders listing src_prefix (mk (Some [(name, uids)])) = [(name, name)]"
    by (simp add: resolve_folders_def mk_def)
  moreover have "native_name src_prefix name = name"
    using name by (auto simp: native_name_def Let_def removeprefix_def)
  then have "imap_utf7_encode (map_folder name (rj_folder_mapping (mk (Some [(name, uids)]))) CHR ''/'' src_prefix) = name"
    using name(1) by (simp add: map_folder_def mk_def new_restore_job_def escape_separator_def replace_char_def imap_utf7_encode_def map_idI)
  ultimately show ?thesis by blast
qed

text \<open>
  The workspace looks into a mailbox only for those who may: the lookup gives the mailbox the
  plain lookup gives, to a user who owns it or shares a group with it, exactly; an administrator
  reaches any other one only by asking for it, and that is what the flag for the audit says.
\<close>

lemma workspace_escalation_explicit:
  assumes "pk a_id (accounts w)"
  shows "(workspace_account_for_user w user i all = (Some a, esc) \<longrightarrow>
      get_account_for w i user = Some a \<and> (esc \<longleftrightarrow> i \<notin> set (accessible_account_ids w user))
      \<and> (esc \<longrightarrow> all \<and> u_role user = Role_admin))
    \<and> (agent_account w user i = Inr a \<longrightarrow> workspace_account_for_user w user i all = (Some a, False))
    \<and> (u_role user \<noteq> Role_admin \<longrightarrow> workspace_account_for_user w user i all = (get_account_for w i user, False))"
proof (cases "get_account w i")
  case None
  then show ?thesis
    by (simp add: workspace_account_for_user_def get_account_for_def agent_account_def)
next
  case (Some b)
  note views = account_views [OF assms, of i user b]
  have b: "b \<in> set (accounts w)" "a_id b = i" using row_SomeD [OF Some] by auto
  have same: "get_account_for w i user = Some b" if "i \<in> set (accessible_account_ids w user) \<or> u_role user = Role_admin"
  proof (cases "u_role user = Role_admin")
    case False
    then have "agent_account w user i = Inr b" using that Some by (simp add: agent_account_def)
    then show ?thesis using views by blast
  qed (simp add: get_account_for_def Some)
  have only: "i \<in> set (accessible_account_ids w user)" if "u_role user \<noteq> Role_admin" "get_account_for w i user = Some c" for c
  proof -
    have "may_see w user b"
      using that Some b(2) by (auto simp: get_account_for_def may_see_def is_account_owner_def ids_defs split: if_splits)
    then show ?thesis unfolding accessible_ids using b by blast
  qed
  show ?thesis
    using same only Some
    by (cases "get_account_for w i user") (auto simp: workspace_account_for_user_def agent_account_def split: if_splits)
qed


section \<open>Requests that are accepted\<close>

definition typed_name :: str where
  "typed_name = ''Caf'' @ [CHR 0xC3, CHR 0xA9] @ ''/2024''"


definition selection_request :: RestoreCreate where
  "selection_request = \<lparr> rq_source_account_id = ''a1'', rq_target_account_id = ''a1'', rq_restore_mode = ''selection'',
     rq_folder_mapping = ''original'', rq_skip_duplicates = True, rq_selected_folders = None,
     rq_selected_uids = Some [(''INBOX'', [''1''])] \<rparr>"

lemma selection_accepted: "\<exists>job w'. create_restore ''j'' 0 ann selection_request staged_world = (Inr job, w')"
proof -
  have "case fst (create_restore ''j'' 0 ann selection_request staged_world) of Inl _ \<Rightarrow> False | Inr _ \<Rightarrow> True"
    by code_simp
  then show ?thesis by (cases "create_restore ''j'' 0 ann selection_request staged_world") (auto split: sum.splits)
qed

end
