(* ===== verification/Mailbox_Browse.thy ===== *)
theory Mailbox_Browse
  imports Restore_Routes
begin

text \<open>
  Browsing and searching a mailbox through Dovecot: the second half of \<open>routers/restore.py\<close>. A
  request connects as a temporary user, asks, and removes the user again; the answers of the IMAP
  server are the functions of \<open>browse_env\<close>, the parser of mail headers is \<open>bw_header\<close>.
\<close>

record Hit =
  h_uid :: str
  h_subject :: str
  h_from :: str
  h_namespace :: str
  h_folder :: str
  h_message_id :: str

record browse_env =
  bw_now :: datetime
  bw_temp :: "(str \<Rightarrow> str) \<times> str \<times> str \<times> str"
  bw_connect :: "str option"
  bw_list :: "str \<Rightarrow> str list option"
  bw_status :: "str \<Rightarrow> str list option"
  bw_select :: "str \<Rightarrow> nat option"
  bw_search_all :: "str \<Rightarrow> str list"
  bw_search :: "str \<Rightarrow> str list \<Rightarrow> str list"
  bw_envelopes :: "str \<Rightarrow> str list \<Rightarrow> str list"
  bw_header :: "str \<Rightarrow> str \<Rightarrow> Hit option"

section \<open>The temporary user\<close>

definition connect_dovecot_for_account :: "browse_env \<Rightarrow> Account \<Rightarrow> disk_world \<Rightarrow> (str + str) \<times> disk_world" where
  "connect_dovecot_for_account env account dw =
    (case dw of (w, f) \<Rightarrow>
      (case bw_temp env of (hp, i, token, temp_password) \<Rightarrow>
        (case create_temp_imap_user hp i (bw_now env) token temp_password [a_id account] w of
           (Inl e, w) \<Rightarrow> (Inl (py_error_text e), w, f)
         | (Inr (temp_username, _), w) \<Rightarrow>
            (case bw_connect env of
               Some e \<Rightarrow> (Inl e, snd (delete_temp_imap_user temp_username (w, f)))
             | None \<Rightarrow> (Inr temp_username, w, f)))))"

text \<open>What the server answers in between does not change the world.\<close>

definition with_dovecot :: "browse_env \<Rightarrow> Account \<Rightarrow> 'a \<Rightarrow> disk_world \<Rightarrow> (str + 'a) \<times> disk_world" where
  "with_dovecot env account result dw =
    (case connect_dovecot_for_account env account dw of
       (Inl e, dw) \<Rightarrow> (Inl e, dw)
     | (Inr temp_username, dw) \<Rightarrow> (Inr result, snd (delete_temp_imap_user temp_username dw)))"

section \<open>Reading answers\<close>

definition parse_folder_name :: "str \<Rightarrow> str \<Rightarrow> (str \<times> str) option" where
  "parse_folder_name line namespace_prefix =
    map_option (\<lambda>(_, right). let full_name = rstrip_quote right in (full_name, removeprefix namespace_prefix full_name))
      (rsplit_once [CHR 0x22, CHR '' '', CHR 0x22] line)"

definition MESSAGES_RE :: rx where
  "MESSAGES_RE = seq [Lit ''MESSAGES'', plus is_space, number 1]"

definition parse_message_count :: "str list \<Rightarrow> nat" where
  "parse_message_count status_data =
    (case status_data of [] \<Rightarrow> 0
     | raw # _ \<Rightarrow> (case Regex.re_search MESSAGES_RE raw of Some m \<Rightarrow> nat (grp_int m 1) | None \<Rightarrow> 0))"

definition not_quote :: "char \<Rightarrow> bool" where
  "not_quote c = (c \<noteq> CHR 0x22)"

definition quoted_group :: "nat \<Rightarrow> rx" where
  "quoted_group n = seq [Lit [CHR 0x22], Grp n (Star not_quote), Lit [CHR 0x22]]"

definition SEQ_RE :: rx where
  "SEQ_RE = seq [number 1, plus is_space, Lit ''('']"

definition ENVELOPE_RE :: rx where
  "ENVELOPE_RE = seq [Lit ''ENVELOPE'', plus is_space, Lit ''('', quoted_group 1,
     Alt (seq [plus is_space, Lit ''NIL'']) (seq [plus is_space, quoted_group 2])]"

definition SUBJECT_RE :: rx where
  "SUBJECT_RE = seq [Lit ''ENVELOPE'', plus is_space, Lit ''('', quoted_group 2, plus is_space, quoted_group 1]"

definition FLAGS_RE :: rx where
  "FLAGS_RE = seq [Lit ''FLAGS'', plus is_space, Lit ''('', Grp 1 (Star (\<lambda>c. c \<noteq> CHR '')'')), Lit '')'']"

definition MSGID_RE :: rx where
  "MSGID_RE = seq [Lit ''<'', Grp 1 (plus (\<lambda>c. c \<noteq> CHR ''>'')), Lit ''>'']"

definition FROM_RE :: rx where
  "FROM_RE = seq [Lit ''(('', quoted_group 1]"

record Envelope =
  env_seq :: nat
  env_subject :: str
  env_date :: str
  env_from :: str
  env_message_id :: str
  env_flags :: "str list"

definition parse_item :: "str \<Rightarrow> Envelope option" where
  "parse_item raw =
    (case re_match SEQ_RE raw of
       None \<Rightarrow> None
     | Some m \<Rightarrow>
        (case (case Regex.re_search ENVELOPE_RE raw of
            Some e \<Rightarrow> Some (grp e 1, grp e 2)
          | None \<Rightarrow> map_option (\<lambda>e. ([], grp e 1)) (Regex.re_search SUBJECT_RE raw)) of
           None \<Rightarrow> None
         | Some (date, subject) \<Rightarrow> Some
            \<lparr> env_seq = nat (grp_int m 1), env_subject = subject, env_date = date,
              env_from = (case Regex.re_search FROM_RE raw of Some g \<Rightarrow> grp g 1 | None \<Rightarrow> []),
              env_message_id = (case Regex.re_search MSGID_RE raw of Some g \<Rightarrow> ''<'' @ grp g 1 @ ''>'' | None \<Rightarrow> []),
              env_flags = (case Regex.re_search FLAGS_RE raw of Some g \<Rightarrow> words (grp g 1) | None \<Rightarrow> []) \<rparr>))"

definition parse_envelope :: "str list \<Rightarrow> Envelope list" where
  "parse_envelope fetch_data = List.map_filter parse_item fetch_data"

section \<open>Folders and pages\<close>

definition NOSELECT :: str where
  "NOSELECT = CHR 0x5C # ''Noselect''"

record Mailbox =
  mb_name :: str
  mb_full_name :: str
  mb_messages :: nat

fun collect_mailboxes :: "browse_env \<Rightarrow> str \<Rightarrow> str set \<Rightarrow> str list \<Rightarrow> Mailbox list" where
  "collect_mailboxes env namespace_prefix seen [] = []"
| "collect_mailboxes env namespace_prefix seen (item # items) =
    (if item = [] \<or> sublist NOSELECT item then collect_mailboxes env namespace_prefix seen items
     else (case parse_folder_name item namespace_prefix of
        None \<Rightarrow> collect_mailboxes env namespace_prefix seen items
      | Some (full_name, short_name) \<Rightarrow>
         if full_name \<in> seen then collect_mailboxes env namespace_prefix seen items
         else \<lparr> mb_name = short_name, mb_full_name = full_name,
                mb_messages = (case bw_status env full_name of Some d \<Rightarrow> parse_message_count d | None \<Rightarrow> 0) \<rparr>
              # collect_mailboxes env namespace_prefix (insert full_name seen) items))"

fun dovecot_http :: "(str + http_error + 'a) \<times> disk_world \<Rightarrow> (http_error + 'a) \<times> disk_world" where
  "dovecot_http (Inl e, dw) = (Inl (HTTPException 500 ''Internal Server Error''), dw)"
| "dovecot_http (Inr r, dw) = (r, dw)"

definition list_mailboxes :: "browse_env \<Rightarrow> User \<Rightarrow> str \<Rightarrow> disk_world \<Rightarrow> (http_error + Mailbox list) \<times> disk_world" where
  "list_mailboxes env user account_id dw =
    (case get_account_for (fst dw) account_id user of
       None \<Rightarrow> (Inl (HTTPException 404 ''Account not found''), dw)
     | Some account \<Rightarrow>
        let ns = account_namespace_prefix account
        in dovecot_http (with_dovecot env account
             (Inr (case bw_list env ns of None \<Rightarrow> [] | Some items \<Rightarrow> collect_mailboxes env ns {} items)) dw))"

definition page_uids :: "nat \<Rightarrow> nat \<Rightarrow> 'a list \<Rightarrow> 'a list" where
  "page_uids page page_size uids = take page_size (drop ((page - 1) * page_size) (rev uids))"

definition clamp :: "int \<Rightarrow> int \<Rightarrow> nat" where
  "clamp hi x = nat (max 1 (min x hi))"

definition list_messages ::
  "browse_env \<Rightarrow> User \<Rightarrow> str \<Rightarrow> str \<Rightarrow> int \<Rightarrow> int \<Rightarrow> disk_world \<Rightarrow> (http_error + Envelope list) \<times> disk_world"
where
  "list_messages env user account_id folder page page_size dw =
    (case get_account_for (fst dw) account_id user of
       None \<Rightarrow> (Inl (HTTPException 404 ''Account not found''), dw)
     | Some account \<Rightarrow>
        let imap_folder = account_namespace_prefix account @ sanitize_imap_string folder
        in dovecot_http (with_dovecot env account
             (case bw_select env imap_folder of
                None \<Rightarrow> Inl (HTTPException 404 ''Folder not found'')
              | Some n \<Rightarrow>
                 if n = 0 then Inr []
                 else
                   let uids = page_uids (clamp 10000 page) (clamp 200 page_size) (bw_search_all env imap_folder)
                   in Inr (if uids = [] then [] else parse_envelope (bw_envelopes env imap_folder uids))) dw))"

section \<open>Searching\<close>

definition quoted :: "str \<Rightarrow> str" where
  "quoted s = [CHR 0x22] @ s @ [CHR 0x22]"

definition list_namespace_folders :: "str \<Rightarrow> str list option \<Rightarrow> str list" where
  "list_namespace_folders namespace listing =
    (case listing of
       None \<Rightarrow> [''INBOX'']
     | Some data \<Rightarrow>
        let names = concat (map (\<lambda>line. if line = [] \<or> sublist NOSELECT line then []
              else (case rev (split_on CHR 0x22 line) of
                 _ # full_name # _ # _ \<Rightarrow> [removeprefix namespace full_name] | _ \<Rightarrow> [])) data)
        in if names = [] then [''INBOX''] else names)"

definition type_map :: "str \<Rightarrow> str option" where
  "type_map t = map_of [(''unseen'', ''UNSEEN''), (''flagged'', ''FLAGGED''), (''unanswered'', ''UNANSWERED'')] t"

definition search_args :: "str list \<Rightarrow> str \<Rightarrow> bool \<Rightarrow> str \<Rightarrow> str list" where
  "search_args criteria_fields type_filter search_body query =
    (let fields = (if criteria_fields = [] then [''SUBJECT''] else criteria_fields);
         arg = quoted (sanitize_imap_string query)
     in (case type_map type_filter of Some t \<Rightarrow> [t] | None \<Rightarrow> [])
        @ (if search_body \<or> ''BODY'' \<in> set fields then [''TEXT'', arg]
           else replicate (length fields - 1) ''OR'' @ concat (map (\<lambda>field. [field, arg]) fields)))"

definition search_namespace_for_query ::
  "browse_env \<Rightarrow> str \<Rightarrow> str \<Rightarrow> str list option \<Rightarrow> str list \<Rightarrow> str \<Rightarrow> bool \<Rightarrow> Hit list"
where
  "search_namespace_for_query env namespace query folders criteria_fields type_filter search_body =
    (let folders = (case folders of Some fs \<Rightarrow> fs | None \<Rightarrow> list_namespace_folders namespace (bw_list env namespace))
     in concat (map (\<lambda>folder.
          let target = namespace @ folder
          in if bw_select env target = None then []
             else map (\<lambda>h. h\<lparr>h_namespace := namespace, h_folder := folder\<rparr>)
               (List.map_filter (bw_header env target)
                 (take 200 (bw_search env target (search_args criteria_fields type_filter search_body query))))) folders))"

definition search_messages_args :: "str \<Rightarrow> str list" where
  "search_messages_args q = concat (map (\<lambda>word. [''TEXT'', quoted (sanitize_imap_string word)]) (words q))"

definition search_folder ::
  "browse_env \<Rightarrow> User \<Rightarrow> str \<Rightarrow> str \<Rightarrow> str \<Rightarrow> disk_world \<Rightarrow> (http_error + Envelope list) \<times> disk_world"
where
  "search_folder env user account_id folder q dw =
    (case get_account_for (fst dw) account_id user of
       None \<Rightarrow> (Inl (HTTPException 404 ''Account not found''), dw)
     | Some account \<Rightarrow>
        if q = [] then (Inl (HTTPException 400 ''Query parameter 'q' is required''), dw)
        else
          let imap_folder = account_namespace_prefix account @ sanitize_imap_string folder
          in dovecot_http (with_dovecot env account
               (case bw_select env imap_folder of
                  None \<Rightarrow> Inl (HTTPException 404 ''Folder not found'')
                | Some _ \<Rightarrow>
                   let uids = take 100 (bw_search env imap_folder (search_messages_args q))
                   in Inr (if uids = [] then [] else parse_envelope (bw_envelopes env imap_folder uids))) dw))"

text \<open>One entry per Message-Id, with one location per source.\<close>

record Location =
  loc_source :: str
  loc_namespace :: str
  loc_folder :: str
  loc_uid :: str

record Entry =
  en_subject :: str
  en_from :: str
  en_folder :: str
  en_sources :: "str list"
  en_locations :: "Location list"

definition hit_key :: "str \<Rightarrow> Hit \<Rightarrow> str" where
  "hit_key source_label hit =
    (if h_message_id hit \<noteq> [] then h_message_id hit else ''_no_msgid_'' @ source_label @ ''_'' @ h_uid hit)"

definition merge_hit :: "str \<Rightarrow> Hit \<Rightarrow> (str \<times> Entry) list \<Rightarrow> (str \<times> Entry) list" where
  "merge_hit source_label hit dedup =
    (let msgid = hit_key source_label hit;
         location = \<lparr> loc_source = source_label, loc_namespace = h_namespace hit, loc_folder = h_folder hit, loc_uid = h_uid hit \<rparr>
     in (case map_of dedup msgid of
           Some entry \<Rightarrow>
             if source_label \<in> set (en_sources entry) then dedup
             else AList.update msgid (entry\<lparr>en_sources := en_sources entry @ [source_label],
               en_locations := en_locations entry @ [location]\<rparr>) dedup
         | None \<Rightarrow> dedup @ [(msgid, \<lparr> en_subject = h_subject hit, en_from = h_from hit, en_folder = h_folder hit,
             en_sources = [source_label], en_locations = [location] \<rparr>)]))"

section \<open>From Message-Ids to the selection of a restore\<close>

record Resolution =
  rs_resolved :: "(str \<times> str list) list"
  rs_missing :: "str list"
  rs_imap_unavailable :: bool

definition live_rows :: "world \<Rightarrow> Account \<Rightarrow> str list \<Rightarrow> MailIndexMessage list" where
  "live_rows w account message_ids =
    filter (\<lambda>r. mi_account_id r = a_id account \<and> mi_message_id r \<in> set message_ids \<and> mi_deleted_at r = None)
      (index_messages w)"

definition rows_by_folder :: "MailIndexMessage list \<Rightarrow> (str \<times> str list) list" where
  "rows_by_folder rows =
    fold (\<lambda>r d. update_at (mi_folder_path r) [] (\<lambda>ids. ids @ [mi_message_id r]) d) rows []"

text \<open>The messages of a folder that the server finds: key, Message-Id and its first uid.\<close>

definition find_in_folder :: "browse_env \<Rightarrow> str \<Rightarrow> str \<times> str list \<Rightarrow> (str \<times> str \<times> str) list" where
  "find_in_folder env ns entry =
    (case entry of (folder, msgids) \<Rightarrow>
      let key = ns @ sanitize_imap_string folder
      in if bw_select env key = None then []
         else concat (map (\<lambda>msgid.
            (case bw_search env key [''HEADER'', ''Message-Id'', quoted (sanitize_imap_string msgid)] of
               [] \<Rightarrow> [] | uid # _ \<Rightarrow> [(key, msgid, uid)])) msgids))"

definition resolve_uids_for_account ::
  "browse_env \<Rightarrow> Account \<Rightarrow> str list \<Rightarrow> disk_world \<Rightarrow> Resolution \<times> disk_world"
where
  "resolve_uids_for_account env account message_ids dw =
    (let groups = rows_by_folder (live_rows (fst dw) account message_ids);
         all_missing = (\<lambda>unavailable. \<lparr> rs_resolved = [], rs_missing = message_ids, rs_imap_unavailable = unavailable \<rparr>)
     in if groups = [] then (all_missing False, dw)
        else (case with_dovecot env account (concat (map (find_in_folder env (account_namespace_prefix account)) groups)) dw of
           (Inl e, dw) \<Rightarrow> (all_missing True, dw)
         | (Inr found, dw) \<Rightarrow>
            (\<lparr> rs_resolved = fold (\<lambda>(key, msgid, uid) d. update_at key [] (\<lambda>uids. uids @ [uid]) d) found [],
               rs_missing = filter (\<lambda>m. m \<notin> (\<lambda>(key, msgid, uid). msgid) ` set found) message_ids,
               rs_imap_unavailable = False \<rparr>, dw)))"

definition RESOLVE_UIDS_MAX_IDS :: nat where
  "RESOLVE_UIDS_MAX_IDS = 200"

definition api_resolve_uids ::
  "browse_env \<Rightarrow> User \<Rightarrow> str \<Rightarrow> str list \<Rightarrow> bool \<Rightarrow> disk_world \<Rightarrow> (http_error + Resolution) \<times> disk_world"
where
  "api_resolve_uids env user account_id message_ids include_all dw =
    (case workspace_account_for_user (fst dw) user account_id include_all of
       (None, _) \<Rightarrow> (Inl (HTTPException 404 ''Account not found''), dw)
     | (Some account, _) \<Rightarrow>
        (case resolve_uids_for_account env account (take RESOLVE_UIDS_MAX_IDS message_ids) dw of
           (r, dw) \<Rightarrow>
             if rs_imap_unavailable r then
               (Inl (HTTPException 502 ''Could not reach the mail server; these messages could not be checked''), dw)
             else (Inr r, dw)))"

section \<open>A request leaves no user behind\<close>

text \<open>The new user is not in any table yet.\<close>

definition fresh_user :: "str \<Rightarrow> world \<Rightarrow> bool" where
  "fresh_user i w =
    (i \<notin> u_id ` set (users w) \<and> i \<notin> snd ` set (account_owners w) \<and> i \<notin> snd ` set (group_members w)
     \<and> i \<notin> fst ` set (user_allowed_stores w) \<and> i \<notin> fst ` set (user_allowed_repositories w)
     \<and> i \<notin> ch_user_id ` set (channels w) \<and> i \<notin> c_user_id ` set (app_credentials w)
     \<and> i \<notin> sa_user_id ` set (staging_areas w) \<and> Some i \<notin> t_requested_by ` set (background_tasks w)
     \<and> \<not> user_in_use w i)"

lemma filter_fresh: "i \<notin> g ` set xs \<Longrightarrow> filter (\<lambda>x. g x \<noteq> i) xs = xs"
  by (induction xs) auto

lemma map_untouched: "Some i \<notin> g ` set ts \<Longrightarrow> map (\<lambda>t. if g t = Some i then h t else t) ts = ts"
  by (induction ts) auto

lemma drop_user_fresh:
  assumes "fresh_user i w" "u_id u = i"
  shows "drop_user i (w\<lparr>users := users w @ [u], account_owners := account_owners w @ map (\<lambda>a. (a, i)) ids\<rparr>) = w"
proof -
  note fresh = assms(1) [unfolded fresh_user_def]
  have tasks: "map (\<lambda>t. if t_requested_by t = Some i then t\<lparr>t_requested_by := None\<rparr> else t) (background_tasks w) = background_tasks w"
    using fresh by (simp add: map_untouched)
  have owners: "filter (\<lambda>p. snd p \<noteq> i) (account_owners w) = account_owners w" "filter (\<lambda>p. snd p \<noteq> i) (map (\<lambda>a. (a, i)) ids) = []"
    using fresh by (simp_all add: filter_fresh filter_empty_conv)
  have users: "filter (\<lambda>u. u_id u \<noteq> i) (users w) = users w" "u_id u = i"
    using fresh assms(2) by (simp_all add: filter_fresh)
  have areas: "filter (\<lambda>s. sa_user_id s = i) (staging_areas w) = []"
    using fresh by (force simp: filter_empty_conv)
  have rest: "filter (\<lambda>p. snd p \<noteq> i) (group_members w) = group_members w"
    "filter (\<lambda>p. fst p \<noteq> i) (user_allowed_stores w) = user_allowed_stores w"
    "filter (\<lambda>p. fst p \<noteq> i) (user_allowed_repositories w) = user_allowed_repositories w"
    "filter (\<lambda>c. ch_user_id c \<noteq> i) (channels w) = channels w"
    "filter (\<lambda>c. c_user_id c \<noteq> i) (app_credentials w) = app_credentials w"
    "filter (\<lambda>s. sa_user_id s \<noteq> i) (staging_areas w) = staging_areas w"
    using fresh by (simp_all add: filter_fresh)
  show ?thesis
    unfolding drop_user_def Let_def
    by (rule world.equality) (simp_all add: tasks owners users areas rest comp_def)
qed

lemma create_temp_cases:
  "(\<exists>e. create_temp_imap_user hp i now token p ids w = (Inl e, w))
   \<or> (\<exists>s :: MailStore. TEMP_USER_PREFIX @ token \<notin> u_username ` set (users w)
      \<and> create_temp_imap_user hp i now token p ids w = (Inr (TEMP_USER_PREFIX @ token, p),
          w\<lparr>users := users w @ [new_user i (TEMP_USER_PREFIX @ token) (Some (hp p)) Role_user (st_id s) now],
            account_owners := account_owners w @ map (\<lambda>a. (a, i)) ids\<rparr>))"
proof (cases "case get_default_store w of Some s \<Rightarrow> Some s | None \<Rightarrow> (case mail_stores w of [] \<Rightarrow> None | s # _ \<Rightarrow> Some s)")
  case None
  show ?thesis unfolding create_temp_imap_user_def Let_def None option.case by blast
next
  case (Some s)
  show ?thesis
  proof (cases "TEMP_USER_PREFIX @ token \<in> u_username ` set (users w) \<or> \<not> set ids \<subseteq> a_id ` set (accounts w) \<or> \<not> distinct ids")
    case True
    show ?thesis unfolding create_temp_imap_user_def Let_def Some option.case if_P [OF True] by blast
  next
    case False
    show ?thesis unfolding create_temp_imap_user_def Let_def Some option.case if_not_P [OF False]
      by (rule disjI2, rule exI [of _ s], rule conjI [OF _ refl]) (use False in blast)
  qed
qed

lemma create_then_delete:
  assumes "create_temp_imap_user hp i now token p ids w = (Inr (name, q), v)" "fresh_user i w"
  shows "fst (snd (delete_temp_imap_user name (v, f))) = w"
proof -
  obtain s :: MailStore where name: "name = TEMP_USER_PREFIX @ token" "name \<notin> u_username ` set (users w)"
    and v: "v = w\<lparr>users := users w @ [new_user i name (Some (hp p)) Role_user (st_id s) now],
      account_owners := account_owners w @ map (\<lambda>a. (a, i)) ids\<rparr>"
    using create_temp_cases [of hp i now token p ids w] unfolding assms(1) by fastforce
  define u where "u = new_user i name (Some (hp p)) Role_user (st_id s) now"
  have u: "u_id u = i" "u_username u = name" by (simp_all add: u_def new_user_def)
  have "row u_username (users w) name = None" using name(2) by (simp add: row_None)
  then have row: "row u_username (users v) name = Some u" by (simp add: v u_def [symmetric] row_append u)
  have "\<not> user_in_use v i" using assms(2) by (simp add: fresh_user_def user_in_use_def v)
  then show ?thesis
    unfolding delete_temp_imap_user_def name(1) [symmetric] fst_conv snd_conv row option.case u(1)
    using drop_user_fresh [OF assms(2) u(1), of ids] name(1)
    by (simp add: retire_user_def v [folded u_def] u(1))
qed

text \<open>
  Browsing, searching and resolving leave no trace in the database: whether the mail server
  answers or refuses the connection, the tables are afterwards exactly what they were, so no
  temporary user and no ownership of the mailbox stays behind.
\<close>

lemma browsing_leaves_no_user:
  assumes "fresh_user (fst (snd (bw_temp env))) w"
  shows "fst (snd (with_dovecot env account result (w, f))) = w"
proof -
  obtain hp i token p where temp: "bw_temp env = (hp, i, token, p)" by (rule prod_cases4)
  have fresh: "fresh_user i w" using assms by (simp add: temp)
  show ?thesis
  proof (cases "create_temp_imap_user hp i (bw_now env) token p [a_id account] w")
    case (Pair r v)
    show ?thesis
    proof (cases r)
      case (Inl e)
      then have "v = w" using create_temp_cases [of hp i "bw_now env" token p "[a_id account]" w] Pair by simp
      then show ?thesis by (simp add: with_dovecot_def connect_dovecot_for_account_def temp Pair Inl)
    next
      case (Inr u)
      obtain name q where u: "u = (name, q)" by fastforce
      have "fst (snd (delete_temp_imap_user name (v, f))) = w"
        using create_then_delete [OF Pair [unfolded Inr u] fresh] .
      then show ?thesis
        by (simp add: with_dovecot_def connect_dovecot_for_account_def temp Pair Inr u split: option.split)
    qed
  qed
qed


section \<open>A search means what it says\<close>

text \<open>
  The meaning of a SEARCH program of RFC 3501, with the keys the program sends: \<open>has field arg\<close>
  says whether the message has the text in the field. Fuel is the number of tokens.
\<close>

fun search_key :: "(str \<Rightarrow> bool) \<Rightarrow> (str \<Rightarrow> str \<Rightarrow> bool) \<Rightarrow> nat \<Rightarrow> str list \<Rightarrow> (bool \<times> str list) option" where
  "search_key flag has (Suc n) (t # ts) =
    (if t = ''OR'' then
       (case search_key flag has n ts of
          None \<Rightarrow> None
        | Some (b, ts) \<Rightarrow> map_option (\<lambda>(c, rest). (b \<or> c, rest)) (search_key flag has n ts))
     else if t \<in> set [''UNSEEN'', ''FLAGGED'', ''UNANSWERED''] then Some (flag t, ts)
     else (case ts of [] \<Rightarrow> None | arg # ts \<Rightarrow> Some (has t arg, ts)))"
| "search_key flag has _ _ = None"

fun search_program :: "(str \<Rightarrow> bool) \<Rightarrow> (str \<Rightarrow> str \<Rightarrow> bool) \<Rightarrow> nat \<Rightarrow> str list \<Rightarrow> bool option" where
  "search_program flag has n [] = Some True"
| "search_program flag has 0 (t # ts) = None"
| "search_program flag has (Suc n) (t # ts) =
    (case search_key flag has (Suc n) (t # ts) of
       None \<Rightarrow> None
     | Some (b, rest) \<Rightarrow> map_option (\<lambda>c. b \<and> c) (search_program flag has n rest))"

definition header_field :: "str \<Rightarrow> bool" where
  "header_field f = (f \<in> set [''SUBJECT'', ''FROM'', ''TO''])"

lemma search_one_field:
  "header_field f \<Longrightarrow> search_key flag has (Suc n) (f # arg # rest) = Some (has f arg, rest)"
  by (auto simp: header_field_def)

lemma search_or_chain:
  assumes "length crit = Suc k" "\<forall>f \<in> set crit. header_field f" "k < n"
  shows "search_key flag has n (replicate k ''OR'' @ concat (map (\<lambda>f. [f, arg]) crit) @ rest)
    = Some (\<exists>f \<in> set crit. has f arg, rest)"
  using assms
proof (induction k arbitrary: n crit rest)
  case 0
  then obtain f m where "crit = [f]" "n = Suc m" by (cases crit; cases n) auto
  then show ?case using 0 search_one_field by simp
next
  case (Suc k)
  then obtain m where n: "n = Suc m" "k < m" by (cases n) auto
  then obtain l where m: "m = Suc l" by (cases m) auto
  obtain gs g where crit: "crit = gs @ [g]" "length gs = Suc k" using Suc.prems(1) by (cases crit rule: rev_cases) auto
  have "search_key flag has m (replicate k ''OR'' @ concat (map (\<lambda>f. [f, arg]) gs) @ ([g, arg] @ rest))
      = Some (\<exists>f \<in> set gs. has f arg, [g, arg] @ rest)"
    using Suc.IH [OF crit(2) _ n(2)] Suc.prems(2) crit(1) by simp
  moreover have "search_key flag has m (g # arg # rest) = Some (has g arg, rest)"
    unfolding m by (rule search_one_field) (use Suc.prems(2) crit(1) in simp)
  ultimately show ?case by (simp add: crit(1) n(1) del: search_key.simps(1)) (auto simp: search_key.simps(1))
qed


lemma search_program_key:
  "search_key flag has (Suc n) (t # ts) = Some (b, []) \<Longrightarrow> search_program flag has (Suc n) (t # ts) = Some b"
  by (cases n) (simp_all del: search_key.simps)


section \<open>Pages\<close>

lemma pages_take: "concat (map (\<lambda>p. take k (drop (p * k) xs)) [0..<n]) = take (n * k) xs"
  by (induction n) (simp_all add: take_add [of "_ * k" k] add.commute [of k])

text \<open>
  The pages of a folder show every message once, newest first, when the folder has no more
  messages than ten thousand pages of this size hold.
\<close>

lemma pages_cover_the_folder:
  assumes "0 < k" "k \<le> 200" "n \<le> 10000" "length uids \<le> n * k"
  shows "concat (map (\<lambda>p. page_uids (clamp 10000 (int p)) (clamp 200 (int k)) uids) [1..<Suc n]) = rev uids"
proof -
  have "map (\<lambda>p. page_uids (clamp 10000 (int p)) (clamp 200 (int k)) uids) [1..<Suc n]
      = map (\<lambda>p. take k (drop (p * k) (rev uids))) [0..<n]"
    using assms(1-3) by (simp add: map_Suc_upt [symmetric] del: upt_Suc) (auto simp: page_uids_def clamp_def nat_add_distrib)
  then show ?thesis using assms(4) by (simp add: pages_take)
qed

section \<open>Merging hits\<close>

definition entry_ok :: "(str \<times> Hit) list \<Rightarrow> str \<times> Entry \<Rightarrow> bool" where
  "entry_ok hits e =
    (distinct (en_sources (snd e)) \<and> map loc_source (en_locations (snd e)) = en_sources (snd e)
     \<and> set (en_sources (snd e)) = fst ` {p \<in> set hits. hit_key (fst p) (snd p) = fst e})"

abbreviation merge_all :: "(str \<times> Hit) list \<Rightarrow> (str \<times> Entry) list" where
  "merge_all hits \<equiv> fold (\<lambda>(source_label, hit). merge_hit source_label hit) hits []"

lemma update_entry:
  assumes "distinct (map fst d)" "map_of d k = Some e0"
  shows "x \<in> set (AList.update k v d) \<longleftrightarrow> x = (k, v) \<or> (x \<in> set d \<and> fst x \<noteq> k)"
  using assms by (induction d) (auto simp: weak_map_of_SomeI dest: map_of_SomeD split: if_splits)

text \<open>
  Merging the hits of several sources loses none and repeats none: there is one entry for each
  message that some source found, its sources are the sources that found it, each once, with one
  location per source, whatever the order of the hits.
\<close>

lemma merged_hits_are_the_hits:
  "distinct (map fst (merge_all hits)) \<and> fst ` set (merge_all hits) = (\<lambda>(s, h). hit_key s h) ` set hits
    \<and> list_all (entry_ok hits) (merge_all hits)"
proof (induction hits rule: rev_induct)
  case (snoc p hits)
  obtain s h where p: "p = (s, h)" by fastforce
  define d where "d = merge_all hits"
  define k where "k = hit_key s h"
  have step: "merge_all (hits @ [p]) = merge_hit s h d" by (simp add: p d_def)
  have ok: "distinct (map fst d)" "fst ` set d = (\<lambda>(s, h). hit_key s h) ` set hits" "\<forall>e \<in> set d. entry_ok hits e"
    using snoc by (simp_all add: d_def list_all_iff)
  have other: "entry_ok (hits @ [p]) e" if "e \<in> set d" "fst e \<noteq> k" for e
  proof -
    have "{q \<in> set (hits @ [p]). hit_key (fst q) (snd q) = fst e} = {q \<in> set hits. hit_key (fst q) (snd q) = fst e}"
      using that(2) by (auto simp: p k_def)
    then show ?thesis using ok(3) that(1) by (simp add: entry_ok_def)
  qed
  have mine: "fst ` {q \<in> set (hits @ [p]). hit_key (fst q) (snd q) = k}
      = insert s (fst ` {q \<in> set hits. hit_key (fst q) (snd q) = k})"
    unfolding p k_def by (auto simp: image_iff intro: exI [of _ "(s, h)"])
  show ?case
  proof (cases "map_of d k")
    case None
    then have new: "k \<notin> fst ` set d" by (simp add: map_of_eq_None_iff)
    then have none: "{q \<in> set hits. hit_key (fst q) (snd q) = k} = {}" using ok(2) by force
    have "entry_ok (hits @ [p]) (k, e)" if "en_sources e = [s]" "map loc_source (en_locations e) = [s]" for e
      using that unfolding entry_ok_def fst_conv snd_conv mine none by simp
    then show ?thesis
      unfolding step list_all_iff using None new ok(1,2) other
      by (auto simp: merge_hit_def k_def [symmetric] p) (metis fst_conv imageI)
  next
    case (Some e)
    then have e: "(k, e) \<in> set d" by (rule map_of_SomeD)
    then have e_ok: "entry_ok hits (k, e)" using ok(3) by blast
    have key: "k \<in> fst ` set d" using e by force
    show ?thesis
    proof (cases "s \<in> set (en_sources e)")
      case True
      then have "entry_ok (hits @ [p]) (k, e)" using e_ok mine by (auto simp: entry_ok_def)
      then have "\<forall>x \<in> set d. entry_ok (hits @ [p]) x"
        using other ok(1) e by (metis eq_key_imp_eq_value prod.collapse)
      then show ?thesis
        unfolding step list_all_iff using True Some ok(1,2) key
        by (auto simp: merge_hit_def k_def [symmetric] p)
    next
      case False
      let ?e = "e\<lparr>en_sources := en_sources e @ [s],
        en_locations := en_locations e @ [\<lparr> loc_source = s, loc_namespace = h_namespace h, loc_folder = h_folder h, loc_uid = h_uid h \<rparr>]\<rparr>"
      have res: "merge_hit s h d = AList.update k ?e d" using False Some by (simp add: merge_hit_def k_def [symmetric])
      have "entry_ok (hits @ [p]) (k, ?e)" using e_ok mine False by (auto simp: entry_ok_def)
      then have "entry_ok (hits @ [p]) x" if "x \<in> set (AList.update k ?e d)" for x
        using other [of x] that unfolding update_entry [OF ok(1) Some] by metis
      moreover have "fst ` set (AList.update k ?e d) = fst ` set d" unfolding dom_update using key by blast
      ultimately show ?thesis
        unfolding step res list_all_iff using ok(1,2) key distinct_update [of d k ?e]
        by (simp add: p k_def [symmetric] insert_absorb)
    qed
  qed
qed simp


section \<open>A selection finds its way home\<close>

lemma grouped:
  "(k, vs) \<in> set (fold (\<lambda>x d. update_at (key x) [] (\<lambda>l. l @ [val x]) d) xs []) \<longleftrightarrow>
    k \<in> key ` set xs \<and> vs = map val (filter (\<lambda>x. key x = k) xs)"
proof (induction xs arbitrary: k vs rule: rev_induct)
  case (snoc x xs)
  define D where "D = fold (\<lambda>x d. update_at (key x) [] (\<lambda>l. l @ [val x]) d) xs []"
  have D: "(k, vs) \<in> set D \<longleftrightarrow> k \<in> key ` set xs \<and> vs = map val (filter (\<lambda>x. key x = k) xs)" for k vs
    using snoc unfolding D_def by blast
  have keys: "k \<in> fst ` set D \<longleftrightarrow> k \<in> key ` set xs" for k using D by (metis (no_types, lifting) imageE imageI fst_conv prod.collapse)
  have none: "filter (\<lambda>y. key y = k) xs = []" if "k \<notin> key ` set xs" for k using that by (auto simp: filter_empty_conv)
  have "fold (\<lambda>x d. update_at (key x) [] (\<lambda>l. l @ [val x]) d) (xs @ [x]) [] = update_at (key x) [] (\<lambda>l. l @ [val x]) D"
    by (simp add: D_def)
  moreover have "(k, vs) \<in> set (update_at (key x) [] (\<lambda>l. l @ [val x]) D) \<longleftrightarrow>
      k \<in> key ` set (xs @ [x]) \<and> vs = map val (filter (\<lambda>y. key y = k) (xs @ [x]))"
    using D [of k vs] D [of "key x"] keys [of "key x"] none [of "key x"]
    by (cases "k = key x"; cases "key x \<in> key ` set xs") (auto simp: update_at_iff)
  ultimately show ?case by simp
qed simp

lemma in_find_in_folder:
  "(key, msgid, uid) \<in> set (find_in_folder env ns (folder, msgids)) \<Longrightarrow> key = ns @ sanitize_imap_string folder \<and> msgid \<in> set msgids"
  by (auto simp: find_in_folder_def Let_def split: if_splits list.splits)

lemma found_rows:
  assumes "(key, msgid, uid) \<in> set (concat (map (find_in_folder env ns) (rows_by_folder rows)))"
  shows "\<exists>r \<in> set rows. key = ns @ sanitize_imap_string (mi_folder_path r) \<and> mi_message_id r = msgid"
proof -
  obtain folder msgids where g: "(folder, msgids) \<in> set (rows_by_folder rows)" "(key, msgid, uid) \<in> set (find_in_folder env ns (folder, msgids))"
    using assms by auto
  then have "msgids = map mi_message_id (filter (\<lambda>r. mi_folder_path r = folder) rows)"
    unfolding rows_by_folder_def grouped by simp
  then show ?thesis using in_find_in_folder [OF g(2)] by auto
qed



section \<open>A server that answers\<close>

definition browse_demo :: browse_env where
  "browse_demo = \<lparr> bw_now = 0, bw_temp = (id, ''t1'', ''tok'', ''p''), bw_connect = None, bw_list = (\<lambda>_. None), bw_status = (\<lambda>_. None),
     bw_select = (\<lambda>_. Some 1), bw_search_all = (\<lambda>_. [''1'']), bw_search = (\<lambda>_ _. [''7'', ''9'']), bw_envelopes = (\<lambda>_ _. []),
     bw_header = (\<lambda>_ _. None) \<rparr>"

definition browse_world :: world where
  "browse_world = staged_world\<lparr>index_messages := [indexed]\<rparr>"



end
