(* ===== verification/Staging_Books.thy ===== *)
theory Staging_Books
  imports Mailbox_Browse
begin

text \<open>
  The books of the staging areas over the whole program: every operation that touches the two
  staging tables (the endpoints, the expiry, the push worker, and the deletion of a user or of a
  mailbox) keeps \<open>staging_inv\<close>, so it holds in every state they reach from empty tables.
\<close>

section \<open>The operations of other components\<close>

lemma filter_rows_ok:
  assumes "staging_ok w"
  shows "staging_ok (w\<lparr>staging_messages := filter P (staging_messages w)\<rparr>)"
proof -
  have rows: "area_rows (w\<lparr>staging_messages := filter P (staging_messages w)\<rparr>) k = filter P (area_rows w k)" for k
    by (simp add: area_rows_def conj_commute)
  have "sum_list (map sg_size_bytes (filter P (area_rows w k))) \<le> sum_list (map sg_size_bytes (area_rows w k))" for k
    by (rule sum_list_filter_le_nat)
  then have "area_ok (w\<lparr>staging_messages := filter P (staging_messages w)\<rparr>) a" if "area_ok w a" for a
    using that le_trans unfolding area_ok_def rows by (blast intro: distinct_map_filter)
  then show ?thesis using assms by (auto simp: staging_ok_def)
qed

lemma refreshed_world: "refreshed cron_ok repos x w s = (r, w', s') \<Longrightarrow> w' = w"
  by (simp add: refreshed_def split: prod.splits)

lemma delete_account_inv:
  assumes "staging_inv w" "delete_account cron_ok repos k d w s = (r, w', s')"
  shows "staging_inv w'"
proof -
  have "staging_areas w' = staging_areas w \<and> (\<exists>P. staging_messages w' = filter P (staging_messages w))"
  proof (cases "get_account w k = None \<or> account_in_use w k")
    case True
    then have "w' = w" using assms(2) by (auto simp: delete_account_def Let_def split: option.splits)
    then show ?thesis by (auto intro: exI [of _ "\<lambda>_. True"])
  next
    case False
    then obtain account where "get_account w k = Some account" "\<not> account_in_use w k"
      by (cases "get_account w k") simp_all
    note run = assms(2) [unfolded delete_account_def this(1) option.case Let_def if_not_P [OF this(2)], THEN refreshed_world]
    show ?thesis unfolding run by auto
  qed
  then obtain P where "staging_areas w' = staging_areas w" "staging_messages w' = filter P (staging_messages w)" by blast
  then show ?thesis
    using assms(1) filter_rows_ok [of w P] staging_ok_cong [of w' "w\<lparr>staging_messages := filter P (staging_messages w)\<rparr>"]
    by (simp add: staging_inv_def)
qed

lemma drop_user_inv:
  assumes "staging_inv w"
  shows "staging_inv (drop_user k w)"
proof -
  define gone where "gone = sa_id ` {a \<in> set (staging_areas w). sa_user_id a = k}"
  have pk: "pk sa_id (staging_areas w)" "pk sa_user_id (staging_areas w)"
    using assms by (auto simp: staging_inv_def staging_ok_def)
  have mem: "sa_id a \<in> gone \<longleftrightarrow> sa_user_id a = k" if "a \<in> set (staging_areas w)" for a
  proof
    assume "sa_id a \<in> gone"
    then obtain b where b: "b \<in> set (staging_areas w)" "sa_user_id b = k" "sa_id b = sa_id a" by (auto simp: gone_def)
    then have "b = a" using pk(1) that by (metis row_SomeI option.inject)
    then show "sa_user_id a = k" using b by simp
  qed (use that in \<open>auto simp: gone_def\<close>)
  have tables: "staging_areas (drop_user k w) = filter (\<lambda>a. sa_user_id a \<noteq> k) (staging_areas w)"
    "staging_messages (drop_user k w) = filter (\<lambda>m. sg_staging_id m \<notin> gone) (staging_messages w)"
    by (simp_all add: drop_user_def Let_def gone_def)
  have ok: "staging_ok (w\<lparr>staging_messages := filter (\<lambda>m. sg_staging_id m \<notin> gone) (staging_messages w)\<rparr>)"
    using assms filter_rows_ok by (simp add: staging_inv_def)
  have area: "area_ok (drop_user k w) a" if "a \<in> set (staging_areas w)" for a
    using that staging_okD(2) [OF ok, of a] by (simp add: area_ok_def area_rows_def tables)
  have ids: "sg_staging_id m \<in> sa_id ` set (staging_areas (drop_user k w))" if m: "m \<in> set (staging_messages (drop_user k w))" for m
  proof -
    have "m \<in> set (staging_messages w)" "sg_staging_id m \<notin> gone" using m by (auto simp: tables)
    then obtain a where "a \<in> set (staging_areas w)" "sg_staging_id m = sa_id a" "sa_id a \<notin> gone"
      using assms by (auto simp: staging_inv_def staging_ok_def)
    then show ?thesis using mem by (auto simp: tables)
  qed
  show ?thesis
    using pk area ids by (auto simp: staging_inv_def staging_ok_def tables(1) pk_filter)
qed

lemma sum_split:
  "sum_list (map g (filter (\<lambda>m. p m = None) ms)) + sum_list (map g (filter (\<lambda>m. p m \<noteq> None) ms)) = (sum_list (map g ms) :: nat)"
  by (induction ms) auto

lemma cleanup_pushed_inv:
  assumes inv: "staging_inv w" and run: "cleanup_pushed user sdir pushed (w, f) = (w', f')"
  shows "staging_inv w'"
proof (cases "get_area w user")
  case None
  then show ?thesis using assms by (simp add: cleanup_pushed_def)
next
  case (Some area)
  let ?k = "sa_id area"
  let ?gone = "\<lambda>m. sg_staging_id m = ?k \<and> pushed_path pushed m \<noteq> None"
  define gone where "gone = filter (\<lambda>m. pushed_path pushed m \<noteq> None) (area_rows w ?k)"
  define v where "v = w\<lparr>staging_messages := filter (\<lambda>m. \<not> ?gone m) (staging_messages w)\<rparr>"
  have ok: "staging_ok w" using inv by (simp add: staging_inv_def)
  have v: "staging_ok v" unfolding v_def by (rule filter_rows_ok [OF ok])
  have rows: "area_rows v ?k = filter (\<lambda>m. pushed_path pushed m = None) (area_rows w ?k)"
    by (auto simp: v_def area_rows_def intro: filter_cong)
  have split: "sum_list (map sg_size_bytes (area_rows v ?k)) + sum_list (map sg_size_bytes gone)
      = sum_list (map sg_size_bytes (area_rows w ?k))"
    unfolding rows gone_def by (rule sum_split)
  have "staging_ok (set_bytes_used ?k (\<lambda>b. b - sum_list (map sg_size_bytes gone)) v)"
  proof (rule staging_ok_set_bytes)
    fix a assume a: "a \<in> set (staging_areas v)"
    then have "area_ok v a" "area_ok w a" using staging_okD(2) [OF v] staging_okD(2) [OF ok] by (simp_all add: v_def)
    then show "area_ok v (if sa_id a = ?k then a\<lparr>sa_bytes_used := sa_bytes_used a - sum_list (map sg_size_bytes gone)\<rparr> else a)"
      using split by (auto simp: area_ok_def)
  qed (use v in \<open>auto simp: staging_ok_def\<close>)
  moreover have "pk sa_user_id (staging_areas (set_bytes_used ?k g v))" for g
  proof -
    have "map sa_user_id (staging_areas (set_bytes_used ?k g v)) = map sa_user_id (staging_areas w)"
      by (simp add: set_bytes_used_def map_set_row v_def)
    then show ?thesis using inv by (simp add: staging_inv_def pk_def)
  qed
  ultimately have u: "staging_inv (set_bytes_used ?k (\<lambda>b. b - sum_list (map sg_size_bytes gone)) v)"
    by (simp add: staging_inv_def)
  then show ?thesis
    using run drop_area_inv [OF u, of ?k]
    unfolding cleanup_pushed_def prod.case Some option.case Let_def gone_def [symmetric] v_def [symmetric]
    by (simp split: if_split_asm)
qed


section \<open>A restore job\<close>

lemma staging_inv_tables:
  "staging_inv (upd_restore_job k g w) = staging_inv w" "staging_inv (notify_restored target job w) = staging_inv w"
  "staging_inv (w\<lparr>restore_cancel_flags := flags\<rparr>) = staging_inv w" "staging_inv (upd_account k h w) = staging_inv w"
  by (rule staging_inv_cong; simp add: upd_restore_job_def notify_restored_def notify_account_event_def send_to_users_def Let_def
      split: option.split)+

lemma execute_staging_push_inv:
  assumes "staging_inv w" "execute_staging_push env flagged r (w, f) = (res, w', f')"
  shows "staging_inv w'"
  using assms unfolding execute_staging_push_def prod.case Let_def
  by (auto split: option.splits sum.splits prod.splits restored.splits dest: cleanup_pushed_inv sym [of "cleanup_pushed _ _ _ _"])

lemma refresh_target_token_inv: "staging_inv w \<Longrightarrow> refresh_target_token env c k w = (p, w') \<Longrightarrow> staging_inv w'"
  by (auto simp: refresh_target_token_def Let_def staging_inv_tables split: option.splits if_splits sum.splits)

lemma create_temp_inv: "staging_inv w \<Longrightarrow> create_temp_imap_user hp i now t p ids w = (res, w') \<Longrightarrow> staging_inv w'"
  using staging_inv_cong [of w' w] by (auto simp: create_temp_imap_user_def Let_def split: option.splits if_splits)

lemma delete_temp_inv: "staging_inv w \<Longrightarrow> staging_inv (fst (snd (delete_temp_imap_user u (w, f))))"
  by (auto simp: delete_temp_imap_user_def retire_user_def drop_user_inv split: option.split)

lemma run_restore_inv:
  assumes "staging_inv w" "run_restore env flagged source target c r (w, f) = (res, temp, w', f')"
  shows "staging_inv w'"
proof -
  obtain password v where token: "(if a_auth_type target = oauth2 then refresh_target_token env c (a_id target) w
      else (Some c, w)) = (password, v)" by (meson surj_pair)
  then have v: "staging_inv v" using assms(1) refresh_target_token_inv by (auto split: if_splits)
  show ?thesis
    using assms(2) v unfolding run_restore_def prod.case token Let_def
    by (auto split: if_splits prod.splits sum.splits dest: execute_staging_push_inv create_temp_inv)
qed

lemma execute_restore_job_inv:
  assumes "staging_inv w" "execute_restore_job env k (w, f) = (sent, w', f')"
  shows "staging_inv w'"
proof -
  have finish: "staging_inv w''" if "staging_inv v" "finish_restore env flagged target (run_restore env flagged source target c r (v, f)) = (sent, w'', g)"
    for v flagged source target c r w'' g
  proof -
    obtain res temp u h where run: "run_restore env flagged source target c r (v, f) = (res, temp, u, h)" by (rule prod_cases4)
    have u: "staging_inv (u\<lparr>restore_cancel_flags := fl\<rparr>)" for fl using run_restore_inv [OF that(1) run] by (simp add: staging_inv_tables)
    obtain x y where xy: "(case temp of None \<Rightarrow> (u\<lparr>restore_cancel_flags := restore_cancel_flags u - {rj_id (close_restore env flagged (run_of env res))}\<rparr>, h)
        | Some n \<Rightarrow> snd (delete_temp_imap_user n (u\<lparr>restore_cancel_flags := restore_cancel_flags u - {rj_id (close_restore env flagged (run_of env res))}\<rparr>, h))) = (x, y)"
      by (meson surj_pair)
    then have "x = fst (case temp of None \<Rightarrow> (u\<lparr>restore_cancel_flags := restore_cancel_flags u - {rj_id (close_restore env flagged (run_of env res))}\<rparr>, h)
        | Some n \<Rightarrow> snd (delete_temp_imap_user n (u\<lparr>restore_cancel_flags := restore_cancel_flags u - {rj_id (close_restore env flagged (run_of env res))}\<rparr>, h)))"
      by simp
    then have "staging_inv x" using u delete_temp_inv by (cases temp) simp_all
    then show ?thesis
      using that(2) unfolding run finish_restore_def prod.case Let_def xy by (auto simp: staging_inv_tables)
  qed
  show ?thesis
    using assms(2) assms(1) unfolding execute_restore_job_def Let_def fail_early_def
    by (auto simp: staging_inv_tables split: option.splits if_splits dest!: finish [rotated])
qed

section \<open>Every state of the staging tables\<close>

text \<open>
  The operations that touch the tables, in any order, with any answers of the disk, the snapshots
  and the servers. A new area gets an id no area has.
\<close>

inductive staging_reach :: "disk_world \<Rightarrow> bool" where
  start: "staging_areas w = [] \<Longrightarrow> staging_messages w = [] \<Longrightarrow> staging_reach (w, f)"
| other: "staging_reach (w, f) \<Longrightarrow> staging_areas w' = staging_areas w \<Longrightarrow> staging_messages w' = staging_messages w
    \<Longrightarrow> staging_reach (w', f')"
| add: "staging_reach (w, f) \<Longrightarrow> se_area_id env \<notin> sa_id ` set (staging_areas w)
    \<Longrightarrow> staging_reach (snd (api_staging_add env include_all user items (w, f)))"
| status: "staging_reach (w, f) \<Longrightarrow> staging_reach (snd (api_staging_status env user (w, f)))"
| push: "staging_reach (w, f) \<Longrightarrow> staging_reach (snd (api_staging_push env ids user destination mode custom (w, f)))"
| empty: "staging_reach (w, f) \<Longrightarrow> staging_reach (api_staging_empty user (w, f))"
| expire: "staging_reach (w, f) \<Longrightarrow> staging_reach (snd (cleanup_expired now (w, f)))"
| job: "staging_reach (w, f) \<Longrightarrow> staging_reach (snd (execute_restore_job renv job_id (w, f)))"
| drop_user: "staging_reach (w, f) \<Longrightarrow> staging_reach (snd (delete_user user_id (w, f)))"
| drop_account: "staging_reach (w, f) \<Longrightarrow> staging_reach (fst (snd (delete_account cron_ok repos account_id d w s)), f)"

lemma snd_answer: "snd (case x of (Inl e, dw) \<Rightarrow> (g e, dw) | (Inr r, dw) \<Rightarrow> (h r, dw)) = snd x"
  by (cases x; cases "fst x") auto

lemma api_push_cases:
  "snd (api_staging_push env ids user destination mode custom dw) = dw
   \<or> (\<exists>c. snd (api_staging_push env ids user destination mode custom dw) = snd (push env ids user destination mode c dw))"
proof (cases "mode \<notin> set [''original'', ''restored'', ''custom'']")
  case False
  show ?thesis
  proof (cases "if mode = ''custom'' then map_sum id Some (validate_custom_folder custom ''custom_folder'') else Inr None")
    case (Inl e)
    then show ?thesis unfolding api_staging_push_def if_not_P [OF False] by simp
  next
    case (Inr c)
    show ?thesis
    proof (cases "destination \<noteq> ''origin'' \<and> get_account_for (fst dw) destination user = None")
      case True
      then show ?thesis unfolding api_staging_push_def if_not_P [OF False] Inr sum.case by simp
    next
      case no: False
      show ?thesis
        unfolding api_staging_push_def if_not_P [OF False] Inr sum.case if_not_P [OF no] snd_answer by blast
    qed
  qed
qed (simp add: api_staging_push_def)

lemma staging_reach_inv: "staging_reach dw \<Longrightarrow> staging_inv (fst dw)"
proof (induction rule: staging_reach.induct)
  case (start w f)
  then show ?case by (simp add: staging_inv_def staging_ok_def pk_def)
next
  case (other w f w' f')
  then show ?case using staging_inv_cong [of w' w] by simp
next
  case (add w f env include_all user items)
  show ?case
  proof (cases "those (map staging_item (take STAGING_ADD_MAX_ITEMS items))")
    case None
    then show ?thesis using add by (simp add: api_staging_add_def)
  next
    case (Some items')
    obtain r w' f' where run: "add_messages env include_all user items' (w, f) = (r, w', f')" by (rule prod_cases3)
    have "staging_inv w'" using add_messages_inv [OF _ add(2) run] add.IH by simp
    then show ?thesis by (cases r) (simp_all add: api_staging_add_def Some run)
  qed
next
  case (status w f env user)
  obtain s w' f' where "get_status env user (w, f) = (s, w', f')" by (rule prod_cases3)
  then show ?case using get_status_inv [of w env user f s w' f'] status.IH by (simp add: api_staging_status_def)
next
  case (push w f env ids user destination mode custom)
  have "staging_inv w'" if "push env ids user destination mode c (w, f) = (r, w', f')" for c r w' f'
    using push_inv [OF _ that] push.IH by simp
  then have "staging_inv (fst (snd (push env ids user destination mode c (w, f))))" for c
    by (metis prod.collapse)
  then show ?case using push.IH api_push_cases [of env ids user destination mode custom "(w, f)"] by metis
next
  case (empty w f user)
  then show ?case using empty_staging_inv [of w user f] by (simp add: api_staging_empty_def)
next
  case (expire w f now)
  then show ?case using cleanup_expired_inv [of w now f] by simp
next
  case (job w f renv job_id)
  obtain s w' f' where "execute_restore_job renv job_id (w, f) = (s, w', f')" by (rule prod_cases3)
  then show ?case using execute_restore_job_inv [of w renv job_id f s w' f'] job.IH by simp
next
  case (drop_user w f user_id)
  then show ?case by (simp add: delete_user_def Let_def drop_user_inv split: option.split)
next
  case (drop_account w f cron_ok repos account_id d s)
  obtain r w' s' where "delete_account cron_ok repos account_id d w s = (r, w', s')" by (rule prod_cases3)
  then show ?case using delete_account_inv [of w cron_ok repos account_id d s r w' s'] drop_account.IH by simp
qed



end
