(* ===== verification/Login.thy ===== *)
theory Login
  imports Sync_Routes Users Restore_Folders
begin

text \<open>
  Sessions: \<open>routers/auth.py\<close>. The session cookie is a record; the identity providers (the
  authorization URL, the exchange of a code, the claims of an OIDC token) and the encryption are
  arguments. The two OAuth callbacks differ in one entry of the stored token. Audit entries are
  left out.
\<close>

record session =
  sn_user_id :: "str option"
  sn_theme :: "str option"
  sn_oauth_account_id :: "str option"
  sn_oauth_state :: "str option"

datatype answer = Redirect str | Http http_error | Raised py_error

section \<open>Passwords\<close>

definition start_session :: "User \<Rightarrow> session \<Rightarrow> session" where
  "start_session user s =
    s\<lparr>sn_user_id := Some (u_id user),
      sn_theme := (let theme = map_of (u_preferences user) ''theme'' in if truthy theme then theme else sn_theme s)\<rparr>"

definition login :: "(str \<Rightarrow> str \<Rightarrow> bool) \<Rightarrow> str \<Rightarrow> str \<Rightarrow> session \<Rightarrow> world \<Rightarrow> (http_error + UserRole) \<times> session" where
  "login vp username password s w =
    (case authenticate_user vp username password w of
       None \<Rightarrow> (Inl (HTTPException 401 ''Invalid credentials''), s)
     | Some user \<Rightarrow> (Inr (u_role user), start_session user s))"

definition logout :: "session \<Rightarrow> session" where
  "logout s = \<lparr> sn_user_id = None, sn_theme = None, sn_oauth_account_id = None, sn_oauth_state = None \<rparr>"

section \<open>OAuth of a mailbox\<close>

definition verify_oauth_access :: "session \<Rightarrow> world \<Rightarrow> str \<Rightarrow> http_error + Account" where
  "verify_oauth_access s w account_id =
    (if \<not> truthy (sn_user_id s) then Inl (HTTPException 401 ''Not authenticated'')
     else (case find (\<lambda>u. u_id u = the (sn_user_id s) \<and> u_enabled u) (users w) of
        None \<Rightarrow> Inl (HTTPException 401 ''Not authenticated'')
      | Some user \<Rightarrow>
         (case get_account w account_id of
            None \<Rightarrow> Inl (HTTPException 404 ''Account not found'')
          | Some account \<Rightarrow>
             if u_role user \<noteq> Role_admin \<and> \<not> is_account_owner w user account
             then Inl (HTTPException 403 ''Not authorized for this account'') else Inr account)))"

definition oauth_start :: "(str \<Rightarrow> str) \<Rightarrow> str \<Rightarrow> str \<Rightarrow> session \<Rightarrow> world \<Rightarrow> answer \<times> session" where
  "oauth_start build_url nonce account_id s w =
    (case verify_oauth_access s w account_id of
       Inl e \<Rightarrow> (Http e, s)
     | Inr _ \<Rightarrow> (Redirect (build_url nonce), s\<lparr>sn_oauth_account_id := Some account_id, sn_oauth_state := Some nonce\<rparr>))"

text \<open>\<open>urllib.parse.quote\<close> with its default of safe characters.\<close>

definition upper_hex :: "nat \<Rightarrow> char" where
  "upper_hex n = char_of (if n < 10 then 48 + n else 55 + n)"

definition quote_url :: "str \<Rightarrow> str" where
  "quote_url s = concat (map (\<lambda>c. let n = (of_char c :: nat) in
     if 48 \<le> n \<and> n \<le> 57 \<or> 65 \<le> n \<and> n \<le> 90 \<or> 97 \<le> n \<and> n \<le> 122 \<or> c \<in> set ''_.-~/'' then [c]
     else [CHR ''%'', upper_hex (n div 16), upper_hex (n mod 16)]) s)"

definition drop_stub :: "str \<Rightarrow> world \<Rightarrow> world" where
  "drop_stub account_id w =
    w\<lparr>accounts := filter (\<lambda>a. a_id a \<noteq> account_id) (accounts w),
      account_owners := filter (\<lambda>p. fst p \<noteq> account_id) (account_owners w),
      account_groups := filter (\<lambda>p. fst p \<noteq> account_id) (account_groups w),
      sync_jobs := filter (\<lambda>j. j_account_id j \<noteq> account_id) (sync_jobs w),
      backup_jobs := filter (\<lambda>j. bj_account_id j \<noteq> account_id) (backup_jobs w),
      repo_attachments := filter (\<lambda>t. ra_account_id t \<noteq> account_id) (repo_attachments w),
      staging_messages := filter (\<lambda>m. sg_source_account_id m \<noteq> account_id) (staging_messages w),
      index_messages := filter (\<lambda>m. mi_account_id m \<noteq> account_id) (index_messages w)\<rparr>"

definition oauth_failure_redirect :: "session \<Rightarrow> world \<Rightarrow> str option \<Rightarrow> str \<Rightarrow> bool \<Rightarrow> answer \<times> world" where
  "oauth_failure_redirect s w account_id reason delete_stub =
    (if \<not> truthy account_id then (Redirect ''/'', w)
     else
       let k = the account_id;
           user = (if truthy (sn_user_id s) then get_user w (the (sn_user_id s)) else None)
       in (case (get_account w k, user) of
             (Some account, Some user) \<Rightarrow>
               if delete_stub \<and> \<not> truthy (a_credentials account) \<and> (u_role user = Role_admin \<or> is_account_owner w user account) then
                 if account_in_use w k then (Raised IntegrityError, w)
                 else (Redirect (''/accounts/new?oauth_failed=true&reason='' @ quote_url reason @ ''&email=''
                   @ quote_url (a_email_address account) @ ''&name='' @ quote_url (a_name account)), drop_stub k w)
               else (Redirect (''/accounts/'' @ k), w)
           | _ \<Rightarrow> (Redirect (''/accounts/'' @ k), w)))"

definition resume_after_reauth :: "str \<Rightarrow> datetime \<Rightarrow> Account \<Rightarrow> world \<Rightarrow> world" where
  "resume_after_reauth i now account w =
    (let refresh_failed = (a_sync_state account = SS_error \<and> a_last_error account = Some TOKEN_REFRESH_FAILED)
     in if a_sync_state account = SS_needs_reauth \<or> refresh_failed then
          (let w = upd_account (a_id account) (\<lambda>a. a\<lparr>a_sync_state := SS_idle, a_last_error := None\<rparr>) w
           in (case create_sync_job i now (a_id account) ''reauth'' w of
                 (None, w) \<Rightarrow> w | (Some job, w) \<Rightarrow> submit_sync_job job w))
        else w)"

definition oauth_callback ::
  "(str \<times> str) list \<Rightarrow> (str \<Rightarrow> (str \<times> str) list option) \<Rightarrow> ((str \<times> str) list \<Rightarrow> str) \<Rightarrow> str \<Rightarrow> datetime
   \<Rightarrow> str option \<Rightarrow> str option \<Rightarrow> str option \<Rightarrow> session \<Rightarrow> world \<Rightarrow> answer \<times> session \<times> world"
where
  "oauth_callback extra exchange enc i now code error state s w =
    (let account_id = sn_oauth_account_id s; expected_state = sn_oauth_state s;
         s = s\<lparr>sn_oauth_account_id := None, sn_oauth_state := None\<rparr>;
         failed = (\<lambda>reason delete_stub. let (r, w) = oauth_failure_redirect s w account_id reason delete_stub in (r, s, w))
     in if \<not> truthy state \<or> \<not> truthy expected_state \<or> state \<noteq> expected_state then failed ''invalid_state'' False
        else if truthy error \<or> \<not> truthy code then failed (str_or error ''denied'') True
        else (case exchange (the code) of
           None \<Rightarrow> failed ''token_exchange'' True
         | Some token \<Rightarrow>
            if \<not> truthy account_id then (Http (HTTPException 400 ''No account in session''), s, w)
            else (case verify_oauth_access s w (the account_id) of
               Inl e \<Rightarrow> (Http e, s, w)
             | Inr account \<Rightarrow>
                (case map_of token ''access_token'' of
                   None \<Rightarrow> (Http (HTTPException 500 ''Internal Server Error''), s, w)
                 | Some access_token \<Rightarrow>
                    let creds = enc ([(''access_token'', access_token), (''refresh_token'', dict_get token ''refresh_token'' []),
                          (''token_type'', dict_get token ''token_type'' ''Bearer'')] @ extra);
                        w = upd_account (a_id account) (\<lambda>a. a\<lparr>a_credentials := Some creds, a_auth_type := oauth2\<rparr>) w
                    in (Redirect (''/accounts/'' @ the account_id), s, resume_after_reauth i now account w)))))"

definition google_oauth_callback where
  "google_oauth_callback = oauth_callback []"

definition microsoft_oauth_callback where
  "microsoft_oauth_callback = oauth_callback [(''provider'', ''microsoft'')]"

section \<open>Single sign-on\<close>

record oidc_env =
  oe_enabled :: bool
  oe_user_group :: str
  oe_admin_group :: str
  oe_bootstrap_store :: str
  oe_store_id :: str
  oe_user_id :: str
  oe_now :: datetime

record claims =
  cl_sub :: "str option"
  cl_preferred_username :: "str option"
  cl_email :: "str option"
  cl_groups :: "str list"

datatype oidc_token = Token claims | Rejected | Unreachable

text \<open>\<open>re.sub(r"[^a-zA-Z0-9@._-]", "_", name)[:255]\<close>, on code points.\<close>

definition name_point :: "nat \<Rightarrow> char" where
  "name_point p =
    (if 48 \<le> p \<and> p \<le> 57 \<or> 64 \<le> p \<and> p \<le> 90 \<or> 97 \<le> p \<and> p \<le> 122 \<or> p \<in> {45, 46, 95} then char_of p else CHR ''_'')"

definition oidc_username :: "claims \<Rightarrow> str \<Rightarrow> str" where
  "oidc_username c sub =
    (let raw = str_or (cl_preferred_username c) (case cl_email c of Some e \<Rightarrow> e | None \<Rightarrow> sub);
         username = take 255 (map name_point (utf8_points (map of_char raw)))
     in if prefix TEMP_USER_PREFIX username then ''u'' @ username else username)"

definition oidc_role :: "oidc_env \<Rightarrow> str list \<Rightarrow> UserRole" where
  "oidc_role env gs = (if oe_admin_group env \<noteq> [] \<and> oe_admin_group env \<in> set gs then Role_admin else Role_user)"

definition oidc_callback :: "oidc_env \<Rightarrow> oidc_token \<Rightarrow> session \<Rightarrow> world \<Rightarrow> answer \<times> session \<times> world" where
  "oidc_callback env token s w =
    (if \<not> oe_enabled env then (Http (HTTPException 404 ''OIDC not enabled''), s, w)
     else (case token of
        Rejected \<Rightarrow> (Redirect ''/login?error=sso_failed'', s, w)
      | Unreachable \<Rightarrow> (Redirect ''/login?error=sso_unreachable'', s, w)
      | Token c \<Rightarrow>
         let sub = (case cl_sub c of Some x \<Rightarrow> x | None \<Rightarrow> []); gs = cl_groups c; role = oidc_role env gs
         in if strip sub = [] then (Http (HTTPException 400 ''Invalid OIDC token: missing sub claim''), s, w)
            else if oe_user_group env \<noteq> [] \<and> oe_user_group env \<notin> set gs
              \<and> \<not> (oe_admin_group env \<noteq> [] \<and> oe_admin_group env \<in> set gs)
            then (Http (HTTPException 403 ''Not a member of the required group''), s, w)
            else (case find (\<lambda>u. u_oidc_subject u = Some sub) (users w) of
               None \<Rightarrow>
                 (case ensure_default_store (oe_bootstrap_store env) (oe_store_id env) (oe_now env) w of
                    (Inl e, w) \<Rightarrow> (Raised e, s, w)
                  | (Inr store, w) \<Rightarrow>
                     let user = (new_user (oe_user_id env) (oidc_username c sub) None role (st_id store) (oe_now env))\<lparr>u_oidc_subject := Some sub\<rparr>
                     in if u_username user \<in> u_username ` set (users w) then (Raised IntegrityError, s, w)
                        else (Redirect ''/'', start_session user s,
                          sync_sso_groups user gs (w\<lparr>users := users w @ [user]\<rparr>)))
             | Some user \<Rightarrow>
                let changed = (oe_admin_group env \<noteq> [] \<and> u_role user \<noteq> role);
                    user = (if changed then user\<lparr>u_role := role\<rparr> else user);
                    w = (if changed then upd_user (u_id user) (\<lambda>u. u\<lparr>u_role := role\<rparr>) w else w)
                in (Redirect ''/'', start_session user s, sync_sso_groups user gs w))))"

section \<open>A callback acts for the session it belongs to\<close>

lemma upd_account_row: "a_id a \<noteq> k \<Longrightarrow> (\<And>x. a_id (g x) = a_id x) \<Longrightarrow> a \<in> set (accounts (upd_account k g w)) \<longleftrightarrow> a \<in> set (accounts w)"
  by (auto simp: upd_account_def set_row_def image_iff)

lemma upd_account_ids: "(\<And>x. a_id (g x) = a_id x) \<Longrightarrow> a_id ` set (accounts (upd_account k g w)) = a_id ` set (accounts w)"
proof -
  assume "\<And>x. a_id (g x) = a_id x"
  then have "map a_id (set_row a_id k g (accounts w)) = map a_id (accounts w)" by (rule map_set_row)
  then have "set (map a_id (set_row a_id k g (accounts w))) = set (map a_id (accounts w))" by (rule arg_cong)
  then show ?thesis by (simp add: upd_account_def)
qed

lemma resume_accounts:
  "accounts (resume_after_reauth i now account w) = accounts w
   \<or> accounts (resume_after_reauth i now account w) = accounts (upd_account (a_id account) (\<lambda>a. a\<lparr>a_sync_state := SS_idle, a_last_error := None\<rparr>) w)"
proof -
  define u where "u = upd_account (a_id account) (\<lambda>a. a\<lparr>a_sync_state := SS_idle, a_last_error := None\<rparr>) w"
  obtain j w2 where mk: "create_sync_job i now (a_id account) ''reauth'' u = (j, w2)" by (meson surj_pair)
  have "accounts w2 = accounts u" using create_sync_job_frame(5) [of i now "a_id account" "''reauth''" u] by (simp add: mk)
  then show ?thesis
    by (cases j) (simp_all add: resume_after_reauth_def Let_def u_def [symmetric] mk submit_sync_job_def)
qed

definition may_connect :: "session \<Rightarrow> world \<Rightarrow> str \<Rightarrow> bool" where
  "may_connect s w k =
    (\<exists>user account. sn_user_id s = Some (u_id user) \<and> user \<in> set (users w) \<and> get_account w k = Some account
       \<and> (u_role user = Role_admin \<or> is_account_owner w user account))"

lemma verify_oauth_access_may:
  assumes "verify_oauth_access s w k = Inr account"
  shows "may_connect s w k \<and> get_account w k = Some account"
proof -
  from assms obtain user where user: "truthy (sn_user_id s)" "find (\<lambda>u. u_id u = the (sn_user_id s) \<and> u_enabled u) (users w) = Some user"
    "get_account w k = Some account" "u_role user = Role_admin \<or> is_account_owner w user account"
    by (auto simp: verify_oauth_access_def split: if_splits option.splits)
  then have "user \<in> set (users w)" "sn_user_id s = Some (u_id user)"
    by (cases "sn_user_id s"; auto simp: find_Some_iff)+
  with user show ?thesis unfolding may_connect_def by blast
qed

lemma failure_redirect_effect:
  assumes "oauth_failure_redirect s w account_id reason d = (r, w')" "w' \<noteq> w"
  obtains k account where "d" "account_id = Some k" "w' = drop_stub k w" "get_account w k = Some account"
    "\<not> truthy (a_credentials account)" "may_connect s w k"
proof -
  obtain k where k: "account_id = Some k" "truthy account_id"
    using assms by (cases account_id) (auto simp: oauth_failure_redirect_def split: if_splits)
  from assms obtain account user where hit: "get_account w k = Some account"
      "(if truthy (sn_user_id s) then get_user w (the (sn_user_id s)) else None) = Some user"
      "d" "\<not> truthy (a_credentials account)" "u_role user = Role_admin \<or> is_account_owner w user account" "w' = drop_stub k w"
    by (auto simp: oauth_failure_redirect_def k Let_def split: option.splits if_splits)
  have "sn_user_id s = Some (u_id user) \<and> user \<in> set (users w)"
    using hit(2) row_SomeD [of u_id "users w" _ user] by (cases "sn_user_id s") (auto split: if_splits)
  then have "may_connect s w k" unfolding may_connect_def using hit by blast
  with that k hit show ?thesis by blast
qed

text \<open>The three ways a callback can change the tables: none, the stub is gone, the mailbox is connected.\<close>

lemma oauth_callback_cases:
  assumes run: "oauth_callback extra exchange enc i now code error state s w = (r, s', w')"
  obtains (none) "w' = w"
  | (stub) k account where "sn_oauth_account_id s = Some k" "w' = drop_stub k w" "get_account w k = Some account"
      "\<not> truthy (a_credentials account)" "may_connect s w k" "truthy state" "state = sn_oauth_state s"
  | (connected) k account creds where "sn_oauth_account_id s = Some k" "get_account w k = Some account" "may_connect s w k"
      "truthy state" "state = sn_oauth_state s"
      "w' = resume_after_reauth i now account (upd_account (a_id account) (\<lambda>a. a\<lparr>a_credentials := Some creds, a_auth_type := oauth2\<rparr>) w)"
proof -
  let ?s = "s\<lparr>sn_oauth_account_id := None, sn_oauth_state := None\<rparr>"
  have may: "may_connect ?s w k = may_connect s w k" for k by (simp add: may_connect_def)
  show thesis
  proof (cases "\<not> truthy state \<or> \<not> truthy (sn_oauth_state s) \<or> state \<noteq> sn_oauth_state s")
    case True
    then have "(r, s', w') = (let (r, w) = oauth_failure_redirect ?s w (sn_oauth_account_id s) ''invalid_state'' False in (r, ?s, w))"
      using run by (simp add: oauth_callback_def Let_def)
    moreover obtain r0 w0 where r0: "oauth_failure_redirect ?s w (sn_oauth_account_id s) ''invalid_state'' False = (r0, w0)"
      by (meson surj_pair)
    ultimately have "oauth_failure_redirect ?s w (sn_oauth_account_id s) ''invalid_state'' False = (r0, w')" by simp
    then show thesis using none failure_redirect_effect by metis
  next
    case False
    then have state: "truthy state" "state = sn_oauth_state s" by simp_all
    have failed: thesis if "(r, s', w') = (let (r, w) = oauth_failure_redirect ?s w (sn_oauth_account_id s) reason True in (r, ?s, w))" for reason
    proof (cases "w' = w")
      case False
      obtain r0 w0 where r0: "oauth_failure_redirect ?s w (sn_oauth_account_id s) reason True = (r0, w0)" by (meson surj_pair)
      then have "oauth_failure_redirect ?s w (sn_oauth_account_id s) reason True = (r0, w')" using that by simp
      from failure_redirect_effect [OF this False] show thesis using stub state may by metis
    qed (rule none)
    consider (denied) "truthy error \<or> \<not> truthy code" | (no_token) "\<not> (truthy error \<or> \<not> truthy code)" "exchange (the code) = None"
      | (token) t where "\<not> (truthy error \<or> \<not> truthy code)" "exchange (the code) = Some t"
      by (cases "exchange (the code)") blast+
    then show thesis
    proof cases
      case denied
      then show thesis using run False by (intro failed [of "str_or error ''denied''"]) (simp add: oauth_callback_def Let_def)
    next
      case no_token
      then show thesis using run False by (intro failed [of "''token_exchange''"]) (simp add: oauth_callback_def Let_def)
    next
      case (token t)
      show thesis
      proof (cases "w' = w")
        case changed: False
        have inner: "(r, s', w') = (if \<not> truthy (sn_oauth_account_id s) then (Http (HTTPException 400 ''No account in session''), ?s, w)
            else (case verify_oauth_access ?s w (the (sn_oauth_account_id s)) of
               Inl e \<Rightarrow> (Http e, ?s, w)
             | Inr account \<Rightarrow>
                (case map_of t ''access_token'' of
                   None \<Rightarrow> (Http (HTTPException 500 ''Internal Server Error''), ?s, w)
                 | Some access_token \<Rightarrow>
                    let creds = enc ([(''access_token'', access_token), (''refresh_token'', dict_get t ''refresh_token'' []),
                          (''token_type'', dict_get t ''token_type'' ''Bearer'')] @ extra);
                        w = upd_account (a_id account) (\<lambda>a. a\<lparr>a_credentials := Some creds, a_auth_type := oauth2\<rparr>) w
                    in (Redirect (''/accounts/'' @ the (sn_oauth_account_id s)), ?s, resume_after_reauth i now account w))))"
          using run token False by (simp add: oauth_callback_def Let_def)
        then have "truthy (sn_oauth_account_id s)" using changed by (auto split: if_splits)
        then obtain k where k: "sn_oauth_account_id s = Some k" by (cases "sn_oauth_account_id s") auto
        from inner changed obtain account where account: "verify_oauth_access ?s w k = Inr account"
          by (auto simp: k split: if_splits sum.splits)
        from inner changed obtain creds where
          "w' = resume_after_reauth i now account (upd_account (a_id account) (\<lambda>a. a\<lparr>a_credentials := Some creds, a_auth_type := oauth2\<rparr>) w)"
          by (auto simp: k account Let_def split: if_splits option.splits)
        then show thesis using connected [OF k] verify_oauth_access_may [OF account] may state by blast
      qed (rule none)
    qed
  qed
qed

lemma oauth_callback_session:
  assumes "oauth_callback extra exchange enc i now code error state s w = (r, s', w')"
  shows "s' = s\<lparr>sn_oauth_account_id := None, sn_oauth_state := None\<rparr>"
proof -
  let ?s = "s\<lparr>sn_oauth_account_id := None, sn_oauth_state := None\<rparr>"
  have failed: "fst (snd (let (r, w) = oauth_failure_redirect ?s w k reason d in (r, ?s, w))) = ?s" for k reason d
    by (simp add: split_beta)
  have "fst (snd (oauth_callback extra exchange enc i now code error state s w)) = ?s"
    unfolding oauth_callback_def Let_def
    by (simp add: split_beta split: option.split sum.split)
  then show ?thesis using assms by simp
qed

text \<open>
  C9. An OAuth callback changes something only when its state is the one-time value of this very
  session, and then only for the mailbox the session was started for, which the signed-in user owns
  or administers. A mailbox with credentials never disappears, the rows of other mailboxes stay,
  and a replay of the callback, whatever its parameters, changes nothing.
\<close>

theorem oauth_callback_confined:
  assumes run: "oauth_callback extra exchange enc i now code error state s w = (r, s', w')"
    and table: "pk a_id (accounts w)"
  shows "(w' \<noteq> w \<longrightarrow> truthy state \<and> state = sn_oauth_state s
      \<and> (\<exists>k. sn_oauth_account_id s = Some k \<and> may_connect s w k))
    \<and> (\<forall>a. Some (a_id a) \<noteq> sn_oauth_account_id s \<longrightarrow> (a \<in> set (accounts w') \<longleftrightarrow> a \<in> set (accounts w)))
    \<and> (\<forall>a \<in> set (accounts w). truthy (a_credentials a) \<longrightarrow> a_id a \<in> a_id ` set (accounts w'))
    \<and> (\<forall>j now' c e st. snd (oauth_callback extra exchange enc j now' c e st s' w') = (s', w'))"
proof -
  have s': "s' = s\<lparr>sn_oauth_account_id := None, sn_oauth_state := None\<rparr>" by (rule oauth_callback_session [OF run])
  have replay: "snd (oauth_callback extra exchange enc j now' c e st s' w') = (s', w')" for j now' c e st
    by (simp add: s' oauth_callback_def Let_def oauth_failure_redirect_def)
  show ?thesis
    using run
  proof (cases rule: oauth_callback_cases)
    case none
    then show ?thesis using replay by auto
  next
    case (stub k account)
    have acc: "accounts (drop_stub k w) = filter (\<lambda>a. a_id a \<noteq> k) (accounts w)" by (simp add: drop_stub_def)
    have "a_id a \<noteq> k" if "a \<in> set (accounts w)" "truthy (a_credentials a)" for a
      using that stub(3,4) row_SomeI [OF table that(1)] by auto
    then show ?thesis using replay stub by (auto simp: acc)
  next
    case (connected k account creds)
    have k: "a_id account = k" using row_SomeD [OF connected(2)] by simp
    define u where "u = upd_account (a_id account) (\<lambda>a. a\<lparr>a_credentials := Some creds, a_auth_type := oauth2\<rparr>) w"
    have u: "a \<in> set (accounts u) \<longleftrightarrow> a \<in> set (accounts w)" if "a_id a \<noteq> k" for a
      unfolding u_def k by (rule upd_account_row) (use that in simp_all)
    have ids: "a_id ` set (accounts u) = a_id ` set (accounts w)" unfolding u_def by (rule upd_account_ids) simp
    have "accounts w' = accounts u \<or> accounts w' = accounts (upd_account k (\<lambda>a. a\<lparr>a_sync_state := SS_idle, a_last_error := None\<rparr>) u)"
      using resume_accounts [of i now account u] by (simp add: connected(6) u_def k)
    then have "(a_id a \<noteq> k \<longrightarrow> (a \<in> set (accounts w') \<longleftrightarrow> a \<in> set (accounts w))) \<and> a_id ` set (accounts w') = a_id ` set (accounts w)" for a
      using u [of a] ids upd_account_row [of a k "\<lambda>a. a\<lparr>a_sync_state := SS_idle, a_last_error := None\<rparr>" u]
        upd_account_ids [of "\<lambda>a. a\<lparr>a_sync_state := SS_idle, a_last_error := None\<rparr>" k u] by auto
    then show ?thesis using replay connected(1,3-5) by (auto intro: imageI)
  qed
qed

section \<open>Who gets in through the identity provider\<close>

lemma oidc_username_not_reserved: "\<not> prefix TEMP_USER_PREFIX (oidc_username c sub)"
proof -
  have "\<not> prefix TEMP_USER_PREFIX (''u'' @ n)" for n by (simp add: TEMP_USER_PREFIX_def)
  then show ?thesis by (simp add: oidc_username_def Let_def)
qed

lemma ensure_default_store_users:
  "ensure_default_store p i t w = (r, w') \<Longrightarrow> users w' = users w"
  by (auto simp: ensure_default_store_def upd_store_def Let_def split: option.splits if_splits)

definition admitted :: "oidc_env \<Rightarrow> str list \<Rightarrow> bool" where
  "admitted env gs = (oe_user_group env = [] \<or> oe_user_group env \<in> set gs
     \<or> (oe_admin_group env \<noteq> [] \<and> oe_admin_group env \<in> set gs))"

lemma oidc_callback_cases:
  assumes run: "oidc_callback env token s w = (r, s', w')"
  obtains (refused) "r \<noteq> Redirect ''/''" "s' = s" "users w' = users w"
  | (created) c sub user where "r = Redirect ''/''" "token = Token c" "cl_sub c = Some sub" "strip sub \<noteq> []" "admitted env (cl_groups c)"
      "find (\<lambda>u. u_oidc_subject u = Some sub) (users w) = None" "users w' = users w @ [user]"
      "u_id user = oe_user_id env" "u_oidc_subject user = Some sub" "u_role user = oidc_role env (cl_groups c)"
      "u_username user = oidc_username c sub" "s' = start_session user s"
  | (known) c sub user where "r = Redirect ''/''" "token = Token c" "cl_sub c = Some sub" "strip sub \<noteq> []" "admitted env (cl_groups c)"
      "find (\<lambda>u. u_oidc_subject u = Some sub) (users w) = Some user"
      "users w' = (if oe_admin_group env \<noteq> [] then set_row u_id (u_id user) (\<lambda>u. u\<lparr>u_role := oidc_role env (cl_groups c)\<rparr>) (users w) else users w)
        \<or> (users w' = users w \<and> u_role user = oidc_role env (cl_groups c))"
      "sn_user_id s' = Some (u_id user)"
proof (cases token)
  case (Token c)
  let ?gs = "cl_groups c" and ?sub = "case cl_sub c of Some x \<Rightarrow> x | None \<Rightarrow> []"
  show thesis
  proof (cases "oe_enabled env \<and> strip ?sub \<noteq> [] \<and> admitted env ?gs")
    case False
    then have "r \<noteq> Redirect ''/'' \<and> s' = s \<and> w' = w"
      using run by (auto simp: oidc_callback_def Token Let_def admitted_def split: if_splits)
    then show thesis using refused by blast
  next
    case True
    then obtain sub where sub: "cl_sub c = Some sub" "strip sub \<noteq> []"
      by (cases "cl_sub c") (auto simp: strip_def)
    have open_: "oidc_callback env token s w = (case find (\<lambda>u. u_oidc_subject u = Some sub) (users w) of
               None \<Rightarrow>
                 (case ensure_default_store (oe_bootstrap_store env) (oe_store_id env) (oe_now env) w of
                    (Inl e, w) \<Rightarrow> (Raised e, s, w)
                  | (Inr store, w) \<Rightarrow>
                     let user = (new_user (oe_user_id env) (oidc_username c sub) None (oidc_role env ?gs) (st_id store) (oe_now env))\<lparr>u_oidc_subject := Some sub\<rparr>
                     in if u_username user \<in> u_username ` set (users w) then (Raised IntegrityError, s, w)
                        else (Redirect ''/'', start_session user s,
                          sync_sso_groups user ?gs (w\<lparr>users := users w @ [user]\<rparr>)))
             | Some user \<Rightarrow>
                let changed = (oe_admin_group env \<noteq> [] \<and> u_role user \<noteq> oidc_role env ?gs);
                    user = (if changed then user\<lparr>u_role := oidc_role env ?gs\<rparr> else user);
                    w = (if changed then upd_user (u_id user) (\<lambda>u. u\<lparr>u_role := oidc_role env ?gs\<rparr>) w else w)
                in (Redirect ''/'', start_session user s, sync_sso_groups user ?gs w))"
      using True sub by (auto simp: oidc_callback_def Token Let_def admitted_def)
    show thesis
    proof (cases "find (\<lambda>u. u_oidc_subject u = Some sub) (users w)")
      case None
      obtain st w0 where st: "ensure_default_store (oe_bootstrap_store env) (oe_store_id env) (oe_now env) w = (st, w0)"
        by (meson surj_pair)
      note same = ensure_default_store_users [OF st]
      show thesis
      proof (cases st)
        case (Inl e)
        then have "r = Raised e" "s' = s" "w' = w0" using run by (simp_all add: open_ None st)
        then show thesis using refused same by simp
      next
        case (Inr store)
        define user where "user = (new_user (oe_user_id env) (oidc_username c sub) None (oidc_role env ?gs) (st_id store) (oe_now env))\<lparr>u_oidc_subject := Some sub\<rparr>"
        have user: "u_id user = oe_user_id env" "u_oidc_subject user = Some sub" "u_role user = oidc_role env ?gs" "u_username user = oidc_username c sub"
          by (simp_all add: user_def new_user_def)
        have ends: "(r, s', w') = (if u_username user \<in> u_username ` set (users w0) then (Raised IntegrityError, s, w0)
            else (Redirect ''/'', start_session user s, sync_sso_groups user ?gs (w0\<lparr>users := users w0 @ [user]\<rparr>)))"
          using run by (simp only: open_ None st Inr option.case prod.case sum.case Let_def user_def)
        show thesis
        proof (cases "u_username user \<in> u_username ` set (users w0)")
          case True
          then show thesis using refused ends same by simp
        next
          case False
          then have ok: "r = Redirect ''/''" "users w' = users w @ [user]" "s' = start_session user s"
            using ends same by (simp_all add: sync_sso_groups_def)
          show thesis
            by (rule created [OF ok(1) Token sub _ None ok(2) user(1,2,3,4) ok(3)])
              (use \<open>oe_enabled env \<and> strip ?sub \<noteq> [] \<and> admitted env ?gs\<close> in simp)
        qed
      qed
    next
      case (Some user)
      then have "r = Redirect ''/''" "sn_user_id s' = Some (u_id user)"
        "users w' = (if oe_admin_group env \<noteq> [] then set_row u_id (u_id user) (\<lambda>u. u\<lparr>u_role := oidc_role env ?gs\<rparr>) (users w) else users w)
        \<or> (users w' = users w \<and> u_role user = oidc_role env ?gs)"
        using run by (auto simp: open_ Let_def start_session_def sync_sso_groups_def upd_user_def split: if_splits)
      then show thesis using known Token sub True Some by blast
    qed
  qed
qed (use run refused in \<open>auto simp: oidc_callback_def split: if_splits\<close>)


text \<open>
  A new subject whose name, once sanitised, is taken by another person never gets in: the insertion
  fails on the unique name, at this and at every later attempt.
\<close>

lemma sso_name_taken:
  assumes "oe_enabled env" "cl_sub c = Some sub" "strip sub \<noteq> []" "admitted env (cl_groups c)"
    and "find (\<lambda>u. u_oidc_subject u = Some sub) (users w) = None" "get_default_store w = Some store"
    and "oidc_username c sub \<in> u_username ` set (users w)"
  shows "oidc_callback env (Token c) s w = (Raised IntegrityError, s, w)"
  using assms by (auto simp: oidc_callback_def Let_def admitted_def ensure_default_store_def new_user_def)

section \<open>Witnesses\<close>

definition ann_session :: session where
  "ann_session = \<lparr> sn_user_id = Some ''u1'', sn_theme = None, sn_oauth_account_id = Some ''a1'', sn_oauth_state = Some ''n'' \<rparr>"

theorem oauth_callback_confined_witness:
  "\<exists>r s' w'. oauth_callback [] (\<lambda>_. Some [(''access_token'', ''t'')]) (\<lambda>_. ''c'') ''j'' 0 (Some ''code'') None (Some ''n'') ann_session shared_world = (r, s', w')
    \<and> w' \<noteq> shared_world \<and> may_connect ann_session shared_world ''a1''
    \<and> (\<forall>j now' c e st. snd (oauth_callback [] (\<lambda>_. Some [(''access_token'', ''t'')]) (\<lambda>_. ''c'') j now' c e st s' w') = (s', w'))"
proof -
  let ?run = "oauth_callback [] (\<lambda>_. Some [(''access_token'', ''t'')]) (\<lambda>_. ''c'') ''j'' 0 (Some ''code'') None (Some ''n'') ann_session shared_world"
  obtain r s' w' where run: "?run = (r, s', w')" by (rule prod_cases3)
  have "map a_credentials (accounts (snd (snd ?run))) = [Some ''c'', None]" by code_simp
  moreover have "map a_credentials (accounts shared_world) = [None, None]" by code_simp
  ultimately have changed: "w' \<noteq> shared_world" by (auto simp: run)
  with oauth_callback_confined [OF run shared_pk(1)] have "\<exists>k. sn_oauth_account_id ann_session = Some k \<and> may_connect ann_session shared_world k"
    by blast
  then have "may_connect ann_session shared_world ''a1''" by (simp add: ann_session_def)
  then show ?thesis using run changed oauth_callback_confined [OF run shared_pk(1)] by blast
qed

definition sso_env :: oidc_env where
  "sso_env = \<lparr> oe_enabled = True, oe_user_group = ''mail'', oe_admin_group = ''ops'', oe_bootstrap_store = ''/m'',
     oe_store_id = ''s9'', oe_user_id = ''u9'', oe_now = 0 \<rparr>"

definition sso_claims :: claims where
  "sso_claims = \<lparr> cl_sub = Some ''x1'', cl_preferred_username = Some ''_restore_eve'', cl_email = None, cl_groups = [''ops''] \<rparr>"


end
