(* ===== verification/Middleware.thy ===== *)
theory Middleware
  imports Users
begin

text \<open>
  The request filters: \<open>middleware/rate_limit.py\<close> and \<open>middleware/force_password_change.py\<close>. The
  monotonic clock is rational; the counters are a function from keys to lists of times, empty
  where the \<open>defaultdict\<close> has no entry. bcrypt is an argument that may raise (\<open>None\<close>).
\<close>

section \<open>Rate limits\<close>

record request =
  rq_method :: str
  rq_path :: str
  rq_client :: "str option"

type_synonym counters = "str \<Rightarrow> rat list"

definition RATE_LIMITED_PATHS :: "(str \<times> nat \<times> rat) list" where
  "RATE_LIMITED_PATHS =
    [(''/api/auth/login'', 10, 60), (''/login'', 10, 60), (''/profile/password'', 5, 60),
     (''/profile/tokens'', 5, 60), (''/api/sync/all'', 3, 60), (''/api/accounts'', 5, 60), (''/api/restore'', 3, 60)]"

definition RATE_LIMITED_PREFIXES :: "(str \<times> nat \<times> rat) list" where
  "RATE_LIMITED_PREFIXES = [(''/api/sync/'', 5, 60)]"

definition reset_rate_limits :: counters where
  "reset_rate_limits = (\<lambda>_. [])"

definition rate_config :: "str \<Rightarrow> (nat \<times> rat) option" where
  "rate_config path =
    (case map_of RATE_LIMITED_PATHS path of
       Some c \<Rightarrow> Some c
     | None \<Rightarrow> map_option snd (find (\<lambda>e. prefix (fst e) path) RATE_LIMITED_PREFIXES))"

definition client_ip :: "request \<Rightarrow> str" where
  "client_ip r = (case rq_client r of Some ip \<Rightarrow> ip | None \<Rightarrow> ''unknown'')"

definition rate_key :: "str \<Rightarrow> str \<Rightarrow> str" where
  "rate_key ip path = ip @ '':'' @ path"

text \<open>The result is whether the request is passed on; otherwise the answer is 429.\<close>

definition rate_limit :: "rat \<Rightarrow> request \<Rightarrow> counters \<Rightarrow> bool \<times> counters" where
  "rate_limit now r c =
    (if rq_method r \<noteq> ''POST'' then (True, c)
     else (case rate_config (rq_path r) of
        None \<Rightarrow> (True, c)
      | Some (max_requests, window) \<Rightarrow>
         let key = rate_key (client_ip r) (rq_path r);
             c = c(key := filter (\<lambda>t. now - t < window) (c key))
         in if length (c key) \<ge> max_requests then (False, c) else (True, c(key := c key @ [now]))))"

section \<open>The default password\<close>

definition DEFAULT_ADMIN_PASSWORD :: str where
  "DEFAULT_ADMIN_PASSWORD = ''changeme1234!''"

definition EXEMPT_PREFIXES :: "str list" where
  "EXEMPT_PREFIXES = [''/profile'', ''/login'', ''/logout'', ''/api/'', ''/static/'', ''/healthz'', ''/readyz'', ''/metrics'', ''/partials/'']"

definition is_exempt :: "str \<Rightarrow> bool" where
  "is_exempt path = (\<exists>p \<in> set EXEMPT_PREFIXES. path = rstrip_slash p \<or> prefix p path)"

text \<open>The result is the path of the redirect, or \<open>None\<close> for a request that is passed on.\<close>

definition force_password_change :: "(str \<Rightarrow> str \<Rightarrow> bool option) \<Rightarrow> request \<Rightarrow> str option \<Rightarrow> world \<Rightarrow> str option" where
  "force_password_change vp r session_user_id w =
    (if rq_method r \<noteq> ''GET'' \<or> is_exempt (rq_path r) then None
     else if \<not> truthy session_user_id then None
     else (case get_user w (the session_user_id) of
        None \<Rightarrow> None
      | Some user \<Rightarrow>
         if u_role user \<noteq> Role_admin then None
         else if truthy (u_oidc_subject user) then None
         else if \<not> truthy (u_password_hash user) then None
         else if vp DEFAULT_ADMIN_PASSWORD (the (u_password_hash user)) = Some True
         then Some ''/profile?force_password_change=1''
         else None))"

text \<open>\<open>services/setup_state.py\<close>: the checklist of the first administrator.\<close>

record setup_state =
  su_is_admin :: bool
  su_default_password :: bool
  su_has_mailbox :: bool
  su_has_repository :: bool
  su_has_backup_policy :: bool
  su_complete :: bool

definition get_setup_state :: "(str \<Rightarrow> str \<Rightarrow> bool option) \<Rightarrow> User \<Rightarrow> world \<Rightarrow> setup_state" where
  "get_setup_state vp user w =
    (if u_role user \<noteq> Role_admin
     then \<lparr> su_is_admin = False, su_default_password = False, su_has_mailbox = False, su_has_repository = False,
       su_has_backup_policy = False, su_complete = True \<rparr>
     else
       let default_password = (truthy (u_password_hash user) \<and> vp DEFAULT_ADMIN_PASSWORD (the (u_password_hash user)) = Some True);
           has_mailbox = (accounts w \<noteq> [])
       in \<lparr> su_is_admin = True, su_default_password = default_password, su_has_mailbox = has_mailbox,
            su_has_repository = (repositories w \<noteq> []), su_has_backup_policy = (backup_policies w \<noteq> []),
            su_complete = (\<not> default_password \<and> has_mailbox) \<rparr>)"

section \<open>A window never holds more than its limit\<close>

text \<open>The times at which requests of a client for a path were passed on, in a run of the filter.\<close>

fun passed_on :: "str \<Rightarrow> str \<Rightarrow> counters \<Rightarrow> (rat \<times> request) list \<Rightarrow> rat list" where
  "passed_on ip p c [] = []"
| "passed_on ip p c ((now, r) # rs) =
     (let (ok, c') = rate_limit now r c
      in (if ok \<and> rq_method r = ''POST'' \<and> client_ip r = ip \<and> rq_path r = p then [now] else []) @ passed_on ip p c' rs)"

lemma rate_key_inj:
  assumes "CHR ''/'' \<notin> set a" "CHR ''/'' \<notin> set b" "rate_key a (CHR ''/'' # p) = rate_key b (CHR ''/'' # q)"
  shows "a = b \<and> p = q"
proof -
  have cut: "takeWhile (\<lambda>c. c \<noteq> CHR ''/'') (rate_key x (CHR ''/'' # y)) = x @ '':''"
    "dropWhile (\<lambda>c. c \<noteq> CHR ''/'') (rate_key x (CHR ''/'' # y)) = CHR ''/'' # y" if "CHR ''/'' \<notin> set x" for x y
  proof -
    have "rate_key x (CHR ''/'' # y) = (x @ '':'') @ CHR ''/'' # y" by (simp add: rate_key_def)
    moreover have "\<And>c. c \<in> set (x @ '':'') \<Longrightarrow> c \<noteq> CHR ''/''" using that by auto
    ultimately show "takeWhile (\<lambda>c. c \<noteq> CHR ''/'') (rate_key x (CHR ''/'' # y)) = x @ '':''"
      "dropWhile (\<lambda>c. c \<noteq> CHR ''/'') (rate_key x (CHR ''/'' # y)) = CHR ''/'' # y"
      by (simp_all only: takeWhile_append2 dropWhile_append2) simp_all
  qed
  show ?thesis using cut [OF assms(1), of p] cut [OF assms(2), of q] assms(3) by simp
qed

lemma config_slash: "rate_config p = Some c \<Longrightarrow> \<exists>q. p = CHR ''/'' # q"
  by (auto simp: rate_config_def RATE_LIMITED_PATHS_def RATE_LIMITED_PREFIXES_def prefix_def split: if_splits option.splits)

definition recent :: "rat \<Rightarrow> rat \<Rightarrow> rat list \<Rightarrow> rat list" where
  "recent W now ts = filter (\<lambda>t. now - t < W) ts"

lemma recent_recent: "now \<le> now' \<Longrightarrow> recent W now' (recent W now ts) = recent W now' ts"
  by (auto simp: recent_def filter_filter intro!: filter_cong)

lemma filter_length_mono: "(\<And>x. P x \<Longrightarrow> Q x) \<Longrightarrow> length (filter P xs) \<le> length (filter Q xs)"
  by (induction xs) (auto simp: le_SucI)

text \<open>
  The counter of a key holds the recent ones of all times at which it let a request pass
  (\<open>hist\<close>), as of the last request it counted.
\<close>

lemma window_bound:
  assumes cfg: "rate_config p = Some (m, W)" and W: "0 < W"
    and ip: "CHR ''/'' \<notin> set ip" "\<forall>(now, r) \<in> set rs. CHR ''/'' \<notin> set (client_ip r)"
    and mono: "sorted (latest # map fst rs)"
    and state: "c (rate_key ip p) = recent W latest hist" "\<forall>s \<in> set hist. s \<le> latest"
      "\<forall>t. length (filter (\<lambda>s. t \<le> s \<and> s < t + W) hist) \<le> m"
  shows "length (filter (\<lambda>s. t \<le> s \<and> s < t + W) (hist @ passed_on ip p c rs)) \<le> m"
  using ip(2) mono state
proof (induction rs arbitrary: c latest hist)
  case (Cons x rs)
  obtain now r where x: "x = (now, r)" by (cases x)
  obtain ok c' where step: "rate_limit now r c = (ok, c')" by (meson surj_pair)
  have le: "latest \<le> now" and rest: "sorted (now # map fst rs)" using Cons.prems(2) by (auto simp: x)
  have slash: "CHR ''/'' \<notin> set (client_ip r)" using Cons.prems(1) by (simp add: x)
  show ?case
  proof (cases "rq_method r = ''POST'' \<and> client_ip r = ip \<and> rq_path r = p")
    case True
    define kept where "kept = recent W now hist"
    have old: "recent W now (c (rate_key ip p)) = kept"
      using Cons.prems(3) recent_recent [OF le] by (simp add: kept_def)
    have new: "recent W now [now] = [now]" using W by (simp add: recent_def)
    show ?thesis
    proof (cases "m \<le> length kept")
      case refused: True
      then have ok: "\<not> ok" "c' (rate_key ip p) = kept"
        using step True cfg old by (auto simp: rate_limit_def Let_def recent_def split: if_splits)
      have "\<forall>s \<in> set hist. s \<le> now" using Cons.prems(4) le by force
      with Cons.IH [of now c' hist] Cons.prems(1,5) rest ok show ?thesis
        by (simp add: x step kept_def)
    next
      case accepted: False
      then have ok: "ok" "c' (rate_key ip p) = kept @ [now]"
        using step True cfg old by (auto simp: rate_limit_def Let_def recent_def split: if_splits)
      have upto: "\<forall>s \<in> set (hist @ [now]). s \<le> now" using Cons.prems(4) le by force
      have state: "c' (rate_key ip p) = recent W now (hist @ [now])"
        using ok new by (simp add: kept_def recent_def)
      have "length (filter (\<lambda>s. t \<le> s \<and> s < t + W) (hist @ [now])) \<le> m" for t
      proof (cases "t \<le> now \<and> now < t + W")
        case True
        have "length (filter (\<lambda>s. t \<le> s \<and> s < t + W) hist) \<le> length kept"
          unfolding kept_def recent_def using True by (intro filter_length_mono) auto
        then show ?thesis using accepted True by simp
      next
        case False
        then show ?thesis using Cons.prems(5) by auto
      qed
      with Cons.IH [of now c' "hist @ [now]"] Cons.prems(1) rest state upto ok True show ?thesis
        by (simp add: x step)
    qed
  next
    case False
    have same: "c' (rate_key ip p) = c (rate_key ip p)"
    proof (cases "rq_method r = ''POST'' \<and> rate_config (rq_path r) \<noteq> None")
      case True
      then have "rate_key (client_ip r) (rq_path r) \<noteq> rate_key ip p"
        using config_slash [OF cfg] config_slash [of "rq_path r"] rate_key_inj [OF slash ip(1)] False by auto
      then show ?thesis using step by (auto simp: rate_limit_def Let_def split: option.splits if_splits prod.splits)
    next
      case False
      then have "rate_limit now r c = (True, c)" by (cases "rate_config (rq_path r)") (auto simp: rate_limit_def)
      then show ?thesis using step by simp
    qed
    with False Cons.IH [of latest c' hist] Cons.prems rest le show ?thesis
      by (auto simp: x step)
  qed
qed simp

lemma config_window: "rate_config p = Some (m, W) \<Longrightarrow> W = 60 \<and> 0 < m"
  by (auto simp: rate_config_def RATE_LIMITED_PATHS_def RATE_LIMITED_PREFIXES_def split: if_splits option.splits)

text \<open>
  C27. However the requests of all clients are interleaved, in no window of the configured length,
  wherever it starts, more requests of one address for one limited path are passed on than the
  limit of the path allows: the window slides, it does not restart at fixed times.
\<close>

theorem rate_limit_window:
  assumes cfg: "rate_config p = Some (m, W)"
    and ip: "CHR ''/'' \<notin> set ip" "\<forall>(now, r) \<in> set rs. CHR ''/'' \<notin> set (client_ip r)"
    and mono: "sorted (map fst rs)"
  shows "length (filter (\<lambda>s. t \<le> s \<and> s < t + W) (passed_on ip p reset_rate_limits rs)) \<le> m"
proof (cases rs)
  case Nil
  then show ?thesis by simp
next
  case (Cons x rs')
  have W: "0 < W" using config_window [OF cfg] by simp
  have "sorted (fst x # map fst rs)" using mono by (simp add: Cons)
  from window_bound [OF cfg W ip this, of reset_rate_limits "[]" t] show ?thesis
    by (simp add: reset_rate_limits_def recent_def)
qed

lemma quiet_client_served:
  assumes "rate_config (rq_path r) = Some (m, W)" "recent W now (c (rate_key (client_ip r) (rq_path r))) = []"
  shows "fst (rate_limit now r c)"
  using assms config_window [OF assms(1)] by (simp add: rate_limit_def Let_def recent_def)

section \<open>The default password\<close>

text \<open>
  The first administrator: every page outside the exempt ones leads to the profile, until the
  password is changed to another one; then every page is passed on. bcrypt is a hash whose check
  tells passwords apart.
\<close>

lemma default_password_forces_change:
  assumes hash: "\<And>p q. vp p (hp q) = Some (p = q)" "\<And>q. hp q \<noteq> []"
    and page: "rq_method r = ''GET''" "\<not> is_exempt (rq_path r)"
    and admin: "get_user w k = Some u" "u_role u = Role_admin" "u_oidc_subject u = None"
      "u_password_hash u = Some (hp DEFAULT_ADMIN_PASSWORD)" "k \<noteq> []"
    and new: "8 \<le> length q" "q \<noteq> DEFAULT_ADMIN_PASSWORD"
  shows "force_password_change vp r (Some k) w = Some ''/profile?force_password_change=1''
    \<and> (\<exists>w'. change_password hp k q w = (Inr True, w') \<and> force_password_change vp r (Some k) w' = None)"
proof -
  have h: "hp x = y \<Longrightarrow> y \<noteq> []" for x y using hash(2) by blast
  have key: "u_id u = k" using row_SomeD [OF admin(1)] by simp
  have "get_user (upd_user k (\<lambda>u. u\<lparr>u_password_hash := Some (hp q)\<rparr>) w) k = Some (u\<lparr>u_password_hash := Some (hp q)\<rparr>)"
    using admin(1) by (simp add: upd_user_def row_set_row)
  then show ?thesis
    using assms by (auto simp: force_password_change_def change_password_def MIN_PASSWORD_LENGTH_def)
qed

text \<open>
  The checklist does not make the exception of the filter for an administrator of the identity
  provider whose row keeps the default hash: it asks for ever for a change that is not enforced.
\<close>

lemma checklist_disagrees:
  assumes "vp DEFAULT_ADMIN_PASSWORD h = Some True" "h \<noteq> []" "u_password_hash u = Some h" "u_role u = Role_admin"
    "truthy (u_oidc_subject u)" "get_user w k = Some u"
  shows "force_password_change vp r (Some k) w = None \<and> su_default_password (get_setup_state vp u w) \<and> \<not> su_complete (get_setup_state vp u w)"
  using assms by (simp add: force_password_change_def get_setup_state_def)

section \<open>Witnesses\<close>

definition login_post :: request where
  "login_post = \<lparr> rq_method = ''POST'', rq_path = ''/api/restore'', rq_client = Some ''10.0.0.1'' \<rparr>"

theorem rate_limit_window_witness:
  "passed_on ''10.0.0.1'' ''/api/restore'' reset_rate_limits (map (\<lambda>t. (t, login_post)) [0, 1, 2, 3, 59, 60, 61]) = [0, 1, 2, 60, 61]
    \<and> length (filter (\<lambda>s. 2 \<le> s \<and> s < 2 + 60)
        (passed_on ''10.0.0.1'' ''/api/restore'' reset_rate_limits (map (\<lambda>t. (t, login_post)) [0, 1, 2, 3, 59, 60, 61]))) \<le> 3"
proof
  have cfg: "rate_config ''/api/restore'' = Some (3, 60)" by (simp add: rate_config_def RATE_LIMITED_PATHS_def)
  have key: "rate_key ''10.0.0.1'' ''/api/restore'' = ''10.0.0.1:/api/restore''" by (simp add: rate_key_def)
  show "passed_on ''10.0.0.1'' ''/api/restore'' reset_rate_limits (map (\<lambda>t. (t, login_post)) [0, 1, 2, 3, 59, 60, 61]) = [0, 1, 2, 60, 61]"
    by (simp add: rate_limit_def login_post_def client_ip_def cfg key Let_def reset_rate_limits_def)
  show "length (filter (\<lambda>s. 2 \<le> s \<and> s < 2 + 60)
      (passed_on ''10.0.0.1'' ''/api/restore'' reset_rate_limits (map (\<lambda>t. (t, login_post)) [0, 1, 2, 3, 59, 60, 61]))) \<le> 3"
    by (rule rate_limit_window [OF cfg]) (simp_all add: login_post_def client_ip_def)
qed

end
