(* ===== verification/Tasks.thy ===== *)
theory Tasks
  imports Users
begin

text \<open>
  Background tasks: \<open>services/background_tasks.py\<close>, the commands of \<open>services/dovecot_manager.py\<close>
  the tasks send, and the part of \<open>services/config_generator.py\<close> and of the start-up in
  \<open>app.py\<close> that asks for a new index. Dovecot is an argument: the reply to a command for a user.
  A row of a user that another request deletes while the task runs is the argument \<open>gone\<close>: the
  session expires its objects at each commit, and reading such a row again raises.
\<close>

section \<open>Commands of doveadm\<close>

text \<open>
  A reply is an exception of the HTTP client, or the parsed list of entries, each a kind and its
  attributes. The result of a command is \<open>None\<close> for \<open>{"ok": True}\<close>, else the error.
\<close>

datatype doveadm_reply = Unreachable str | Entries "(str \<times> (str \<times> str) list) list"

record doveadm =
  dv_api_url :: str
  dv_post :: "str \<Rightarrow> str \<Rightarrow> doveadm_reply"

definition not_configured :: str where
  "not_configured = ''Dovecot API not configured''"

definition doveadm_command :: "str \<Rightarrow> doveadm \<Rightarrow> str \<Rightarrow> str option" where
  "doveadm_command command d username =
    (if dv_api_url d = [] then Some not_configured
     else (case dv_post d command username of
        Unreachable e \<Rightarrow> Some e
      | Entries [] \<Rightarrow> None
      | Entries ((kind, attributes) # _) \<Rightarrow>
          if kind = ''error'' then Some (case map_of attributes ''exitCode'' of Some c \<Rightarrow> c | None \<Rightarrow> ''unknown'')
          else None))"

definition fts_rescan :: "doveadm \<Rightarrow> str \<Rightarrow> str option" where
  "fts_rescan = doveadm_command ''ftsRescan''"

definition force_resync :: "doveadm \<Rightarrow> str \<Rightarrow> str option" where
  "force_resync = doveadm_command ''forceResync''"

text \<open>\<open>index_user\<close> does not look into the reply.\<close>

definition index_user :: "doveadm \<Rightarrow> str \<Rightarrow> str option" where
  "index_user d username =
    (if dv_api_url d = [] then Some not_configured
     else (case dv_post d ''index'' username of Unreachable e \<Rightarrow> Some e | Entries _ \<Rightarrow> None))"

definition check_dovecot_health :: "doveadm \<Rightarrow> str option" where
  "check_dovecot_health d =
    (if dv_api_url d = [] then Some not_configured
     else (case dv_post d ''processStatus'' [] of Unreachable e \<Rightarrow> Some e | Entries _ \<Rightarrow> None))"

definition reload_dovecot :: "doveadm \<Rightarrow> bool" where
  "reload_dovecot d =
    (dv_api_url d \<noteq> [] \<and> (case dv_post d ''reload'' [] of Unreachable e \<Rightarrow> False | Entries _ \<Rightarrow> True))"

record health_cache =
  hc_ok :: "bool option"
  hc_error :: "str option"
  hc_checked_at :: int

definition empty_health_cache :: health_cache where
  "empty_health_cache = \<lparr> hc_ok = None, hc_error = None, hc_checked_at = 0 \<rparr>"

definition get_cached_health :: "doveadm \<Rightarrow> int \<Rightarrow> health_cache \<Rightarrow> (bool option \<times> str option) \<times> health_cache" where
  "get_cached_health d now c =
    (let c = (if now - hc_checked_at c > 30
              then (let r = check_dovecot_health d in \<lparr> hc_ok = Some (r = None), hc_error = r, hc_checked_at = now \<rparr>)
              else c)
     in ((hc_ok c, hc_error c), c))"

section \<open>The table of tasks\<close>

abbreviation get_task :: "world \<Rightarrow> str \<Rightarrow> BackgroundTask option" where
  "get_task w \<equiv> row t_id (background_tasks w)"

definition upd_task :: "str \<Rightarrow> (BackgroundTask \<Rightarrow> BackgroundTask) \<Rightarrow> world \<Rightarrow> world" where
  "upd_task k f w = w\<lparr>background_tasks := set_row t_id k f (background_tasks w)\<rparr>"

definition task_live :: "BackgroundTask \<Rightarrow> bool" where
  "task_live t = (t_status t = T_pending \<or> t_status t = T_running)"

definition new_task :: "str \<times> datetime \<times> str \<times> str option \<Rightarrow> BackgroundTask" where
  "new_task p = (case p of (i, now, task_type, requested_by) \<Rightarrow>
     \<lparr> t_id = i, t_task_type = task_type, t_status = T_pending, t_progress_current = 0,
       t_progress_total = 0, t_details = None, t_started_at = None, t_completed_at = None,
       t_requested_by = requested_by, t_created_at = now \<rparr>)"

definition start_task :: "str \<times> datetime \<times> str \<times> str option \<Rightarrow> world \<Rightarrow> BackgroundTask option \<times> world" where
  "start_task p w =
    (case find (\<lambda>t. t_task_type t = t_task_type (new_task p) \<and> task_live t) (background_tasks w) of
       Some _ \<Rightarrow> (None, w)
     | None \<Rightarrow> (Some (new_task p), w\<lparr>background_tasks := background_tasks w @ [new_task p]\<rparr>))"

interpretation task_q: guarded_table background_tasks t_task_type task_live new_task start_task
  by standard (auto simp: start_task_def find_None_iff split: option.split)

text \<open>The page: \<open>None\<close> is the status \<open>idle\<close>; live figures, when there are any, replace those of the row.\<close>

record task_view =
  tv_status :: "TaskStatus option"
  tv_current :: nat
  tv_total :: nat
  tv_details :: "TaskDetails option"
  tv_user_statuses :: "(str \<times> str) list"
  tv_current_user :: str

definition get_latest_task :: "world \<Rightarrow> str \<Rightarrow> task_view" where
  "get_latest_task w task_type =
    (case newest_first t_created_at (filter (\<lambda>t. t_task_type t = task_type) (background_tasks w)) of
       [] \<Rightarrow> \<lparr> tv_status = None, tv_current = 0, tv_total = 0, tv_details = None, tv_user_statuses = [], tv_current_user = [] \<rparr>
     | task # _ \<Rightarrow>
        (case map_of (task_progress w) (t_id task) of
           None \<Rightarrow> \<lparr> tv_status = Some (t_status task), tv_current = t_progress_current task,
             tv_total = t_progress_total task, tv_details = t_details task, tv_user_statuses = [], tv_current_user = [] \<rparr>
         | Some live \<Rightarrow> \<lparr> tv_status = Some (t_status task), tv_current = tp_current live,
             tv_total = tp_total live, tv_details = t_details task, tv_user_statuses = tp_user_statuses live,
             tv_current_user = tp_current_user live \<rparr>))"

section \<open>A run\<close>

definition set_progress :: "str \<Rightarrow> TaskProgress \<Rightarrow> world \<Rightarrow> world" where
  "set_progress k p w = w\<lparr>task_progress := (k, p) # filter (\<lambda>e. fst e \<noteq> k) (task_progress w)\<rparr>"

definition drop_progress :: "str \<Rightarrow> world \<Rightarrow> world" where
  "drop_progress k w = w\<lparr>task_progress := filter (\<lambda>e. fst e \<noteq> k) (task_progress w)\<rparr>"

definition list_users :: "world \<Rightarrow> User list" where
  "list_users w = users w"

text \<open>
  The loop over the users: \<open>act\<close> is the command of one user, \<open>i\<close> the number of users processed,
  \<open>p\<close> the live figures. It ends with the errors, or at a user whose row is gone with the text of
  the exception.
\<close>

fun task_loop ::
  "(str \<Rightarrow> str option) \<Rightarrow> (str \<Rightarrow> bool) \<Rightarrow> str \<Rightarrow> str \<Rightarrow> User list \<Rightarrow> nat \<Rightarrow> str list \<Rightarrow> TaskProgress \<Rightarrow> world
   \<Rightarrow> (str + str list) \<times> world"
where
  "task_loop act gone msg k [] i errors p w = (Inr errors, w)"
| "task_loop act gone msg k (u # us) i errors p w =
    (if gone (u_id u) then (Inl msg, w)
     else
       let r = act (u_username u);
           p = p\<lparr>tp_current_user := u_username u,
                 tp_user_statuses := tp_user_statuses p @ [(u_username u, if r = None then ''ok'' else ''error'')],
                 tp_current := i + 1\<rparr>;
           errors = (case r of None \<Rightarrow> errors | Some e \<Rightarrow> errors @ [u_username u @ '': '' @ e])
       in task_loop act gone msg k us (i + 1) errors p
            (upd_task k (\<lambda>t. t\<lparr>t_progress_current := i + 1\<rparr>) (set_progress k p w)))"

definition run_task :: "(str \<Rightarrow> str option) \<Rightarrow> (str \<Rightarrow> bool) \<Rightarrow> str \<Rightarrow> datetime \<Rightarrow> datetime \<Rightarrow> str \<Rightarrow> world \<Rightarrow> world" where
  "run_task act gone msg t0 t1 k w =
    (case get_task w k of
       None \<Rightarrow> drop_progress k w
     | Some _ \<Rightarrow>
        let us = list_users w;
            w = upd_task k (\<lambda>t. t\<lparr>t_status := T_running, t_started_at := Some t0, t_progress_total := length us\<rparr>) w;
            p = \<lparr> tp_total = length us, tp_current = 0, tp_user_statuses = [], tp_current_user = [] \<rparr>;
            (r, w) = task_loop act gone msg k us 0 [] p (set_progress k p w);
            w = (case r of
                   Inr errors \<Rightarrow> upd_task k (\<lambda>t. t\<lparr>t_status := if errors = [] then T_completed else T_failed,
                     t_completed_at := Some t1,
                     t_details := Some \<lparr> td_errors = errors, td_users_processed = Some (length us) \<rparr>\<rparr>) w
                 | Inl e \<Rightarrow> upd_task k (\<lambda>t. t\<lparr>t_status := T_failed, t_completed_at := Some t1,
                     t_details := Some \<lparr> td_errors = [e], td_users_processed = None \<rparr>\<rparr>) w)
        in drop_progress k w)"

definition reindex_user :: "doveadm \<Rightarrow> str \<Rightarrow> str option" where
  "reindex_user d username = (case fts_rescan d username of Some e \<Rightarrow> Some e | None \<Rightarrow> index_user d username)"

definition run_fts_reindex where
  "run_fts_reindex d = run_task (reindex_user d)"

definition run_force_resync where
  "run_force_resync d = run_task (force_resync d)"

text \<open>The submission starts a thread of the run; its task is the result.\<close>

definition submit_fts_reindex :: "str \<Rightarrow> datetime \<Rightarrow> str option \<Rightarrow> world \<Rightarrow> BackgroundTask option \<times> world" where
  "submit_fts_reindex i now requested_by = start_task (i, now, ''fts_reindex'', requested_by)"

definition submit_force_resync :: "str \<Rightarrow> datetime \<Rightarrow> str option \<Rightarrow> world \<Rightarrow> BackgroundTask option \<times> world" where
  "submit_force_resync i now requested_by = start_task (i, now, ''force_resync'', requested_by)"

text \<open>The two buttons of the administration pages; the answer is the flag in the redirect.\<close>

definition admin_fts_reindex :: "str \<Rightarrow> datetime \<Rightarrow> User option \<Rightarrow> world \<Rightarrow> str \<times> world" where
  "admin_fts_reindex i now session_user w =
    (case session_user of
       Some user \<Rightarrow> if u_role user \<noteq> Role_admin then (''/'', w)
         else (let (t, w) = submit_fts_reindex i now (Some (u_id user)) w
               in (''/settings?fts_status='' @ (if t = None then ''already_running'' else ''task_started''), w))
     | None \<Rightarrow> (''/'', w))"

definition admin_force_resync :: "str \<Rightarrow> datetime \<Rightarrow> User option \<Rightarrow> world \<Rightarrow> str \<times> world" where
  "admin_force_resync i now session_user w =
    (case session_user of
       Some user \<Rightarrow> if u_role user \<noteq> Role_admin then (''/'', w)
         else (let (t, w) = submit_force_resync i now (Some (u_id user)) w
               in (''/settings?resync_status='' @ (if t = None then ''already_running'' else ''task_started''), w))
     | None \<Rightarrow> (''/'', w))"

section \<open>A change of the search configuration\<close>

text \<open>The marker files under the confs directory, and whether the store of the bootstrap has indexes.\<close>

record fts_files =
  ff_state :: "str option"
  ff_reindex_needed :: bool
  ff_indexes :: bool

definition check_fts_config_changed :: "bool \<Rightarrow> fts_files \<Rightarrow> bool \<times> fts_files" where
  "check_fts_config_changed tika_enabled f =
    (let current = (if tika_enabled then ''tika'' else ''flatcurve'')
     in (case ff_state f of
           Some previous \<Rightarrow> if strip previous = current then (False, f) else (True, f\<lparr>ff_state := Some current\<rparr>)
         | None \<Rightarrow> (True, f\<lparr>ff_state := Some current\<rparr>)))"

definition purge_fts_indexes :: "fts_files \<Rightarrow> fts_files" where
  "purge_fts_indexes f = f\<lparr>ff_indexes := False\<rparr>"

definition generate_fts_state :: "bool \<Rightarrow> fts_files \<Rightarrow> fts_files" where
  "generate_fts_state tika_enabled f =
    (let (fts_changed, f) = check_fts_config_changed tika_enabled f
     in if fts_changed then (purge_fts_indexes f)\<lparr>ff_reindex_needed := True\<rparr> else f)"

text \<open>The start-up: the configuration first, the reindex when its flag is set.\<close>

definition boot_fts :: "bool \<Rightarrow> str \<Rightarrow> datetime \<Rightarrow> world \<Rightarrow> fts_files \<Rightarrow> BackgroundTask option \<times> world \<times> fts_files" where
  "boot_fts tika_enabled i now w f =
    (let f = generate_fts_state tika_enabled f
     in if ff_reindex_needed f
        then (let (t, w) = submit_fts_reindex i now None w in (t, w, f\<lparr>ff_reindex_needed := False\<rparr>))
        else (None, w, f))"

section \<open>What a run does\<close>

definition failures :: "(str \<Rightarrow> str option) \<Rightarrow> User list \<Rightarrow> str list" where
  "failures act us = concat (map (\<lambda>u. case act (u_username u) of None \<Rightarrow> [] | Some e \<Rightarrow> [u_username u @ '': '' @ e]) us)"

definition reached :: "(str \<Rightarrow> bool) \<Rightarrow> User list \<Rightarrow> User list" where
  "reached gone us = takeWhile (\<lambda>u. \<not> gone (u_id u)) us"

lemma upd_task_fields [tab_simps]:
  "background_tasks (upd_task k g w) = set_row t_id k g (background_tasks w)"
  "task_progress (upd_task k g w) = task_progress w" "users (upd_task k g w) = users w"
  "background_tasks (set_progress k p w) = background_tasks w" "users (set_progress k p w) = users w"
  "background_tasks (drop_progress k w) = background_tasks w"
  "task_progress (drop_progress k w) = filter (\<lambda>e. fst e \<noteq> k) (task_progress w)"
  "filter (\<lambda>e. fst e \<noteq> k) (task_progress (set_progress k p w)) = filter (\<lambda>e. fst e \<noteq> k) (task_progress w)"
  by (simp_all add: upd_task_def set_progress_def drop_progress_def filter_filter)

lemma set_row_twice: "(\<And>r. key (g r) = key r) \<Longrightarrow> set_row key k h (set_row key k g t) = set_row key k (h \<circ> g) t"
  by (simp add: set_row_def)

lemma set_row_same: "(\<And>r. g r = r) \<Longrightarrow> set_row key k g t = t"
  by (induction t) simp_all

text \<open>The loop writes the counter of its row and its live entry only, and stops at the first row that is gone.\<close>

lemma task_loop_result:
  "fst (task_loop act gone msg k us i errors p w)
    = (if reached gone us = us then Inr (errors @ failures act us) else Inl msg)"
  by (induction us arbitrary: i errors p w)
    (auto simp: reached_def failures_def Let_def split: option.split)

lemma task_loop_world:
  "\<exists>g e. snd (task_loop act gone msg k us i errors p w) = w\<lparr>background_tasks := set_row t_id k g (background_tasks w), task_progress := e\<rparr>
    \<and> filter (\<lambda>x. fst x \<noteq> k) e = filter (\<lambda>x. fst x \<noteq> k) (task_progress w)
    \<and> (\<forall>t. g t = t\<lparr>t_progress_current := if reached gone us = [] then t_progress_current t else i + length (reached gone us)\<rparr>)"
proof (induction us arbitrary: i errors p w)
  case Nil
  show ?case
    by (intro exI [of _ "\<lambda>t. t"] exI [of _ "task_progress w"]) (simp add: reached_def set_row_same)
next
  case (Cons u us)
  show ?case
  proof (cases "gone (u_id u)")
    case True
    then show ?thesis
      by (intro exI [of _ "\<lambda>t. t"] exI [of _ "task_progress w"]) (simp add: reached_def set_row_same)
  next
    case False
    define p' where "p' = p\<lparr>tp_current_user := u_username u,
        tp_user_statuses := tp_user_statuses p @ [(u_username u, if act (u_username u) = None then ''ok'' else ''error'')], tp_current := i + 1\<rparr>"
    define w' where "w' = upd_task k (\<lambda>t. t\<lparr>t_progress_current := i + 1\<rparr>) (set_progress k p' w)"
    define errors' where "errors' = (case act (u_username u) of None \<Rightarrow> errors | Some e \<Rightarrow> errors @ [u_username u @ '': '' @ e])"
    obtain g e where run: "snd (task_loop act gone msg k us (i + 1) errors' p' w')
          = w'\<lparr>background_tasks := set_row t_id k g (background_tasks w'), task_progress := e\<rparr>"
        "filter (\<lambda>x. fst x \<noteq> k) e = filter (\<lambda>x. fst x \<noteq> k) (task_progress w')"
        "\<forall>t. g t = t\<lparr>t_progress_current := if reached gone us = [] then t_progress_current t else i + 1 + length (reached gone us)\<rparr>"
      using Cons.IH [of "i + 1" errors' p' w'] by blast
    have step: "task_loop act gone msg k (u # us) i errors p w = task_loop act gone msg k us (i + 1) errors' p' w'"
      using False by (simp add: Let_def p'_def w'_def errors'_def)
    have reached: "reached gone (u # us) = u # reached gone us" using False by (simp add: reached_def)
    let ?g = "g \<circ> (\<lambda>t. t\<lparr>t_progress_current := i + 1\<rparr>)"
    have "w'\<lparr>background_tasks := set_row t_id k g (background_tasks w'), task_progress := e\<rparr>
        = w\<lparr>background_tasks := set_row t_id k ?g (background_tasks w), task_progress := e\<rparr>"
      by (simp add: w'_def upd_task_def set_progress_def set_row_twice)
    moreover have "filter (\<lambda>x. fst x \<noteq> k) e = filter (\<lambda>x. fst x \<noteq> k) (task_progress w)"
      by (simp add: run(2) w'_def tab_simps)
    moreover have "?g t = t\<lparr>t_progress_current := if reached gone (u # us) = [] then t_progress_current t else i + length (reached gone (u # us))\<rparr>" for t
      using run(3) by (simp add: reached)
    ultimately show ?thesis
      unfolding step run(1) by blast
  qed
qed

definition task_started :: "world \<Rightarrow> datetime \<Rightarrow> BackgroundTask \<Rightarrow> BackgroundTask" where
  "task_started w t0 t = t\<lparr>t_status := T_running, t_started_at := Some t0, t_progress_total := length (users w)\<rparr>"

definition ended :: "(str \<Rightarrow> str option) \<Rightarrow> (str \<Rightarrow> bool) \<Rightarrow> str \<Rightarrow> world \<Rightarrow> datetime \<Rightarrow> datetime \<Rightarrow> BackgroundTask \<Rightarrow> BackgroundTask" where
  "ended act gone msg w t0 t1 t =
    (let us = users w; n = length (reached gone us);
         t = (task_started w t0 t)\<lparr>t_progress_current := if n = 0 then t_progress_current t else n, t_completed_at := Some t1\<rparr>
     in if n = length us
        then t\<lparr>t_status := if failures act us = [] then T_completed else T_failed,
               t_details := Some \<lparr> td_errors = failures act us, td_users_processed = Some (length us) \<rparr>\<rparr>
        else t\<lparr>t_status := T_failed, t_details := Some \<lparr> td_errors = [msg], td_users_processed = None \<rparr>\<rparr>)"

lemma reached_all: "length (reached gone us) = length us \<longleftrightarrow> reached gone us = us"
  unfolding reached_def by (metis length_takeWhile_le takeWhile_eq_take take_all order_refl)

lemma run_task_result:
  assumes "get_task w k = Some task"
  shows "\<exists>e. run_task act gone msg t0 t1 k w
      = w\<lparr>background_tasks := set_row t_id k (ended act gone msg w t0 t1) (background_tasks w), task_progress := e\<rparr>
    \<and> e = filter (\<lambda>x. fst x \<noteq> k) (task_progress w)"
proof -
  let ?us = "users w"
  define w0 where "w0 = upd_task k (task_started w t0) w"
  define p where "p = \<lparr> tp_total = length ?us, tp_current = 0, tp_user_statuses = [], tp_current_user = [] \<rparr>"
  define w0' where "w0' = set_progress k p w0"
  obtain r w1 where run: "task_loop act gone msg k ?us 0 [] p w0' = (r, w1)" by (meson surj_pair)
  obtain g e where w1: "w1 = w0'\<lparr>background_tasks := set_row t_id k g (background_tasks w0'), task_progress := e\<rparr>"
    and e: "filter (\<lambda>x. fst x \<noteq> k) e = filter (\<lambda>x. fst x \<noteq> k) (task_progress w0')"
    and g: "\<And>t. g t = t\<lparr>t_progress_current := if reached gone ?us = [] then t_progress_current t else length (reached gone ?us)\<rparr>"
    using task_loop_world [of act gone msg k ?us 0 "[]" p w0'] run by auto
  have r: "r = (if reached gone ?us = ?us then Inr (failures act ?us) else Inl msg)"
    using task_loop_result [of act gone msg k ?us 0 "[]" p w0'] run by simp
  define fin :: "BackgroundTask \<Rightarrow> BackgroundTask" where "fin = (case r of
       Inr errors \<Rightarrow> (\<lambda>t. t\<lparr>t_status := if errors = [] then T_completed else T_failed, t_completed_at := Some t1,
         t_details := Some \<lparr> td_errors = errors, td_users_processed = Some (length ?us) \<rparr>\<rparr>)
     | Inl m \<Rightarrow> (\<lambda>t. t\<lparr>t_status := T_failed, t_completed_at := Some t1,
         t_details := Some \<lparr> td_errors = [m], td_users_processed = None \<rparr>\<rparr>))"
  have "run_task act gone msg t0 t1 k w = drop_progress k (upd_task k fin w1)"
    using assms run by (simp add: run_task_def list_users_def Let_def w0_def w0'_def p_def task_started_def [abs_def] fin_def split: sum.splits)
  also have "\<dots> = w\<lparr>background_tasks := set_row t_id k (fin \<circ> (g \<circ> task_started w t0)) (background_tasks w),
      task_progress := filter (\<lambda>x. fst x \<noteq> k) (task_progress w)\<rparr>"
    using e by (simp add: drop_progress_def upd_task_def w1 w0'_def w0_def set_progress_def set_row_twice task_started_def g filter_filter)
  also have "fin \<circ> (g \<circ> task_started w t0) = ended act gone msg w t0 t1"
    by (auto simp: fun_eq_iff fin_def r g ended_def task_started_def Let_def reached_all)
  finally show ?thesis by blast
qed

lemma at_most_one_eq:
  assumes "length (filter P xs) \<le> 1" "x \<in> set xs" "y \<in> set xs" "P x" "P y"
  shows "x = y"
proof -
  have "x \<in> set (filter P xs)" "y \<in> set (filter P xs)" using assms by simp_all
  then show ?thesis using assms(1) by (cases "filter P xs") auto
qed

text \<open>
  C26. Whatever Dovecot answers and whoever is deleted meanwhile, a background task ends: its row
  is completed exactly when every user was processed without an error and carries the errors, in
  the order of the users; the live figures are gone, the progress is bounded by the total, nothing
  else changes, and the next task of its kind is accepted.
\<close>

theorem background_task_ends:
  assumes task: "get_task w k = Some task" "t_progress_current task = 0" "task_live task"
    and table: "pk t_id (background_tasks w)" "length (filter (\<lambda>t. t_task_type t = t_task_type task \<and> task_live t) (background_tasks w)) \<le> 1"
  shows "\<exists>w' t. run_task act gone msg t0 t1 k w = w' \<and> get_task w' k = Some t \<and> \<not> task_live t
    \<and> t_completed_at t = Some t1 \<and> t_progress_current t = length (reached gone (users w))
    \<and> t_progress_current t \<le> t_progress_total t \<and> t_progress_total t = length (users w)
    \<and> (t_status t = T_completed \<longleftrightarrow> (\<forall>u \<in> set (users w). \<not> gone (u_id u) \<and> act (u_username u) = None))
    \<and> map_option td_errors (t_details t) = Some (if reached gone (users w) = users w then failures act (users w) else [msg])
    \<and> map_of (task_progress w') k = None
    \<and> w' = w\<lparr>background_tasks := background_tasks w', task_progress := task_progress w'\<rparr>
    \<and> fst (start_task (i, now, t_task_type task, by) w') \<noteq> None"
proof -
  let ?final = "ended act gone msg w t0 t1"
  define w' where "w' = run_task act gone msg t0 t1 k w"
  have w': "w' = w\<lparr>background_tasks := set_row t_id k ?final (background_tasks w), task_progress := filter (\<lambda>x. fst x \<noteq> k) (task_progress w)\<rparr>"
    using run_task_result [OF task(1), of act gone msg t0 t1] by (simp add: w'_def)
  have keeps: "t_id (?final t) = t_id t" "t_task_type (?final t) = t_task_type t" "\<not> task_live (?final t)" for t
    by (simp_all add: ended_def task_started_def Let_def task_live_def)
  have row: "get_task w' k = Some (?final task)"
    using row_set_row [where key = t_id and f = ?final, OF keeps(1)] task(1) by (simp add: w')
  have all: "(\<forall>u \<in> set us. \<not> gone (u_id u) \<and> act (u_username u) = None) \<longleftrightarrow> reached gone us = us \<and> failures act us = []" for us
    by (auto simp: reached_def failures_def takeWhile_eq_all_conv split: option.splits)
  have bound: "length (reached gone (users w)) \<le> length (users w)" by (simp add: reached_def length_takeWhile_le)
  have "task \<in> set (background_tasks w)" "t_id task = k" using row_SomeD [OF task(1)] by auto
  then have only: "t_id t = k" if "t \<in> set (background_tasks w)" "t_task_type t = t_task_type task" "task_live t" for t
    using at_most_one_eq [OF table(2), of t task] that task(3) by simp
  have "\<forall>t \<in> set (background_tasks w'). \<not> (t_task_type t = t_task_type task \<and> task_live t)"
    using only by (auto simp: w' set_row_def keeps)
  then have "fst (start_task (i, now, t_task_type task, by) w') \<noteq> None"
    by (simp add: start_task_def new_task_def find_None_iff [THEN iffD2])
  moreover have "map_of (task_progress w') k = None" by (auto simp: w' map_of_eq_None_iff)
  moreover have "w' = w\<lparr>background_tasks := background_tasks w', task_progress := task_progress w'\<rparr>" by (simp add: w')
  moreover have "t_completed_at (?final task) = Some t1" "t_progress_total (?final task) = length (users w)"
    "t_progress_current (?final task) = length (reached gone (users w))"
    "t_status (?final task) = T_completed \<longleftrightarrow> reached gone (users w) = users w \<and> failures act (users w) = []"
    "map_option td_errors (t_details (?final task)) = Some (if reached gone (users w) = users w then failures act (users w) else [msg])"
    using task(2) by (simp_all add: ended_def task_started_def Let_def reached_all)
  ultimately show ?thesis
    using row bound keeps(3) unfolding w'_def [symmetric] all
    by (intro exI [of _ w'] exI [of _ "?final task"]) simp
qed

section \<open>A reindex that was killed\<close>

definition fts_engine :: "bool \<Rightarrow> str" where
  "fts_engine tika_enabled = (if tika_enabled then ''tika'' else ''flatcurve'')"

lemma strip_engine: "strip (fts_engine b) = fts_engine b"
  by (cases b) (simp_all add: fts_engine_def strip_def is_space_def)

lemma generate_fts_again:
  "ff_state f = Some (fts_engine b) \<Longrightarrow> generate_fts_state b f = f"
  using strip_engine [of b] by (simp add: generate_fts_state_def check_fts_config_changed_def Let_def fts_engine_def split: if_splits)

text \<open>
  C28. No sweep closes the row of a background task whose process died. After a change of the
  search engine the start-up then deletes the indexes, gets no task because the dead one counts as
  live, and clears the flag all the same: no later start-up asks again, and the button of the
  administration page answers that a reindex is running.
\<close>

theorem killed_reindex_is_lost:
  assumes dead: "t \<in> set (background_tasks w)" "t_task_type t = ''fts_reindex''" "task_live t"
    and changed: "ff_state f = Some previous" "strip previous \<noteq> fts_engine tika"
    and admin: "u_role user = Role_admin"
  shows "\<exists>f'. boot_fts tika i now w f = (None, w, f') \<and> \<not> ff_indexes f' \<and> \<not> ff_reindex_needed f'
    \<and> boot_fts tika i' now' w f' = (None, w, f')
    \<and> admin_fts_reindex i' now' (Some user) w = (''/settings?fts_status=already_running'', w)"
proof -
  have busy: "start_task (j, n, ''fts_reindex'', by) w = (None, w)" for j n "by"
    using dead by (cases "find (\<lambda>t. t_task_type t = ''fts_reindex'' \<and> task_live t) (background_tasks w)")
      (auto simp: start_task_def new_task_def find_None_iff)
  let ?f = "f\<lparr>ff_state := Some (fts_engine tika), ff_indexes := False, ff_reindex_needed := True\<rparr>"
  have first: "generate_fts_state tika f = ?f"
    using changed by (simp add: generate_fts_state_def check_fts_config_changed_def purge_fts_indexes_def Let_def fts_engine_def)
  let ?f' = "?f\<lparr>ff_reindex_needed := False\<rparr>"
  have "generate_fts_state tika ?f' = ?f'" by (rule generate_fts_again) simp
  then show ?thesis
    using first admin
    by (intro exI [of _ ?f']) (simp add: boot_fts_def submit_fts_reindex_def busy admin_fts_reindex_def Let_def)
qed

lemma fresh_boot_reindexes:
  assumes "ff_state f = Some previous" "strip previous \<noteq> fts_engine tika"
    and "\<forall>t \<in> set (background_tasks w). \<not> (t_task_type t = ''fts_reindex'' \<and> task_live t)"
  shows "fst (boot_fts tika i now w f) \<noteq> None"
  using assms by (auto simp: boot_fts_def generate_fts_state_def check_fts_config_changed_def Let_def
      fts_engine_def submit_fts_reindex_def start_task_def new_task_def find_None_iff [THEN iffD2] split: if_splits)

text \<open>
  The rescan and the resync look for an error in the reply of doveadm, the indexing does not: a
  user whose indexing Dovecot refuses counts as done.
\<close>

lemma refused_indexing_counts_as_done:
  assumes "dv_api_url d \<noteq> []" "dv_post d ''ftsRescan'' u = Entries []" "dv_post d ''index'' u = Entries [(''error'', a)]"
  shows "reindex_user d u = None"
  using assms by (simp add: reindex_user_def fts_rescan_def doveadm_command_def index_user_def)

section \<open>Witnesses\<close>

definition task_world :: world where
  "task_world = empty_world\<lparr>users := [ann, bob],
     background_tasks := [(new_task (''t1'', 0, ''fts_reindex'', None))\<lparr>t_status := T_running\<rparr>]\<rparr>"

theorem background_task_ends_witness:
  "\<exists>w' t. run_task (\<lambda>u. if u = ''ann'' then Some ''down'' else None) (\<lambda>_. False) ''gone'' 1 2 ''t1'' task_world = w'
    \<and> get_task w' ''t1'' = Some t \<and> \<not> task_live t \<and> t_status t = T_failed
    \<and> map_option td_errors (t_details t) = Some [''ann: down'']"
proof -
  let ?act = "\<lambda>u. if u = ''ann'' then Some ''down'' else None"
  let ?task = "(new_task (''t1'', 0, ''fts_reindex'', None))\<lparr>t_status := T_running\<rparr>"
  have row: "get_task task_world ''t1'' = Some ?task" "t_progress_current ?task = 0" "task_live ?task"
    "pk t_id (background_tasks task_world)"
    "length (filter (\<lambda>t. t_task_type t = t_task_type ?task \<and> task_live t) (background_tasks task_world)) \<le> 1"
    by (simp_all add: task_world_def new_task_def pk_def task_live_def)
  have users: "users task_world = [ann, bob]" "u_username ann = ''ann''" "u_username bob = ''bob''"
    by (simp_all add: task_world_def ann_def bob_def new_user_def)
  have all: "reached (\<lambda>_. False) us = us" for us by (simp add: reached_def takeWhile_eq_all_conv)
  have fails: "failures ?act [ann, bob] = [''ann: down'']" by (simp add: failures_def users)
  obtain w' t where run: "run_task ?act (\<lambda>_. False) ''gone'' 1 2 ''t1'' task_world = w'" "get_task w' ''t1'' = Some t" "\<not> task_live t"
    "t_status t = T_completed \<longleftrightarrow> (\<forall>u \<in> set (users task_world). \<not> False \<and> ?act (u_username u) = None)"
    "map_option td_errors (t_details t) = Some (if reached (\<lambda>_. False) (users task_world) = users task_world
       then failures ?act (users task_world) else [''gone''])"
    using background_task_ends [OF row, of ?act "\<lambda>_. False" "''gone''" 1 2] by blast
  have "t_status t \<noteq> T_completed" using run(4) by (simp add: users)
  then have "t_status t = T_failed" using run(3) by (cases "t_status t") (auto simp: task_live_def)
  then show ?thesis using run(1-3,5) by (auto simp: users(1) fails all)
qed

theorem killed_reindex_is_lost_witness:
  "\<exists>f'. boot_fts True ''t2'' 5 task_world \<lparr> ff_state = Some ''flatcurve'', ff_reindex_needed = False, ff_indexes = True \<rparr> = (None, task_world, f')
    \<and> \<not> ff_indexes f' \<and> \<not> ff_reindex_needed f' \<and> boot_fts True ''t3'' 9 task_world f' = (None, task_world, f')"
proof -
  have dead: "(new_task (''t1'', 0, ''fts_reindex'', None))\<lparr>t_status := T_running\<rparr> \<in> set (background_tasks task_world)"
    by (simp add: task_world_def)
  have engine: "strip ''flatcurve'' \<noteq> fts_engine True" by (simp add: fts_engine_def strip_def is_space_def)
  show ?thesis
    using killed_reindex_is_lost [OF dead _ _ _ engine, of "\<lparr> ff_state = Some ''flatcurve'', ff_reindex_needed = False, ff_indexes = True \<rparr>"
        "ann\<lparr>u_role := Role_admin\<rparr>" "''t2''" 5 "''t3''" 9]
    by (auto simp: new_task_def task_live_def)
qed

end
