(* ===== verification/Recoveries.thy ===== *)
theory Recoveries
  imports Users
begin

text \<open>
  Recoveries: \<open>services/recovery_service.py\<close> and \<open>services/mount_service.py\<close>. A recovery is the tree
  restic extracts from a snapshot, under \<open>.offsite-restore\<close> of the store, with a row that Dovecot
  publishes as a namespace. restic is an argument: what it does to the file system and the list
  of snapshots it prints. Paths are strings in the rows, and lists of names in the file system.
\<close>

section \<open>Where a recovery lives\<close>

text \<open>\<open>strftime("%Y%m%d%H%M%S")\<close> of a UTC time.\<close>

definition second_stamp :: "datetime \<Rightarrow> str" where
  "second_stamp t =
    (let (y, m, d) = civil_from_days (utc_date t);
         s = (t - utc_midnight (utc_date t)) div seconds 1
     in pad4 y @ pad2 m @ pad2 d @ pad2 (s div 3600) @ pad2 (s div 60 mod 60) @ pad2 (s mod 60))"

definition RESTORE_DIR :: str where
  "RESTORE_DIR = ''.offsite-restore''"

definition build_restore_root :: "str \<Rightarrow> str \<Rightarrow> datetime \<Rightarrow> str" where
  "build_restore_root store_path account_id now =
     store_path @ ''/'' @ RESTORE_DIR @ ''/'' @ account_id @ ''-'' @ second_stamp now"

text \<open>
  \<open>os.walk\<close>, top down: the directories below \<open>base\<close> by their names from there. The recursion is
  bounded by the depth of the tree.
\<close>

fun walk :: "nat \<Rightarrow> fs \<Rightarrow> path \<Rightarrow> path \<Rightarrow> path list" where
  "walk 0 f base q = [q]"
| "walk (Suc n) f base q =
     q # concat (map (\<lambda>x. walk n f base (q @ [x]))
       (filter (\<lambda>x. is_dir f (base @ q @ [x])) (listdir (base @ q) f)))"

definition walk_dirs :: "fs \<Rightarrow> path \<Rightarrow> path list" where
  "walk_dirs f base = (if is_dir f base then walk (depth f) f base [] else [])"

definition has_triplet :: "fs \<Rightarrow> path \<Rightarrow> bool" where
  "has_triplet f p = (\<forall>x \<in> {''cur'', ''new'', ''tmp''}. is_dir f (p @ [x]))"

fun common_path :: "path list \<Rightarrow> path" where
  "common_path [] = []"
| "common_path [p] = p"
| "common_path (p # q # ps) = longest_common_prefix p (common_path (q # ps))"

definition below :: "str \<Rightarrow> path \<Rightarrow> str" where
  "below s q = s @ concat (map (\<lambda>x. CHR ''/'' # x) q)"

definition resolve_maildir_inside_restore :: "fs \<Rightarrow> str \<Rightarrow> str \<Rightarrow> str option \<Rightarrow> str" where
  "resolve_maildir_inside_restore f restore_root maildir_path repo_prefix =
    (let base = path_of restore_root;
         rel = dropWhile (\<lambda>c. c = CHR ''/'') maildir_path;
         dirs = walk_dirs f base
     in if is_dir f (path_of (restore_root @ ''/'' @ rel)) then restore_root @ ''/'' @ rel
        else (case (if truthy repo_prefix then find (\<lambda>q. last (base @ q) = the repo_prefix) dirs else None) of
           Some q \<Rightarrow> below restore_root q
         | None \<Rightarrow>
            let folders = filter (\<lambda>q. has_triplet f (base @ q)) dirs
            in if folders \<noteq> [] \<and> [] \<notin> set folders then below restore_root (common_path (map butlast folders))
               else restore_root))"

text \<open>\<open>_compute_size\<close>: the bytes of all files below the path.\<close>

definition tree_size :: "fs \<Rightarrow> path \<Rightarrow> nat" where
  "tree_size f p = sum_list (map (\<lambda>(q, n). case n of File c \<Rightarrow> length c | Dir \<Rightarrow> 0)
     (filter (\<lambda>(q, n). prefix p q \<and> q \<noteq> p) f))"

section \<open>Creation\<close>

text \<open>
  restic for one call: the restore of a snapshot under a target may raise, after changing the
  file system; the list of snapshots may raise too. \<open>rx_time\<close> is \<open>datetime.fromisoformat\<close>, which
  may refuse its text.
\<close>

record snapshot =
  sn_short_id :: str
  sn_id :: str
  sn_time :: str

record restic_env =
  rx_restore :: "str \<Rightarrow> str \<Rightarrow> str \<Rightarrow> str \<Rightarrow> str option \<Rightarrow> fs \<Rightarrow> str option \<times> fs"
  rx_snapshots :: "str \<Rightarrow> str \<Rightarrow> str option \<Rightarrow> snapshot list option"
  rx_time :: "str \<Rightarrow> datetime option"

definition upd_recovery :: "str \<Rightarrow> (Recovery \<Rightarrow> Recovery) \<Rightarrow> world \<Rightarrow> world" where
  "upd_recovery k g w = w\<lparr>recoveries := set_row r_id k g (recoveries w)\<rparr>"

abbreviation get_recovery :: "world \<Rightarrow> str \<Rightarrow> Recovery option" where
  "get_recovery w \<equiv> row r_id (recoveries w)"

definition iso_text :: "str \<Rightarrow> str" where
  "iso_text s = concat (map (\<lambda>c. if c = CHR ''Z'' then ''+00:00'' else [c]) s)"

definition snapshot_time_of :: "restic_env \<Rightarrow> str \<Rightarrow> snapshot list option \<Rightarrow> datetime option" where
  "snapshot_time_of env snapshot_id snapshots =
    (case snapshots of
       None \<Rightarrow> None
     | Some ss \<Rightarrow>
        (case find (\<lambda>s. sn_short_id s = snapshot_id \<or> prefix snapshot_id (sn_id s)) ss of
           None \<Rightarrow> None
         | Some s \<Rightarrow> (let ts = iso_text (sn_time s) in if ts = [] then None else rx_time env ts)))"

text \<open>
  The source: the backup policy of the account, or an attached prefix of a repository with its
  own password. The result is the destination, the prefix, its hint and the password.
\<close>

definition recovery_source ::
  "world \<Rightarrow> Account \<Rightarrow> str option \<Rightarrow> str option \<Rightarrow> str option \<Rightarrow> str + str \<times> str \<times> str option"
where
  "recovery_source w account source_repository source_prefix source_password_enc =
    (if (source_repository \<noteq> None) \<noteq> truthy source_prefix
     then Inl ''source_repository and source_prefix must be provided together''
     else if truthy source_password_enc \<and> source_repository = None
     then Inl ''source_password_enc requires source_repository and source_prefix''
     else (case source_repository of
        Some r \<Rightarrow> Inr (r, the source_prefix, source_prefix)
      | None \<Rightarrow>
         (case row bp_account_id (backup_policies w) (a_id account) of
            None \<Rightarrow> Inl ''Account has no backup policy; nothing to restore from''
          | Some backup \<Rightarrow> Inr (bp_destination_id backup, a_id account, None))))"

text \<open>
  \<open>size_bytes\<close> is an \<open>INTEGER\<close> column of PostgreSQL, four bytes wide: the last commit refuses a
  larger number, and the row stays as the first commit wrote it.
\<close>

definition int4 :: "int \<Rightarrow> bool" where
  "int4 n = (- (2 ^ 31) \<le> n \<and> n < 2 ^ 31)"

definition create_recovery ::
  "restic_env \<Rightarrow> str \<Rightarrow> datetime \<Rightarrow> str \<Rightarrow> str \<Rightarrow> RecoveryKind \<Rightarrow> int option \<Rightarrow> str option \<Rightarrow> str option \<Rightarrow> str option
   \<Rightarrow> disk_world \<Rightarrow> (str + Recovery) \<times> disk_world"
where
  "create_recovery env i now account_id snapshot_id kind ttl source_repository source_prefix source_password_enc dw =
    (case dw of (w, f) \<Rightarrow>
      (case get_account w account_id of
         None \<Rightarrow> (Inl (''Account '' @ account_id @ '' not found''), w, f)
       | Some account \<Rightarrow>
          (case recovery_source w account source_repository source_prefix source_password_enc of
             Inl e \<Rightarrow> (Inl e, w, f)
           | Inr (destination, repo_prefix, prefix_hint) \<Rightarrow>
              let store_path = (case get_store w (a_store_id account) of Some s \<Rightarrow> st_path s | None \<Rightarrow> []);
                  restore_root = build_restore_root store_path account_id now
              in (case make_dirs (path_of restore_root) f of
                 Inl e \<Rightarrow> (Inl e, w, f)
               | Inr f \<Rightarrow>
                  let recovery = \<lparr> r_id = i, r_account_id = account_id, r_repository_id = Some destination,
                        r_snapshot_id = snapshot_id, r_snapshot_time = None, r_restored_at = Some now,
                        r_restore_path = restore_root, r_status = RS_restoring, r_error = None,
                        r_size_bytes = None, r_kind = kind, r_last_accessed_at = now, r_ttl_minutes = ttl \<rparr>;
                      (failed, f) = rx_restore env destination repo_prefix snapshot_id restore_root source_password_enc f;
                      ended = (case failed of
                          Some e \<Rightarrow> recovery\<lparr>r_status := RS_failed, r_error := Some e\<rparr>
                        | None \<Rightarrow>
                           let maildir_root = resolve_maildir_inside_restore f restore_root (a_maildir_path account) prefix_hint
                           in recovery\<lparr>r_restore_path := maildir_root, r_status := RS_ready,
                                r_size_bytes := Some (int (tree_size f (path_of maildir_root))),
                                r_snapshot_time := snapshot_time_of env snapshot_id
                                  (rx_snapshots env destination repo_prefix source_password_enc)\<rparr>)
                  in if (case r_size_bytes ended of None \<Rightarrow> True | Some n \<Rightarrow> int4 n)
                     then (Inr ended, w\<lparr>recoveries := recoveries w @ [ended]\<rparr>, f)
                     else (Inl ''DataError'', w\<lparr>recoveries := recoveries w @ [recovery]\<rparr>, f)))))"

section \<open>Deletion\<close>

text \<open>\<open>os.path.split\<close>.\<close>

definition path_split :: "str \<Rightarrow> str \<times> str" where
  "path_split p =
    (let tail = rev (takeWhile (\<lambda>c. c \<noteq> CHR ''/'') (rev p));
         head = rev (dropWhile (\<lambda>c. c \<noteq> CHR ''/'') (rev p))
     in (if list_all (\<lambda>c. c = CHR ''/'') head then head else rstrip_slash head, tail))"

definition contains :: "str \<Rightarrow> str \<Rightarrow> bool" where
  "contains x s = sublist x s"

lemma path_split_shorter:
  assumes "contains RESTORE_DIR p"
  shows "length (fst (path_split p)) < length p"
proof -
  define tail where "tail = rev (takeWhile (\<lambda>c. c \<noteq> CHR ''/'') (rev p))"
  define head where "head = rev (dropWhile (\<lambda>c. c \<noteq> CHR ''/'') (rev p))"
  have p: "p = head @ tail"
    by (metis head_def tail_def rev_append rev_rev_ident takeWhile_dropWhile_id)
  have strip: "length (rstrip_slash x) \<le> length x" for x
    using length_dropWhile_le [of "\<lambda>c. c = CHR ''/''" "rev x"] by (simp add: rstrip_slash_def)
  show ?thesis
  proof (cases "tail = []")
    case False
    then show ?thesis using strip [of head]
      by (subst (2) p) (auto simp: path_split_def Let_def head_def [symmetric] tail_def [symmetric] intro: le_less_trans)
  next
    case True
    then have eq: "head = p" using p by simp
    have dot: "CHR ''.'' \<in> set p" using assms set_mono_sublist [of RESTORE_DIR p]
      by (auto simp: contains_def RESTORE_DIR_def)
    then have "\<not> list_all (\<lambda>c. c = CHR ''/'') p" by (auto simp: list_all_iff)
    then have fst: "fst (path_split p) = rstrip_slash p"
      by (simp add: path_split_def Let_def head_def [symmetric] eq)
    have "takeWhile (\<lambda>c. c \<noteq> CHR ''/'') (rev p) = []" using True by (simp add: tail_def)
    then obtain cs where "rev p = CHR ''/'' # cs" using dot by (cases "rev p") (auto split: if_splits)
    then have "p = rev cs @ ''/''" by (metis rev_rev_ident rev.simps(2))
    then have "length (rstrip_slash p) < length p"
      using length_dropWhile_le [of "\<lambda>c. c = CHR ''/''" cs] by (simp add: rstrip_slash_def le_imp_less_Suc)
    with fst show ?thesis by simp
  qed
qed

text \<open>The walk up to the wrapper directory of restic.\<close>

function wrapper_dir :: "str \<Rightarrow> str \<Rightarrow> str" where
  "wrapper_dir account_id parent =
    (if parent \<noteq> [] \<and> parent \<noteq> ''/'' \<and> contains RESTORE_DIR parent
     then if snd (path_split parent) \<noteq> [] \<and> prefix (account_id @ ''-'') (snd (path_split parent))
            \<and> contains RESTORE_DIR (fst (path_split parent)) then parent
          else wrapper_dir account_id (fst (path_split parent))
     else parent)"
  by auto
termination
  by (relation "measure (\<lambda>(_, p). length p)") (auto intro: path_split_shorter)

declare wrapper_dir.simps [simp del]

definition removal_target :: "Recovery \<Rightarrow> str" where
  "removal_target recovery =
    (let parent = wrapper_dir (r_account_id recovery) (r_restore_path recovery)
     in if parent \<noteq> [] \<and> contains RESTORE_DIR parent then parent else r_restore_path recovery)"

definition delete_recovery :: "str \<Rightarrow> str option \<Rightarrow> disk_world \<Rightarrow> bool \<times> disk_world" where
  "delete_recovery recovery_id account_id dw =
    (case dw of (w, f) \<Rightarrow>
      (case find (\<lambda>r. r_id r = recovery_id \<and> (account_id = None \<or> Some (r_account_id r) = account_id)) (recoveries w) of
         None \<Rightarrow> (False, w, f)
       | Some recovery \<Rightarrow>
          let target = removal_target recovery;
              f = (if target \<noteq> [] \<and> is_dir f (path_of target) then rmtree (path_of target) f else f)
          in (True, w\<lparr>recoveries := filter (\<lambda>r. r_id r \<noteq> recovery_id) (recoveries w)\<rparr>, f)))"

definition list_recoveries_for_account :: "world \<Rightarrow> str \<Rightarrow> Recovery list" where
  "list_recoveries_for_account w account_id =
     newest_first (\<lambda>r. case r_restored_at r of Some t \<Rightarrow> t | None \<Rightarrow> 0) (filter (\<lambda>r. r_account_id r = account_id) (recoveries w))"

definition list_recoveries_for_user_accounts :: "world \<Rightarrow> str list \<Rightarrow> Recovery list" where
  "list_recoveries_for_user_accounts w account_ids =
     newest_first (\<lambda>r. case r_restored_at r of Some t \<Rightarrow> t | None \<Rightarrow> 0)
       (filter (\<lambda>r. r_account_id r \<in> set account_ids \<and> r_status r = RS_ready) (recoveries w))"

section \<open>Mounts\<close>

definition ready_mount :: "world \<Rightarrow> str \<Rightarrow> str \<Rightarrow> Recovery option" where
  "ready_mount w account_id snapshot_id =
     find (\<lambda>r. r_account_id r = account_id \<and> r_snapshot_id r = snapshot_id \<and> r_status r = RS_ready) (recoveries w)"

definition ensure_mounted ::
  "restic_env \<Rightarrow> int \<Rightarrow> str \<Rightarrow> datetime \<Rightarrow> str \<Rightarrow> str \<Rightarrow> RecoveryKind \<Rightarrow> int option \<Rightarrow> disk_world \<Rightarrow> (str + Recovery) \<times> disk_world"
where
  "ensure_mounted env default_ttl i now account_id snapshot_id kind ttl dw =
    (case dw of (w, f) \<Rightarrow>
      (case ready_mount w account_id snapshot_id of
         Some existing \<Rightarrow>
           (Inr (existing\<lparr>r_last_accessed_at := now\<rparr>), upd_recovery (r_id existing) (\<lambda>r. r\<lparr>r_last_accessed_at := now\<rparr>) w, f)
       | None \<Rightarrow>
           let ttl = (if ttl = None \<and> kind = RK_ephemeral then Some default_ttl else ttl)
           in create_recovery env i now account_id snapshot_id kind ttl None None None (w, f)))"

definition touch_mount :: "datetime \<Rightarrow> str \<Rightarrow> world \<Rightarrow> world" where
  "touch_mount now recovery_id w = upd_recovery recovery_id (\<lambda>r. r\<lparr>r_last_accessed_at := now\<rparr>) w"

definition force_unmount :: "str \<Rightarrow> disk_world \<Rightarrow> disk_world" where
  "force_unmount recovery_id dw = snd (delete_recovery recovery_id None dw)"

definition idle_mount :: "datetime \<Rightarrow> Recovery \<Rightarrow> bool" where
  "idle_mount now r = (case r_ttl_minutes r of
     None \<Rightarrow> False
   | Some ttl \<Rightarrow> r_kind r = RK_ephemeral \<and> r_last_accessed_at r + minutes ttl < now)"

definition cleanup_idle_mounts :: "datetime \<Rightarrow> disk_world \<Rightarrow> nat \<times> disk_world" where
  "cleanup_idle_mounts now dw =
    (let idle = filter (idle_mount now) (recoveries (fst dw))
     in (length idle, fold (\<lambda>r dw. snd (delete_recovery (r_id r) None dw)) idle dw))"

section \<open>Deletion finds its way back to the wrapper\<close>

definition component :: "str \<Rightarrow> str \<Rightarrow> bool" where
  "component account_id x = (x \<notin> {[], ''.'', ''..''} \<and> CHR ''/'' \<notin> set x \<and> \<not> prefix (account_id @ ''-'') x)"

lemma rstrip_slash_snoc: "rstrip_slash (s @ [CHR ''/'']) = rstrip_slash s"
  by (simp add: rstrip_slash_def)

lemma rstrip_slash_same: "s = [] \<or> last s \<noteq> CHR ''/'' \<Longrightarrow> rstrip_slash s = s"
  by (cases s rule: rev_cases) (auto simp: rstrip_slash_def)

lemma path_split_snoc:
  assumes "CHR ''/'' \<notin> set x" "s \<noteq> []" "last s \<noteq> CHR ''/''"
  shows "path_split (s @ CHR ''/'' # x) = (s, x)"
proof -
  have no: "\<And>c. c \<in> set (rev x) \<Longrightarrow> c \<noteq> CHR ''/''" using assms(1) by auto
  have tail: "takeWhile (\<lambda>c. c \<noteq> CHR ''/'') (rev x @ CHR ''/'' # rev s) = rev x"
    and head: "dropWhile (\<lambda>c. c \<noteq> CHR ''/'') (rev x @ CHR ''/'' # rev s) = CHR ''/'' # rev s"
    using takeWhile_append2 [of "rev x" "\<lambda>c. c \<noteq> CHR ''/''"] dropWhile_append2 [of "rev x" "\<lambda>c. c \<noteq> CHR ''/''"] no
    by simp_all
  have "\<not> list_all (\<lambda>c. c = CHR ''/'') (s @ [CHR ''/''])"
  proof
    assume "list_all (\<lambda>c. c = CHR ''/'') (s @ [CHR ''/''])"
    then have "\<forall>c \<in> set s. c = CHR ''/''" by (simp add: list_all_iff)
    with assms(3) last_in_set [OF assms(2)] show False by blast
  qed
  moreover have "rev (s @ CHR ''/'' # x) = rev x @ CHR ''/'' # rev s" by simp
  moreover have "rstrip_slash (s @ [CHR ''/'']) = s"
    using assms(3) by (simp only: rstrip_slash_snoc rstrip_slash_same simp_thms)
  ultimately show ?thesis
    unfolding path_split_def Let_def by (simp only: tail head if_False rev.simps rev_rev_ident)
qed

lemma contains_append: "contains x s \<Longrightarrow> contains x (s @ r)"
  unfolding contains_def by (metis append.assoc sublist_def)

lemma below_snoc: "below s (q @ [x]) = below s q @ CHR ''/'' # x"
  by (simp add: below_def)

lemma below_last:
  assumes "s \<noteq> []" "last s \<noteq> CHR ''/''" "list_all (component account_id) q"
  shows "below s q \<noteq> [] \<and> last (below s q) \<noteq> CHR ''/''"
  using assms(3)
proof (induction q rule: rev_induct)
  case (snoc x q)
  then have "x \<noteq> []" "CHR ''/'' \<notin> set x" by (simp_all add: component_def)
  moreover from this have "last x \<noteq> CHR ''/''" by (metis last_in_set)
  ultimately have "x \<noteq> []" "last x \<noteq> CHR ''/''" by simp_all
  then show ?case by (simp add: below_snoc)
qed (use assms in \<open>simp add: below_def\<close>)

lemma wrapper_dir_below:
  assumes "s \<noteq> []" "last s \<noteq> CHR ''/''" "contains RESTORE_DIR s" "list_all (component account_id) q"
  shows "wrapper_dir account_id (below s q) = wrapper_dir account_id s"
  using assms(4)
proof (induction q rule: rev_induct)
  case (snoc x q)
  have q: "below s q \<noteq> []" "last (below s q) \<noteq> CHR ''/''"
    using below_last [OF assms(1,2), of account_id q] snoc.prems by simp_all
  have x: "CHR ''/'' \<notin> set x" "x \<noteq> []" "\<not> prefix (account_id @ ''-'') x"
    using snoc.prems by (simp_all add: component_def)
  have "contains RESTORE_DIR (below s q)" using contains_append [OF assms(3)] by (simp add: below_def)
  from contains_append [OF this] have "contains RESTORE_DIR (below s q @ CHR ''/'' # x)" .
  moreover have "below s q @ CHR ''/'' # x \<noteq> ''/''" using q by (cases "below s q") auto
  ultimately have "wrapper_dir account_id (below s q @ CHR ''/'' # x) = wrapper_dir account_id (below s q)"
    using path_split_snoc [OF x(1) q] x by (subst wrapper_dir.simps) simp
  with snoc show ?case by (simp add: below_snoc)
qed (simp add: below_def)

lemma second_stamp_digits: "list_all is_digit (second_stamp t)"
  by (simp add: second_stamp_def Let_def list_all_pad split: prod.split)

lemma second_stamp_last: "second_stamp t \<noteq> []" "last (second_stamp t) \<noteq> CHR ''/''" "CHR ''/'' \<notin> set (second_stamp t)"
proof -
  show ne: "second_stamp t \<noteq> []"
    by (simp add: second_stamp_def Let_def pad2_def split: prod.split)
  show no: "CHR ''/'' \<notin> set (second_stamp t)"
    using second_stamp_digits [of t] by (auto simp: list_all_iff is_digit_def)
  show "last (second_stamp t) \<noteq> CHR ''/''" using no ne last_in_set by metis
qed

lemma restore_root_facts:
  assumes "CHR ''/'' \<notin> set account_id"
  shows "build_restore_root sp account_id t \<noteq> []" "last (build_restore_root sp account_id t) \<noteq> CHR ''/''"
    "contains RESTORE_DIR (build_restore_root sp account_id t)"
    "wrapper_dir account_id (build_restore_root sp account_id t) = build_restore_root sp account_id t"
proof -
  let ?x = "account_id @ ''-'' @ second_stamp t" and ?s = "sp @ ''/'' @ RESTORE_DIR"
  have eq: "build_restore_root sp account_id t = ?s @ CHR ''/'' # ?x" by (simp add: build_restore_root_def)
  have s: "?s \<noteq> []" "last ?s \<noteq> CHR ''/''" by (simp_all add: RESTORE_DIR_def)
  have x: "CHR ''/'' \<notin> set ?x" using assms second_stamp_last by simp
  have split: "path_split (build_restore_root sp account_id t) = (?s, ?x)"
    unfolding eq by (rule path_split_snoc [OF x s])
  have has: "contains RESTORE_DIR ?s"
    unfolding contains_def by (metis append.assoc append_Nil2 sublist_def)
  show "build_restore_root sp account_id t \<noteq> []" "last (build_restore_root sp account_id t) \<noteq> CHR ''/''"
    using second_stamp_last by (simp_all add: build_restore_root_def)
  show "contains RESTORE_DIR (build_restore_root sp account_id t)"
    unfolding eq using contains_append [OF has] .
  moreover have "build_restore_root sp account_id t \<noteq> ''/''" by (simp add: eq RESTORE_DIR_def)
  ultimately show "wrapper_dir account_id (build_restore_root sp account_id t) = build_restore_root sp account_id t"
    using has split by (subst wrapper_dir.simps) simp
qed

lemma removal_target_below:
  assumes "CHR ''/'' \<notin> set account_id" "list_all (component account_id) q"
    "r_account_id r = account_id" "r_restore_path r = below (build_restore_root sp account_id t) q"
  shows "removal_target r = build_restore_root sp account_id t"
  using wrapper_dir_below [OF restore_root_facts(1-3) [OF assms(1)] assms(2)] restore_root_facts [OF assms(1)] assms(3,4)
  by (simp add: removal_target_def)

text \<open>
  The hypotheses on the file system: a name below the restored tree is one component of a path,
  and restic writes below its target only and keeps it.
\<close>

definition names_ok :: "str \<Rightarrow> fs \<Rightarrow> path \<Rightarrow> bool" where
  "names_ok account_id f base = (\<forall>q n. (base @ q, n) \<in> set f \<longrightarrow> list_all (component account_id) q)"

definition restic_confined :: "restic_env \<Rightarrow> bool" where
  "restic_confined env = (\<forall>d p s t pw g. let (e, g') = rx_restore env d p s t pw g
     in (\<forall>x. \<not> prefix (path_of t) (fst x) \<longrightarrow> (x \<in> set g' \<longleftrightarrow> x \<in> set g))
        \<and> (is_dir g (path_of t) \<longrightarrow> is_dir g' (path_of t)))"

lemma walk_is_dir: "q \<in> set (walk n f base q0) \<Longrightarrow> q = q0 \<or> is_dir f (base @ q)"
proof (induction n arbitrary: q0)
  case (Suc n)
  then consider "q = q0"
    | x where "is_dir f (base @ q0 @ [x])" "q \<in> set (walk n f base (q0 @ [x]))"
    by auto
  then show ?case
  proof cases
    case 2
    then show ?thesis using Suc.IH [of "q0 @ [x]"] by auto
  qed simp
qed simp

lemma walk_dirs_is_dir: "q \<in> set (walk_dirs f base) \<Longrightarrow> is_dir f (base @ q)"
  using walk_is_dir [of q "depth f" f base "[]"] by (auto simp: walk_dirs_def split: if_splits)

lemma common_path_prefix: "ps \<noteq> [] \<Longrightarrow> prefix (common_path ps) (hd ps)"
  by (induction ps rule: common_path.induct) (auto simp: longest_common_prefix_prefix1)

lemma list_all_prefix: "list_all P p \<Longrightarrow> prefix q p \<Longrightarrow> list_all P q"
  by (auto simp: prefix_def)

lemma resolved_below:
  assumes names: "names_ok account_id f (path_of rr)"
    and mp: "maildir_path = below [] ms" "ms \<noteq> []" "list_all (component account_id) ms"
  obtains q where "list_all (component account_id) q"
    "resolve_maildir_inside_restore f rr maildir_path hint = below rr q"
proof -
  have dirs: "list_all (component account_id) q" if "q \<in> set (walk_dirs f (path_of rr))" for q
    using walk_dirs_is_dir [OF that] names by (auto simp: names_ok_def is_dir_def)
  obtain m ms' where ms: "ms = m # ms'" using mp(2) by (cases ms) auto
  have m: "m \<noteq> []" "CHR ''/'' \<notin> set m" using mp(3) ms by (auto simp: component_def)
  then have "dropWhile (\<lambda>c. c = CHR ''/'') maildir_path = m @ concat (map (\<lambda>x. CHR ''/'' # x) ms')"
    by (cases m) (auto simp: mp(1) ms below_def)
  then have rel: "rr @ ''/'' @ dropWhile (\<lambda>c. c = CHR ''/'') maildir_path = below rr ms"
    by (simp add: below_def ms)
  have one: "rr = below rr []" by (simp add: below_def)
  let ?folders = "filter (\<lambda>q. has_triplet f (path_of rr @ q)) (walk_dirs f (path_of rr))"
  have folders: "list_all (component account_id) (common_path (map butlast ?folders))" if "?folders \<noteq> []"
  proof -
    have "hd (map butlast ?folders) = butlast (hd ?folders)" using that by (simp add: hd_map)
    moreover have "hd ?folders \<in> set (walk_dirs f (path_of rr))" using that hd_in_set by fastforce
    ultimately have "list_all (component account_id) (hd (map butlast ?folders))"
      using dirs [of "hd ?folders"] by (auto simp: list_all_iff dest: in_set_butlastD)
    then show ?thesis using common_path_prefix [of "map butlast ?folders"] that list_all_prefix by blast
  qed
  let ?hit = "if truthy hint then find (\<lambda>q. last (path_of rr @ q) = the hint) (walk_dirs f (path_of rr)) else None"
  have hit: "list_all (component account_id) q" if "?hit = Some q" for q
    using that dirs by (auto simp: find_Some_iff split: if_splits)
  note def = resolve_maildir_inside_restore_def [of f rr maildir_path hint, unfolded Let_def rel]
  consider "is_dir f (path_of (below rr ms))"
    | q where "\<not> is_dir f (path_of (below rr ms))" "?hit = Some q"
    | "\<not> is_dir f (path_of (below rr ms))" "?hit = None" "?folders \<noteq> [] \<and> [] \<notin> set ?folders"
    | "\<not> is_dir f (path_of (below rr ms))" "?hit = None" "\<not> (?folders \<noteq> [] \<and> [] \<notin> set ?folders)"
    by (cases ?hit) blast+
  then show ?thesis
  proof cases
    case 1
    then have "resolve_maildir_inside_restore f rr maildir_path hint = below rr ms" unfolding def by (rule if_P)
    then show ?thesis using that mp(3) by blast
  next
    case (2 q)
    then have "resolve_maildir_inside_restore f rr maildir_path hint = below rr q"
      unfolding def if_not_P [OF 2(1)] 2(2) by (simp only: option.case)
    then show ?thesis using that hit 2 by blast
  next
    case 3
    then have "resolve_maildir_inside_restore f rr maildir_path hint = below rr (common_path (map butlast ?folders))"
      unfolding def if_not_P [OF 3(1)] 3(2) if_P [OF 3(3)] by (simp only: option.case)
    then show ?thesis using that folders 3 by blast
  next
    case 4
    then have "resolve_maildir_inside_restore f rr maildir_path hint = below rr []"
      unfolding def if_not_P [OF 4(1)] 4(2) if_not_P [OF 4(3)] by (simp only: option.case one [symmetric])
    then show ?thesis using that [of "[]"] by simp
  qed
qed

section \<open>A recovery from its creation to its end\<close>

lemma find_snoc: "find P t = None \<Longrightarrow> find P (t @ [r]) = (if P r then Some r else None)"
  by (induction t) (auto split: if_splits)

lemma create_recovery_shape:
  assumes run: "create_recovery env i now k snap kind ttl repo pre pw (w, f) = (Inr r, w1, f1)"
    and account: "get_account w k = Some account" and store: "get_store w (a_store_id account) = Some s"
    and restic: "restic_confined env"
  obtains g hint d p where "make_dirs (path_of (build_restore_root (st_path s) k now)) f = Inr g"
    "w1 = w\<lparr>recoveries := recoveries w @ [r]\<rparr>" "r_id r = i" "r_account_id r = k"
    "f1 = snd (rx_restore env d p snap (build_restore_root (st_path s) k now) pw g)"
    "r_restore_path r = build_restore_root (st_path s) k now
      \<or> r_restore_path r = resolve_maildir_inside_restore f1 (build_restore_root (st_path s) k now) (a_maildir_path account) hint"
proof -
  let ?rr = "build_restore_root (st_path s) k now"
  obtain d p hint where src: "recovery_source w account repo pre pw = Inr (d, p, hint)"
    using run by (auto simp: create_recovery_def account split: sum.splits)
  obtain g where g: "make_dirs (path_of ?rr) f = Inr g"
    using run by (auto simp: create_recovery_def account store src Let_def split: sum.splits)
  obtain e f2 where rx: "rx_restore env d p snap ?rr pw g = (e, f2)" by (meson surj_pair)
  have f1: "f1 = f2" and w1: "w1 = w\<lparr>recoveries := recoveries w @ [r]\<rparr>" "r_id r = i" "r_account_id r = k"
    and path: "r_restore_path r = ?rr \<or> r_restore_path r = resolve_maildir_inside_restore f2 ?rr (a_maildir_path account) hint"
    using run by (auto simp: create_recovery_def account store src g rx Let_def split: option.splits if_splits)
  show ?thesis using that [OF g w1, of d p hint] rx f1 path by simp
qed

text \<open>
  C25. Mounting a snapshot and removing the recovery again leaves no trace: whatever restic
  extracts and wherever in it the Maildir is found, the removal finds the way back to the
  directory made for this recovery, the files are again those of before, the table too; and a
  removal on behalf of another account does nothing.
\<close>

theorem recovery_leaves_no_trace:
  assumes run: "create_recovery env i now k snap kind ttl repo pre pw (w, f) = (Inr r, w1, f1)"
    and account: "get_account w k = Some account" and store: "get_store w (a_store_id account) = Some s"
    and restic: "restic_confined env"
    and new: "i \<notin> r_id ` set (recoveries w)" "CHR ''/'' \<notin> set k"
    and maildir: "a_maildir_path account = below [] ms" "ms \<noteq> []" "list_all (component k) ms"
    and names: "names_ok k f1 (path_of (build_restore_root (st_path s) k now))"
    and fresh: "\<forall>x \<in> set f. \<not> prefix (path_of (build_restore_root (st_path s) k now)) (fst x)"
  shows "(\<forall>k'. k' \<noteq> k \<longrightarrow> delete_recovery i (Some k') (w1, f1) = (False, w1, f1))
    \<and> (\<exists>f2. delete_recovery i (Some k) (w1, f1) = (True, w, f2) \<and> (\<forall>p c. (p, File c) \<in> set f2 \<longleftrightarrow> (p, File c) \<in> set f))"
proof -
  let ?rr = "build_restore_root (st_path s) k now"
  obtain g hint d p where g: "make_dirs (path_of ?rr) f = Inr g"
    and r: "w1 = w\<lparr>recoveries := recoveries w @ [r]\<rparr>" "r_id r = i" "r_account_id r = k"
    and f1: "f1 = snd (rx_restore env d p snap ?rr pw g)"
    and path: "r_restore_path r = ?rr \<or> r_restore_path r = resolve_maildir_inside_restore f1 ?rr (a_maildir_path account) hint"
    by (rule create_recovery_shape [OF run account store restic])
  obtain q where q: "list_all (component k) q" "r_restore_path r = below ?rr q"
  proof (cases "r_restore_path r = ?rr")
    case True
    then show ?thesis using that [of "[]"] by (simp add: below_def)
  next
    case False
    obtain q where "list_all (component k) q" "resolve_maildir_inside_restore f1 ?rr (a_maildir_path account) hint = below ?rr q"
      by (rule resolved_below [OF names maildir])
    with False path show ?thesis using that by simp
  qed
  have target: "removal_target r = ?rr" by (rule removal_target_below [OF new(2) q(1) r(3) q(2)])
  let ?x = "k @ ''-'' @ second_stamp now"
  have "CHR ''-'' \<in> set ?x" "CHR ''-'' \<notin> set ''.''" "CHR ''-'' \<notin> set ''..''" by simp_all
  then have "?x \<noteq> ''.''" "?x \<noteq> ''..''" by metis+
  then have root: "path_of ?rr \<noteq> []"
    using path_of_snoc [of ?x "st_path s @ ''/'' @ RESTORE_DIR"] new(2) second_stamp_last
    by (simp add: build_restore_root_def)
  have dir: "is_dir f1 (path_of ?rr)"
    and out: "\<And>x. \<not> prefix (path_of ?rr) (fst x) \<Longrightarrow> x \<in> set f1 \<longleftrightarrow> x \<in> set g"
    using restic make_dirs_Inr(2) [OF g prefix_order.refl root] unfolding restic_confined_def f1
    by (auto simp: Let_def split_beta)
  have none: "find (\<lambda>x. r_id x = i \<and> P x) (recoveries w) = None" for P
    using new(1) by (auto simp: find_None_iff)
  have row: "find (\<lambda>x. r_id x = i \<and> P x) (recoveries w1) = (if P r then Some r else None)" for P
    using r(1,2) find_snoc [OF none [of P], of r] by simp
  have keep: "filter (\<lambda>x. r_id x \<noteq> i) (recoveries w) = recoveries w"
    using new(1) by (auto simp: filter_id_conv)
  have "delete_recovery i (Some k) (w1, f1) = (True, w, rmtree (path_of ?rr) f1)"
  proof -
    have one: "find (\<lambda>x. r_id x = i \<and> r_account_id x = k) (recoveries w @ [r]) = Some r"
      using row [of "\<lambda>x. r_account_id x = k"] r by simp
    show ?thesis
      using keep dir restore_root_facts(1) [OF new(2), of "st_path s" now] r(2)
      by (simp add: delete_recovery_def r(1) one target)
  qed
  moreover have "(p, File c) \<in> set (rmtree (path_of ?rr) f1) \<longleftrightarrow> (p, File c) \<in> set f" for p c
  proof (cases "prefix (path_of ?rr) p")
    case True
    then show ?thesis using fresh by (auto simp: rmtree_mem)
  next
    case False
    then show ?thesis using out [of "(p, File c)"] make_dirs_mem [OF g, of "(p, File c)"] by (simp add: rmtree_mem)
  qed
  moreover have "delete_recovery i (Some k') (w1, f1) = (False, w1, f1)" if "k' \<noteq> k" for k'
    using that r(3) by (simp add: delete_recovery_def row)
  ultimately show ?thesis by blast
qed

lemma path_of_below: "list_all (component account_id) q \<Longrightarrow> path_of (below s q) = path_of s @ q"
proof (induction q rule: rev_induct)
  case (snoc x q)
  then show ?case using path_of_snoc [of x "below s q"] by (simp add: below_snoc component_def)
qed (simp add: below_def)

text \<open>
  Two recoveries of one account made within one second share their directory, against the
  comment of \<open>_build_restore_root\<close>: removing the first removes the files of the second, whose row
  stays and is published as before.
\<close>

lemma recoveries_share_directory:
  assumes rows: "get_recovery w i = Some r1" "r2 \<in> set (recoveries w)" "r_id r2 \<noteq> i"
    and acc: "r_account_id r1 = k" "CHR ''/'' \<notin> set k"
    and paths: "r_restore_path r1 = below (build_restore_root sp k t1) q1"
      "r_restore_path r2 = below (build_restore_root sp k t2) q2"
      "list_all (component k) q1" "list_all (component k) q2"
    and second: "second_stamp t1 = second_stamp t2"
    and disk: "is_dir f (path_of (build_restore_root sp k t1))"
  shows "\<exists>w' f'. delete_recovery i None (w, f) = (True, w', f') \<and> r2 \<in> set (recoveries w')
    \<and> (\<forall>e \<in> set f'. \<not> prefix (path_of (r_restore_path r2)) (fst e))"
proof -
  have target: "removal_target r1 = build_restore_root sp k t1"
    by (rule removal_target_below [OF acc(2) paths(3) acc(1) paths(1)])
  have same: "build_restore_root sp k t2 = build_restore_root sp k t1"
    by (simp add: build_restore_root_def second)
  have "prefix (path_of (build_restore_root sp k t1)) (path_of (r_restore_path r2))"
    by (simp add: paths(2) same path_of_below [OF paths(4)])
  then have "\<forall>e \<in> set (rmtree (path_of (build_restore_root sp k t1)) f). \<not> prefix (path_of (r_restore_path r2)) (fst e)"
    using prefix_order.trans by (auto simp: rmtree_mem)
  moreover have "find (\<lambda>r. r_id r = i) (recoveries w) = Some r1" using rows(1) by (simp add: row_def)
  ultimately show ?thesis
    using rows(2,3) disk restore_root_facts(1) [OF acc(2), of sp t1]
    by (simp add: delete_recovery_def target Let_def)
qed

text \<open>
  C29. A recovery of 2 GiB or more is never ready: the last commit refuses the size, the call
  raises although its documentation says that it never does, the row keeps the status
  \<open>restoring\<close>, a further mount of the snapshot extracts it once more, and without a time to live
  no clean-up ever takes the row.
\<close>

theorem large_recovery_never_ready:
  assumes account: "get_account w k = Some account" and store: "get_store w (a_store_id account) = Some s"
    and src: "recovery_source w account repo pre pw = Inr (d, p, hint)"
    and root: "make_dirs (path_of (build_restore_root (st_path s) k now)) f = Inr g"
    and restored: "rx_restore env d p snap (build_restore_root (st_path s) k now) pw g = (None, f1)"
    and large: "2 ^ 31 \<le> tree_size f1 (path_of (resolve_maildir_inside_restore f1
        (build_restore_root (st_path s) k now) (a_maildir_path account) hint))"
    and cold: "ready_mount w k snap = None"
  shows "\<exists>r. create_recovery env i now k snap kind ttl repo pre pw (w, f)
      = (Inl ''DataError'', w\<lparr>recoveries := recoveries w @ [r]\<rparr>, f1)
    \<and> r_id r = i \<and> r_status r = RS_restoring \<and> ready_mount (w\<lparr>recoveries := recoveries w @ [r]\<rparr>) k snap = None
    \<and> (ttl = None \<longrightarrow> (\<forall>t. \<not> idle_mount t r))"
proof -
  have "\<not> int4 (int (tree_size f1 (path_of (resolve_maildir_inside_restore f1
      (build_restore_root (st_path s) k now) (a_maildir_path account) hint))))"
    using large by (simp add: int4_def)
  then show ?thesis
    using cold
    by (intro exI [of _ "\<lparr> r_id = i, r_account_id = k, r_repository_id = Some d,
        r_snapshot_id = snap, r_snapshot_time = None, r_restored_at = Some now,
        r_restore_path = build_restore_root (st_path s) k now, r_status = RS_restoring, r_error = None,
        r_size_bytes = None, r_kind = kind, r_last_accessed_at = now, r_ttl_minutes = ttl \<rparr>"])
      (simp add: create_recovery_def account store src root restored Let_def idle_mount_def ready_mount_def find_snoc)
qed

section \<open>Mounts\<close>

lemma mount_again:
  assumes "ready_mount w k snap = Some r" "pk r_id (recoveries w)"
  shows "ensure_mounted env d i now k snap kind ttl (w, f)
      = (Inr (r\<lparr>r_last_accessed_at := now\<rparr>), touch_mount now (r_id r) w, f)
    \<and> map r_id (recoveries (touch_mount now (r_id r) w)) = map r_id (recoveries w)"
  using assms by (simp add: ensure_mounted_def touch_mount_def upd_recovery_def map_set_row)

lemma delete_recovery_rows:
  "recoveries (fst (snd (delete_recovery i None dw))) = filter (\<lambda>r. r_id r \<noteq> i) (recoveries (fst dw))"
  by (cases dw) (auto simp: delete_recovery_def Let_def find_None_iff filter_id_conv split: option.split)

lemma cleanup_keeps_used:
  assumes "pk r_id (recoveries w)"
  shows "recoveries (fst (snd (cleanup_idle_mounts now (w, f)))) = filter (\<lambda>r. \<not> idle_mount now r) (recoveries w)"
proof -
  have rows: "recoveries (fst (fold (\<lambda>r dw. snd (delete_recovery (r_id r) None dw)) rs dw))
      = filter (\<lambda>r. r_id r \<notin> r_id ` set rs) (recoveries (fst dw))" for rs dw
    by (induction rs arbitrary: dw) (auto simp: delete_recovery_rows filter_filter intro!: filter_cong)
  have "r_id r \<in> r_id ` set (filter (idle_mount now) (recoveries w)) \<longleftrightarrow> idle_mount now r" if "r \<in> set (recoveries w)" for r
    using that assms by (auto simp: pk_def distinct_map inj_on_def)
  then show ?thesis by (auto simp: cleanup_idle_mounts_def Let_def rows intro!: filter_cong)
qed

section \<open>Witnesses\<close>

definition extracted :: "str \<Rightarrow> path \<Rightarrow> fs" where
  "extracted c p = [(p @ [''m''], Dir), (p @ [''m'', ''a1''], Dir), (p @ [''m'', ''a1'', ''cur''], Dir),
     (p @ [''m'', ''a1'', ''cur'', ''1''], File c)]"

definition rec_env :: "str \<Rightarrow> restic_env" where
  "rec_env c = \<lparr> rx_restore = (\<lambda>d p s t pw g. (None, g @ extracted c (path_of t))),
     rx_snapshots = (\<lambda>d p pw. None), rx_time = (\<lambda>s. None) \<rparr>"

abbreviation made :: "str \<Rightarrow> (str + Recovery) \<times> disk_world" where
  "made c \<equiv> create_recovery (rec_env c) ''r1'' 0 ''a1'' ''abc'' RK_persistent None (Some ''d1'') (Some ''old'') None (mig_world, mig_fs)"

lemma rec_env_confined: "restic_confined (rec_env c)"
  by (auto simp: restic_confined_def rec_env_def extracted_def is_dir_def)

lemma names_ok_code:
  "names_ok k f base = (\<forall>e \<in> set f. prefix base (fst e) \<longrightarrow> list_all (component k) (drop (length base) (fst e)))"
  by (fastforce simp: names_ok_def prefix_def)

lemma mig_account: "get_account mig_world ''a1'' = Some (box ''a1'')" "a_maildir_path (box ''a1'') = below [] [''m'', ''a1'']"
  "recoveries mig_world = []" "\<exists>s. get_store mig_world (a_store_id (box ''a1'')) = Some s \<and> st_path s = ''/m''"
  by (simp_all add: mig_world_def shared_defs below_def)

theorem recovery_leaves_no_trace_witness:
  "\<exists>r w1 f1 f2. made ''hello'' = (Inr r, w1, f1) \<and> delete_recovery ''r1'' (Some ''a1'') (w1, f1) = (True, mig_world, f2)
    \<and> (\<forall>p c. (p, File c) \<in> set f2 \<longleftrightarrow> (p, File c) \<in> set mig_fs)"
proof -
  obtain s where s: "get_store mig_world (a_store_id (box ''a1'')) = Some s" "st_path s = ''/m''"
    using mig_account by blast
  have "case fst (made ''hello'') of Inl _ \<Rightarrow> False | Inr _ \<Rightarrow> True" by code_simp
  then obtain r w1 f1 where run: "made ''hello'' = (Inr r, w1, f1)"
    by (cases "made ''hello''") (auto split: sum.splits)
  have "names_ok ''a1'' (snd (snd (made ''hello''))) (path_of (build_restore_root ''/m'' ''a1'' 0))"
    unfolding names_ok_code by code_simp
  then have names: "names_ok ''a1'' f1 (path_of (build_restore_root (st_path s) ''a1'' 0))"
    by (simp add: run s)
  have "\<forall>x \<in> set mig_fs. \<not> prefix (path_of (build_restore_root ''/m'' ''a1'' 0)) (fst x)" by code_simp
  then have fresh: "\<forall>x \<in> set mig_fs. \<not> prefix (path_of (build_restore_root (st_path s) ''a1'' 0)) (fst x)"
    by (simp add: s)
  have comps: "list_all (component ''a1'') [''m'', ''a1'']" by code_simp
  show ?thesis
    using recovery_leaves_no_trace [OF run mig_account(1) s(1) rec_env_confined _ _ mig_account(2) _ comps names fresh] run
    by (simp add: mig_account(3))
qed

definition mounted :: "str \<Rightarrow> Recovery" where
  "mounted i = \<lparr> r_id = i, r_account_id = ''a1'', r_repository_id = Some ''d1'', r_snapshot_id = i,
     r_snapshot_time = None, r_restored_at = Some 0, r_restore_path = build_restore_root ''/m'' ''a1'' 0 @ ''/m/a1'',
     r_status = RS_ready, r_error = None, r_size_bytes = Some 5, r_kind = RK_ephemeral, r_last_accessed_at = 0,
     r_ttl_minutes = Some 30 \<rparr>"

definition huge :: str where
  "huge = replicate (2 ^ 31) (CHR ''x'')"

theorem large_recovery_never_ready_witness:
  "\<exists>r f1. made huge = (Inl ''DataError'', mig_world\<lparr>recoveries := [r]\<rparr>, f1) \<and> r_status r = RS_restoring \<and> (\<forall>t. \<not> idle_mount t r)"
proof -
  obtain s where s: "get_store mig_world (a_store_id (box ''a1'')) = Some s" "st_path s = ''/m''"
    using mig_account by blast
  let ?rr = "build_restore_root (st_path s) ''a1'' 0"
  have src: "recovery_source mig_world (box ''a1'') (Some ''d1'') (Some ''old'') None = Inr (''d1'', ''old'', Some ''old'')"
    by (simp add: recovery_source_def)
  have "case make_dirs (path_of (build_restore_root ''/m'' ''a1'' 0)) mig_fs of Inl _ \<Rightarrow> False | Inr _ \<Rightarrow> True" by code_simp
  then obtain g where g: "make_dirs (path_of ?rr) mig_fs = Inr g" by (auto simp: s split: sum.splits)
  let ?f1 = "g @ extracted huge (path_of ?rr)"
  have path: "path_of (?rr @ ''/m/a1'') = path_of ?rr @ [''m'', ''a1'']"
    using path_of_below [of "''a1''" "[''m'', ''a1'']" ?rr] by (simp add: component_def below_def)
  have "resolve_maildir_inside_restore ?f1 ?rr (a_maildir_path (box ''a1'')) (Some ''old'') = ?rr @ ''/m/a1''"
    using path by (simp add: resolve_maildir_inside_restore_def mig_account below_def Let_def is_dir_def extracted_def)
  moreover have "length huge \<le> tree_size ?f1 (path_of ?rr @ [''m'', ''a1''])"
    by (simp add: tree_size_def extracted_def)
  ultimately have large: "2 ^ 31 \<le> tree_size ?f1 (path_of (resolve_maildir_inside_restore ?f1 ?rr (a_maildir_path (box ''a1'')) (Some ''old'')))"
    by (simp only: path) (simp add: huge_def)
  have restored: "rx_restore (rec_env huge) ''d1'' ''old'' ''abc'' ?rr None g = (None, ?f1)" by (simp add: rec_env_def)
  show ?thesis
    using large_recovery_never_ready [OF mig_account(1) s(1) src g restored large, of "''r1''" RK_persistent None]
    by (auto simp: ready_mount_def mig_account(3))
qed

end
