(* ===== verification/Spec2Isabelle.thy ===== *)
theory Spec2Isabelle
  imports Folder_Reconcile Imap_Check Status_Contract Sync_Routes Restore_Props Staging_Books
    Login Middleware Tasks Recoveries
begin

text \<open>
  MailFallBack, verification of its services.

  MailFallBack keeps a second copy of IMAP mailboxes: a scheduler starts sync jobs, a pool of
  worker threads runs mbsync for each job, a sampler thread books the traffic and enforces a
  daily budget, watchdogs and a boot sweep close what a crash or a hang left behind, backups go
  to off-site repositories with restic, and the pages show one status per mailbox. The model
  follows src/src/mailfallback, file by file.

  State. \<open>Models\<close> has the rows of models.py as records and the process as one record \<open>world\<close>: the
  tables (lists of rows in insertion order; a primary key is the predicate \<open>pk\<close>), the in-memory
  state of the sync worker (\<open>sync_rt\<close>: process handles, live progress, signals, budget and
  deadline markers) and of the backup worker (\<open>backup_rt\<close>), the queue of the executor, and the
  outbox of the delivery threads. Every operation takes the world and returns the new one.

  Theories and sources.
  \<^item> \<open>Prelude\<close>: lists of rows, strings, floors and the lemmas all theories share.
  \<^item> \<open>Models\<close>: models.py. \<open>Regex\<close>: the part of Python's re that the output parser uses.
  \<^item> \<open>Sync_Budget\<close>: services/sync_budget.py. \<open>Sync_Failures\<close>: services/sync_failures.py.
    \<open>Notifications\<close>: services/notification_service.py. \<open>Sync_Jobs\<close>: services/sync_service.py, with
    the locales \<open>guarded_table\<close> (creation guarded by a live row of the same key; interpreted by the
    restore jobs and the background tasks too) and \<open>dedup_queue\<close>, which extends it.
    \<open>Folder_Reconcile\<close>: services/folder_reconcile.py. \<open>Imap_Check\<close>: the SSRF guards of
    services/imap_check.py. \<open>Mbsync_Config\<close>: services/mbsync_config.py.
  \<^item> \<open>Sweeps\<close>: the loop shape of the recovery sweeps as a locale; \<open>Sync_Runtime\<close>, \<open>Sync_Sampler\<close> and
    \<open>Sync_Worker\<close>: services/sync_worker.py, in this order its live views, stop and sweeps, its
    sampler and watchdog, and the run of a job; \<open>Sync_Worker_Props\<close> and \<open>Sync_Outcome\<close> hold its lemmas.
  \<^item> \<open>Backup_Worker\<close>: services/backup_worker.py and backup_service.py. \<open>Scheduler\<close>:
    services/scheduler.py. \<open>Sync_Progress\<close>: services/sync_progress.py. \<open>Mailbox_Status\<close>:
    services/mailbox_status.py. \<open>Status_Contract\<close>: what the worker writes against what the resolver
    shows. \<open>Lifecycle\<close>: all of these as one transition system.
  \<^item> \<open>Access_Tokens\<close>: services/app_credential_service.py, dependencies.py, mcp_auth.py and the passdb of
    routers/dovecot.py. \<open>Access\<close>: services/account_service.py, group_service.py, the account guards of
    routers/agent.py and mcp_server.py, and the userdb. \<open>Sync_Routes\<close>: routers/sync.py and the sync
    endpoints of the agent interface and the MCP server.
  \<^item> \<open>Files\<close>: services/migration_worker.py over a file system that is a list of paths with their nodes
    (\<open>fs\<close>, from \<open>Folder_Reconcile\<close>). \<open>Migration\<close>: services/migration_service.py, the resumption in
    app.py and the cancel pages. \<open>Stores\<close>: services/store_service.py. \<open>Users\<close>:
    services/user_service.py, dovecot_auth.py and the user forms of routers/ui_admin.py.
  \<^item> \<open>Restore_Folders\<close> and \<open>Restore_Worker\<close>: services/restore_worker.py, first the names of folders (the
    mapping onto the target and the modified UTF-7 of IMAP), then the run of a restore over an IMAP
    source and of a push of the staging mailbox; \<open>Restore_Props\<close> holds their theorems. \<open>Restore_Jobs\<close>:
    services/restore_service.py. \<open>Preview\<close>: services/preview_service.py. \<open>Staging\<close>:
    services/staging_service.py; \<open>Staging_Books\<close>: its operations and those around it as a step relation.
    \<open>Restore_Routes\<close> and \<open>Mailbox_Browse\<close>: routers/restore.py, the endpoints of jobs and staging, then
    browsing, searching and the resolution of Message-Ids.
  \<^item> \<open>Recoveries\<close>: services/recovery_service.py and mount_service.py. \<open>Tasks\<close>:
    services/background_tasks.py, the commands of services/dovecot_manager.py and the search markers
    of services/config_generator.py. \<open>Login\<close>: routers/auth.py. \<open>Middleware\<close>: the two filters of
    middleware/ and services/setup_state.py.

  What the lemmas show. Termination: every sync, backup, migration and restore run and every
  background task ends with a verdict and leaves no handle behind, whatever the child processes,
  the network and other threads do.
  Invariants: at most one live job per account over every interleaving; tokens once revoked stay
  refused; the ledger never books less than the traffic; the staging area counts its files. Access:
  a callback of a provider acts for its own session only, single sign-on keeps to its groups, and no
  window of time passes on more requests than its limit. Equivalences and refinements: the status
  resolver against a decision table, the views of who sees a mailbox, the surfaces that accept a
  token, and what the worker writes against what the pages show. Mail is never lost: quarantine
  and migration keep every message, a push removes from staging only what the target accepted. The theorems of kind error state where the code falls short of
  what it means to do.

  Bounds and fuel. The searches for a free name of \<open>Folder_Reconcile\<close> and the regular expressions
  of \<open>Regex\<close> run on fuel with lemmas that it suffices; \<open>prescan\<close> and \<open>copy_tree\<close> recurse on the depth of
  the source below the path, \<open>walk\<close> on the depth of the tree, and the walk up to the wrapper of a
  recovery terminates because \<open>os.path.split\<close> shortens a path that has a component. Integers are
  unbounded as in Python, except for the four-byte size column of the recoveries.

  Boundary. Random bytes, ids, the clock, the keyed hash, bcrypt, Fernet, cron expressions, mbsync,
  restic, IMAP servers and disk faults are arguments; a world argument of an operation that takes
  one \<open>now\<close> reads the clock once where the code reads it again within the operation. Strings are
  lists of bytes; lower-casing and white space are those of ASCII.

  Not modelled. The audit log and the page rendering with forms that only pass values to the
  services; the SQL of the mail index with the search of the index, the e-mail parser (previews show
  bytes, not MIME parts, and attachments are not extracted), the snapshot counters and the deprecated
  search of the workspace in routers/restore.py; INTERNALDATE in restores, where a cancel by another
  thread is seen through its flag; the HTTP and DNS requests of the provider discovery; the
  repository commands of restic, the inventory and the probes of repositories; the export of the
  configuration; the mailbox statistics and the texts of the configuration files of Dovecot; the
  command line. They are input and output over the services, or code of a library.
\<close>

end
